(* ===== verification/Prelude.thy ===== *)
theory Prelude
  imports Main "HOL-Library.Char_ord" "HOL-Library.List_Lexorder" "HOL-Library.Sublist"
begin

text \<open>
  Shared layer of the development: the collections of simplification rules, the machine
  integers of Go, and the part of Go's packages \<open>strings\<close>, \<open>strconv\<close>, \<open>sort\<close> and
  \<open>fmt\<close> that the modelled code calls.  A Go string is a list of bytes (\<open>char list\<close>); white
  space and letter case are those of ASCII.  A call that returns an error is modelled by
  \<open>None\<close> here and by a value of the component's own error type where the code builds one.
\<close>

named_theorems go_str \<open>facts about the modelled string functions\<close>
named_theorems go_num \<open>facts about printing and parsing numbers\<close>
named_theorems host_eff \<open>unfolding rules for actions on the host\<close>

subsection \<open>Machine integers\<close>

text \<open>Go's \<open>int\<close> is 64 bits wide on the platforms HyperHive is built for.\<close>

definition max_int64 :: int where "max_int64 = 2 ^ 63 - 1"

definition min_int64 :: int where "min_int64 = - (2 ^ 63)"

definition fits64 :: "int \<Rightarrow> bool" where
  "fits64 i \<longleftrightarrow> min_int64 \<le> i \<and> i \<le> max_int64"

text \<open>The value a 64-bit signed variable holds after an arithmetic result is stored in it.\<close>

definition wrap64 :: "int \<Rightarrow> int" where
  "wrap64 i = (i + 2 ^ 63) mod 2 ^ 64 - 2 ^ 63"

lemma fits64_wrap64 [simp, intro]: "fits64 (wrap64 i)"
proof -
  have "0 \<le> (i + 2 ^ 63) mod 2 ^ 64" by simp
  moreover have "(i + 2 ^ 63) mod 2 ^ 64 < (2 ^ 64 :: int)" by (rule pos_mod_bound) simp
  ultimately show ?thesis
    by (simp add: fits64_def wrap64_def min_int64_def max_int64_def)
qed

lemma wrap64_id: "fits64 i \<Longrightarrow> wrap64 i = i"
  by (simp add: fits64_def wrap64_def min_int64_def max_int64_def)

subsection \<open>Lists: duplicates, sorting\<close>

text \<open>\<open>appendUnique\<close>-style accumulation keeps the first occurrence of every element.\<close>

fun app_new :: "'a list \<Rightarrow> 'a \<Rightarrow> 'a list" where
  "app_new xs x = (if x \<in> set xs then xs else xs @ [x])"

lemma set_app_new [simp]: "set (app_new xs x) = insert x (set xs)"
  by auto

lemma distinct_app_new [simp]: "distinct xs \<Longrightarrow> distinct (app_new xs x)"
  by auto

lemma set_foldl_app_new [simp]: "set (foldl app_new acc xs) = set acc \<union> set xs"
  by (induction xs arbitrary: acc) auto

lemma distinct_foldl_app_new: "distinct acc \<Longrightarrow> distinct (foldl app_new acc xs)"
  by (induction xs arbitrary: acc) auto

text \<open>A strictly increasing list is determined by its set.\<close>

lemma strict_sorted_eqI:
  fixes xs ys :: "'a::linorder list"
  shows "sorted_wrt (<) xs \<Longrightarrow> sorted_wrt (<) ys \<Longrightarrow> set xs = set ys \<Longrightarrow> xs = ys"
  by (metis sorted_list_of_set.idem_if_sorted_distinct strict_sorted_iff)

subsection \<open>White space, trimming, prefixes and suffixes\<close>

definition is_space :: "char \<Rightarrow> bool" where
  "is_space c \<longleftrightarrow> c = CHR '' '' \<or> (9 \<le> (of_char c :: nat) \<and> (of_char c :: nat) \<le> 13)"

definition TrimSpace :: "string \<Rightarrow> string" where
  "TrimSpace s = rev (dropWhile is_space (rev (dropWhile is_space s)))"

definition HasPrefix :: "string \<Rightarrow> string \<Rightarrow> bool" where
  "HasPrefix s p \<longleftrightarrow> take (length p) s = p"

definition HasSuffix :: "string \<Rightarrow> string \<Rightarrow> bool" where
  "HasSuffix s p \<longleftrightarrow> HasPrefix (rev s) (rev p)"

definition TrimPrefix :: "string \<Rightarrow> string \<Rightarrow> string" where
  "TrimPrefix s p = (if HasPrefix s p then drop (length p) s else s)"

definition TrimSuffix :: "string \<Rightarrow> string \<Rightarrow> string" where
  "TrimSuffix s p = (if HasSuffix s p then take (length s - length p) s else s)"

text \<open>\<open>strings.Trim(s, cutset)\<close> removes every leading and trailing byte of the cutset.\<close>

definition TrimSet :: "string \<Rightarrow> string \<Rightarrow> string" where
  "TrimSet s cutset = rev (dropWhile (\<lambda>c. c \<in> set cutset) (rev (dropWhile (\<lambda>c. c \<in> set cutset) s)))"

lemma TrimSpace_Nil [simp]: "TrimSpace [] = []"
  by (simp add: TrimSpace_def)

lemma HasPrefix_append [simp, go_str]: "HasPrefix (p @ s) p"
  by (simp add: HasPrefix_def)

lemma HasPrefix_iff: "HasPrefix s p \<longleftrightarrow> (\<exists>t. s = p @ t)"
proof
  assume "HasPrefix s p"
  then have "s = p @ drop (length p) s"
    by (metis HasPrefix_def append_take_drop_id)
  then show "\<exists>t. s = p @ t" by blast
qed auto

lemma TrimPrefix_append [simp, go_str]: "TrimPrefix (p @ s) p = s"
  by (simp add: TrimPrefix_def)

lemma dropWhile_hd_id: "(s = [] \<or> \<not> P (hd s)) \<Longrightarrow> dropWhile P s = s"
  by (cases s) auto

lemma TrimSpace_id:
  assumes "s = [] \<or> (\<not> is_space (hd s) \<and> \<not> is_space (last s))"
  shows "TrimSpace s = s"
  using assms by (auto simp: TrimSpace_def dropWhile_hd_id hd_rev)

lemma TrimSpace_no_space: "\<forall>c \<in> set s. \<not> is_space c \<Longrightarrow> TrimSpace s = s"
  by (rule TrimSpace_id) (cases s; auto)

lemma set_TrimSpace: "set (TrimSpace s) \<subseteq> set s"
proof
  fix c assume "c \<in> set (TrimSpace s)"
  then have "c \<in> set (dropWhile is_space (rev (dropWhile is_space s)))"
    by (simp add: TrimSpace_def)
  then have "c \<in> set (dropWhile is_space s)"
    by (metis set_dropWhileD set_rev)
  then show "c \<in> set s" by (rule set_dropWhileD)
qed

lemma hd_dropWhile_not: "dropWhile P s \<noteq> [] \<Longrightarrow> \<not> P (hd (dropWhile P s))"
  by (rule hd_dropWhile)

lemma last_dropWhile: "dropWhile P s \<noteq> [] \<Longrightarrow> last (dropWhile P s) = last s"
  by (induction s) (auto split: if_splits)

lemma TrimSpace_idem [simp, go_str]: "TrimSpace (TrimSpace s) = TrimSpace s"
proof (rule TrimSpace_id)
  let ?a = "dropWhile is_space s"
  let ?b = "dropWhile is_space (rev ?a)"
  have "?b \<noteq> [] \<Longrightarrow> \<not> is_space (hd ?b)" by (rule hd_dropWhile_not)
  moreover have "?b \<noteq> [] \<Longrightarrow> last ?b = last (rev ?a)" by (rule last_dropWhile)
  moreover have "?b \<noteq> [] \<Longrightarrow> ?a \<noteq> []" by (metis dropWhile.simps(1) rev.simps(1))
  moreover have "?a \<noteq> [] \<Longrightarrow> \<not> is_space (hd ?a)" by (rule hd_dropWhile_not)
  ultimately show "TrimSpace s = [] \<or> \<not> is_space (hd (TrimSpace s)) \<and> \<not> is_space (last (TrimSpace s))"
    by (cases "?b = []") (simp_all add: TrimSpace_def hd_rev last_rev del: dropWhile_eq_Nil_conv)
qed

subsection \<open>Splitting and joining\<close>

text \<open>\<open>strings.Split\<close> with a one-byte separator: never the empty list.\<close>

fun Split :: "string \<Rightarrow> char \<Rightarrow> string list" where
  "Split [] c = [[]]"
| "Split (x # xs) c =
     (if x = c then [] # Split xs c
      else (case Split xs c of [] \<Rightarrow> [[x]] | p # ps \<Rightarrow> (x # p) # ps))"

text \<open>\<open>strings.Cut\<close>, also the first two parts of \<open>strings.SplitN(s, sep, 2)\<close>.\<close>

fun Cut :: "string \<Rightarrow> char \<Rightarrow> (string \<times> string) option" where
  "Cut [] c = None"
| "Cut (x # xs) c =
     (if x = c then Some ([], xs) else map_option (map_prod (Cons x) id) (Cut xs c))"

fun Join :: "string list \<Rightarrow> string \<Rightarrow> string" where
  "Join [] sep = []"
| "Join [p] sep = p"
| "Join (p # q # ps) sep = p @ sep @ Join (q # ps) sep"

text \<open>\<open>strings.Fields\<close>: the maximal runs of bytes that are not white space.\<close>

fun Fields_from :: "string \<Rightarrow> string \<Rightarrow> string list" where
  "Fields_from w [] = (if w = [] then [] else [w])"
| "Fields_from w (c # cs) =
     (if is_space c then (if w = [] then Fields_from [] cs else w # Fields_from [] cs)
      else Fields_from (w @ [c]) cs)"

definition Fields :: "string \<Rightarrow> string list" where
  "Fields s = Fields_from [] s"

text \<open>The first occurrence of a longer separator; \<open>strings.Contains\<close>.\<close>

fun CutStr :: "string \<Rightarrow> string \<Rightarrow> (string \<times> string) option" where
  "CutStr [] sep = (if sep = [] then Some ([], []) else None)"
| "CutStr (c # cs) sep =
     (if HasPrefix (c # cs) sep then Some ([], drop (length sep) (c # cs))
      else map_option (map_prod (Cons c) id) (CutStr cs sep))"

definition Contains :: "string \<Rightarrow> string \<Rightarrow> bool" where
  "Contains s sub \<longleftrightarrow> CutStr s sub \<noteq> None"

lemma CutStr_length: "CutStr s sep = Some (l, r) \<Longrightarrow> sep \<noteq> [] \<Longrightarrow> length r < length s"
  by (induction s arbitrary: l) (auto split: if_splits)

text \<open>\<open>strings.Split\<close> with a longer separator.\<close>

function SplitStr :: "string \<Rightarrow> string \<Rightarrow> string list" where
  "SplitStr s sep =
     (if sep = [] then [s]
      else (case CutStr s sep of None \<Rightarrow> [s] | Some (l, r) \<Rightarrow> l # SplitStr r sep))"
  by pat_completeness auto

termination SplitStr
  by (relation "measure (\<lambda>(s, sep). length s)") (auto dest: CutStr_length)

declare SplitStr.simps [simp del]

lemma Split_nonempty [simp]: "Split s c \<noteq> []"
  by (cases s) (auto split: list.splits)

lemma Split_no_sep [simp, go_str]: "c \<notin> set s \<Longrightarrow> Split s c = [s]"
  by (induction s) auto

lemma Split_append_sep [go_str]: "c \<notin> set p \<Longrightarrow> Split (p @ c # s) c = p # Split s c"
  by (induction p) auto

lemma Split_Join:
  "ps \<noteq> [] \<Longrightarrow> \<forall>p \<in> set ps. c \<notin> set p \<Longrightarrow> Split (Join ps [c]) c = ps"
  by (induction ps "[c]" rule: Join.induct) (auto simp: Split_append_sep)

lemma Join_Split [simp, go_str]: "Join (Split s c) [c] = s"
proof (induction s)
  case (Cons x xs)
  then show ?case by (cases "Split xs c"; cases "tl (Split xs c)") auto
qed simp

lemma set_Join: "set (Join ps sep) \<subseteq> (\<Union>p \<in> set ps. set p) \<union> set sep"
  by (induction ps sep rule: Join.induct) auto

lemma Join_eq_Nil: "\<forall>p \<in> set ps. p \<noteq> [] \<Longrightarrow> (Join ps sep = []) = (ps = [])"
  by (induction ps sep rule: Join.induct) auto

lemma hd_Join: "ps \<noteq> [] \<Longrightarrow> hd ps \<noteq> [] \<Longrightarrow> hd (Join ps sep) = hd (hd ps)"
  by (induction ps sep rule: Join.induct) auto

lemma last_Join:
  "ps \<noteq> [] \<Longrightarrow> \<forall>p \<in> set ps. p \<noteq> [] \<Longrightarrow> last (Join ps sep) = last (last ps)"
proof (induction ps sep rule: Join.induct)
  case (3 p q ps sep)
  then have "Join (q # ps) sep \<noteq> []"
    by (subst Join_eq_Nil) auto
  with 3 show ?case by simp
qed auto

lemma Cut_None [simp, go_str]: "(Cut s c = None) = (c \<notin> set s)"
  by (induction s) auto

lemma Cut_absent [simp, go_str]: "c \<notin> set s \<Longrightarrow> Cut s c = None"
  by simp

lemma Cut_append [simp, go_str]: "c \<notin> set p \<Longrightarrow> Cut (p @ c # s) c = Some (p, s)"
  by (induction p) auto

lemma Cut_Some_iff: "Cut s c = Some (p, t) \<longleftrightarrow> s = p @ c # t \<and> c \<notin> set p"
proof
  show "Cut s c = Some (p, t) \<Longrightarrow> s = p @ c # t \<and> c \<notin> set p"
    by (induction s arbitrary: p) (auto split: if_splits)
qed auto

lemma Fields_from_word:
  "\<forall>c \<in> set v. \<not> is_space c \<Longrightarrow> Fields_from w (v @ s) = Fields_from (w @ v) s"
  by (induction v arbitrary: w) auto

lemma Fields_single [go_str]:
  "v \<noteq> [] \<Longrightarrow> \<forall>c \<in> set v. \<not> is_space c \<Longrightarrow> Fields v = [v]"
  using Fields_from_word [of v "[]" "[]"] by (simp add: Fields_def)

lemma Fields_cons [go_str]:
  "v \<noteq> [] \<Longrightarrow> \<forall>c \<in> set v. \<not> is_space c \<Longrightarrow> is_space b \<Longrightarrow> Fields (v @ b # s) = v # Fields s"
  using Fields_from_word [of v "[]" "b # s"] by (simp add: Fields_def)

lemma Fields_from_nonempty: "w \<in> set (Fields_from v s) \<Longrightarrow> w \<noteq> []"
  by (induction v s rule: Fields_from.induct) (auto split: if_splits)

lemma Fields_nonempty: "w \<in> set (Fields s) \<Longrightarrow> w \<noteq> []"
  unfolding Fields_def by (rule Fields_from_nonempty)

lemma Fields_from_no_space:
  "list_all (\<lambda>c. \<not> is_space c) v \<Longrightarrow> list_all (list_all (\<lambda>c. \<not> is_space c)) (Fields_from v s)"
  by (induction v s rule: Fields_from.induct) simp_all

lemma Fields_no_space: "w \<in> set (Fields s) \<Longrightarrow> \<forall>c \<in> set w. \<not> is_space c"
  using Fields_from_no_space [of "[]" s] by (simp add: Fields_def list_all_iff)

subsection \<open>Letter case\<close>

definition lower_char :: "char \<Rightarrow> char" where
  "lower_char c =
     (let n = (of_char c :: nat) in if 65 \<le> n \<and> n \<le> 90 then char_of (n + 32) else c)"

definition upper_char :: "char \<Rightarrow> char" where
  "upper_char c =
     (let n = (of_char c :: nat) in if 97 \<le> n \<and> n \<le> 122 then char_of (n - 32) else c)"

definition ToLower :: "string \<Rightarrow> string" where "ToLower s = map lower_char s"

definition ToUpper :: "string \<Rightarrow> string" where "ToUpper s = map upper_char s"

definition EqualFold :: "string \<Rightarrow> string \<Rightarrow> bool" where
  "EqualFold a b \<longleftrightarrow> ToLower a = ToLower b"

lemma EqualFold_refl [simp]: "EqualFold a a"
  by (simp add: EqualFold_def)

end
