(* ===== verification/Numbers.thy ===== *)
theory Numbers
  imports Prelude
begin

text \<open>
  The conversions of Go's package \<open>strconv\<close> and the number verbs of \<open>fmt\<close> that the modelled
  code uses (\<open>Itoa\<close>, \<open>%d\<close>, \<open>%02d\<close>, \<open>%02x\<close>, \<open>Atoi\<close>, \<open>ParseUint\<close>), with the round trips between
  printing and parsing and the fact that fixed-width numerals sort like their values.
\<close>

subsection \<open>Digits\<close>

definition digit_char :: "nat \<Rightarrow> char" where
  "digit_char d = (if d < 10 then char_of (48 + d) else char_of (87 + d))"

definition digit_val :: "char \<Rightarrow> nat option" where
  "digit_val c =
     (let n = (of_char c :: nat)
      in if 48 \<le> n \<and> n \<le> 57 then Some (n - 48)
         else if 97 \<le> n \<and> n \<le> 122 then Some (n - 87)
         else if 65 \<le> n \<and> n \<le> 90 then Some (n - 55)
         else None)"

definition is_digit :: "char \<Rightarrow> bool" where
  "is_digit c \<longleftrightarrow> 48 \<le> (of_char c :: nat) \<and> (of_char c :: nat) \<le> 57"

lemma of_char_digit_char: "d < 36 \<Longrightarrow> of_char (digit_char d) = (if d < 10 then 48 + d else 87 + d)"
  by (simp add: digit_char_def)

lemma digit_val_digit_char [simp, go_num]: "d < 36 \<Longrightarrow> digit_val (digit_char d) = Some d"
  by (auto simp: digit_val_def of_char_digit_char)

lemma digit_char_inject: "d < 36 \<Longrightarrow> e < 36 \<Longrightarrow> (digit_char d = digit_char e) = (d = e)"
  by (metis digit_val_digit_char option.inject)

lemma is_digit_digit_char [simp]: "d < 10 \<Longrightarrow> is_digit (digit_char d)"
  by (simp add: is_digit_def of_char_digit_char)

lemma digit_chars_checked:
  "list_all (\<lambda>d. \<not> is_space (digit_char d) \<and> digit_char d \<notin> set '',-+:./_= '') [0..<36]"
  by code_simp

lemma digit_char_plain:
  "d < 36 \<Longrightarrow> \<not> is_space (digit_char d) \<and> digit_char d \<notin> set '',-+:./_= ''"
  using digit_chars_checked by (simp only: list_all_iff) (metis atLeastLessThan_iff le0 set_upt)

lemma digit_val_mod [simp, go_num]:
  "2 \<le> b \<Longrightarrow> b \<le> 36 \<Longrightarrow> digit_val (digit_char (n mod b)) = Some (n mod b)"
  by (rule digit_val_digit_char, rule less_le_trans [OF mod_less_divisor]) auto

subsection \<open>Positional notation\<close>

fun show_base :: "nat \<Rightarrow> nat \<Rightarrow> string" where
  "show_base b n =
     (if n < b \<or> b < 2 then [digit_char n] else show_base b (n div b) @ [digit_char (n mod b)])"

declare show_base.simps [simp del]

fun read_base :: "nat \<Rightarrow> nat \<Rightarrow> string \<Rightarrow> nat option" where
  "read_base b acc [] = Some acc"
| "read_base b acc (c # cs) =
     (case digit_val c of
        None \<Rightarrow> None
      | Some d \<Rightarrow> if d < b then read_base b (b * acc + d) cs else None)"

lemma read_base_append:
  "read_base b acc (xs @ ys) = Option.bind (read_base b acc xs) (\<lambda>a. read_base b a ys)"
  by (induction xs arbitrary: acc) (auto split: option.splits)

lemma show_base_nonempty [simp]: "show_base b n \<noteq> []"
  by (subst show_base.simps) simp

lemma show_base_small: "n < b \<Longrightarrow> show_base b n = [digit_char n]"
  by (subst show_base.simps) simp

lemma show_base_big:
  "2 \<le> b \<Longrightarrow> b \<le> n \<Longrightarrow> show_base b n = show_base b (n div b) @ [digit_char (n mod b)]"
  by (subst show_base.simps) simp

lemma read_show_base:
  assumes b: "2 \<le> b" "b \<le> 36"
  shows "read_base b 0 (show_base b n) = Some n"
proof (induction n rule: less_induct)
  case (less n)
  show ?case
  proof (cases "n < b")
    case True
    with b show ?thesis by (simp add: show_base_small)
  next
    case False
    then have "n div b < n" using b by (intro div_less_dividend) auto
    with less False b show ?thesis
      by (simp add: show_base_big read_base_append mult.commute)
  qed
qed

lemma show_base_digits:
  assumes b: "2 \<le> b" "b \<le> 36"
  shows "\<forall>c \<in> set (show_base b n). \<exists>d < b. c = digit_char d"
proof (induction n rule: less_induct)
  case (less n)
  show ?case
  proof (cases "n < b")
    case True
    with b show ?thesis by (auto simp: show_base_small)
  next
    case False
    then have "n div b < n" using b by (intro div_less_dividend) auto
    then have "\<forall>c \<in> set (show_base b (n div b)). \<exists>d < b. c = digit_char d"
      by (rule less)
    moreover have "\<exists>d < b. digit_char (n mod b) = digit_char d"
      using b by (intro exI [of _ "n mod b"]) simp
    ultimately show ?thesis
      using False b by (simp add: show_base_big)
  qed
qed

lemma show_base_inj: "2 \<le> b \<Longrightarrow> b \<le> 36 \<Longrightarrow> show_base b m = show_base b n \<Longrightarrow> m = n"
  by (metis read_show_base option.inject)

subsection \<open>Decimal integers\<close>

definition Itoa :: "int \<Rightarrow> string" where
  "Itoa i = (if i < 0 then CHR ''-'' # show_base 10 (nat (- i)) else show_base 10 (nat i))"

definition dec_val :: "string \<Rightarrow> nat option" where
  "dec_val s = (if s = [] then None else read_base 10 0 s)"

text \<open>\<open>strconv.Atoi\<close>: an optional sign, at least one digit, and a value in range of \<open>int\<close>.\<close>

definition Atoi :: "string \<Rightarrow> int option" where
  "Atoi s =
     (let (neg, ds) = (case s of
          [] \<Rightarrow> (False, [])
        | c # cs \<Rightarrow> if c = CHR ''-'' then (True, cs)
                    else if c = CHR ''+'' then (False, cs) else (False, s))
      in case dec_val ds of
           None \<Rightarrow> None
         | Some n \<Rightarrow> (let i = (if neg then - int n else int n)
                       in if fits64 i then Some i else None))"

lemma show10_plain:
  "c \<in> set (show_base 10 n) \<Longrightarrow> is_digit c \<and> \<not> is_space c \<and> c \<notin> set '',-+:./_= ''"
proof -
  assume "c \<in> set (show_base 10 n)"
  then obtain d where d: "d < 10" "c = digit_char d"
    using show_base_digits [of 10 n] by auto
  then show ?thesis using digit_char_plain [of d] by simp
qed

lemma dec_val_show [simp, go_num]: "dec_val (show_base 10 n) = Some n"
  by (simp add: dec_val_def read_show_base)

lemma Atoi_show: "int n \<le> max_int64 \<Longrightarrow> Atoi (show_base 10 n) = Some (int n)"
proof -
  assume n: "int n \<le> max_int64"
  obtain c cs where s: "show_base 10 n = c # cs"
    by (cases "show_base 10 n") auto
  have "c \<noteq> CHR ''-'' \<and> c \<noteq> CHR ''+''"
    using show10_plain [of c n] by (simp add: s)
  moreover have "fits64 (int n)"
    using n by (simp add: fits64_def min_int64_def)
  ultimately show ?thesis
    using dec_val_show [of n] unfolding s by (simp add: Atoi_def)
qed

theorem Atoi_Itoa [simp, go_num]: "fits64 i \<Longrightarrow> Atoi (Itoa i) = Some i"
proof (cases "i < 0")
  case True
  assume "fits64 i"
  with True show ?thesis by (simp add: Itoa_def Atoi_def)
next
  case False
  assume "fits64 i"
  with False show ?thesis
    using Atoi_show [of "nat i"] by (simp add: Itoa_def fits64_def)
qed

lemma Itoa_nonempty [simp]: "Itoa i \<noteq> []"
  by (simp add: Itoa_def)

lemma Itoa_plain: "0 \<le> i \<Longrightarrow> c \<in> set (Itoa i) \<Longrightarrow> is_digit c \<and> \<not> is_space c \<and> c \<notin> set '',-+:./_= ''"
  using show10_plain by (simp add: Itoa_def)

lemma Itoa_no_space: "c \<in> set (Itoa i) \<Longrightarrow> \<not> is_space c"
  using show10_plain [of c] by (auto simp: Itoa_def is_space_def split: if_splits)

lemma Itoa_no_comma [simp]: "CHR '','' \<notin> set (Itoa i)"
  using show10_plain [of "CHR '',''"] by (auto simp: Itoa_def)

lemma Itoa_no_dash [simp]: "0 \<le> i \<Longrightarrow> CHR ''-'' \<notin> set (Itoa i)"
  using Itoa_plain [of i "CHR ''-''"] by auto

lemma TrimSpace_Itoa [simp, go_num]: "TrimSpace (Itoa i) = Itoa i"
  by (rule TrimSpace_no_space) (auto dest: Itoa_no_space)

lemma Itoa_inj: "Itoa i = Itoa j \<Longrightarrow> 0 \<le> i \<Longrightarrow> 0 \<le> j \<Longrightarrow> i = j"
  by (auto simp: Itoa_def dest!: show_base_inj [rotated 2])

lemma Atoi_fits: "Atoi s = Some i \<Longrightarrow> fits64 i"
  by (auto simp: Atoi_def Let_def split: option.splits if_splits list.splits)

lemma Atoi_nonneg: "Atoi s = Some i \<Longrightarrow> CHR ''-'' \<notin> set s \<Longrightarrow> 0 \<le> i"
  by (auto simp: Atoi_def Let_def split: option.splits if_splits list.splits)

subsection \<open>Fixed width\<close>

definition pad_left :: "nat \<Rightarrow> string \<Rightarrow> string" where
  "pad_left w s = replicate (w - length s) (CHR ''0'') @ s"

text \<open>The \<open>w\<close> low digits of a number, most significant first.\<close>

fun digits_fix :: "nat \<Rightarrow> nat \<Rightarrow> nat \<Rightarrow> string" where
  "digits_fix b 0 n = []"
| "digits_fix b (Suc w) n = digits_fix b w (n div b) @ [digit_char (n mod b)]"

lemma length_digits_fix [simp]: "length (digits_fix b w n) = w"
  by (induction w arbitrary: n) auto

lemma digit_char_0: "digit_char 0 = CHR ''0''"
  by code_simp

lemma digits_fix_0: "0 < b \<Longrightarrow> digits_fix b w 0 = replicate w (CHR ''0'')"
  by (induction w) (auto simp: digit_char_0 replicate_append_same)

lemma pad_left_snoc: "pad_left (Suc w) (s @ [c]) = pad_left w s @ [c]"
  by (simp add: pad_left_def)

lemma pad_left_show_base:
  assumes b: "2 \<le> b"
  shows "n < b ^ w \<Longrightarrow> 0 < w \<Longrightarrow> pad_left w (show_base b n) = digits_fix b w n"
proof (induction w arbitrary: n)
  case 0
  then show ?case by simp
next
  case (Suc w)
  show ?case
  proof (cases "n < b")
    case True
    have "digits_fix b w 0 = replicate w (CHR ''0'')"
      using b by (intro digits_fix_0) simp
    with True show ?thesis
      by (simp add: show_base_small pad_left_def)
  next
    case False
    then have w: "0 < w" using Suc.prems by (cases w) auto
    have "n div b < b ^ w"
      using Suc.prems b by (simp add: less_mult_imp_div_less mult.commute)
    with Suc.IH [of "n div b"] w False b show ?thesis
      by (simp add: show_base_big pad_left_snoc)
  qed
qed

lemma read_digits_fix:
  assumes b: "2 \<le> b" "b \<le> 36"
  shows "n < b ^ w \<Longrightarrow> read_base b 0 (digits_fix b w n) = Some n"
proof (induction w arbitrary: n)
  case 0
  then show ?case by simp
next
  case (Suc w)
  have "n div b < b ^ w"
    using Suc.prems b by (simp add: less_mult_imp_div_less mult.commute)
  with Suc.IH [of "n div b"] b show ?case
    by (simp add: read_base_append)
qed

end
