(* ===== verification/CpuList.thy ===== *)
theory CpuList
  imports Numbers
begin

text \<open>
  Lists of CPU numbers and their textual form (\<open>0-3,8,10-11\<close>), as in
  \<open>slave/virsh/cpu_pinning.go\<close> (\<open>expandCPUList\<close>, \<open>formatCPUSet\<close>, \<open>collectAllCPUs\<close>,
  \<open>dedupeSortedInts\<close>, \<open>parseCPUSetString\<close>, \<open>defaultEmulatorPinCPUsFromPins\<close>) and
  \<open>slave/virsh/core_isolation.go\<close> (\<open>uniqueSortedInts\<close>, \<open>normalizeCoreIndices\<close>,
  \<open>compressCPUList\<close>, \<open>formatCPURange\<close>).  The two in-place compactions are modelled on the
  backing array they share with their argument.
\<close>

subsection \<open>Parsing\<close>

datatype cpu_list_error =
    InvalidRangeStart string
  | InvalidRangeEnd string
  | InvalidCPUID string
  | RangeNeverEnds  \<comment> \<open>\<open>for i := start; i <= end; i++\<close> with \<open>end\<close> the largest \<open>int\<close>\<close>

definition range_loop :: "int \<Rightarrow> int \<Rightarrow> cpu_list_error + int list" where
  "range_loop start end' =
     (if start \<le> end' \<and> end' = max_int64 then Inl RangeNeverEnds else Inr [start..end'])"

definition expand_part :: "string \<Rightarrow> cpu_list_error + int list" where
  "expand_part part0 =
     (let part = TrimSpace part0 in
      case Cut part (CHR ''-'') of
        Some (l, r) \<Rightarrow>
          (case Atoi (TrimSpace l) of
             None \<Rightarrow> Inl (InvalidRangeStart part)
           | Some start \<Rightarrow>
               (case Atoi (TrimSpace r) of
                  None \<Rightarrow> Inl (InvalidRangeEnd part)
                | Some end' \<Rightarrow> range_loop start end'))
      | None \<Rightarrow>
          (case Atoi part of
             None \<Rightarrow> Inl (InvalidCPUID part)
           | Some val \<Rightarrow> Inr [val]))"

fun expand_parts :: "string list \<Rightarrow> cpu_list_error + int list" where
  "expand_parts [] = Inr []"
| "expand_parts (p # ps) =
     (case expand_part p of
        Inl e \<Rightarrow> Inl e
      | Inr xs \<Rightarrow> map_sum id (\<lambda>ys. xs @ ys) (expand_parts ps))"

definition expandCPUList :: "string \<Rightarrow> cpu_list_error + int list" where
  "expandCPUList list = map_sum id sort (expand_parts (Split list (CHR '','')))"

definition parseCPUSetString :: "string \<Rightarrow> int list" where
  "parseCPUSetString cpuset0 =
     (let cpuset = TrimSpace cpuset0 in
      if cpuset = [] then []
      else (case expandCPUList cpuset of Inl _ \<Rightarrow> [] | Inr cpus \<Rightarrow> cpus))"

subsection \<open>In-place compaction\<close>

text \<open>
  \<open>for i, v := range out { if i == 0 || v != out[i-1] { out[dst] = v; dst++ } }\<close>
  followed by \<open>out[:dst]\<close>.  The loop reads and writes the same array.
\<close>

function compact_loop :: "nat \<Rightarrow> nat \<Rightarrow> int list \<Rightarrow> int list" where
  "compact_loop i dst out =
     (if i < length out
      then (if i = 0 \<or> out ! i \<noteq> out ! (i - 1)
            then compact_loop (Suc i) (Suc dst) (out[dst := out ! i])
            else compact_loop (Suc i) dst out)
      else take dst out)"
  by pat_completeness auto
termination
  by (relation "measure (\<lambda>(i, dst, out). length out - i)") auto

declare compact_loop.simps [simp del]

definition uniqueSortedInts :: "int list \<Rightarrow> int list" where
  "uniqueSortedInts values = (if values = [] then [] else compact_loop 0 0 (sort values))"

definition normalizeCoreIndices :: "int list \<Rightarrow> int list" where
  "normalizeCoreIndices indices = (if indices = [] then [] else compact_loop 0 0 (sort indices))"

text \<open>
  \<open>out := cpus[:1]\<close> shares its backing array with \<open>cpus\<close>, so \<open>append(out, v)\<close> writes the
  element after \<open>out\<close> into \<open>cpus\<close> while the loop is still reading it.  \<open>n\<close> is \<open>len(out)\<close>.
\<close>

function dedupe_loop :: "nat \<Rightarrow> nat \<Rightarrow> int list \<Rightarrow> int list" where
  "dedupe_loop i n arr =
     (if i < length arr
      then (if arr ! i \<noteq> arr ! (n - 1)
            then dedupe_loop (Suc i) (Suc n) (arr[n := arr ! i])
            else dedupe_loop (Suc i) n arr)
      else take n arr)"
  by pat_completeness auto
termination
  by (relation "measure (\<lambda>(i, n, arr). length arr - i)") auto

declare dedupe_loop.simps [simp del]

definition dedupeSortedInts :: "int list \<Rightarrow> int list" where
  "dedupeSortedInts cpus = (if length cpus \<le> 1 then cpus else dedupe_loop 1 1 cpus)"

subsection \<open>Formatting\<close>

definition formatCPURange :: "int \<Rightarrow> int \<Rightarrow> string" where
  "formatCPURange start end' =
     (if start = end' then Itoa start else Itoa start @ ''-'' @ Itoa end')"

fun format_runs :: "int \<Rightarrow> int \<Rightarrow> int list \<Rightarrow> string list" where
  "format_runs start end' [] =
     [if start = end' then Itoa start else Itoa start @ ''-'' @ Itoa end']"
| "format_runs start end' (c # cpus) =
     (if c = wrap64 (end' + 1) then format_runs start c cpus
      else (if start = end' then Itoa start else Itoa start @ ''-'' @ Itoa end')
             # format_runs c c cpus)"

definition formatCPUSet :: "int list \<Rightarrow> string" where
  "formatCPUSet cpus =
     (case cpus of [] \<Rightarrow> [] | c # cs \<Rightarrow> Join (format_runs c c cs) '','')"

fun compress_runs :: "int \<Rightarrow> int \<Rightarrow> int list \<Rightarrow> string list" where
  "compress_runs start prev [] = [formatCPURange start prev]"
| "compress_runs start prev (v # vs) =
     (if v = wrap64 (prev + 1) then compress_runs start v vs
      else formatCPURange start prev # compress_runs v v vs)"

definition compressCPUList :: "int list \<Rightarrow> string" where
  "compressCPUList values0 =
     (case uniqueSortedInts values0 of
        [] \<Rightarrow> []
      | v # vs \<Rightarrow> Join (compress_runs v v vs) '','')"

subsection \<open>Pins\<close>

record VCPUPin =
  VCPU :: int
  CPUSet :: string

definition atoi_list :: "string list \<Rightarrow> int list" where
  "atoi_list ps = concat (map (\<lambda>p. case Atoi (TrimSpace p) of None \<Rightarrow> [] | Some i \<Rightarrow> [i]) ps)"

definition pin_cpus :: "VCPUPin \<Rightarrow> int list" where
  "pin_cpus pin =
     (case expandCPUList (CPUSet pin) of
        Inl _ \<Rightarrow> atoi_list (Split (CPUSet pin) (CHR '',''))
      | Inr cpus \<Rightarrow> cpus)"

text \<open>The map \<open>seen\<close> is a set of CPU numbers; its keys are sorted before they are returned.\<close>

definition collectAllCPUs :: "VCPUPin list \<Rightarrow> int list" where
  "collectAllCPUs pins = sorted_list_of_set (\<Union>p \<in> set pins. set (pin_cpus p))"

definition defaultEmulatorPinCPUsFromPins :: "VCPUPin list \<Rightarrow> int list" where
  "defaultEmulatorPinCPUsFromPins pins =
     (let cpus = collectAllCPUs pins in
      if cpus = [] then []
      else (let target0 = (if length cpus > 2 then 2 else 1);
                target = (if target0 > length cpus then length cpus else target0)
            in take target cpus))"

subsection \<open>The compactions compute \<open>remdups_adj\<close>\<close>

text \<open>What holds between two steps of the loop that compacts \<open>ys\<close> in place.\<close>

definition compact_inv :: "int list \<Rightarrow> nat \<Rightarrow> nat \<Rightarrow> int list \<Rightarrow> bool" where
  "compact_inv ys i dst out \<longleftrightarrow>
     length out = length ys \<and> dst \<le> i \<and> i \<le> length ys \<and> (0 < i \<longrightarrow> 0 < dst) \<and>
     take dst out = remdups_adj (take i ys) \<and> drop i out = drop i ys \<and>
     (0 < i \<longrightarrow> out ! (i - 1) = ys ! (i - 1))"

lemma remdups_adj_snoc:
  "remdups_adj (xs @ [x]) = (if xs \<noteq> [] \<and> last xs = x then remdups_adj xs else remdups_adj xs @ [x])"
  by (induction xs rule: remdups_adj.induct) auto

lemma last_take_nth: "0 < i \<Longrightarrow> i \<le> length ys \<Longrightarrow> last (take i ys) = ys ! (i - 1)"
  by (subst last_conv_nth) (auto simp: min_def)

lemma remdups_adj_take_Suc:
  "i < length ys \<Longrightarrow>
     remdups_adj (take (Suc i) ys) =
       (if 0 < i \<and> ys ! (i - 1) = ys ! i then remdups_adj (take i ys)
        else remdups_adj (take i ys) @ [ys ! i])"
  by (cases "i = 0") (auto simp: take_Suc_conv_app_nth remdups_adj_snoc last_take_nth)

lemma compact_inv_nth: "compact_inv ys i dst out \<Longrightarrow> i < length ys \<Longrightarrow> out ! i = ys ! i"
  unfolding compact_inv_def by (metis Cons_nth_drop_Suc list.inject)

lemma compact_inv_skip:
  assumes "compact_inv ys i dst out" "i < length ys" "0 < i" "ys ! i = ys ! (i - 1)"
  shows "compact_inv ys (Suc i) dst out"
  using assms compact_inv_nth [OF assms(1,2)]
  by (auto simp: compact_inv_def remdups_adj_take_Suc) (metis drop_Suc tl_drop)+

lemma compact_inv_write:
  assumes inv: "compact_inv ys i dst out" and i: "i < length ys"
    and new: "i = 0 \<or> ys ! i \<noteq> ys ! (i - 1)"
  shows "compact_inv ys (Suc i) (Suc dst) (out[dst := ys ! i])"
proof -
  from inv have len: "length out = length ys" and d: "dst \<le> i"
    and t: "take dst out = remdups_adj (take i ys)" and dr: "drop i out = drop i ys"
    by (auto simp: compact_inv_def)
  have "take (Suc dst) (out[dst := ys ! i]) = take dst out @ [ys ! i]"
    using d i len by (simp add: take_Suc_conv_app_nth)
  moreover have "drop (Suc i) (out[dst := ys ! i]) = drop (Suc i) ys"
    using d dr by (simp add: drop_update_cancel) (metis drop_Suc tl_drop)
  moreover have "out[dst := ys ! i] ! i = ys ! i"
    using d i len compact_inv_nth [OF inv i] by (cases "dst = i") auto
  ultimately show ?thesis
    using d i len t new by (auto simp: compact_inv_def remdups_adj_take_Suc)
qed

lemma compact_loop_inv:
  "compact_inv ys i dst out \<Longrightarrow> compact_loop i dst out = remdups_adj ys"
proof (induction i dst out rule: compact_loop.induct)
  case (1 i dst out)
  show ?case
  proof (cases "i < length out")
    case True
    with "1.prems" have i: "i < length ys" by (simp add: compact_inv_def)
    note nth = compact_inv_nth [OF "1.prems" i]
    have prev: "0 < i \<Longrightarrow> out ! (i - 1) = ys ! (i - 1)"
      using "1.prems" by (simp add: compact_inv_def)
    show ?thesis
    proof (cases "i = 0 \<or> out ! i \<noteq> out ! (i - 1)")
      case new: True
      then have "i = 0 \<or> ys ! i \<noteq> ys ! (i - 1)"
        using nth prev by (cases "i = 0") auto
      then have "compact_inv ys (Suc i) (Suc dst) (out[dst := out ! i])"
        using compact_inv_write [OF "1.prems" i] nth by simp
      with True new "1.IH"(1) show ?thesis by (subst compact_loop.simps) simp
    next
      case same: False
      then have "compact_inv ys (Suc i) dst out"
        using compact_inv_skip [OF "1.prems" i] nth prev by auto
      with True same "1.IH"(2) show ?thesis by (subst compact_loop.simps) simp
    qed
  next
    case False
    with "1.prems" show ?thesis
      by (subst compact_loop.simps) (simp add: compact_inv_def)
  qed
qed

lemma compact_loop_remdups: "compact_loop 0 0 ys = remdups_adj ys"
  by (rule compact_loop_inv) (simp add: compact_inv_def)

lemma dedupe_loop_eq_compact:
  "compact_inv ys i n arr \<Longrightarrow> 0 < i \<Longrightarrow> dedupe_loop i n arr = remdups_adj ys"
proof (induction i n arr rule: dedupe_loop.induct)
  case (1 i n arr)
  show ?case
  proof (cases "i < length arr")
    case True
    with "1.prems" have i: "i < length ys" by (simp add: compact_inv_def)
    note nth = compact_inv_nth [OF "1.prems"(1) i]
    have n: "0 < n" "n \<le> i" and t: "take n arr = remdups_adj (take i ys)" "length arr = length ys"
      using "1.prems" by (auto simp: compact_inv_def)
    have "arr ! (n - 1) = last (take n arr)"
      using n t i by (intro last_take_nth [symmetric]) auto
    also have "\<dots> = last (take i ys)"
      using "1.prems" i t by simp
    also have "\<dots> = ys ! (i - 1)"
      using "1.prems" i by (intro last_take_nth) auto
    finally have prev: "arr ! (n - 1) = ys ! (i - 1)" .
    show ?thesis
    proof (cases "arr ! i \<noteq> arr ! (n - 1)")
      case new: True
      then have "compact_inv ys (Suc i) (Suc n) (arr[n := arr ! i])"
        using compact_inv_write [OF "1.prems"(1) i] nth prev by auto
      with True new "1.IH"(1) show ?thesis by (subst dedupe_loop.simps) simp
    next
      case same: False
      then have "compact_inv ys (Suc i) n arr"
        using compact_inv_skip [OF "1.prems"(1) i] "1.prems"(2) nth prev by auto
      with True same "1.IH"(2) show ?thesis by (subst dedupe_loop.simps) simp
    qed
  next
    case False
    with "1.prems" show ?thesis
      by (subst dedupe_loop.simps) (simp add: compact_inv_def)
  qed
qed

lemma dedupeSortedInts_eq: "dedupeSortedInts cpus = remdups_adj cpus"
proof (cases "length cpus \<le> 1")
  case True
  then show ?thesis by (cases cpus) (auto simp: dedupeSortedInts_def)
next
  case False
  then have "compact_inv cpus 1 1 cpus"
    by (cases cpus) (auto simp: compact_inv_def)
  with False show ?thesis
    by (simp add: dedupeSortedInts_def dedupe_loop_eq_compact)
qed

lemma strict_sorted_remdups_adj:
  fixes xs :: "'a::linorder list"
  shows "sorted xs \<Longrightarrow> sorted_wrt (<) (remdups_adj xs)"
proof (induction xs rule: remdups_adj.induct)
  case (3 x y xs)
  then show ?case by (auto simp: less_le)
qed auto

lemma remdups_adj_sort: "remdups_adj (sort xs) = sorted_list_of_set (set xs)"
  for xs :: "'a::linorder list"
  by (rule strict_sorted_eqI) (auto intro: strict_sorted_remdups_adj)

lemma uniqueSortedInts_eq: "uniqueSortedInts xs = sorted_list_of_set (set xs)"
  by (simp add: uniqueSortedInts_def compact_loop_remdups remdups_adj_sort)

lemma normalizeCoreIndices_eq: "normalizeCoreIndices xs = sorted_list_of_set (set xs)"
  by (simp add: normalizeCoreIndices_def compact_loop_remdups remdups_adj_sort)

lemmas sorted_ints = uniqueSortedInts_eq normalizeCoreIndices_eq

subsection \<open>Printing and parsing are inverse\<close>

text \<open>The CPU numbers a list may hold so that its text can be read back.\<close>

definition cpu_nums :: "int list \<Rightarrow> bool" where
  "cpu_nums cpus \<longleftrightarrow> (\<forall>c \<in> set cpus. 0 \<le> c \<and> c < max_int64)"

lemma cpu_nums_Cons [simp]: "cpu_nums (c # cs) \<longleftrightarrow> 0 \<le> c \<and> c < max_int64 \<and> cpu_nums cs"
  by (auto simp: cpu_nums_def)

lemma cpu_nums_Nil [simp]: "cpu_nums []"
  by (simp add: cpu_nums_def)

lemma cpu_nums_cong: "set xs = set ys \<Longrightarrow> cpu_nums xs = cpu_nums ys"
  by (simp add: cpu_nums_def)

lemma cpu_num_fits: "0 \<le> c \<Longrightarrow> c < max_int64 \<Longrightarrow> fits64 c"
  by (simp add: fits64_def min_int64_def)

lemma wrap64_Suc: "0 \<le> c \<Longrightarrow> c < max_int64 \<Longrightarrow> wrap64 (c + 1) = c + 1"
  by (rule wrap64_id) (simp add: fits64_def min_int64_def)

lemma expand_part_range [go_num]:
  assumes "0 \<le> a" "a \<le> b" "b < max_int64"
  shows "expand_part (formatCPURange a b) = Inr [a..b]"
proof (cases "a = b")
  case True
  with assms show ?thesis
    by (simp add: expand_part_def formatCPURange_def cpu_num_fits Let_def)
next
  case False
  let ?s = "Itoa a @ CHR ''-'' # Itoa b"
  have sp: "\<not> is_space (CHR ''-'')" by code_simp
  have "\<forall>c \<in> set ?s. \<not> is_space c"
    by (auto simp: sp dest: Itoa_no_space)
  then have "TrimSpace ?s = ?s" by (rule TrimSpace_no_space)
  moreover have "Cut ?s (CHR ''-'') = Some (Itoa a, Itoa b)"
    using assms by (intro Cut_append) simp
  ultimately show ?thesis
    using False assms
    by (simp add: expand_part_def formatCPURange_def range_loop_def cpu_num_fits)
qed

lemma formatCPURange_no_comma: "CHR '','' \<notin> set (formatCPURange a b)"
  by (auto simp: formatCPURange_def)

lemma upto_append: "a \<le> b + 1 \<Longrightarrow> b \<le> c \<Longrightarrow> [a..b] @ [b + 1..c] = [a..c]" for a b c :: int
proof (rule strict_sorted_eqI)
  assume "a \<le> b + 1" "b \<le> c"
  then show "set ([a..b] @ [b + 1..c]) = set [a..c]" by auto
  show "sorted_wrt (<) ([a..b] @ [b + 1..c])"
    by (auto simp: sorted_wrt_append)
qed auto

lemma compress_runs_format_runs: "compress_runs a b cs = format_runs a b cs"
  by (induction a b cs rule: compress_runs.induct) (auto simp: formatCPURange_def)

lemma expand_parts_compress_runs:
  assumes "0 \<le> a" "a \<le> b" "cpu_nums (b # cs)" "sorted_wrt (<) (b # cs)"
  shows "expand_parts (compress_runs a b cs) = Inr ([a..b] @ cs)"
  using assms
proof (induction a b cs rule: compress_runs.induct)
  case (1 a b)
  then show ?case by (simp add: expand_part_range)
next
  case (2 a b c cs)
  then have w: "wrap64 (b + 1) = b + 1" by (intro wrap64_Suc) auto
  show ?case
  proof (cases "c = b + 1")
    case True
    with 2 w have "expand_parts (compress_runs a c cs) = Inr ([a..c] @ cs)" by auto
    moreover have "[a..c] = [a..b] @ [c]"
      using upto_append [of a b c] True "2.prems" by simp
    ultimately show ?thesis using True w by simp
  next
    case False
    with 2 w have "expand_parts (compress_runs c c cs) = Inr ([c..c] @ cs)" by auto
    with False w "2.prems" show ?thesis by (simp add: expand_part_range)
  qed
qed

lemma compress_runs_no_comma: "\<forall>p \<in> set (compress_runs a b cs). CHR '','' \<notin> set p"
  by (induction a b cs rule: compress_runs.induct) (auto simp: formatCPURange_no_comma)

lemma compress_runs_nonempty [simp]: "compress_runs a b cs \<noteq> []"
  by (induction a b cs rule: compress_runs.induct) auto

lemma formatCPUSet_runs:
  "cs = c # cs' \<Longrightarrow> formatCPUSet cs = Join (compress_runs c c cs') '',''"
  by (simp add: formatCPUSet_def compress_runs_format_runs)

lemma expand_formatCPUSet:
  assumes "cpu_nums cs" "sorted_wrt (<) cs" "cs \<noteq> []"
  shows "expandCPUList (formatCPUSet cs) = Inr cs"
proof -
  obtain c cs' where cs: "cs = c # cs'" using assms(3) by (cases cs) auto
  have "Split (formatCPUSet cs) (CHR '','') = compress_runs c c cs'"
    using formatCPUSet_runs [OF cs] compress_runs_no_comma by (simp add: Split_Join)
  moreover have "expand_parts (compress_runs c c cs') = Inr cs"
    using expand_parts_compress_runs [of c c cs'] assms cs by simp
  moreover have "sort cs = cs"
    using assms(2) by (simp add: sorted_sort_id strict_sorted_imp_sorted)
  ultimately show ?thesis by (simp add: expandCPUList_def)
qed

lemma compressCPUList_format:
  "compressCPUList xs = formatCPUSet (sorted_list_of_set (set xs))"
  by (simp add: compressCPUList_def formatCPUSet_def uniqueSortedInts_eq compress_runs_format_runs
      split: list.split)

text \<open>The printed form consists of digits, dashes and commas, and starts with a digit.\<close>

lemma formatCPURange_chars:
  assumes "0 \<le> a" "0 \<le> b"
  shows "set (formatCPURange a b) \<subseteq> {c. is_digit c} \<union> {CHR ''-''}" "is_digit (hd (formatCPURange a b))"
proof -
  have d: "is_digit c" if "c \<in> set (Itoa i)" "0 \<le> i" for c i using Itoa_plain that by blast
  then show "set (formatCPURange a b) \<subseteq> {c. is_digit c} \<union> {CHR ''-''}"
    using assms by (auto simp: formatCPURange_def)
  show "is_digit (hd (formatCPURange a b))"
    using d [of "hd (Itoa a)" a] d [of "hd (Itoa b)" b] assms by (simp add: formatCPURange_def hd_append)
qed

lemma formatCPURange_nonempty [simp]: "formatCPURange a b \<noteq> []" "[] \<noteq> formatCPURange a b"
  by (auto simp: formatCPURange_def dest: sym)

lemma compress_runs_chars:
  "0 \<le> a \<Longrightarrow> cpu_nums (b # cs) \<Longrightarrow>
     (\<forall>p \<in> set (compress_runs a b cs). set p \<subseteq> {c. is_digit c} \<union> {CHR ''-''} \<and> is_digit (hd p))"
proof (induction a b cs rule: compress_runs.induct)
  case (1 a b)
  then show ?case using formatCPURange_chars [of a b] by simp
next
  case (2 a b c cs)
  then show ?case using formatCPURange_chars [of a b] by (cases "c = wrap64 (b + 1)") auto
qed

lemma compressCPUList_parts:
  assumes "cpu_nums xs" "xs \<noteq> []"
  obtains ps where "compressCPUList xs = Join ps '',''" "ps \<noteq> []"
    "\<forall>p \<in> set ps. set p \<subseteq> {c. is_digit c} \<union> {CHR ''-''} \<and> is_digit (hd p) \<and> p \<noteq> [] \<and> CHR '','' \<notin> set p"
proof -
  have nz: "uniqueSortedInts xs \<noteq> []" "set (uniqueSortedInts xs) = set xs"
    using assms(2) by (simp_all add: uniqueSortedInts_eq)
  then obtain v vs where v: "uniqueSortedInts xs = v # vs" by (cases "uniqueSortedInts xs") auto
  then have nums: "0 \<le> v" "cpu_nums (v # vs)"
    using nz(2) assms(1) cpu_nums_cong [of "v # vs" xs] by auto
  have "p \<noteq> []" if "p \<in> set (compress_runs a b cs)" for p a b cs
    using that by (induction a b cs rule: compress_runs.induct) (auto split: if_splits)
  with compress_runs_chars [OF nums] compress_runs_no_comma
  show ?thesis
    by (intro that [of "compress_runs v v vs"]) (auto simp: compressCPUList_def v)
qed

lemma digits_not_space: "is_digit c \<Longrightarrow> \<not> is_space c"
  by (auto simp: is_digit_def is_space_def)

lemma compressCPUList_chars:
  assumes "cpu_nums xs" "c \<in> set (compressCPUList xs)"
  shows "is_digit c \<or> c = CHR ''-'' \<or> c = CHR '',''"
proof (cases "xs = []")
  case True
  with assms(2) show ?thesis by (simp add: compressCPUList_def uniqueSortedInts_eq)
next
  case False
  from compressCPUList_parts [OF assms(1) False] obtain ps where
    ps: "compressCPUList xs = Join ps '',''"
      "\<forall>p \<in> set ps. set p \<subseteq> {c. is_digit c} \<union> {CHR ''-''}" by metis
  have "c \<in> (\<Union>p \<in> set ps. set p) \<union> set '',''"
    using assms(2) unfolding ps(1) by (rule subsetD [OF set_Join])
  then show ?thesis
  proof
    assume "c \<in> (\<Union>p \<in> set ps. set p)"
    then obtain p where "p \<in> set ps" "c \<in> set p" by blast
    with ps(2) have "c \<in> {c. is_digit c} \<union> {CHR ''-''}" by blast
    then show ?thesis by blast
  qed simp
qed

subsection \<open>What the parser returns\<close>

lemma expand_part_bounds:
  assumes "expand_part p = Inr xs" "x \<in> set xs"
  shows "0 \<le> x \<and> x \<le> max_int64"
proof (cases "Cut (TrimSpace p) (CHR ''-'')")
  case None
  note nd = iffD1 [OF Cut_None None]
  with assms obtain v where "Atoi (TrimSpace p) = Some v" "xs = [v]"
    by (auto simp: expand_part_def Let_def split: option.splits)
  with nd assms(2) show ?thesis
    using Atoi_nonneg Atoi_fits [of "TrimSpace p" v] by (auto simp: fits64_def)
next
  case (Some lr)
  obtain l r where lr: "lr = (l, r)" by (cases lr)
  with Some have "CHR ''-'' \<notin> set l" by (simp add: Cut_Some_iff)
  then have nd: "CHR ''-'' \<notin> set (TrimSpace l)" using set_TrimSpace [of l] by auto
  from assms Some lr obtain a b where ab: "Atoi (TrimSpace l) = Some a" "Atoi (TrimSpace r) = Some b"
    "range_loop a b = Inr xs"
    by (auto simp: expand_part_def Let_def split: option.splits)
  from ab(3) assms(2) have "a \<le> x" "x \<le> b" by (auto simp: range_loop_def split: if_splits)
  with Atoi_nonneg [OF ab(1) nd] Atoi_fits [OF ab(2)] show ?thesis by (simp add: fits64_def)
qed

lemma expand_parts_bounds:
  "expand_parts ps = Inr xs \<Longrightarrow> x \<in> set xs \<Longrightarrow> 0 \<le> x \<and> x \<le> max_int64"
proof (induction ps arbitrary: xs)
  case (Cons p ps)
  then obtain ys zs where "expand_part p = Inr ys" "expand_parts ps = Inr zs" "xs = ys @ zs"
    by (cases "expand_part p"; cases "expand_parts ps") auto
  with Cons expand_part_bounds [of p ys x] show ?case by auto
qed simp

lemma expandCPUList_bounds:
  "expandCPUList s = Inr xs \<Longrightarrow> x \<in> set xs \<Longrightarrow> 0 \<le> x \<and> x \<le> max_int64"
  using expand_parts_bounds by (cases "expand_parts (Split s (CHR '',''))") (auto simp: expandCPUList_def)

subsection \<open>The interface between printers and the parser\<close>

text \<open>
  What the clients of this theory rely on: a printer of CPU lists whose output depends on the
  set of CPUs only and which the parser reads back as that set in increasing order.
\<close>

locale cpuset_codec =
  fixes show_set :: "int list \<Rightarrow> string"
    and read_set :: "string \<Rightarrow> cpu_list_error + int list"
    and printable :: "int list \<Rightarrow> bool"
  assumes printable_nums: "printable xs \<Longrightarrow> cpu_nums xs"
    and read_show: "printable xs \<Longrightarrow> xs \<noteq> [] \<Longrightarrow> read_set (show_set xs) = Inr (sorted_list_of_set (set xs))"
    and show_cong: "printable xs \<Longrightarrow> printable ys \<Longrightarrow> set xs = set ys \<Longrightarrow> show_set xs = show_set ys"
begin

lemma show_set_inject:
  assumes "printable xs" "printable ys" "xs \<noteq> []" "ys \<noteq> []"
  shows "show_set xs = show_set ys \<longleftrightarrow> set xs = set ys"
proof
  assume "show_set xs = show_set ys"
  then have "sorted_list_of_set (set xs) = sorted_list_of_set (set ys)"
    using assms read_show by (metis sum.inject(2))
  then show "set xs = set ys"
    by (metis List.finite_set sorted_list_of_set.set_sorted_key_list_of_set)
qed (rule show_cong [OF assms(1,2)])

lemma read_set_of_show:
  "printable xs \<Longrightarrow> xs \<noteq> [] \<Longrightarrow> read_set (show_set xs) = Inr ys \<Longrightarrow> set ys = set xs \<and> sorted_wrt (<) ys"
  by (auto simp: read_show)

lemma show_set_nonempty_iff:
  "printable xs \<Longrightarrow> xs \<noteq> [] \<Longrightarrow> read_set [] = Inl e \<Longrightarrow> show_set xs \<noteq> []"
  by (metis read_show sum.distinct(1))

end

interpretation compress: cpuset_codec compressCPUList expandCPUList cpu_nums
proof unfold_locales
  fix xs :: "int list"
  assume "cpu_nums xs" "xs \<noteq> []"
  then show "expandCPUList (compressCPUList xs) = Inr (sorted_list_of_set (set xs))"
    by (simp add: compressCPUList_format expand_formatCPUSet cpu_nums_def)
qed (auto simp: compressCPUList_format)

interpretation cpuset: cpuset_codec formatCPUSet expandCPUList "\<lambda>xs. cpu_nums xs \<and> sorted_wrt (<) xs"
proof unfold_locales
  fix xs :: "int list"
  assume xs: "cpu_nums xs \<and> sorted_wrt (<) xs" "xs \<noteq> []"
  then have "sorted_list_of_set (set xs) = xs"
    by (simp add: sorted_list_of_set.idem_if_sorted_distinct strict_sorted_iff)
  with xs show "expandCPUList (formatCPUSet xs) = Inr (sorted_list_of_set (set xs))"
    by (simp add: expand_formatCPUSet)
next
  fix xs ys :: "int list"
  assume "cpu_nums xs \<and> sorted_wrt (<) xs" "cpu_nums ys \<and> sorted_wrt (<) ys" "set xs = set ys"
  then have "xs = ys" using strict_sorted_eqI by blast
  then show "formatCPUSet xs = formatCPUSet ys" by simp
qed auto

subsection \<open>Properties\<close>

text \<open>\<open>expandCPUList\<close> reads back what \<open>compressCPUList\<close> prints: for any non-empty list of
  CPU numbers (in any order, with repetitions) the result is the set of its elements in
  increasing order.\<close>
theorem expand_compress_roundtrip:
  assumes "cs \<noteq> []" and "\<forall>c \<in> set cs. 0 \<le> c \<and> c < max_int64"
  shows "expandCPUList (compressCPUList cs) = Inr (sorted_list_of_set (set cs))"
  using assms by (intro compress.read_show) (simp_all add: cpu_nums_def)

lemma expand_compress_roundtrip_witness:
  "expandCPUList (compressCPUList [3, 1, 2, 9, 1]) = Inr (sorted_list_of_set {1, 2, 3, 9})"
proof -
  have "\<forall>c \<in> set [3, 1, 2, 9, 1 :: int]. 0 \<le> c \<and> c < max_int64"
    by (simp add: max_int64_def)
  from expand_compress_roundtrip [OF _ this] show ?thesis
    by (simp add: insert_commute)
qed

text \<open>The printed form is canonical: two non-empty lists of CPU numbers have the same
  compressed text exactly when they name the same set of CPUs.\<close>
theorem compress_canonical:
  assumes "xs \<noteq> []" "ys \<noteq> []" and "cpu_nums xs" "cpu_nums ys"
  shows "compressCPUList xs = compressCPUList ys \<longleftrightarrow> set xs = set ys"
  using assms by (intro compress.show_set_inject)

lemma compress_canonical_witness:
  "compressCPUList [4, 5, 6] = compressCPUList [6, 4, 5, 4] \<longleftrightarrow> set [4, 5, 6 :: int] = set [6, 4, 5, 4]"
  by (rule compress_canonical) (simp_all add: max_int64_def)

text \<open>The two in-place compactions, which overwrite the array they are reading, compute the
  list without adjacent repetitions; on a sorted copy of their input that is its set of elements
  in increasing order.\<close>
theorem in_place_compaction_correct:
  "compact_loop 0 0 ys = remdups_adj ys \<and> dedupeSortedInts ys = remdups_adj ys \<and>
   uniqueSortedInts ys = sorted_list_of_set (set ys) \<and>
   normalizeCoreIndices ys = sorted_list_of_set (set ys)"
  by (simp add: compact_loop_remdups dedupeSortedInts_eq sorted_ints)

end
