(* ===== verification/CpuPinning.thy ===== *)
theory CpuPinning
  imports CpuList "HOL-Library.AList"
begin

text \<open>
  CPU topology and the pinning plan of \<open>slave/virsh/cpu_pinning.go\<close>: reading the sockets from
  sysfs (\<open>GetCPUSockets\<close>), grouping logical CPUs into physical cores (\<open>GetPhysicalCores\<close>),
  validating a request (\<open>ValidateCPUPinningConfig\<close>) and turning it into guest pins and emulator
  CPUs (\<open>buildCPUPinningPlan\<close>).  sysfs is a parameter; index panics are a value of the error type.
\<close>

subsection \<open>Data\<close>

record CPUInfo =
  CPUID :: int
  Siblings :: "int list"

record CPUSocket =
  SocketID :: int
  CPUs :: "CPUInfo list"

record PhysicalCore =
  CoreIndex :: int
  PhysicalID :: int
  CoreSiblings :: "int list"

record CPUPinningConfig =
  RangeStart :: int
  RangeEnd :: int
  HyperThreading :: bool
  ConfigSocketID :: int

record cpupinningPlan =
  GuestPins :: "VCPUPin list"
  EmulatorCPUs :: "int list"
  GuestPhysicalCores :: int
  ThreadsPerCore :: int

datatype pin_error =
    NegativeRangeStart int
  | RangeEndBeforeStart int int
  | SocketNotFound int "int list"
  | NoPhysicalCores int
  | RangeEndTooLarge int int
  | NoHTSibling int int
  | NoCoresSelected
  | GuestWithoutCores
  | NoGuestPins
  | IndexPanic  \<comment> \<open>\<open>cpu.Siblings[0]\<close> on an empty list\<close>

subsection \<open>Reading the topology\<close>

record sysfs =
  ReadDir :: "string \<Rightarrow> string list option"
  ReadFile :: "string \<Rightarrow> string option"

definition PathJoin :: "string list \<Rightarrow> string" where
  "PathJoin ps = Join ps ''/''"

definition readIntFromFile :: "sysfs \<Rightarrow> string \<Rightarrow> int option" where
  "readIntFromFile fs path =
     (case ReadFile fs path of None \<Rightarrow> None | Some data \<Rightarrow> Atoi (TrimSpace data))"

definition parseCPUList :: "sysfs \<Rightarrow> string \<Rightarrow> int list option" where
  "parseCPUList fs path =
     (case ReadFile fs path of
        None \<Rightarrow> None
      | Some data \<Rightarrow> (case expandCPUList (TrimSpace data) of Inl _ \<Rightarrow> None | Inr cpus \<Rightarrow> Some cpus))"

definition cpu_base_path :: string where "cpu_base_path = ''/sys/devices/system/cpu''"

text \<open>One iteration of the loop over the directory: the socket and CPU an entry describes.\<close>

definition cpu_entry :: "sysfs \<Rightarrow> string \<Rightarrow> (int \<times> CPUInfo) option" where
  "cpu_entry fs name =
     (if \<not> HasPrefix name ''cpu'' then None
      else (case Atoi (TrimPrefix name ''cpu'') of
              None \<Rightarrow> None
            | Some cpuID \<Rightarrow>
                (let topologyPath = PathJoin [cpu_base_path, name, ''topology''] in
                 case readIntFromFile fs (PathJoin [topologyPath, ''physical_package_id'']) of
                   None \<Rightarrow> None
                 | Some socketID \<Rightarrow>
                     Some (socketID,
                       \<lparr>CPUID = cpuID,
                        Siblings = (case parseCPUList fs (PathJoin [topologyPath, ''thread_siblings_list'']) of
                                      None \<Rightarrow> [cpuID] | Some sibs \<Rightarrow> sibs)\<rparr>))))"

fun socket_map :: "sysfs \<Rightarrow> string list \<Rightarrow> (int \<times> CPUInfo list) list \<Rightarrow> (int \<times> CPUInfo list) list" where
  "socket_map fs [] m = m"
| "socket_map fs (name # names) m =
     (case cpu_entry fs name of
        None \<Rightarrow> socket_map fs names m
      | Some (sid, info) \<Rightarrow>
          socket_map fs names (AList.map_default sid [info] (\<lambda>cpus. cpus @ [info]) m))"

definition GetCPUSockets :: "sysfs \<Rightarrow> CPUSocket list option" where
  "GetCPUSockets fs =
     (case ReadDir fs cpu_base_path of
        None \<Rightarrow> None
      | Some entries \<Rightarrow>
          Some (sort_key SocketID
                 (map (\<lambda>(sid, cpus). \<lparr>SocketID = sid, CPUs = sort_key CPUID cpus\<rparr>)
                   (socket_map fs entries []))))"

subsection \<open>Physical cores\<close>

definition min_sibling :: "int \<Rightarrow> int list \<Rightarrow> int" where
  "min_sibling s0 sibs = foldl (\<lambda>m s. if s < m then s else m) s0 sibs"

fun phys_loop :: "CPUInfo list \<Rightarrow> int list \<Rightarrow> PhysicalCore list \<Rightarrow> pin_error + PhysicalCore list" where
  "phys_loop [] seen cores = Inr cores"
| "phys_loop (cpu # cpus) seen cores =
     (case Siblings cpu of
        [] \<Rightarrow> Inl IndexPanic
      | s0 # rest \<Rightarrow>
          (let minSib = min_sibling s0 (Siblings cpu) in
           if minSib \<in> set seen then phys_loop cpus seen cores
           else phys_loop cpus (minSib # seen)
                  (cores @ [\<lparr>CoreIndex = 0, PhysicalID = minSib, CoreSiblings = sort (Siblings cpu)\<rparr>])))"

definition index_cores :: "PhysicalCore list \<Rightarrow> PhysicalCore list" where
  "index_cores cores = map (\<lambda>(i, c). c\<lparr>CoreIndex := int i\<rparr>) (enumerate 0 cores)"

definition GetPhysicalCores :: "CPUSocket \<Rightarrow> pin_error + PhysicalCore list" where
  "GetPhysicalCores socket =
     map_sum id (\<lambda>cores. index_cores (sort_key PhysicalID cores)) (phys_loop (CPUs socket) [] [])"

subsection \<open>Validation\<close>

definition socketIDs :: "CPUSocket list \<Rightarrow> int list" where
  "socketIDs sockets = map SocketID sockets"

fun getSocketByID :: "CPUSocket list \<Rightarrow> int \<Rightarrow> CPUSocket option" where
  "getSocketByID [] socketID = None"
| "getSocketByID (s # ss) socketID = (if SocketID s = socketID then Some s else getSocketByID ss socketID)"

fun ht_check :: "PhysicalCore list \<Rightarrow> int \<Rightarrow> pin_error option" where
  "ht_check [] i = None"
| "ht_check (core # cores) i =
     (if length (CoreSiblings core) < 2 then Some (NoHTSibling i (PhysicalID core))
      else ht_check cores (i + 1))"

text \<open>\<open>physCores[lo : hi+1]\<close>, for bounds the caller has checked.\<close>

definition core_slice :: "PhysicalCore list \<Rightarrow> int \<Rightarrow> int \<Rightarrow> PhysicalCore list" where
  "core_slice cores lo hi = take (nat (hi + 1 - lo)) (drop (nat lo) cores)"

definition ValidateCPUPinningConfig :: "CPUPinningConfig \<Rightarrow> CPUSocket list \<Rightarrow> pin_error option" where
  "ValidateCPUPinningConfig config sockets =
     (if RangeStart config < 0 then Some (NegativeRangeStart (RangeStart config))
      else if RangeEnd config < RangeStart config
           then Some (RangeEndBeforeStart (RangeEnd config) (RangeStart config))
      else (case getSocketByID sockets (ConfigSocketID config) of
              None \<Rightarrow> Some (SocketNotFound (ConfigSocketID config) (socketIDs sockets))
            | Some socket \<Rightarrow>
                (case GetPhysicalCores socket of
                   Inl e \<Rightarrow> Some e
                 | Inr physCores \<Rightarrow>
                     (if physCores = [] then Some (NoPhysicalCores (ConfigSocketID config))
                      else if int (length physCores) \<le> RangeEnd config
                           then Some (RangeEndTooLarge (RangeEnd config) (int (length physCores)))
                      else if HyperThreading config
                           then ht_check (core_slice physCores (RangeStart config) (RangeEnd config))
                                  (RangeStart config)
                      else None))))"

subsection \<open>The plan\<close>

definition emulatorReservedPhysicalCoreCount :: "CPUPinningConfig \<Rightarrow> int \<Rightarrow> int" where
  "emulatorReservedPhysicalCoreCount config selectedPhysicalCores =
     (if selectedPhysicalCores \<le> 1 then 0 else if selectedPhysicalCores < 4 then 0 else 1)"

definition VCPUCount :: "CPUPinningConfig \<Rightarrow> int" where
  "VCPUCount config =
     (let numCores0 = wrap64 (wrap64 (RangeEnd config - RangeStart config) + 1) in
      if numCores0 \<le> 0 then 0
      else (let numCores1 = numCores0 - emulatorReservedPhysicalCoreCount config numCores0;
                numCores = (if numCores1 < 1 then 1 else numCores1)
            in if HyperThreading config then wrap64 (numCores * 2) else numCores))"

fun pins_of_siblings :: "int list \<Rightarrow> int \<Rightarrow> VCPUPin list" where
  "pins_of_siblings [] idx = []"
| "pins_of_siblings (sib # sibs) idx =
     \<lparr>VCPU = idx, CPUSet = Itoa sib\<rparr> # pins_of_siblings sibs (idx + 1)"

fun pins_from :: "PhysicalCore list \<Rightarrow> bool \<Rightarrow> int \<Rightarrow> VCPUPin list" where
  "pins_from [] hyperThreading idx = []"
| "pins_from (core # cores) hyperThreading idx =
     (if hyperThreading
      then pins_of_siblings (CoreSiblings core) idx
             @ pins_from cores hyperThreading (idx + int (length (CoreSiblings core)))
      else \<lparr>VCPU = idx, CPUSet = Itoa (PhysicalID core)\<rparr> # pins_from cores hyperThreading (idx + 1))"

definition buildPinsFromPhysicalCores :: "PhysicalCore list \<Rightarrow> bool \<Rightarrow> VCPUPin list" where
  "buildPinsFromPhysicalCores cores hyperThreading = pins_from cores hyperThreading 0"

definition emulator_cpus_of :: "bool \<Rightarrow> PhysicalCore \<Rightarrow> int list" where
  "emulator_cpus_of hyperThreading core =
     (if CoreSiblings core = [] then []
      else if hyperThreading then CoreSiblings core else [PhysicalID core])"

definition buildEmulatorPinCPUsFromPhysicalCores :: "PhysicalCore list \<Rightarrow> bool \<Rightarrow> int list" where
  "buildEmulatorPinCPUsFromPhysicalCores cores hyperThreading =
     (if cores = [] then []
      else dedupeSortedInts (sort (concat (map (emulator_cpus_of hyperThreading) cores))))"

text \<open>The body of \<open>buildCPUPinningPlan\<close> once the cores of the range have been selected.\<close>

definition plan_of_cores :: "CPUPinningConfig \<Rightarrow> PhysicalCore list \<Rightarrow> pin_error + cpupinningPlan" where
  "plan_of_cores config selectedCores =
     (if selectedCores = [] then Inl NoCoresSelected
      else
        (let n = int (length selectedCores);
             reserve0 = emulatorReservedPhysicalCoreCount config n;
             reserve1 = (if n \<le> reserve0 then n - 1 else reserve0);
             reserveCores = (if reserve1 < 0 then 0 else reserve1);
             guestCoreCount = n - reserveCores in
         if guestCoreCount \<le> 0 then Inl GuestWithoutCores
         else
           (let guestCores = take (nat guestCoreCount) selectedCores;
                emulatorCores = drop (nat guestCoreCount) selectedCores;
                guestPins = buildPinsFromPhysicalCores guestCores (HyperThreading config) in
            if guestPins = [] then Inl NoGuestPins
            else
              (let emulatorCPUs0 = buildEmulatorPinCPUsFromPhysicalCores emulatorCores (HyperThreading config);
                   emulatorCPUs = (if emulatorCPUs0 = [] then collectAllCPUs guestPins else emulatorCPUs0)
               in Inr \<lparr>GuestPins = guestPins, EmulatorCPUs = emulatorCPUs,
                       GuestPhysicalCores = guestCoreCount,
                       ThreadsPerCore = (if HyperThreading config then 2 else 1)\<rparr>))))"

definition buildCPUPinningPlan :: "CPUPinningConfig \<Rightarrow> CPUSocket list \<Rightarrow> pin_error + cpupinningPlan" where
  "buildCPUPinningPlan config sockets =
     (case ValidateCPUPinningConfig config sockets of
        Some e \<Rightarrow> Inl e
      | None \<Rightarrow>
          (case getSocketByID sockets (ConfigSocketID config) of
             None \<Rightarrow> Inl (SocketNotFound (ConfigSocketID config) (socketIDs sockets))
           | Some socket \<Rightarrow>
               (case GetPhysicalCores socket of
                  Inl e \<Rightarrow> Inl e
                | Inr physCores \<Rightarrow>
                    plan_of_cores config
                      (core_slice physCores (RangeStart config) (RangeEnd config)))))"

definition BuildVCPUPins :: "CPUPinningConfig \<Rightarrow> CPUSocket list \<Rightarrow> pin_error + VCPUPin list" where
  "BuildVCPUPins config sockets = map_sum id GuestPins (buildCPUPinningPlan config sockets)"

subsection \<open>Well-formed topologies\<close>

text \<open>
  What the kernel guarantees of \<open>thread_siblings_list\<close>: every CPU belongs to its own non-empty
  group of siblings, and two groups are equal or disjoint.
\<close>

definition wf_socket :: "CPUSocket \<Rightarrow> bool" where
  "wf_socket socket \<longleftrightarrow>
     list_all (\<lambda>c. Siblings c \<noteq> [] \<and> distinct (Siblings c) \<and> cpu_nums (Siblings c)) (CPUs socket) \<and>
     list_all (\<lambda>c. list_all (\<lambda>d. set (Siblings c) \<inter> set (Siblings d) = {} \<or>
                                  set (Siblings c) = set (Siblings d)) (CPUs socket)) (CPUs socket)"

definition core_of :: "CPUInfo \<Rightarrow> PhysicalCore \<Rightarrow> bool" where
  "core_of c k \<longleftrightarrow> PhysicalID k = Min (set (Siblings c)) \<and> CoreSiblings k = sort (Siblings c)"

lemma foldl_min: "foldl (\<lambda>m s. if s < m then s else m) a xs = Min (insert a (set xs))"
  for a :: int
proof (induction xs arbitrary: a)
  case Nil
  then show ?case by simp
next
  case (Cons x xs)
  have "Min (insert a (insert x (set xs))) = Min (insert (min a x) (set xs))"
    by (cases "set xs = {}") (auto simp: min.assoc)
  with Cons show ?case by (simp add: min_def)
qed

lemma min_sibling_Min: "s0 \<in> set sibs \<Longrightarrow> min_sibling s0 sibs = Min (set sibs)"
  by (simp add: min_sibling_def foldl_min insert_absorb)

lemma phys_loop_spec:
  assumes "\<forall>c \<in> set cpus. Siblings c \<noteq> []"
  shows "\<exists>new. phys_loop cpus seen cores = Inr (cores @ new) \<and> distinct (map PhysicalID new) \<and>
           set (map PhysicalID new) = (\<lambda>c. Min (set (Siblings c))) ` set cpus - set seen \<and>
           (\<forall>k \<in> set new. \<exists>c \<in> set cpus. core_of c k)"
  using assms
proof (induction cpus arbitrary: seen cores)
  case Nil
  then show ?case by simp
next
  case (Cons c cpus)
  let ?m = "Min (set (Siblings c))"
  let ?k = "\<lparr>CoreIndex = 0, PhysicalID = ?m, CoreSiblings = sort (Siblings c)\<rparr>"
  obtain s0 rest where sibs: "Siblings c = s0 # rest"
    using Cons.prems by (cases "Siblings c") auto
  then have m: "min_sibling s0 (Siblings c) = ?m"
    by (intro min_sibling_Min) simp
  have tail: "\<forall>c \<in> set cpus. Siblings c \<noteq> []" using Cons.prems by simp
  show ?case
  proof (cases "?m \<in> set seen")
    case True
    then have "phys_loop (c # cpus) seen cores = phys_loop cpus seen cores"
      using sibs m by (simp add: Let_def)
    with Cons.IH [OF tail, of seen cores] True show ?thesis by auto
  next
    case False
    then have step: "phys_loop (c # cpus) seen cores = phys_loop cpus (?m # seen) (cores @ [?k])"
      using sibs m by (simp add: Let_def)
    from Cons.IH [OF tail, of "?m # seen" "cores @ [?k]"] obtain new where
      new: "phys_loop cpus (?m # seen) (cores @ [?k]) = Inr ((cores @ [?k]) @ new)"
        "distinct (map PhysicalID new)"
        "set (map PhysicalID new) = (\<lambda>c. Min (set (Siblings c))) ` set cpus - set (?m # seen)"
        "\<forall>k \<in> set new. \<exists>c \<in> set cpus. core_of c k"
      by blast
    have "core_of c ?k" by (simp add: core_of_def)
    with new step False show ?thesis
      by (intro exI [of _ "?k # new"]) auto
  qed
qed

lemma phys_loop_panic:
  "\<exists>c \<in> set cpus. Siblings c = [] \<Longrightarrow> phys_loop cpus seen cores = Inl IndexPanic"
proof (induction cpus arbitrary: seen cores)
  case (Cons c cpus)
  then show ?case by (cases "Siblings c") (auto simp: Let_def)
qed simp

lemma length_index_cores [simp]: "length (index_cores cores) = length cores"
  by (simp add: index_cores_def)

lemma nth_index_cores:
  "i < length cores \<Longrightarrow> index_cores cores ! i = (cores ! i)\<lparr>CoreIndex := int i\<rparr>"
  by (simp add: index_cores_def nth_enumerate_eq)

lemma map_index_cores:
  assumes "\<And>k x. f (k\<lparr>CoreIndex := x\<rparr>) = f k"
  shows "map f (index_cores cores) = map f cores"
  by (rule nth_equalityI) (auto simp: nth_index_cores assms)

lemma map_PhysicalID_index [simp]: "map PhysicalID (index_cores cores) = map PhysicalID cores"
  by (rule map_index_cores) simp

lemma map_CoreSiblings_index [simp]: "map CoreSiblings (index_cores cores) = map CoreSiblings cores"
  by (rule map_index_cores) simp

definition cores_spec :: "CPUSocket \<Rightarrow> PhysicalCore list \<Rightarrow> bool" where
  "cores_spec socket cores \<longleftrightarrow>
     sorted_wrt (<) (map PhysicalID cores) \<and>
     set (map PhysicalID cores) = (\<lambda>c. Min (set (Siblings c))) ` set (CPUs socket) \<and>
     (\<forall>i < length cores. CoreIndex (cores ! i) = int i) \<and>
     (\<forall>k \<in> set cores. \<exists>c \<in> set (CPUs socket). core_of c k)"

lemma GetPhysicalCores_spec:
  assumes "\<forall>c \<in> set (CPUs socket). Siblings c \<noteq> []"
  shows "\<exists>cores. GetPhysicalCores socket = Inr cores \<and> cores_spec socket cores"
proof -
  from phys_loop_spec [OF assms, of "[]" "[]"] obtain new where
    new: "phys_loop (CPUs socket) [] [] = Inr new" "distinct (map PhysicalID new)"
      "set (map PhysicalID new) = (\<lambda>c. Min (set (Siblings c))) ` set (CPUs socket)"
      "\<forall>k \<in> set new. \<exists>c \<in> set (CPUs socket). core_of c k"
    by auto
  let ?s = "sort_key PhysicalID new"
  let ?cores = "index_cores ?s"
  have "distinct (map PhysicalID ?s)"
    using new(2) by (metis card_distinct distinct_card length_map length_sort set_map set_sort)
  then have "sorted_wrt (<) (map PhysicalID ?cores)"
    by (simp add: strict_sorted_iff)
  moreover have "\<forall>k \<in> set ?cores. \<exists>c \<in> set (CPUs socket). core_of c k"
  proof
    fix k assume "k \<in> set ?cores"
    then obtain i where i: "i < length ?s" "k = (?s ! i)\<lparr>CoreIndex := int i\<rparr>"
      by (auto simp: in_set_conv_nth nth_index_cores)
    then have "?s ! i \<in> set new" by (metis nth_mem set_sort)
    with new(4) i show "\<exists>c \<in> set (CPUs socket). core_of c k" by (auto simp: core_of_def)
  qed
  ultimately have "cores_spec socket ?cores"
    using new(3) by (simp add: cores_spec_def nth_index_cores)
  moreover have "GetPhysicalCores socket = Inr ?cores"
    using new(1) by (simp add: GetPhysicalCores_def)
  ultimately show ?thesis by blast
qed

subsection \<open>Disjointness of cores\<close>

lemma wf_socketD:
  assumes "wf_socket socket" "c \<in> set (CPUs socket)"
  shows "Siblings c \<noteq> []" "distinct (Siblings c)" "cpu_nums (Siblings c)"
    "d \<in> set (CPUs socket) \<Longrightarrow> x \<in> set (Siblings c) \<Longrightarrow> x \<in> set (Siblings d) \<Longrightarrow>
       set (Siblings c) = set (Siblings d)"
  using assms by (auto simp: wf_socket_def list_all_iff)

lemma core_of_props:
  assumes "wf_socket socket" "c \<in> set (CPUs socket)" "core_of c k"
  shows "CoreSiblings k \<noteq> []" "distinct (CoreSiblings k)" "cpu_nums (CoreSiblings k)"
    "PhysicalID k \<in> set (CoreSiblings k)" "set (CoreSiblings k) = set (Siblings c)"
proof -
  note c = wf_socketD(1,2,3) [OF assms(1,2)]
  from assms(3) show s: "set (CoreSiblings k) = set (Siblings c)" by (simp add: core_of_def)
  have "CoreSiblings k = sort (Siblings c)" using assms(3) by (simp add: core_of_def)
  then show "CoreSiblings k \<noteq> []" "distinct (CoreSiblings k)"
    using c by (metis set_empty set_sort, simp)
  show "cpu_nums (CoreSiblings k)" using c s by (simp add: cpu_nums_def)
  show "PhysicalID k \<in> set (CoreSiblings k)"
    using assms(3) c s by (simp add: core_of_def)
qed

lemma cores_disjoint:
  assumes wf: "wf_socket socket" and sp: "cores_spec socket cores"
    and k: "k \<in> set cores" "k' \<in> set cores" and x: "x \<in> set (CoreSiblings k)" "x \<in> set (CoreSiblings k')"
  shows "k = k'"
proof -
  obtain c c' where c: "c \<in> set (CPUs socket)" "core_of c k"
    and c': "c' \<in> set (CPUs socket)" "core_of c' k'"
    using sp k unfolding cores_spec_def by metis
  have "set (Siblings c) = set (Siblings c')"
    using wf_socketD(4) [OF wf c(1) c'(1)] x core_of_props(5) [OF wf c] core_of_props(5) [OF wf c'] by simp
  then have id: "PhysicalID k = PhysicalID k'" using c c' by (simp add: core_of_def)
  have "inj_on PhysicalID (set cores)"
    using sp by (metis cores_spec_def distinct_map strict_sorted_iff)
  with id k show ?thesis by (auto dest: inj_onD)
qed

definition core_cpus :: "bool \<Rightarrow> PhysicalCore \<Rightarrow> int list" where
  "core_cpus ht core = (if ht then CoreSiblings core else [PhysicalID core])"

definition host_cpus :: "bool \<Rightarrow> PhysicalCore list \<Rightarrow> int list" where
  "host_cpus ht cores = concat (map (core_cpus ht) cores)"

lemma host_cpus_append [simp]: "host_cpus ht (xs @ ys) = host_cpus ht xs @ host_cpus ht ys"
  by (simp add: host_cpus_def)

lemma cores_distinct: "cores_spec socket cores \<Longrightarrow> distinct cores"
  by (metis cores_spec_def distinct_map strict_sorted_iff)

lemma core_cpus_subset:
  assumes "wf_socket socket" "cores_spec socket cores" "k \<in> set cores"
  shows "set (core_cpus ht k) \<subseteq> set (CoreSiblings k)" "core_cpus ht k \<noteq> []"
    "distinct (core_cpus ht k)" "cpu_nums (core_cpus ht k)"
proof -
  obtain c where "c \<in> set (CPUs socket)" "core_of c k"
    using assms by (auto simp: cores_spec_def)
  note k = core_of_props [OF assms(1) this]
  show "set (core_cpus ht k) \<subseteq> set (CoreSiblings k)" "core_cpus ht k \<noteq> []"
    "distinct (core_cpus ht k)" "cpu_nums (core_cpus ht k)"
    using k by (auto simp: core_cpus_def cpu_nums_def)
qed

lemma distinct_host_cpus:
  assumes "wf_socket socket" "cores_spec socket cores" "set sel \<subseteq> set cores" "distinct sel"
  shows "distinct (host_cpus ht sel)"
  using assms(3,4)
proof (induction sel)
  case Nil
  then show ?case by (simp add: host_cpus_def)
next
  case (Cons k sel)
  have "set (core_cpus ht k) \<inter> set (host_cpus ht sel) = {}"
  proof (rule ccontr)
    assume "set (core_cpus ht k) \<inter> set (host_cpus ht sel) \<noteq> {}"
    then obtain x k' where "x \<in> set (core_cpus ht k)" "k' \<in> set sel" "x \<in> set (core_cpus ht k')"
      by (auto simp: host_cpus_def)
    then have "k = k'"
      using cores_disjoint [OF assms(1,2), of k k' x] core_cpus_subset(1) [OF assms(1,2)] Cons.prems
      by (meson in_mono list.set_intros)
    with \<open>k' \<in> set sel\<close> Cons.prems show False by simp
  qed
  with Cons core_cpus_subset(3) [OF assms(1,2), of k ht] show ?case
    by (simp add: host_cpus_def)
qed

lemma host_cpus_nums:
  "wf_socket socket \<Longrightarrow> cores_spec socket cores \<Longrightarrow> set sel \<subseteq> set cores \<Longrightarrow> cpu_nums (host_cpus ht sel)"
  using core_cpus_subset(4) by (fastforce simp: host_cpus_def cpu_nums_def)

subsection \<open>Pins\<close>

definition pins_for :: "int \<Rightarrow> int list \<Rightarrow> VCPUPin list" where
  "pins_for idx cpus = map (\<lambda>(i, c). \<lparr>VCPU = idx + int i, CPUSet = Itoa c\<rparr>) (enumerate 0 cpus)"

lemma pins_for_Cons:
  "pins_for idx (c # cs) = \<lparr>VCPU = idx, CPUSet = Itoa c\<rparr> # pins_for (idx + 1) cs"
  by (rule nth_equalityI)
     (auto simp: pins_for_def nth_enumerate_eq nth_Cons split: nat.splits simp del: enumerate_simps)

lemma length_pins_for [simp]: "length (pins_for idx cpus) = length cpus"
  by (simp add: pins_for_def)

lemma pins_for_Nil [simp]: "pins_for idx [] = []"
  by (simp add: pins_for_def)

lemma pins_for_append:
  "pins_for idx (xs @ ys) = pins_for idx xs @ pins_for (idx + int (length xs)) ys"
  by (induction xs arbitrary: idx) (auto simp: pins_for_Cons ac_simps)

lemma pins_of_siblings_for: "pins_of_siblings sibs idx = pins_for idx sibs"
  by (induction sibs idx rule: pins_of_siblings.induct) (auto simp: pins_for_Cons)

lemma pins_from_for: "pins_from cores ht idx = pins_for idx (host_cpus ht cores)"
  by (induction cores ht idx rule: pins_from.induct)
     (auto simp: host_cpus_def core_cpus_def pins_for_Cons pins_for_append pins_of_siblings_for)

lemma map_VCPU_pins_for: "map VCPU (pins_for idx cpus) = map (\<lambda>i. idx + int i) [0..<length cpus]"
  by (rule nth_equalityI) (auto simp: pins_for_def nth_enumerate_eq)

lemma map_CPUSet_pins_for: "map CPUSet (pins_for idx cpus) = map Itoa cpus"
  by (rule nth_equalityI) (auto simp: pins_for_def nth_enumerate_eq)

lemma pin_cpus_single: "0 \<le> c \<Longrightarrow> c < max_int64 \<Longrightarrow> CPUSet p = Itoa c \<Longrightarrow> pin_cpus p = [c]"
  using expand_part_range [of c c] by (simp add: pin_cpus_def expandCPUList_def formatCPURange_def)

lemma collectAllCPUs_pins_for:
  assumes "cpu_nums cpus"
  shows "collectAllCPUs (pins_for idx cpus) = sorted_list_of_set (set cpus)"
proof -
  have "(\<Union>p \<in> set (pins_for idx cpus). set (pin_cpus p)) = set cpus"
    using assms
  proof (induction cpus arbitrary: idx)
    case (Cons c cs)
    have "pin_cpus \<lparr>VCPU = idx, CPUSet = Itoa c\<rparr> = [c]"
      using Cons.prems by (intro pin_cpus_single) auto
    with Cons show ?case by (simp add: pins_for_Cons)
  qed simp
  then show ?thesis by (simp add: collectAllCPUs_def)
qed

lemma emulator_cpus_of_core:
  assumes "wf_socket socket" "cores_spec socket cores" "k \<in> set cores"
  shows "emulator_cpus_of ht k = core_cpus ht k"
proof -
  obtain c where "c \<in> set (CPUs socket)" "core_of c k"
    using assms by (auto simp: cores_spec_def)
  then have "CoreSiblings k \<noteq> []" using core_of_props(1) [OF assms(1)] by blast
  then show ?thesis by (simp add: emulator_cpus_of_def core_cpus_def)
qed

lemma buildEmulatorPinCPUs_eq:
  assumes "wf_socket socket" "cores_spec socket cores" "set sel \<subseteq> set cores"
  shows "buildEmulatorPinCPUsFromPhysicalCores sel ht = sorted_list_of_set (set (host_cpus ht sel))"
proof -
  have "map (emulator_cpus_of ht) sel = map (core_cpus ht) sel"
    using emulator_cpus_of_core [OF assms(1,2)] assms(3) by auto
  then show ?thesis
    by (simp add: buildEmulatorPinCPUsFromPhysicalCores_def host_cpus_def dedupeSortedInts_eq remdups_adj_sort)
qed

subsection \<open>What a successful plan is\<close>

definition guest_part :: "PhysicalCore list \<Rightarrow> PhysicalCore list" where
  "guest_part sel = (if length sel < 4 then sel else butlast sel)"

definition emulator_part :: "PhysicalCore list \<Rightarrow> PhysicalCore list" where
  "emulator_part sel = (if length sel < 4 then [] else [last sel])"

lemma guest_emulator_append: "guest_part sel @ emulator_part sel = sel"
  by (cases "sel = []") (auto simp: guest_part_def emulator_part_def)

lemma guest_part_nonempty: "sel \<noteq> [] \<Longrightarrow> guest_part sel \<noteq> []"
  by (cases sel rule: rev_cases) (auto simp: guest_part_def)

lemma validate_None_iff:
  assumes "getSocketByID sockets (ConfigSocketID config) = Some socket"
    and "GetPhysicalCores socket = Inr cores"
  shows "ValidateCPUPinningConfig config sockets = None \<longleftrightarrow>
           0 \<le> RangeStart config \<and> RangeStart config \<le> RangeEnd config \<and>
           RangeEnd config < int (length cores) \<and>
           (HyperThreading config \<longrightarrow>
              ht_check (core_slice cores (RangeStart config) (RangeEnd config)) (RangeStart config) = None)"
  using assms by (auto simp: ValidateCPUPinningConfig_def)

lemma ht_check_None: "ht_check cores i = None \<longleftrightarrow> (\<forall>k \<in> set cores. 2 \<le> length (CoreSiblings k))"
  by (induction cores i rule: ht_check.induct) auto

lemma set_core_slice: "set (core_slice cores lo hi) \<subseteq> set cores"
  unfolding core_slice_def by (meson order_trans set_drop_subset set_take_subset)

lemma length_core_slice:
  assumes "0 \<le> lo" "lo \<le> hi" "hi < int (length cores)"
  shows "length (core_slice cores lo hi) = nat (hi - lo + 1)"
proof -
  have "nat (hi + 1 - lo) \<le> length cores - nat lo" using assms by linarith
  then show ?thesis by (simp add: core_slice_def min_def algebra_simps)
qed

lemma distinct_core_slice: "distinct cores \<Longrightarrow> distinct (core_slice cores lo hi)"
  by (simp add: core_slice_def)

lemma host_cpus_nonempty:
  assumes "wf_socket socket" "cores_spec socket cores" "set sel \<subseteq> set cores" "sel \<noteq> []"
  shows "host_cpus ht sel \<noteq> []"
  using core_cpus_subset(2) [OF assms(1,2)] assms(3,4) by (cases sel) (auto simp: host_cpus_def)

lemma drop_but_one: "sel \<noteq> [] \<Longrightarrow> drop (length sel - 1) sel = [last sel]"
  by (metis append_butlast_last_id append_eq_conv_conj length_butlast)

lemma plan_of_small:
  assumes "sel \<noteq> []" "length sel < 4" "pins = buildPinsFromPhysicalCores sel (HyperThreading config)" "pins \<noteq> []"
  shows "plan_of_cores config sel =
           Inr \<lparr>GuestPins = pins, EmulatorCPUs = collectAllCPUs pins, GuestPhysicalCores = int (length sel),
                ThreadsPerCore = (if HyperThreading config then 2 else 1)\<rparr>"
proof -
  have "emulatorReservedPhysicalCoreCount config (int (length sel)) = 0"
    using assms(2) by (simp add: emulatorReservedPhysicalCoreCount_def)
  moreover have "0 < length sel" using assms(1) by simp
  ultimately show ?thesis
    using assms by (simp add: plan_of_cores_def Let_def buildEmulatorPinCPUsFromPhysicalCores_def)
qed

lemma plan_of_large:
  assumes "\<not> length sel < 4"
    and "pins = buildPinsFromPhysicalCores (butlast sel) (HyperThreading config)" "pins \<noteq> []"
    and "emus = buildEmulatorPinCPUsFromPhysicalCores [last sel] (HyperThreading config)" "emus \<noteq> []"
  shows "plan_of_cores config sel =
           Inr \<lparr>GuestPins = pins, EmulatorCPUs = emus, GuestPhysicalCores = int (length sel) - 1,
                ThreadsPerCore = (if HyperThreading config then 2 else 1)\<rparr>"
proof -
  have r: "emulatorReservedPhysicalCoreCount config (int (length sel)) = 1"
    using assms(1) by (auto simp: emulatorReservedPhysicalCoreCount_def)
  have ne: "sel \<noteq> []" using assms(1) by auto
  have n: "nat (int (length sel) - 1) = length sel - Suc 0" "\<not> int (length sel) \<le> 1"
    using assms(1) by linarith+
  have td: "take (length sel - Suc 0) sel = butlast sel" "drop (length sel - Suc 0) sel = [last sel]"
    using drop_but_one [OF ne] by (simp_all add: butlast_conv_take)
  show ?thesis
    using assms(3,5) ne n(2)
    by (simp add: plan_of_cores_def Let_def r n(1) td assms(2,4) [symmetric])
qed

text \<open>The plan in terms of the selected cores, once the request has been validated.\<close>

lemma selected_cores:
  assumes "getSocketByID sockets (ConfigSocketID config) = Some socket"
    and "GetPhysicalCores socket = Inr cores"
    and "ValidateCPUPinningConfig config sockets = None"
  shows "length (core_slice cores (RangeStart config) (RangeEnd config)) =
           nat (RangeEnd config - RangeStart config + 1)"
    and "core_slice cores (RangeStart config) (RangeEnd config) \<noteq> []"
proof -
  have rng: "0 \<le> RangeStart config" "RangeStart config \<le> RangeEnd config" "RangeEnd config < int (length cores)"
    using assms(3) validate_None_iff [OF assms(1,2)] by auto
  then show l: "length (core_slice cores (RangeStart config) (RangeEnd config)) =
           nat (RangeEnd config - RangeStart config + 1)"
    by (rule length_core_slice)
  have "0 < nat (RangeEnd config - RangeStart config + 1)" using rng by simp
  then show "core_slice cores (RangeStart config) (RangeEnd config) \<noteq> []"
    unfolding l [symmetric] by simp
qed

lemma plan_eq:
  assumes wf: "wf_socket socket"
    and so: "getSocketByID sockets (ConfigSocketID config) = Some socket"
    and pc: "GetPhysicalCores socket = Inr cores" "cores_spec socket cores"
    and ok: "ValidateCPUPinningConfig config sockets = None"
    and sel: "sel = core_slice cores (RangeStart config) (RangeEnd config)"
  shows "buildCPUPinningPlan config sockets =
           Inr \<lparr>GuestPins = pins_for 0 (host_cpus (HyperThreading config) (guest_part sel)),
                EmulatorCPUs = sorted_list_of_set (set (host_cpus (HyperThreading config)
                   (if length sel < 4 then sel else [last sel]))),
                GuestPhysicalCores = int (length (guest_part sel)),
                ThreadsPerCore = (if HyperThreading config then 2 else 1)\<rparr>"
proof -
  let ?ht = "HyperThreading config"
  have ne: "sel \<noteq> []" using selected_cores [OF so pc(1) ok] sel by simp
  have "set sel \<subseteq> set cores" unfolding sel by (rule set_core_slice)
  then have subs: "set (guest_part sel) \<subseteq> set cores" "set (emulator_part sel) \<subseteq> set cores"
    using guest_emulator_append [of sel] by (metis Un_subset_iff set_append)+
  have pins: "buildPinsFromPhysicalCores ks ?ht = pins_for 0 (host_cpus ?ht ks)" for ks
    by (simp add: buildPinsFromPhysicalCores_def pins_from_for)
  have pne: "pins_for 0 (host_cpus ?ht (guest_part sel)) \<noteq> []"
    using host_cpus_nonempty [OF wf pc(2) subs(1)] guest_part_nonempty [OF ne]
    by (metis length_0_conv length_pins_for)
  have fb: "collectAllCPUs (pins_for 0 (host_cpus ?ht (guest_part sel))) =
              sorted_list_of_set (set (host_cpus ?ht (guest_part sel)))"
    by (rule collectAllCPUs_pins_for [OF host_cpus_nums [OF wf pc(2) subs(1)]])
  have build: "buildCPUPinningPlan config sockets = plan_of_cores config sel"
    using ok so pc(1) sel by (simp add: buildCPUPinningPlan_def)
  show ?thesis
  proof (cases "length sel < 4")
    case True
    then show ?thesis
      using plan_of_small [OF ne True refl, of config] pne fb build by (simp add: guest_part_def pins)
  next
    case False
    have "buildEmulatorPinCPUsFromPhysicalCores [last sel] ?ht =
            sorted_list_of_set (set (host_cpus ?ht [last sel]))"
      using buildEmulatorPinCPUs_eq [OF wf pc(2), of "[last sel]"] subs(2) False
      by (simp add: emulator_part_def)
    moreover have "host_cpus ?ht [last sel] \<noteq> []"
      using host_cpus_nonempty [OF wf pc(2), of "[last sel]"] subs(2) False by (simp add: emulator_part_def)
    moreover have "int (length sel) - 1 = int (length (butlast sel))"
      using ne by (cases sel) auto
    ultimately show ?thesis
      using plan_of_large [OF False refl _ refl, of config] pne build False by (simp add: guest_part_def pins)
  qed
qed

subsection \<open>Properties\<close>

lemma set_core_slice_range:
  assumes "0 \<le> lo" "lo \<le> hi" "hi < int (length cores)"
  shows "set (core_slice cores lo hi) = (\<lambda>i. cores ! nat i) ` {lo..hi}"
proof -
  have len: "length (core_slice cores lo hi) = nat (hi - lo + 1)"
    using assms by (rule length_core_slice)
  have nth: "core_slice cores lo hi ! j = cores ! nat (lo + int j)" if "j < nat (hi - lo + 1)" for j
    using assms that by (simp add: core_slice_def nat_add_distrib add.commute)
  show ?thesis
  proof (intro equalityI subsetI)
    fix k assume "k \<in> set (core_slice cores lo hi)"
    then obtain j where j: "j < nat (hi - lo + 1)" "k = core_slice cores lo hi ! j"
      by (metis in_set_conv_nth len)
    then have "k = cores ! nat (lo + int j)" using nth by simp
    with j show "k \<in> (\<lambda>i. cores ! nat i) ` {lo..hi}" by force
  next
    fix k assume "k \<in> (\<lambda>i. cores ! nat i) ` {lo..hi}"
    then obtain i where i: "lo \<le> i" "i \<le> hi" "k = cores ! nat i" by auto
    then have "nat (i - lo) < nat (hi - lo + 1)" by simp
    with i nth [of "nat (i - lo)"] len show "k \<in> set (core_slice cores lo hi)"
      by (metis add.commute diff_add_cancel diff_ge_0_iff_ge int_nat_eq nth_mem)
  qed
qed

lemma wf_cores:
  assumes "wf_socket socket"
  obtains cores where "GetPhysicalCores socket = Inr cores" "cores_spec socket cores"
  using GetPhysicalCores_spec [of socket] wf_socketD(1) [OF assms] by blast

text \<open>On a well-formed socket \<open>GetPhysicalCores\<close> does not panic; its cores are in strictly
  increasing order of their lowest CPU, numbered from 0, and their sibling lists partition the
  logical CPUs of the socket.\<close>
theorem physical_cores_partition:
  assumes wf: "wf_socket socket"
  shows "\<exists>cores. GetPhysicalCores socket = Inr cores \<and> sorted_wrt (<) (map PhysicalID cores) \<and>
           (\<forall>i < length cores. CoreIndex (cores ! i) = int i) \<and>
           distinct (concat (map CoreSiblings cores)) \<and>
           set (concat (map CoreSiblings cores)) = (\<Union>c \<in> set (CPUs socket). set (Siblings c))"
proof -
  obtain cores where c: "GetPhysicalCores socket = Inr cores" "cores_spec socket cores"
    using wf by (rule wf_cores)
  have "core_cpus True = CoreSiblings"
    by (rule ext) (simp add: core_cpus_def)
  then have hc: "host_cpus True cores = concat (map CoreSiblings cores)"
    by (simp add: host_cpus_def)
  have "distinct (concat (map CoreSiblings cores))"
    using distinct_host_cpus [OF wf c(2) subset_refl cores_distinct [OF c(2)], of True] hc by simp
  moreover have "(\<Union>k \<in> set cores. set (CoreSiblings k)) = (\<Union>c \<in> set (CPUs socket). set (Siblings c))"
  proof (intro equalityI subsetI)
    fix x assume "x \<in> (\<Union>k \<in> set cores. set (CoreSiblings k))"
    then obtain k where k: "k \<in> set cores" "x \<in> set (CoreSiblings k)" by auto
    then obtain i where "i \<in> set (CPUs socket)" "core_of i k"
      using c(2) unfolding cores_spec_def by metis
    with k show "x \<in> (\<Union>c \<in> set (CPUs socket). set (Siblings c))"
      by (auto simp: core_of_def)
  next
    fix x assume "x \<in> (\<Union>c \<in> set (CPUs socket). set (Siblings c))"
    then obtain i where i: "i \<in> set (CPUs socket)" "x \<in> set (Siblings i)" by auto
    let ?m = "Min (set (Siblings i))"
    have "?m \<in> set (map PhysicalID cores)" using c(2) i by (simp add: cores_spec_def)
    then obtain k where k: "k \<in> set cores" "PhysicalID k = ?m" by auto
    then obtain j where j: "j \<in> set (CPUs socket)" "core_of j k"
      using c(2) unfolding cores_spec_def by metis
    have "?m \<in> set (Siblings i)" using i by (intro Min_in) auto
    moreover have "?m \<in> set (Siblings j)"
      using core_of_props(4,5) [OF wf j] k by simp
    ultimately have "set (Siblings i) = set (Siblings j)"
      using wf_socketD(4) [OF wf i(1) j(1)] by simp
    then have "x \<in> set (CoreSiblings k)"
      using core_of_props(5) [OF wf j] i by simp
    with k show "x \<in> (\<Union>k \<in> set cores. set (CoreSiblings k))" by auto
  qed
  ultimately show ?thesis using c by (auto simp: cores_spec_def)
qed

definition demo_socket :: CPUSocket where
  "demo_socket = \<lparr>SocketID = 0, CPUs =
     map (\<lambda>i. \<lparr>CPUID = i, Siblings = [i mod 4, i mod 4 + 4]\<rparr>) [0, 1, 2, 3, 4, 5, 6, 7]\<rparr>"

lemma demo_socket_wf: "wf_socket demo_socket"
  by (simp add: demo_socket_def wf_socket_def max_int64_def)

lemma physical_cores_partition_witness:
  "\<exists>cores. GetPhysicalCores demo_socket = Inr cores \<and> distinct (concat (map CoreSiblings cores))"
  using physical_cores_partition [OF demo_socket_wf] by blast

lemma plan_valid:
  assumes "wf_socket socket" "getSocketByID sockets (ConfigSocketID config) = Some socket"
    and "buildCPUPinningPlan config sockets = Inr plan"
  obtains cores sel where "GetPhysicalCores socket = Inr cores" "cores_spec socket cores"
    "ValidateCPUPinningConfig config sockets = None"
    "sel = core_slice cores (RangeStart config) (RangeEnd config)" "sel \<noteq> []"
    "GuestPins plan = pins_for 0 (host_cpus (HyperThreading config) (guest_part sel))"
    "EmulatorCPUs plan = sorted_list_of_set (set (host_cpus (HyperThreading config)
                   (if length sel < 4 then sel else [last sel])))"
    "length sel = nat (RangeEnd config - RangeStart config + 1)"
    "set sel \<subseteq> set cores" "distinct sel"
proof -
  from assms(1) obtain cores where c: "GetPhysicalCores socket = Inr cores" "cores_spec socket cores"
    by (rule wf_cores)
  have v: "ValidateCPUPinningConfig config sockets = None"
    using assms(3) by (cases "ValidateCPUPinningConfig config sockets") (auto simp: buildCPUPinningPlan_def)
  define sel where "sel = core_slice cores (RangeStart config) (RangeEnd config)"
  note pl = plan_eq [OF assms(1,2) c v sel_def]
  have sel: "set sel \<subseteq> set cores" "distinct sel"
    using set_core_slice distinct_core_slice [OF cores_distinct [OF c(2)]] by (simp_all add: sel_def)
  have "sel \<noteq> []" "length sel = nat (RangeEnd config - RangeStart config + 1)"
    using selected_cores [OF assms(2) c(1) v] by (simp_all add: sel_def)
  with that [OF c v sel_def] pl assms(3) sel show ?thesis by simp
qed

lemma host_cpus_of_socket:
  assumes "cores_spec socket cores" "wf_socket socket" "set sel \<subseteq> set cores" "x \<in> set (host_cpus ht sel)"
  shows "\<exists>c \<in> set (CPUs socket). x \<in> set (Siblings c)"
proof -
  obtain k where k: "k \<in> set cores" "x \<in> set (core_cpus ht k)"
    using assms(3,4) by (auto simp: host_cpus_def)
  then obtain c where c: "c \<in> set (CPUs socket)" "core_of c k"
    using assms(1) unfolding cores_spec_def by metis
  have "x \<in> set (CoreSiblings k)"
    using core_cpus_subset(1) [OF assms(2,1) k(1)] k(2) by auto
  then show ?thesis using core_of_props(5) [OF assms(2) c] c(1) by auto
qed

lemma inj_on_Itoa: "cpu_nums xs \<Longrightarrow> inj_on Itoa (set xs)"
  by (rule inj_onI) (auto simp: cpu_nums_def intro: Itoa_inj)

lemma guest_part_subset: "set (guest_part sel) \<subseteq> set sel"
  by (metis Un_upper1 guest_emulator_append set_append)

lemma distinct_guest_part: "distinct sel \<Longrightarrow> distinct (guest_part sel)"
  by (simp add: guest_part_def distinct_butlast)

text \<open>C1: the guest pins of a successful plan number the vCPUs 0, 1, 2, \<dots> without a gap, and
  pin every vCPU to a host CPU of the chosen socket, no two of them to the same one.\<close>
theorem plan_pins_distinct_cpus:
  assumes wf: "wf_socket socket" and so: "getSocketByID sockets (ConfigSocketID config) = Some socket"
    and plan: "buildCPUPinningPlan config sockets = Inr plan"
  shows "map VCPU (GuestPins plan) = map int [0..<length (GuestPins plan)] \<and> GuestPins plan \<noteq> [] \<and>
         distinct (map CPUSet (GuestPins plan)) \<and>
         (\<forall>p \<in> set (GuestPins plan). \<exists>c \<in> set (CPUs socket). \<exists>x \<in> set (Siblings c). CPUSet p = Itoa x)"
proof -
  from plan_valid [OF wf so plan] obtain cores sel where
    c: "cores_spec socket cores" "sel \<noteq> []" "set sel \<subseteq> set cores" "distinct sel"
    and g: "GuestPins plan = pins_for 0 (host_cpus (HyperThreading config) (guest_part sel))"
    by metis
  let ?cpus = "host_cpus (HyperThreading config) (guest_part sel)"
  have sub: "set (guest_part sel) \<subseteq> set cores" using c(3) guest_part_subset by blast
  have "distinct ?cpus"
    by (rule distinct_host_cpus [OF wf c(1) sub distinct_guest_part [OF c(4)]])
  then have d: "distinct (map Itoa ?cpus)"
    using inj_on_Itoa [OF host_cpus_nums [OF wf c(1) sub]] by (simp add: distinct_map)
  have ne: "?cpus \<noteq> []"
    by (rule host_cpus_nonempty [OF wf c(1) sub guest_part_nonempty [OF c(2)]])
  have mem: "\<exists>c \<in> set (CPUs socket). \<exists>x \<in> set (Siblings c). CPUSet p = Itoa x"
    if "p \<in> set (GuestPins plan)" for p
  proof -
    have "CPUSet p \<in> set (map CPUSet (GuestPins plan))" using that by simp
    then obtain x where "x \<in> set ?cpus" "CPUSet p = Itoa x"
      unfolding g map_CPUSet_pins_for by auto
    with host_cpus_of_socket [OF c(1) wf sub] show ?thesis by blast
  qed
  have "GuestPins plan \<noteq> []" using ne g by (metis length_0_conv length_pins_for)
  with mem d show ?thesis by (simp add: g map_VCPU_pins_for map_CPUSet_pins_for)
qed

text \<open>When at least four physical cores are selected, the emulator threads get the last of
  them and no guest vCPU is pinned to one of its CPUs; with fewer cores they share exactly the
  guest's CPUs.  In both cases the emulator set is not empty.\<close>
theorem plan_emulator_cpus:
  assumes wf: "wf_socket socket" and so: "getSocketByID sockets (ConfigSocketID config) = Some socket"
    and plan: "buildCPUPinningPlan config sockets = Inr plan"
  shows "EmulatorCPUs plan \<noteq> [] \<and>
         (if 4 \<le> RangeEnd config - RangeStart config + 1
          then \<forall>x \<in> set (EmulatorCPUs plan). Itoa x \<notin> CPUSet ` set (GuestPins plan)
          else Itoa ` set (EmulatorCPUs plan) = CPUSet ` set (GuestPins plan))"
proof -
  from plan_valid [OF wf so plan] obtain cores sel where
    c: "cores_spec socket cores" "sel \<noteq> []" "set sel \<subseteq> set cores" "distinct sel"
    and g: "GuestPins plan = pins_for 0 (host_cpus (HyperThreading config) (guest_part sel))"
    and e: "EmulatorCPUs plan = sorted_list_of_set (set (host_cpus (HyperThreading config)
                   (if length sel < 4 then sel else [last sel])))"
    and l: "length sel = nat (RangeEnd config - RangeStart config + 1)"
    by metis
  let ?ht = "HyperThreading config"
  have gp: "CPUSet ` set (GuestPins plan) = Itoa ` set (host_cpus ?ht (guest_part sel))"
    unfolding g by (metis list.set_map map_CPUSet_pins_for)
  have ne: "host_cpus ?ht sel \<noteq> []" by (rule host_cpus_nonempty [OF wf c(1,3,2)])
  show ?thesis
  proof (cases "length sel < 4")
    case True
    then have "\<not> 4 \<le> RangeEnd config - RangeStart config + 1" using l by linarith
    with True gp ne e show ?thesis by (simp add: guest_part_def)
  next
    case False
    then have four: "4 \<le> RangeEnd config - RangeStart config + 1" using l by linarith
    have split: "guest_part sel @ [last sel] = sel"
      using False c(2) by (simp add: guest_part_def)
    have dis: "distinct (host_cpus ?ht (guest_part sel) @ host_cpus ?ht [last sel])"
      using distinct_host_cpus [OF wf c(1,3,4), of ?ht] split by (metis host_cpus_append)
    have nums: "cpu_nums (host_cpus ?ht sel)" by (rule host_cpus_nums [OF wf c(1,3)])
    have inj: "inj_on Itoa (set (host_cpus ?ht (guest_part sel)) \<union> set (host_cpus ?ht [last sel]))"
      using inj_on_Itoa [OF nums] split by (metis host_cpus_append set_append)
    have lne: "host_cpus ?ht [last sel] \<noteq> []"
      using host_cpus_nonempty [OF wf c(1), of "[last sel]"] c(2,3) by (simp add: subset_iff)
    have em: "set (EmulatorCPUs plan) = set (host_cpus ?ht [last sel])" "EmulatorCPUs plan \<noteq> []"
      using e False lne by simp_all
    have "Itoa x \<notin> Itoa ` set (host_cpus ?ht (guest_part sel))" if "x \<in> set (EmulatorCPUs plan)" for x
      using that em dis inj by (auto dest: inj_onD)
    with four em gp show ?thesis by simp
  qed
qed

text \<open>Once a request is validated the plan is built; the later error branches of
  \<open>buildCPUPinningPlan\<close> (no selected core, no guest core, no guest pin) are never taken.\<close>
theorem plan_built_iff_valid:
  assumes wf: "wf_socket socket" and so: "getSocketByID sockets (ConfigSocketID config) = Some socket"
  shows "(\<exists>plan. buildCPUPinningPlan config sockets = Inr plan) =
           (ValidateCPUPinningConfig config sockets = None)"
proof
  assume "\<exists>plan. buildCPUPinningPlan config sockets = Inr plan"
  then show "ValidateCPUPinningConfig config sockets = None"
    by (cases "ValidateCPUPinningConfig config sockets") (auto simp: buildCPUPinningPlan_def)
next
  from wf obtain cores where c: "GetPhysicalCores socket = Inr cores" "cores_spec socket cores"
    by (rule wf_cores)
  assume "ValidateCPUPinningConfig config sockets = None"
  from plan_eq [OF wf so c this refl] show "\<exists>plan. buildCPUPinningPlan config sockets = Inr plan"
    by blast
qed

text \<open>The vCPU count announced for the domain (\<open>VCPUCount\<close>) is the number of guest pins of the
  plan, when hyper-threading is off or every core of the socket has exactly two siblings.\<close>
theorem vcpu_count_is_number_of_pins:
  assumes wf: "wf_socket socket" and so: "getSocketByID sockets (ConfigSocketID config) = Some socket"
    and plan: "buildCPUPinningPlan config sockets = Inr plan"
    and rng: "RangeEnd config < 2 ^ 31"
    and ht: "HyperThreading config \<Longrightarrow> \<forall>c \<in> set (CPUs socket). length (Siblings c) = 2"
  shows "VCPUCount config = int (length (GuestPins plan))"
proof -
  from plan_valid [OF wf so plan] obtain cores sel where
    pc: "GetPhysicalCores socket = Inr cores" and v: "ValidateCPUPinningConfig config sockets = None"
    and c: "cores_spec socket cores" "sel \<noteq> []" "set sel \<subseteq> set cores"
    and g: "GuestPins plan = pins_for 0 (host_cpus (HyperThreading config) (guest_part sel))"
    and l: "length sel = nat (RangeEnd config - RangeStart config + 1)"
    by metis
  let ?n = "RangeEnd config - RangeStart config + 1"
  have r: "0 \<le> RangeStart config" "RangeStart config \<le> RangeEnd config"
    using v validate_None_iff [OF so pc] by auto
  have w: "wrap64 (RangeEnd config - RangeStart config) = RangeEnd config - RangeStart config"
    "wrap64 ?n = ?n"
    using r rng by (auto intro!: wrap64_id simp: fits64_def min_int64_def max_int64_def)
  have two: "length (core_cpus (HyperThreading config) k) = (if HyperThreading config then 2 else 1)"
    if k: "k \<in> set cores" for k
  proof (cases "HyperThreading config")
    case True
    obtain i where i: "i \<in> set (CPUs socket)" "core_of i k"
      using c(1) k unfolding cores_spec_def by metis
    then have "length (CoreSiblings k) = length (Siblings i)" by (simp add: core_of_def)
    with ht [OF True] i True show ?thesis by (simp add: core_cpus_def)
  qed (simp add: core_cpus_def)
  have hl: "length (host_cpus (HyperThreading config) ks) =
      length ks * (if HyperThreading config then 2 else 1)" if "set ks \<subseteq> set cores" for ks
    using that by (induction ks) (auto simp: host_cpus_def two)
  have gl: "int (length (guest_part sel)) = ?n - (if ?n < 4 then 0 else 1)"
    using l r by (auto simp: guest_part_def)
  have "length (GuestPins plan) = length (guest_part sel) * (if HyperThreading config then 2 else 1)"
    using hl [of "guest_part sel"] guest_part_subset [of sel] c(3) by (simp add: g)
  moreover have "wrap64 ((?n - (if ?n < 4 then 0 else 1)) * 2) = (?n - (if ?n < 4 then 0 else 1)) * 2"
    using r rng by (intro wrap64_id) (auto simp: fits64_def min_int64_def max_int64_def)
  ultimately show ?thesis
    using gl r by (auto simp: VCPUCount_def w emulatorReservedPhysicalCoreCount_def Let_def)
qed

definition demo_config :: CPUPinningConfig where
  "demo_config = \<lparr>RangeStart = 0, RangeEnd = 3, HyperThreading = True, ConfigSocketID = 0\<rparr>"

lemma demo_facts:
  "getSocketByID [demo_socket] (ConfigSocketID demo_config) = Some demo_socket"
  "RangeEnd demo_config < 2 ^ 31"
  "\<forall>c \<in> set (CPUs demo_socket). length (Siblings c) = 2"
  by (simp_all add: demo_config_def demo_socket_def)

lemma demo_valid: "ValidateCPUPinningConfig demo_config [demo_socket] = None"
  by code_simp

lemma demo_plan: "\<exists>plan. buildCPUPinningPlan demo_config [demo_socket] = Inr plan"
proof -
  from demo_socket_wf obtain cores where c: "GetPhysicalCores demo_socket = Inr cores"
    "cores_spec demo_socket cores" by (rule wf_cores)
  from plan_eq [OF demo_socket_wf demo_facts(1) c demo_valid refl] show ?thesis by blast
qed

lemma plan_pins_distinct_cpus_witness:
  "\<exists>plan. buildCPUPinningPlan demo_config [demo_socket] = Inr plan \<and> GuestPins plan \<noteq> [] \<and>
     distinct (map CPUSet (GuestPins plan))"
  using demo_plan plan_pins_distinct_cpus [OF demo_socket_wf demo_facts(1)] by blast

lemma plan_emulator_cpus_witness:
  "\<exists>plan. buildCPUPinningPlan demo_config [demo_socket] = Inr plan \<and> EmulatorCPUs plan \<noteq> []"
  using demo_plan plan_emulator_cpus [OF demo_socket_wf demo_facts(1)] by blast

lemma plan_built_iff_valid_witness:
  "(\<exists>plan. buildCPUPinningPlan demo_config [demo_socket] = Inr plan)"
  using plan_built_iff_valid [OF demo_socket_wf demo_facts(1)] demo_valid by blast

lemma vcpu_count_is_number_of_pins_witness:
  "\<exists>plan. buildCPUPinningPlan demo_config [demo_socket] = Inr plan \<and>
     VCPUCount demo_config = int (length (GuestPins plan))"
  using demo_plan vcpu_count_is_number_of_pins [OF demo_socket_wf demo_facts(1) _ demo_facts(2)]
    demo_facts(3) by blast

end
