(* ===== verification/Effects.thy ===== *)
theory Effects
  imports Numbers
begin

text \<open>
  Programs that act on a host.  A program takes the state of the world and returns a result or
  an error together with the new state, as a Go function does that runs commands and returns
  \<open>(value, error)\<close>.  The machine behind the commands is a parameter (\<open>host\<close>): its binaries, its
  files and what a command prints and changes.  A world also records the commands that were
  issued, in order, so that a statement can be about what a host is told to do.
\<close>

subsection \<open>Results and sequencing\<close>

type_synonym ('w, 'e, 'a) act = "'w \<Rightarrow> ('e + 'a) \<times> 'w"

definition ret :: "'a \<Rightarrow> ('w, 'e, 'a) act" where
  "ret x w = (Inr x, w)"

definition fail :: "'e \<Rightarrow> ('w, 'e, 'a) act" where
  "fail e w = (Inl e, w)"

text \<open>\<open>x, err := m(); if err != nil { return err }; f(x)\<close>\<close>

definition bindE :: "('w, 'e, 'a) act \<Rightarrow> ('a \<Rightarrow> ('w, 'e, 'b) act) \<Rightarrow> ('w, 'e, 'b) act" where
  "bindE m f w = (case m w of (Inl e, w') \<Rightarrow> (Inl e, w') | (Inr x, w') \<Rightarrow> f x w')"

text \<open>\<open>x, err := m()\<close> with the error inspected by the code that follows.\<close>

definition bindR :: "('w, 'e, 'a) act \<Rightarrow> ('e + 'a \<Rightarrow> ('w, 'f, 'b) act) \<Rightarrow> ('w, 'f, 'b) act" where
  "bindR m f w = (case m w of (r, w') \<Rightarrow> f r w')"

definition liftE :: "'e + 'a \<Rightarrow> ('w, 'e, 'a) act" where
  "liftE r w = (r, w)"

definition getW :: "('w \<Rightarrow> 'a) \<Rightarrow> ('w, 'e, 'a) act" where
  "getW g w = (Inr (g w), w)"

definition modW :: "('w \<Rightarrow> 'w) \<Rightarrow> ('w, 'e, unit) act" where
  "modW g w = (Inr (), g w)"

definition guardE :: "bool \<Rightarrow> 'e \<Rightarrow> ('w, 'e, unit) act" where
  "guardE b e w = (if b then (Inr (), w) else (Inl e, w))"

definition mapErr :: "('e \<Rightarrow> 'f) \<Rightarrow> ('w, 'e, 'a) act \<Rightarrow> ('w, 'f, 'a) act" where
  "mapErr g m w = (case m w of (r, w') \<Rightarrow> (map_sum g id r, w'))"

fun forE :: "'a list \<Rightarrow> ('a \<Rightarrow> ('w, 'e, unit) act) \<Rightarrow> ('w, 'e, unit) act" where
  "forE [] f = ret ()"
| "forE (x # xs) f = bindE (f x) (\<lambda>_. forE xs f)"

lemmas act_defs [host_eff] =
  ret_def fail_def bindE_def bindR_def liftE_def getW_def modW_def guardE_def mapErr_def

lemma bindE_ret [simp]: "bindE (ret x) f = f x"
  by (rule ext) (simp add: bindE_def ret_def)

lemma bindE_fail [simp]: "bindE (fail e) f = fail e"
  by (rule ext) (simp add: bindE_def fail_def)

lemma bindE_assoc: "bindE (bindE m f) g = bindE m (\<lambda>x. bindE (f x) g)"
  by (rule ext) (simp add: bindE_def split: prod.splits sum.splits)

lemma bindE_Inr: "m w = (Inr x, w') \<Longrightarrow> bindE m f w = f x w'"
  by (simp add: bindE_def)

lemma bindE_Inl: "m w = (Inl e, w') \<Longrightarrow> bindE m f w = (Inl e, w')"
  by (simp add: bindE_def)

lemma bindE_eq_InrE:
  assumes "bindE m f w = (Inr y, w'')"
  obtains x w' where "m w = (Inr x, w')" "f x w' = (Inr y, w'')"
  using assms by (auto simp: bindE_def split: prod.splits sum.splits)

lemma bindE_eq_Inr_iff:
  "bindE m f w = (Inr y, w'') \<longleftrightarrow> (\<exists>x w'. m w = (Inr x, w') \<and> f x w' = (Inr y, w''))"
  by (auto simp: bindE_def split: prod.splits sum.splits)

lemma guardE_eq_Inr_iff [simp]: "guardE b e w = (Inr u, w') \<longleftrightarrow> b \<and> w' = w"
  by (auto simp: guardE_def)

lemma fail_not_Inr [simp]: "fail e w \<noteq> (Inr y, w')"
  by (simp add: fail_def)

lemma ret_eq_Inr_iff [simp]: "ret x w = (Inr y, w') \<longleftrightarrow> y = x \<and> w' = w"
  by (auto simp: ret_def)

lemma getW_eq_Inr_iff [simp]: "getW g w = (Inr y, w') \<longleftrightarrow> y = g w \<and> w' = w"
  by (auto simp: getW_def)

lemma modW_eq_Inr_iff [simp]: "modW g w = (Inr y, w') \<longleftrightarrow> w' = g w"
  by (auto simp: modW_def)

lemma liftE_eq_Inr_iff [simp]: "liftE r w = (Inr y, w') \<longleftrightarrow> r = Inr y \<and> w' = w"
  by (auto simp: liftE_def)

text \<open>A relation between the state before and after, closed under sequencing.\<close>

definition steps :: "('w \<Rightarrow> 'w \<Rightarrow> bool) \<Rightarrow> ('w, 'e, 'a) act \<Rightarrow> bool" where
  "steps R m \<longleftrightarrow> (\<forall>w. R w (snd (m w)))"

named_theorems steps_intro \<open>rules for the relation between the states before and after\<close>

lemma steps_pure [steps_intro]:
  assumes "reflp R"
  shows "steps R (ret x)" "steps R (fail e)" "steps R (liftE r)" "steps R (getW g)" "steps R (guardE b e)"
  using assms
  by (auto simp: steps_def ret_def fail_def liftE_def getW_def guardE_def reflp_def)

lemma steps_bindE [steps_intro]:
  "transp R \<Longrightarrow> steps R m \<Longrightarrow> (\<And>x. steps R (f x)) \<Longrightarrow> steps R (bindE m f)"
  unfolding steps_def bindE_def
  by (simp split: prod.split sum.split) (metis snd_conv transpE)

lemma steps_bindR [steps_intro]:
  "transp R \<Longrightarrow> steps R m \<Longrightarrow> (\<And>r. steps R (f r)) \<Longrightarrow> steps R (bindR m f)"
  unfolding steps_def bindR_def
  by (simp split: prod.split) (metis snd_conv transpE)

lemma steps_mapErr [steps_intro]: "steps R m \<Longrightarrow> steps R (mapErr g m)"
  by (auto simp: steps_def mapErr_def split: prod.split) (metis snd_conv)

lemma steps_forE [steps_intro]:
  "reflp R \<Longrightarrow> transp R \<Longrightarrow> (\<And>x. x \<in> set xs \<Longrightarrow> steps R (f x)) \<Longrightarrow> steps R (forE xs f)"
  by (induction xs) (auto intro!: steps_intro)

lemma steps_if [steps_intro]: "(b \<Longrightarrow> steps R m) \<Longrightarrow> (\<not> b \<Longrightarrow> steps R n) \<Longrightarrow> steps R (if b then m else n)"
  by simp

lemma steps_case_sum [steps_intro]:
  "(\<And>a. r = Inl a \<Longrightarrow> steps R (f a)) \<Longrightarrow> (\<And>b. r = Inr b \<Longrightarrow> steps R (g b)) \<Longrightarrow> steps R (case_sum f g r)"
  by (cases r) auto

lemma steps_case_option [steps_intro]:
  "(r = None \<Longrightarrow> steps R m) \<Longrightarrow> (\<And>b. r = Some b \<Longrightarrow> steps R (g b)) \<Longrightarrow> steps R (case_option m g r)"
  by (cases r) auto

lemma stepsD: "steps R m \<Longrightarrow> m w = (r, w') \<Longrightarrow> R w w'"
  unfolding steps_def by (metis snd_conv)

subsection \<open>Weakest preconditions\<close>

definition wp :: "('w, 'e, 'a) act \<Rightarrow> ('e + 'a \<Rightarrow> 'w \<Rightarrow> bool) \<Rightarrow> 'w \<Rightarrow> bool" where
  "wp m Q w \<longleftrightarrow> Q (fst (m w)) (snd (m w))"

named_theorems wp_rules \<open>weakest preconditions of the constructs\<close>

lemma wp_ret [wp_rules]: "wp (ret x) Q w = Q (Inr x) w"
  by (simp add: wp_def ret_def)

lemma wp_fail [wp_rules]: "wp (fail e) Q w = Q (Inl e) w"
  by (simp add: wp_def fail_def)

lemma wp_bindE [wp_rules]:
  "wp (bindE m f) Q w = wp m (\<lambda>r. case r of Inl e \<Rightarrow> Q (Inl e) | Inr x \<Rightarrow> wp (f x) Q) w"
  by (simp add: wp_def bindE_def split: prod.split sum.split)

lemma wp_bindR [wp_rules]: "wp (bindR m f) Q w = wp m (\<lambda>r. wp (f r) Q) w"
  by (simp add: wp_def bindR_def split: prod.split)

lemma wp_liftE [wp_rules]: "wp (liftE r) Q w = Q r w"
  by (simp add: wp_def liftE_def)

lemma wp_getW [wp_rules]: "wp (getW g) Q w = Q (Inr (g w)) w"
  by (simp add: wp_def getW_def)

lemma wp_modW [wp_rules]: "wp (modW g) Q w = Q (Inr ()) (g w)"
  by (simp add: wp_def modW_def)

lemma wp_guardE [wp_rules]: "wp (guardE b e) Q w = (if b then Q (Inr ()) w else Q (Inl e) w)"
  by (simp add: wp_def guardE_def)

lemma wp_mono: "wp m P w \<Longrightarrow> (\<And>r w'. P r w' \<Longrightarrow> Q r w') \<Longrightarrow> wp m Q w"
  by (simp add: wp_def)

lemma wp_if [wp_rules]: "wp (if b then m else n) Q w = (if b then wp m Q w else wp n Q w)"
  by simp

lemma wpI: "m w = (r, w') \<Longrightarrow> Q r w' \<Longrightarrow> wp m Q w"
  by (simp add: wp_def)

lemma wpD: "wp m Q w \<Longrightarrow> m w = (r, w') \<Longrightarrow> Q r w'"
  by (simp add: wp_def)

subsection \<open>The host\<close>

record cmd_result =
  Succeeded :: bool
  Stdout :: string
  Stderr :: string
  Combined :: string  \<comment> \<open>both, as written to one pipe (\<open>CombinedOutput\<close>)\<close>

datatype stat_result = StatMissing | StatDir | StatFile | StatError

record 'w host =
  LookPath :: "string \<Rightarrow> 'w \<Rightarrow> bool"
  Geteuid :: "'w \<Rightarrow> int"
  RunProgram :: "string list \<Rightarrow> 'w \<Rightarrow> cmd_result \<times> 'w"
  FileContent :: "string \<Rightarrow> 'w \<Rightarrow> string option"
  DirEntries :: "string \<Rightarrow> 'w \<Rightarrow> string list option"
  StatPath :: "string \<Rightarrow> 'w \<Rightarrow> stat_result"
  MakeDirs :: "string \<Rightarrow> 'w \<Rightarrow> bool \<times> 'w"

record 'w world =
  machine :: 'w
  issued :: "string list list"

definition exec :: "'w host \<Rightarrow> string list \<Rightarrow> ('w world, 'e, cmd_result) act" where
  "exec h argv w =
     (case RunProgram h argv (machine w) of
        (r, m) \<Rightarrow> (Inr r, w\<lparr>machine := m, issued := issued w @ [argv]\<rparr>))"

text \<open>The commands are only ever appended to the record.\<close>

definition extends :: "'w world \<Rightarrow> 'w world \<Rightarrow> bool" where
  "extends w w' \<longleftrightarrow> (\<exists>cs. issued w' = issued w @ cs)"

lemma extends_order: "reflp extends" "transp extends"
  by (auto simp: extends_def reflp_def transp_def)

lemma steps_exec [steps_intro]: "steps extends (exec h argv)"
  by (simp add: steps_def exec_def extends_def split: prod.split)

text \<open>Every command issued between two states satisfies a predicate.\<close>

definition only_issues :: "(string list \<Rightarrow> bool) \<Rightarrow> 'w world \<Rightarrow> 'w world \<Rightarrow> bool" where
  "only_issues P w w' \<longleftrightarrow> (\<exists>cs. issued w' = issued w @ cs \<and> list_all P cs)"

lemma only_issues_order: "reflp (only_issues P)" "transp (only_issues P)"
  by (auto simp: only_issues_def reflp_def transp_def)

lemma steps_only_exec [steps_intro]: "P argv \<Longrightarrow> steps (only_issues P) (exec h argv)"
  by (simp add: steps_def exec_def only_issues_def split: prod.split)

subsection \<open>Lines of output\<close>

text \<open>
  \<open>bufio.Scanner\<close> with its default buffer: the lines without their end of line, and whether
  scanning stopped at a line of 64 KiB or more.
\<close>

definition max_token :: nat where "max_token = 65536"

definition drop_cr :: "string \<Rightarrow> string" where
  "drop_cr l = (if l \<noteq> [] \<and> last l = CHR 0x0D then butlast l else l)"

definition raw_lines :: "string \<Rightarrow> string list" where
  "raw_lines s = (let ls = Split s (CHR 0x0A) in if last ls = [] then butlast ls else ls)"

definition scan_lines :: "string \<Rightarrow> string list \<times> bool" where
  "scan_lines s =
     (map drop_cr (takeWhile (\<lambda>l. length l < max_token) (raw_lines s)),
      list_ex (\<lambda>l. max_token \<le> length l) (raw_lines s))"

definition newline :: string where "newline = [CHR 0x0A]"

lemma raw_lines_Join:
  assumes "ls \<noteq> []" "\<forall>l \<in> set ls. CHR 0x0A \<notin> set l"
  shows "raw_lines (Join ls newline @ newline) = ls"
proof -
  have eq: "Join ls newline @ newline = Join (ls @ [[]]) newline"
    using assms(1) by (induction ls newline rule: Join.induct) auto
  have "Split (Join (ls @ [[]]) newline) (CHR 0x0A) = ls @ [[]]"
    unfolding newline_def using assms by (intro Split_Join) auto
  then show ?thesis by (simp add: raw_lines_def eq Let_def)
qed

lemma scan_lines_Join:
  assumes "ls \<noteq> []"
    and "\<forall>l \<in> set ls. CHR 0x0A \<notin> set l \<and> CHR 0x0D \<notin> set l \<and> length l < max_token"
  shows "scan_lines (Join ls newline @ newline) = (ls, False)"
proof -
  have "takeWhile (\<lambda>l. length l < max_token) ls = ls" using assms by auto
  moreover have "map drop_cr ls = ls"
    using assms(2) by (intro map_idI) (metis drop_cr_def last_in_set)
  moreover have "raw_lines (Join ls newline @ newline) = ls"
    using assms by (intro raw_lines_Join) auto
  moreover have "\<not> list_ex (\<lambda>l. max_token \<le> length l) ls"
    using assms(2) by (auto simp: list_ex_iff)
  ultimately show ?thesis by (simp only: scan_lines_def)
qed

end
