(* ===== verification/HostCmd.thy ===== *)
theory HostCmd
  imports Effects
begin

text \<open>
  How a slave runs commands, tuned profiles and the irqbalance service:
  \<open>slave/virsh/tuned_adm.go\<close> and \<open>slave/virsh/irqbalance.go\<close>.  A command needs root; without it
  the program is run through \<open>sudo -n\<close>.
\<close>

subsection \<open>Running commands\<close>

datatype host_error =
    BinaryRequired string
  | SudoRequired string
  | CmdFailed "string list" string
  | OutputTooLong string
  | EmptyOutput
  | ProfileRequired
  | ServiceNotFound
  | StillMissing string
  | InstallFailed host_error

definition hasBinary :: "'w host \<Rightarrow> string \<Rightarrow> ('w world, host_error, bool) act" where
  "hasBinary h name = getW (\<lambda>w. LookPath h name (machine w))"

definition cmd_message :: "cmd_result \<Rightarrow> string" where
  "cmd_message r =
     (let msg = TrimSpace (Stderr r) in if msg = [] then TrimSpace (Stdout r) else msg)"

definition runCmdOutput :: "'w host \<Rightarrow> string list \<Rightarrow> ('w world, host_error, string) act" where
  "runCmdOutput h argv =
     bindE (exec h argv) (\<lambda>r.
       if Succeeded r then ret (Stdout r) else fail (CmdFailed argv (cmd_message r)))"

definition runCmdDiscardOutput :: "'w host \<Rightarrow> string list \<Rightarrow> ('w world, host_error, unit) act" where
  "runCmdDiscardOutput h argv =
     bindE (exec h argv) (\<lambda>r.
       if Succeeded r then ret () else fail (CmdFailed argv (Stderr r)))"

definition runCmdOutputMaybeSudo :: "'w host \<Rightarrow> string list \<Rightarrow> ('w world, host_error, string) act" where
  "runCmdOutputMaybeSudo h argv =
     bindE (getW (\<lambda>w. Geteuid h (machine w))) (\<lambda>euid.
       if euid = 0 then runCmdOutput h argv
       else bindE (hasBinary h ''sudo'') (\<lambda>sudo.
              if \<not> sudo then fail (SudoRequired (hd argv))
              else runCmdOutput h (''sudo'' # ''-n'' # argv)))"

definition runCmdDiscardOutputMaybeSudo :: "'w host \<Rightarrow> string list \<Rightarrow> ('w world, host_error, unit) act" where
  "runCmdDiscardOutputMaybeSudo h argv =
     bindE (getW (\<lambda>w. Geteuid h (machine w))) (\<lambda>euid.
       if euid = 0 then runCmdDiscardOutput h argv
       else bindE (hasBinary h ''sudo'') (\<lambda>sudo.
              if \<not> sudo then fail (SudoRequired (hd argv))
              else runCmdDiscardOutput h (''sudo'' # ''-n'' # argv)))"

subsection \<open>tuned\<close>

record TunedAdmProfile =
  ProfileName :: string
  Description :: string
  Active :: bool

record TunedAdmProfiles =
  Profiles :: "TunedAdmProfile list"
  CurrentActiveProfile :: string

definition tunedAdmBinary :: string where "tunedAdmBinary = ''tuned-adm''"

text \<open>The body of the loop of \<open>parseTunedAdmListOutput\<close>, on the trimmed line.\<close>

definition tuned_line :: "string \<Rightarrow> TunedAdmProfiles \<Rightarrow> TunedAdmProfiles" where
  "tuned_line raw result =
     (let line = TrimSpace raw in
      if line = [] then result
      else if HasPrefix line ''Current active profile:''
           then result\<lparr>CurrentActiveProfile := TrimSpace (TrimPrefix line ''Current active profile:'')\<rparr>
      else if EqualFold line ''No current active profile.'' then result\<lparr>CurrentActiveProfile := []\<rparr>
      else if \<not> HasPrefix line ''- '' then result
      else (let rest = TrimSpace (TrimPrefix line ''- '') in
            if rest = [] then result
            else (let (name, description) =
                        (case CutStr rest '' - '' of
                           Some (l, r) \<Rightarrow> (TrimSpace l, TrimSpace r)
                         | None \<Rightarrow> (rest, []))
                  in if name = [] then result
                     else result\<lparr>Profiles := Profiles result @
                            [\<lparr>ProfileName = name, Description = description, Active = False\<rparr>]\<rparr>)))"

definition mark_active :: "TunedAdmProfiles \<Rightarrow> TunedAdmProfiles" where
  "mark_active result =
     result\<lparr>Profiles := map (\<lambda>p. if ProfileName p = CurrentActiveProfile result
                                then p\<lparr>Active := True\<rparr> else p) (Profiles result)\<rparr>"

definition parseTunedAdmListOutput :: "string \<Rightarrow> host_error + TunedAdmProfiles" where
  "parseTunedAdmListOutput out =
     (let (lines, tooLong) = scan_lines out;
          result = foldl (\<lambda>acc l. tuned_line l acc) \<lparr>Profiles = [], CurrentActiveProfile = []\<rparr> lines
      in if tooLong then Inl (OutputTooLong ''tuned-adm list'')
         else if Profiles result = [] \<and> TrimSpace out = [] then Inl EmptyOutput
         else Inr (mark_active result))"

definition GetTunedAdmProfiles :: "'w host \<Rightarrow> ('w world, host_error, TunedAdmProfiles) act" where
  "GetTunedAdmProfiles h =
     bindE (runCmdOutput h [tunedAdmBinary, ''list'']) (\<lambda>out. liftE (parseTunedAdmListOutput out))"

definition SetTunedAdmProfile :: "'w host \<Rightarrow> string \<Rightarrow> ('w world, host_error, TunedAdmProfiles) act" where
  "SetTunedAdmProfile h profile0 =
     (let profile = TrimSpace profile0 in
      if profile = [] then fail ProfileRequired
      else bindE (runCmdOutputMaybeSudo h [tunedAdmBinary, ''profile'', profile])
             (\<lambda>_. GetTunedAdmProfiles h))"

definition installTunedAdm :: "'w host \<Rightarrow> ('w world, host_error, unit) act" where
  "installTunedAdm h =
     bindE (hasBinary h ''dnf'') (\<lambda>dnf.
       if \<not> dnf then fail (BinaryRequired ''dnf'')
       else runCmdDiscardOutputMaybeSudo h [''dnf'', ''-y'', ''install'', ''tuned''])"

definition ensureTunedServiceRunning :: "'w host \<Rightarrow> ('w world, host_error, unit) act" where
  "ensureTunedServiceRunning h =
     bindE (hasBinary h ''systemctl'') (\<lambda>systemctl.
       if \<not> systemctl then ret ()
       else runCmdDiscardOutputMaybeSudo h [''systemctl'', ''enable'', ''--now'', ''tuned''])"

definition EnsureTunedAdmInstalled :: "'w host \<Rightarrow> ('w world, host_error, unit) act" where
  "EnsureTunedAdmInstalled h =
     bindE (hasBinary h tunedAdmBinary) (\<lambda>present.
       if present then ret ()
       else bindE (mapErr InstallFailed (installTunedAdm h)) (\<lambda>_.
            bindE (hasBinary h tunedAdmBinary) (\<lambda>present2.
              if \<not> present2 then fail (StillMissing tunedAdmBinary)
              else bindR (ensureTunedServiceRunning h) (\<lambda>_. ret ()))))"

subsection \<open>irqbalance\<close>

record IrqBalanceState =
  IrqEnabled :: bool
  IrqActive :: bool
  UnitName :: string

definition irqBalanceUnitName :: string where "irqBalanceUnitName = ''irqbalance.service''"

fun systemctl_props :: "string list \<Rightarrow> (string \<rightharpoonup> string) \<Rightarrow> (string \<rightharpoonup> string)" where
  "systemctl_props [] props = props"
| "systemctl_props (raw # ls) props =
     (let line = TrimSpace raw in
      if line = [] then systemctl_props ls props
      else (case Cut line (CHR ''='') of
              None \<Rightarrow> systemctl_props ls props
            | Some (key, val) \<Rightarrow> systemctl_props ls (props(TrimSpace key \<mapsto> TrimSpace val))))"

definition parseSystemctlProperties :: "string \<Rightarrow> (string \<rightharpoonup> string)" where
  "parseSystemctlProperties out = systemctl_props (Split out (CHR 0x0A)) Map.empty"

text \<open>A map lookup of Go: the empty string when the key is absent.\<close>

definition lookup_str :: "(string \<rightharpoonup> string) \<Rightarrow> string \<Rightarrow> string" where
  "lookup_str m k = (case m k of None \<Rightarrow> [] | Some v \<Rightarrow> v)"

definition isEnabledUnitFileState :: "string \<Rightarrow> bool" where
  "isEnabledUnitFileState state =
     (ToLower (TrimSpace state) \<in>
        set [''enabled'', ''enabled-runtime'', ''linked'', ''linked-runtime'', ''alias''])"

definition irq_state_of :: "string \<Rightarrow> host_error + IrqBalanceState" where
  "irq_state_of out =
     (let props = parseSystemctlProperties out in
      if EqualFold (TrimSpace (lookup_str props ''LoadState'')) ''not-found'' then Inl ServiceNotFound
      else Inr \<lparr>IrqEnabled = isEnabledUnitFileState (lookup_str props ''UnitFileState''),
                IrqActive = EqualFold (TrimSpace (lookup_str props ''ActiveState'')) ''active'',
                UnitName = irqBalanceUnitName\<rparr>)"

definition GetIrqBalanceState :: "'w host \<Rightarrow> ('w world, host_error, IrqBalanceState) act" where
  "GetIrqBalanceState h =
     bindE (hasBinary h ''systemctl'') (\<lambda>systemctl.
       if \<not> systemctl then fail (BinaryRequired ''systemctl'')
       else bindE (runCmdOutputMaybeSudo h
                     [''systemctl'', ''show'', irqBalanceUnitName, ''--property=LoadState'',
                      ''--property=UnitFileState'', ''--property=ActiveState''])
              (\<lambda>out. liftE (irq_state_of out)))"

definition SetIrqBalanceState :: "'w host \<Rightarrow> bool \<Rightarrow> ('w world, host_error, IrqBalanceState) act" where
  "SetIrqBalanceState h enabled =
     bindE (hasBinary h ''systemctl'') (\<lambda>systemctl.
       if \<not> systemctl then fail (BinaryRequired ''systemctl'')
       else bindE (runCmdDiscardOutputMaybeSudo h
                     [''systemctl'', if enabled then ''enable'' else ''disable'', ''--now'', irqBalanceUnitName])
              (\<lambda>_. GetIrqBalanceState h))"

subsection \<open>Commands are run as root or through sudo\<close>

lemmas run_defs [host_eff] =
  hasBinary_def runCmdOutput_def runCmdDiscardOutput_def runCmdOutputMaybeSudo_def
  runCmdDiscardOutputMaybeSudo_def

text \<open>\<open>bindE (getW g) f\<close> where \<open>f\<close> only has to satisfy the relation for the value \<open>g\<close> really returns.\<close>

lemma steps_getW_cases:
  "(\<And>w. R w (snd (f (g w) w))) \<Longrightarrow> steps R (bindE (getW g) f)"
  by (simp add: steps_def bindE_def getW_def)

subsection \<open>Reading a list of profiles\<close>

text \<open>The output of \<open>tuned-adm list\<close>: a heading, a line per profile with its name padded to a
  column, the description, and the active profile.\<close>

definition profile_line :: "string \<times> nat \<times> string \<Rightarrow> string" where
  "profile_line p = (case p of (name, pad, desc) \<Rightarrow>
     ''- '' @ name @ replicate pad (CHR '' '') @ '' - '' @ desc)"

definition tuned_list_lines :: "(string \<times> nat \<times> string) list \<Rightarrow> string \<Rightarrow> string list" where
  "tuned_list_lines ps cur =
     ''Available profiles:'' # map profile_line ps @ [''Current active profile: '' @ cur]"

definition word :: "string \<Rightarrow> bool" where
  "word s \<longleftrightarrow> s \<noteq> [] \<and> list_all (\<lambda>c. \<not> is_space c) s"

text \<open>A description neither begins nor ends with white space.\<close>

definition phrase :: "string \<Rightarrow> bool" where
  "phrase s \<longleftrightarrow> s \<noteq> [] \<and> \<not> is_space (hd s) \<and> \<not> is_space (last s)"

lemma HasPrefix_no_head: "s \<noteq> [] \<Longrightarrow> hd s \<noteq> c \<Longrightarrow> \<not> HasPrefix s (c # p)"
  by (cases s) (auto simp: HasPrefix_def)

lemma CutStr_dash: "CutStr (replicate n (CHR '' '') @ '' - '' @ d) '' - '' = Some (replicate n (CHR '' ''), d)"
proof (induction n)
  case (Suc n)
  have "\<not> HasPrefix (CHR '' '' # replicate n (CHR '' '') @ '' - '' @ d) '' - ''"
    by (cases n) (simp_all add: HasPrefix_def)
  with Suc show ?case by simp
qed (simp add: HasPrefix_def)

lemma CutStr_word_dash:
  "list_all (\<lambda>c. \<not> is_space c) name \<Longrightarrow>
     CutStr (name @ replicate n (CHR '' '') @ '' - '' @ d) '' - '' = Some (name @ replicate n (CHR '' ''), d)"
proof (induction name)
  case Nil
  then show ?case using CutStr_dash [of n d] by simp
next
  case (Cons c name)
  then have "c \<noteq> CHR '' ''" by (auto simp: is_space_def)
  with Cons show ?case by (simp add: HasPrefix_def)
qed

lemma TrimSpace_phrase: "phrase s \<Longrightarrow> TrimSpace s = s"
  by (rule TrimSpace_id) (simp add: phrase_def)

lemma TrimSpace_pad_right: "word name \<Longrightarrow> TrimSpace (name @ replicate n (CHR '' '')) = name"
proof -
  assume w: "word name"
  have sp: "is_space (CHR '' '')" by (simp add: is_space_def)
  have h: "\<not> is_space (hd name)" "name \<noteq> []" "\<not> is_space (last name)"
    using w by (auto simp: word_def list_all_iff)
  have "dropWhile is_space (name @ replicate n (CHR '' '')) = name @ replicate n (CHR '' '')"
    using h by (intro dropWhile_hd_id) simp
  moreover have "dropWhile is_space (replicate n (CHR '' '') @ rev name) = rev name"
    using h sp by (induction n) (auto intro!: dropWhile_hd_id simp: hd_rev)
  ultimately show ?thesis by (simp add: TrimSpace_def)
qed

lemma tuned_line_profile:
  assumes "word name" "phrase desc"
  shows "tuned_line (profile_line (name, pad, desc)) acc =
           acc\<lparr>Profiles := Profiles acc @ [\<lparr>ProfileName = name, Description = desc, Active = False\<rparr>]\<rparr>"
proof -
  let ?rest = "name @ replicate pad (CHR '' '') @ '' - '' @ desc"
  let ?line = "''- '' @ ?rest"
  have ends: "desc \<noteq> []" "\<not> is_space (last desc)" "name \<noteq> []" "\<not> is_space (hd name)"
    using assms by (auto simp: word_def phrase_def list_all_iff)
  have t1: "TrimSpace ?line = ?line"
    using ends by (intro TrimSpace_phrase) (simp add: phrase_def is_space_def)
  have t2: "TrimSpace ?rest = ?rest"
    using ends by (intro TrimSpace_phrase) (simp add: phrase_def)
  have np: "\<not> HasPrefix ?line ''Current active profile:''"
    by (simp add: HasPrefix_def)
  have ef: "\<not> EqualFold ?line ''No current active profile.''"
  proof
    assume "EqualFold ?line ''No current active profile.''"
    then have "lower_char (CHR ''-'') = lower_char (CHR ''N'')"
      by (simp add: EqualFold_def ToLower_def)
    then show False by code_simp
  qed
  have tp: "TrimPrefix ?line ''- '' = ?rest" by (rule TrimPrefix_append)
  have hp: "HasPrefix ?line ''- ''" by (rule HasPrefix_append)
  have cut: "CutStr ?rest '' - '' = Some (name @ replicate pad (CHR '' ''), desc)"
    using assms(1) by (intro CutStr_word_dash) (simp add: word_def)
  have ne: "?line \<noteq> []" "?rest \<noteq> []" by simp_all
  have line: "profile_line (name, pad, desc) = ?line" by (simp add: profile_line_def)
  have desc: "TrimSpace desc = desc" using assms(2) by (rule TrimSpace_phrase)
  have nm: "TrimSpace (name @ replicate pad (CHR '' '')) = name"
    using assms(1) by (rule TrimSpace_pad_right)
  show ?thesis
    unfolding line tuned_line_def Let_def t1
    by (simp only: ne np ef hp tp t2 cut if_True if_False not_True_eq_False option.case prod.case
          desc nm ends(3))
qed

lemma tuned_line_current:
  assumes "word cur"
  shows "tuned_line (''Current active profile: '' @ cur) acc = acc\<lparr>CurrentActiveProfile := cur\<rparr>"
proof -
  let ?line = "''Current active profile:'' @ CHR '' '' # cur"
  have c: "cur \<noteq> []" "\<not> is_space (hd cur)" "\<not> is_space (last cur)"
    using assms by (auto simp: word_def list_all_iff)
  have t: "TrimSpace ?line = ?line"
    using c by (intro TrimSpace_phrase) (simp add: phrase_def is_space_def)
  have sp: "is_space (CHR '' '')" by (simp add: is_space_def)
  have "dropWhile is_space cur = cur" using c by (intro dropWhile_hd_id) simp
  then have "TrimSpace (CHR '' '' # cur) = TrimSpace cur"
    using sp by (simp add: TrimSpace_def)
  also have "\<dots> = cur" using c by (intro TrimSpace_phrase) (simp add: phrase_def)
  finally have tc: "TrimSpace (CHR '' '' # cur) = cur" .
  have hp: "HasPrefix ?line ''Current active profile:''" by (rule HasPrefix_append)
  have tp: "TrimPrefix ?line ''Current active profile:'' = CHR '' '' # cur" by (rule TrimPrefix_append)
  have line: "''Current active profile: '' @ cur = ?line" and ne: "?line \<noteq> []" by simp_all
  show ?thesis
    unfolding line tuned_line_def Let_def t
    by (simp only: ne hp tp tc if_True if_False)
qed

lemma tuned_fold_profiles:
  assumes "list_all (\<lambda>(name, pad, desc). word name \<and> phrase desc) ps"
  shows "foldl (\<lambda>acc l. tuned_line l acc) acc (map profile_line ps) =
           acc\<lparr>Profiles := Profiles acc @
             map (\<lambda>(name, pad, desc). \<lparr>ProfileName = name, Description = desc, Active = False\<rparr>) ps\<rparr>"
  using assms
proof (induction ps arbitrary: acc)
  case (Cons p ps)
  obtain name pad desc where p: "p = (name, pad, desc)" by (cases p) auto
  have "word name" "phrase desc" using Cons.prems p by auto
  with Cons tuned_line_profile [of name desc pad acc] show ?case by (simp add: p)
qed simp

lemma tuned_heading: "tuned_line ''Available profiles:'' acc = acc"
proof -
  have "TrimSpace ''Available profiles:'' = ''Available profiles:''"
    "\<not> HasPrefix ''Available profiles:'' ''Current active profile:''"
    "\<not> EqualFold ''Available profiles:'' ''No current active profile.''"
    "\<not> HasPrefix ''Available profiles:'' ''- ''" by code_simp+
  then show ?thesis by (simp add: tuned_line_def)
qed

definition clean_line :: "string \<Rightarrow> bool" where
  "clean_line l \<longleftrightarrow> CHR 0x0A \<notin> set l \<and> CHR 0x0D \<notin> set l \<and> length l < max_token"

text \<open>Parsing the output of \<open>tuned-adm list\<close> gives back every profile with its name and its
  description, in order, and marks as active exactly the profiles named on the last line.\<close>
theorem tuned_list_parsed:
  assumes ps: "list_all (\<lambda>(name, pad, desc). word name \<and> phrase desc) ps" and cur: "word cur"
    and lines: "list_all clean_line (tuned_list_lines ps cur)"
  shows "parseTunedAdmListOutput (Join (tuned_list_lines ps cur) newline @ newline) =
           Inr \<lparr>Profiles = map (\<lambda>(name, pad, desc).
                   \<lparr>ProfileName = name, Description = desc, Active = (name = cur)\<rparr>) ps,
                CurrentActiveProfile = cur\<rparr>"
proof -
  let ?out = "Join (tuned_list_lines ps cur) newline @ newline"
  let ?plain = "map (\<lambda>(name, pad, desc). \<lparr>ProfileName = name, Description = desc, Active = False\<rparr>) ps"
  have sc: "scan_lines ?out = (tuned_list_lines ps cur, False)"
    using lines by (intro scan_lines_Join) (auto simp: tuned_list_lines_def list_all_iff clean_line_def)
  have fold: "foldl (\<lambda>acc l. tuned_line l acc) \<lparr>Profiles = [], CurrentActiveProfile = []\<rparr>
      (tuned_list_lines ps cur) = \<lparr>Profiles = ?plain, CurrentActiveProfile = cur\<rparr>"
    unfolding tuned_list_lines_def
    by (simp only: foldl_Cons foldl_append foldl_Nil tuned_heading tuned_fold_profiles [OF ps]
          tuned_line_current [OF cur]) simp
  have "hd ?out = CHR ''A''" "?out \<noteq> []"
    by (cases ps; simp add: tuned_list_lines_def)+
  have nA: "\<not> is_space (CHR ''A'')" by (simp add: is_space_def)
  from \<open>hd ?out = CHR ''A''\<close> have "dropWhile is_space ?out = ?out"
    by (intro dropWhile_hd_id) (simp add: is_space_def)
  then have "CHR ''A'' \<in> set (dropWhile is_space ?out)"
    using \<open>hd ?out = CHR ''A''\<close> \<open>?out \<noteq> []\<close> by (metis hd_in_set)
  then have "\<not> (\<forall>x \<in> set (dropWhile is_space ?out). is_space x)"
    by (metis nA)
  then have ne: "TrimSpace ?out \<noteq> []" by (simp add: TrimSpace_def)
  have mark: "mark_active \<lparr>Profiles = ?plain, CurrentActiveProfile = cur\<rparr> =
      \<lparr>Profiles = map (\<lambda>(name, pad, desc).
                   \<lparr>ProfileName = name, Description = desc, Active = (name = cur)\<rparr>) ps,
                CurrentActiveProfile = cur\<rparr>"
    by (auto simp: mark_active_def)
  show ?thesis
    unfolding parseTunedAdmListOutput_def sc prod.case Let_def fold mark
    using ne by simp
qed

lemma tuned_list_parsed_witness:
  "parseTunedAdmListOutput (Join (tuned_list_lines
      [(''balanced'', Suc 0, ''General profile''), (''virtual-host'', 0, ''For hosts'')] ''virtual-host'')
      newline @ newline) =
     Inr \<lparr>Profiles = [\<lparr>ProfileName = ''balanced'', Description = ''General profile'', Active = False\<rparr>,
                      \<lparr>ProfileName = ''virtual-host'', Description = ''For hosts'', Active = True\<rparr>],
          CurrentActiveProfile = ''virtual-host''\<rparr>"
proof -
  have "list_all (\<lambda>(name, pad, desc). word name \<and> phrase desc)
      [(''balanced'', Suc 0, ''General profile''), (''virtual-host'', 0, ''For hosts'')]"
    "word ''virtual-host''" by code_simp+
  moreover have "list_all clean_line (tuned_list_lines
      [(''balanced'', Suc 0, ''General profile''), (''virtual-host'', 0, ''For hosts'')] ''virtual-host'')"
    by (simp add: clean_line_def max_token_def tuned_list_lines_def profile_line_def)
  ultimately show ?thesis by (subst tuned_list_parsed) simp_all
qed

end
