(* ===== verification/KernelArgs.thy ===== *)
theory KernelArgs
  imports HostCmd
begin

text \<open>
  The kernel command line of a slave, configured with \<open>grubby\<close> and read back from it and from
  \<open>/proc/cmdline\<close>: the shared part of \<open>slave/virsh/core_isolation.go\<close> and
  \<open>slave/virsh/host_hugepages.go\<close> (\<open>getDefaultKernelArgs\<close>, \<open>getActiveKernelArgs\<close>,
  \<open>extractGrubbyArgsLine\<close>, \<open>parseKernelArgs\<close>).  What \<open>grubby\<close> promises is the predicate
  \<open>grubby_laws\<close>; a feature that stores its setting in kernel arguments is the locale
  \<open>kernel_feature\<close>.
\<close>

subsection \<open>strconv.Unquote\<close>

text \<open>\<open>utf8.AppendRune\<close>, used for escapes that name a code point.\<close>

definition utf8 :: "nat \<Rightarrow> string" where
  "utf8 n =
     (if n < 128 then [char_of n]
      else if n < 2048 then [char_of (192 + n div 64), char_of (128 + n mod 64)]
      else if n < 65536
           then [char_of (224 + n div 4096), char_of (128 + n div 64 mod 64), char_of (128 + n mod 64)]
      else [char_of (240 + n div 262144), char_of (128 + n div 4096 mod 64),
            char_of (128 + n div 64 mod 64), char_of (128 + n mod 64)])"

definition valid_rune :: "nat \<Rightarrow> bool" where
  "valid_rune n \<longleftrightarrow> n < 55296 \<or> (57344 \<le> n \<and> n \<le> 1114111)"

definition take_digits :: "nat \<Rightarrow> nat \<Rightarrow> string \<Rightarrow> (nat \<times> string) option" where
  "take_digits b n s =
     (if length s < n then None
      else map_option (\<lambda>v. (v, drop n s)) (read_base b 0 (take n s)))"

text \<open>\<open>strconv.UnquoteChar\<close> after a backslash, with the quote the literal is written in.\<close>

definition unquote_escape :: "char \<Rightarrow> string \<Rightarrow> (string \<times> string) option" where
  "unquote_escape q s =
     (case s of
        [] \<Rightarrow> None
      | c # r \<Rightarrow>
          (if c = CHR ''a'' then Some ([CHR 0x07], r)
           else if c = CHR ''b'' then Some ([CHR 0x08], r)
           else if c = CHR ''f'' then Some ([CHR 0x0C], r)
           else if c = CHR ''n'' then Some ([CHR 0x0A], r)
           else if c = CHR ''r'' then Some ([CHR 0x0D], r)
           else if c = CHR ''t'' then Some ([CHR 0x09], r)
           else if c = CHR ''v'' then Some ([CHR 0x0B], r)
           else if c = CHR ''x'' then map_option (\<lambda>(v, t). ([char_of v], t)) (take_digits 16 2 r)
           else if c = CHR ''u'' \<or> c = CHR ''U'' then
             (case take_digits 16 (if c = CHR ''u'' then 4 else 8) r of
                None \<Rightarrow> None
              | Some (v, t) \<Rightarrow> if valid_rune v then Some (utf8 v, t) else None)
           else if c \<in> set ''01234567'' then
             (case take_digits 8 3 s of
                None \<Rightarrow> None
              | Some (v, t) \<Rightarrow> if v \<le> 255 then Some ([char_of v], t) else None)
           else if c = CHR 0x5C then Some ([CHR 0x5C], r)
           else if c = CHR 0x27 \<or> c = CHR 0x22 then (if c = q then Some ([c], r) else None)
           else None))"

text \<open>The body of a quoted literal; the fuel is its length, as every step consumes a byte.\<close>

fun unquote_body :: "nat \<Rightarrow> char \<Rightarrow> string \<Rightarrow> string option" where
  "unquote_body n q [] = Some []"
| "unquote_body 0 q (c # s) = None"
| "unquote_body (Suc n) q (c # s) =
     (if c = q \<or> c = CHR 0x0A then None
      else if c = CHR 0x5C then
        (case unquote_escape q s of
           None \<Rightarrow> None
         | Some (out, rest) \<Rightarrow> map_option (\<lambda>t. out @ t) (unquote_body n q rest))
      else map_option (\<lambda>t. c # t) (unquote_body n q s))"

definition one_rune :: "string \<Rightarrow> bool" where
  "one_rune body \<longleftrightarrow>
     (length body = 1 \<and> body \<noteq> [CHR 0x5C]) \<or>
     (case body of [] \<Rightarrow> True
        | c # s \<Rightarrow> c = CHR 0x5C \<and> map_option snd (unquote_escape (CHR 0x27) s) = Some [])"

definition Unquote :: "string \<Rightarrow> string option" where
  "Unquote s =
     (if length s < 2 then None
      else (let q = hd s; body = butlast (tl s) in
            if last s \<noteq> q then None
            else if q = CHR 0x60
                 then (if CHR 0x60 \<in> set body then None else Some (filter (\<lambda>c. c \<noteq> CHR 0x0D) body))
            else if q = CHR 0x22 then unquote_body (length body) q body
            else if q = CHR 0x27 then (if one_rune body then unquote_body (length body) q body else None)
            else None))"

subsection \<open>Kernel arguments\<close>

datatype kernel_error =
    HostErr host_error
  | NoArgsLine
  | GrubbyOutputTooLong
  | NoCmdline

fun grubby_args_line :: "string list \<Rightarrow> string option" where
  "grubby_args_line [] = None"
| "grubby_args_line (l # ls) =
     (let line = TrimSpace l in
      if \<not> HasPrefix line ''args='' then grubby_args_line ls
      else (let raw = TrimSpace (TrimPrefix line ''args='') in
            if raw = [] then Some []
            else (case Unquote raw of Some u \<Rightarrow> Some u | None \<Rightarrow> Some (TrimSet raw [CHR 0x22]))))"

definition extractGrubbyArgsLine :: "string \<Rightarrow> kernel_error + string" where
  "extractGrubbyArgsLine out =
     (let (lines, tooLong) = scan_lines out in
      case grubby_args_line lines of
        Some args \<Rightarrow> Inr args
      | None \<Rightarrow> if tooLong then Inl GrubbyOutputTooLong else Inl NoArgsLine)"

definition kernel_arg :: "string \<Rightarrow> string \<times> string" where
  "kernel_arg tok =
     (case Cut tok (CHR ''='') of
        Some (key, val) \<Rightarrow> (TrimSpace key, TrimSpace val)
      | None \<Rightarrow> (TrimSpace tok, []))"

fun kernel_args :: "string list \<Rightarrow> (string \<rightharpoonup> string) \<Rightarrow> (string \<rightharpoonup> string)" where
  "kernel_args [] args = args"
| "kernel_args (tok # toks) args =
     (if tok = [] then kernel_args toks args
      else kernel_args toks (args(fst (kernel_arg tok) \<mapsto> snd (kernel_arg tok))))"

definition parseKernelArgs :: "string \<Rightarrow> (string \<rightharpoonup> string)" where
  "parseKernelArgs cmdline = kernel_args (Fields (TrimSpace cmdline)) Map.empty"

definition getDefaultKernelArgs :: "'w host \<Rightarrow> ('w world, kernel_error, string \<rightharpoonup> string) act" where
  "getDefaultKernelArgs h =
     bindE (mapErr HostErr (hasBinary h ''grubby'')) (\<lambda>grubby.
       if \<not> grubby then fail (HostErr (BinaryRequired ''grubby''))
       else bindE (mapErr HostErr (runCmdOutputMaybeSudo h [''grubby'', ''--info=DEFAULT''])) (\<lambda>out.
              bindE (liftE (extractGrubbyArgsLine out)) (\<lambda>argsLine. ret (parseKernelArgs argsLine))))"

definition getActiveKernelArgs :: "'w host \<Rightarrow> ('w world, kernel_error, string \<rightharpoonup> string) act" where
  "getActiveKernelArgs h =
     bindE (getW (\<lambda>w. FileContent h ''/proc/cmdline'' (machine w))) (\<lambda>data.
       case data of
         None \<Rightarrow> fail NoCmdline
       | Some d \<Rightarrow> ret (parseKernelArgs (TrimSpace d)))"

text \<open>\<open>grubby --update-kernel=ALL --remove-args\<close> and \<open>--args\<close>, as both features call them.\<close>

definition grubby_remove :: "'w host \<Rightarrow> string list \<Rightarrow> ('w world, kernel_error, unit) act" where
  "grubby_remove h keys =
     mapErr HostErr (runCmdDiscardOutputMaybeSudo h
       [''grubby'', ''--update-kernel=ALL'', ''--remove-args'', Join keys '' ''])"

definition grubby_add :: "'w host \<Rightarrow> string list \<Rightarrow> ('w world, kernel_error, unit) act" where
  "grubby_add h toks =
     mapErr HostErr (runCmdDiscardOutputMaybeSudo h
       [''grubby'', ''--update-kernel=ALL'', ''--args'', Join toks '' ''])"

subsection \<open>Reading back what was written\<close>

text \<open>A token that survives quoting and splitting.\<close>

definition plain_token :: "string \<Rightarrow> bool" where
  "plain_token t \<longleftrightarrow> t \<noteq> [] \<and> list_all (\<lambda>c. \<not> is_space c \<and> c \<noteq> CHR 0x22 \<and> c \<noteq> CHR 0x5C) t"

lemma plain_tokenD: "plain_token t \<Longrightarrow> t \<noteq> [] \<and> (\<forall>c \<in> set t. \<not> is_space c)"
  by (auto simp: plain_token_def list_all_iff)

lemma is_space_chars [simp]:
  "is_space (CHR '' '')" "is_space (CHR 0x0A)" "is_space (CHR 0x0D)" "\<not> is_space (CHR 0x22)"
  by (simp_all add: is_space_def)

lemma Fields_Join:
  "list_all plain_token toks \<Longrightarrow> Fields (Join toks '' '') = toks"
proof (induction toks "'' ''" rule: Join.induct)
  case 1
  then show ?case by (simp add: Fields_def)
next
  case (2 p)
  then show ?case by (auto intro!: Fields_single dest: plain_tokenD)
next
  case (3 p q ps)
  then have "Fields (p @ CHR '' '' # Join (q # ps) '' '') = p # Fields (Join (q # ps) '' '')"
    by (intro Fields_cons) (auto dest: plain_tokenD)
  with 3 show ?case by simp
qed

lemma TrimSpace_Join: "list_all plain_token toks \<Longrightarrow> TrimSpace (Join toks '' '') = Join toks '' ''"
proof (cases "toks = []")
  case False
  assume p: "list_all plain_token toks"
  then have ne: "\<forall>t \<in> set toks. t \<noteq> []" by (auto simp: list_all_iff dest: plain_tokenD)
  have "hd toks \<in> set toks" "last toks \<in> set toks" using False by simp_all
  then have pt: "plain_token (hd toks)" "plain_token (last toks)"
    using p by (simp_all add: list_all_iff)
  then have "hd toks \<noteq> []" "\<not> is_space (hd (hd toks))"
    using plain_tokenD [OF pt(1)] hd_in_set [of "hd toks"] by blast+
  moreover have "\<not> is_space (last (last toks))"
    using plain_tokenD [OF pt(2)] last_in_set [of "last toks"] by blast
  ultimately show ?thesis
    using hd_Join [OF False, of "'' ''"] last_Join [OF False ne, of "'' ''"] by (intro TrimSpace_id) metis
qed simp

lemma parseKernelArgs_Join:
  "list_all plain_token toks \<Longrightarrow> parseKernelArgs (Join toks '' '') = kernel_args toks Map.empty"
  by (simp add: parseKernelArgs_def TrimSpace_Join Fields_Join)

lemma unquote_body_plain:
  "length s \<le> n \<Longrightarrow> \<forall>c \<in> set s. c \<noteq> CHR 0x22 \<and> c \<noteq> CHR 0x0A \<and> c \<noteq> CHR 0x5C \<Longrightarrow>
     unquote_body n (CHR 0x22) s = Some s"
  by (induction n "CHR 0x22" s rule: unquote_body.induct) auto

lemma Join_plain_chars:
  assumes "list_all plain_token toks" "c \<in> set (Join toks '' '')"
  shows "c \<noteq> CHR 0x22 \<and> c \<noteq> CHR 0x0A \<and> c \<noteq> CHR 0x5C"
proof -
  have "c = CHR '' '' \<or> (\<exists>t \<in> set toks. c \<in> set t)"
    using set_Join [of toks "'' ''"] assms(2) by auto
  then show ?thesis
  proof
    assume "\<exists>t \<in> set toks. c \<in> set t"
    then obtain t where "plain_token t" "c \<in> set t" using assms(1) by (auto simp: list_all_iff)
    then have "\<not> is_space c \<and> c \<noteq> CHR 0x22 \<and> c \<noteq> CHR 0x5C"
      by (simp add: plain_token_def list_all_iff)
    then show ?thesis using is_space_chars(2) by blast
  qed simp
qed

definition args_line :: "string list \<Rightarrow> string" where
  "args_line toks = ''args='' @ CHR 0x22 # Join toks '' '' @ [CHR 0x22]"

lemma grubby_args_line_found:
  assumes "list_all plain_token toks"
  shows "grubby_args_line (args_line toks # post) = Some (Join toks '' '')"
proof -
  let ?raw = "CHR 0x22 # Join toks '' '' @ [CHR 0x22]"
  have t: "TrimSpace (args_line toks) = args_line toks" "TrimSpace ?raw = ?raw"
    by (rule TrimSpace_id; simp add: args_line_def is_space_def)+
  have p: "HasPrefix (args_line toks) ''args=''" "TrimPrefix (args_line toks) ''args='' = ?raw"
    unfolding args_line_def by (rule HasPrefix_append, rule TrimPrefix_append)
  have "Unquote ?raw = Some (Join toks '' '')"
    using unquote_body_plain [of "Join toks '' ''"] Join_plain_chars [OF assms]
    by (simp add: Unquote_def)
  then show ?thesis by (simp add: t p)
qed

lemma grubby_args_line_skip:
  "\<forall>l \<in> set pre. \<not> HasPrefix (TrimSpace l) ''args='' \<Longrightarrow> grubby_args_line (pre @ ls) = grubby_args_line ls"
  by (induction pre) (auto simp: Let_def)

text \<open>The map is the one in which the last occurrence of a key wins.\<close>

lemma kernel_args_lookup:
  "kernel_args toks args k =
     (if \<exists>t \<in> set toks. t \<noteq> [] \<and> fst (kernel_arg t) = k
      then kernel_args toks Map.empty k else args k)"
proof (induction toks arbitrary: args)
  case (Cons tok toks)
  let ?k = "fst (kernel_arg tok)" and ?v = "snd (kernel_arg tok)"
  show ?case
  proof (cases "tok = []")
    case True
    with Cons.IH [of args] show ?thesis by auto
  next
    case False
    let ?E = "\<exists>t \<in> set toks. t \<noteq> [] \<and> fst (kernel_arg t) = k"
    have "kernel_args (tok # toks) args k = kernel_args toks (args(?k \<mapsto> ?v)) k" for args
      using False by (simp only: kernel_args.simps(2) if_False)
    moreover have "kernel_args toks (args(?k \<mapsto> ?v)) k =
        (if ?E then kernel_args toks Map.empty k else (args(?k \<mapsto> ?v)) k)" for args
      by (rule Cons.IH)
    ultimately show ?thesis
      using False by (simp only: bex_simps list.set(2) fun_upd_apply) auto
  qed
qed simp

subsection \<open>What grubby promises\<close>

definition kernel_files_kept :: "'w host \<Rightarrow> 'w \<Rightarrow> 'w \<Rightarrow> bool" where
  "kernel_files_kept h m m' \<longleftrightarrow>
     (\<forall>p. HasPrefix p ''/proc/'' \<or> HasPrefix p ''/sys/'' \<longrightarrow>
        FileContent h p m' = FileContent h p m \<and> DirEntries h p m' = DirEntries h p m)"

definition token_keys :: "string list \<Rightarrow> string set" where
  "token_keys toks = (\<lambda>t. fst (kernel_arg t)) ` set toks"

text \<open>The kernel's limit on its command line (\<open>COMMAND_LINE_SIZE\<close>).\<close>

definition cmdline_size :: nat where "cmdline_size = 4096"

definition wf_cmdline :: "string list \<Rightarrow> bool" where
  "wf_cmdline toks \<longleftrightarrow>
     list_all plain_token toks \<and> sum_list (map (\<lambda>t. length t + 1) toks) < cmdline_size"

text \<open>
  The documented behaviour of \<open>grubby\<close>, run as root, on the kernel arguments \<open>toks m\<close> of the
  default entry, while the command line fits: \<open>--info=DEFAULT\<close> prints a line \<open>args="..."\<close>,
  \<open>--remove-args\<close> removes the named arguments, \<open>--args\<close> replaces or adds the given ones.
\<close>

definition grubby_laws :: "'w host \<Rightarrow> ('w \<Rightarrow> string list) \<Rightarrow> bool" where
  "grubby_laws h toks \<longleftrightarrow>
     (\<forall>m. Geteuid h m = 0 \<and> LookPath h ''grubby'' m) \<and>
     (\<forall>m. wf_cmdline (toks m) \<longrightarrow> (\<exists>r pre post. RunProgram h [''grubby'', ''--info=DEFAULT''] m = (r, m) \<and>
            Succeeded r \<and> scan_lines (Stdout r) = (pre @ args_line (toks m) # post, False) \<and>
            (\<forall>l \<in> set pre. \<not> HasPrefix (TrimSpace l) ''args=''))) \<and>
     (\<forall>m keys. list_all plain_token keys \<longrightarrow>
        (\<exists>r m'. RunProgram h [''grubby'', ''--update-kernel=ALL'', ''--remove-args'', Join keys '' ''] m = (r, m') \<and>
            Succeeded r \<and> kernel_files_kept h m m' \<and>
            toks m' = filter (\<lambda>t. fst (kernel_arg t) \<notin> set keys) (toks m))) \<and>
     (\<forall>m new. list_all plain_token new \<longrightarrow>
        (\<exists>r m'. RunProgram h [''grubby'', ''--update-kernel=ALL'', ''--args'', Join new '' ''] m = (r, m') \<and>
            Succeeded r \<and> kernel_files_kept h m m' \<and>
            toks m' = filter (\<lambda>t. fst (kernel_arg t) \<notin> token_keys new) (toks m) @ new))"

lemma grubby_lawsD:
  assumes "grubby_laws h toks"
  shows "Geteuid h m = 0" "LookPath h ''grubby'' m"
    and "wf_cmdline (toks m) \<Longrightarrow> \<exists>r pre post. RunProgram h [''grubby'', ''--info=DEFAULT''] m = (r, m) \<and>
            Succeeded r \<and> scan_lines (Stdout r) = (pre @ args_line (toks m) # post, False) \<and>
            (\<forall>l \<in> set pre. \<not> HasPrefix (TrimSpace l) ''args='')"
    and "list_all plain_token keys \<Longrightarrow>
        \<exists>r m'. RunProgram h [''grubby'', ''--update-kernel=ALL'', ''--remove-args'', Join keys '' ''] m = (r, m') \<and>
            Succeeded r \<and> kernel_files_kept h m m' \<and>
            toks m' = filter (\<lambda>t. fst (kernel_arg t) \<notin> set keys) (toks m)"
    and "list_all plain_token new \<Longrightarrow>
        \<exists>r m'. RunProgram h [''grubby'', ''--update-kernel=ALL'', ''--args'', Join new '' ''] m = (r, m') \<and>
            Succeeded r \<and> kernel_files_kept h m m' \<and>
            toks m' = filter (\<lambda>t. fst (kernel_arg t) \<notin> token_keys new) (toks m) @ new"
  using assms unfolding grubby_laws_def by blast+

lemma getDefaultKernelArgs_laws:
  assumes laws: "grubby_laws h toks" and wf: "wf_cmdline (toks (machine w))"
  shows "\<exists>w'. getDefaultKernelArgs h w = (Inr (kernel_args (toks (machine w)) Map.empty), w') \<and>
           machine w' = machine w"
proof -
  obtain r pre post where out: "RunProgram h [''grubby'', ''--info=DEFAULT''] (machine w) = (r, machine w)"
      "Succeeded r"
    and sc: "scan_lines (Stdout r) = (pre @ args_line (toks (machine w)) # post, False)"
    and pre: "\<forall>l \<in> set pre. \<not> HasPrefix (TrimSpace l) ''args=''"
    using grubby_lawsD(3) [OF laws wf] by blast
  have plain: "list_all plain_token (toks (machine w))" using wf by (simp add: wf_cmdline_def)
  have "grubby_args_line (pre @ args_line (toks (machine w)) # post) = Some (Join (toks (machine w)) '' '')"
    using grubby_args_line_skip [OF pre] grubby_args_line_found [OF plain] by metis
  then have "extractGrubbyArgsLine (Stdout r) = Inr (Join (toks (machine w)) '' '')"
    by (simp only: extractGrubbyArgsLine_def sc Let_def prod.case option.case)
  then show ?thesis
    using grubby_lawsD(1,2) [OF laws, of "machine w"] parseKernelArgs_Join [OF plain]
    by (simp add: getDefaultKernelArgs_def host_eff exec_def out)
qed

lemma grubby_remove_laws:
  assumes "grubby_laws h toks" "list_all plain_token keys"
  shows "\<exists>w'. grubby_remove h keys w = (Inr (), w') \<and> kernel_files_kept h (machine w) (machine w') \<and>
           toks (machine w') = filter (\<lambda>t. fst (kernel_arg t) \<notin> set keys) (toks (machine w))"
  using grubby_lawsD(4) [OF assms, of "machine w"] grubby_lawsD(1) [OF assms(1), of "machine w"]
  by (auto simp: grubby_remove_def host_eff exec_def)

lemma grubby_add_laws:
  assumes "grubby_laws h toks" "list_all plain_token new"
  shows "\<exists>w'. grubby_add h new w = (Inr (), w') \<and> kernel_files_kept h (machine w) (machine w') \<and>
           toks (machine w') = filter (\<lambda>t. fst (kernel_arg t) \<notin> token_keys new) (toks (machine w)) @ new"
  using grubby_lawsD(5) [OF assms, of "machine w"] grubby_lawsD(1) [OF assms(1), of "machine w"]
  by (auto simp: grubby_add_def host_eff exec_def)

lemma kernel_files_kept_trans:
  "kernel_files_kept h a b \<Longrightarrow> kernel_files_kept h b c \<Longrightarrow> kernel_files_kept h a c"
  by (simp add: kernel_files_kept_def)

lemma wf_cmdline_filter: "wf_cmdline (xs @ ys) \<Longrightarrow> wf_cmdline (filter P xs @ ys)"
  using sum_list_filter_le_nat [of "\<lambda>t. length t + 1" P xs]
  by (auto simp: wf_cmdline_def list_all_iff)

lemma wf_cmdline_filter1: "wf_cmdline xs \<Longrightarrow> wf_cmdline (filter P xs)"
  using wf_cmdline_filter [of xs "[]" P] by simp

subsection \<open>A setting kept in kernel arguments\<close>

text \<open>
  A feature owns a set of kernel arguments, writes a request as tokens and reads a setting back
  from the parsed command line.  Its laws are about the command line alone; the lemmas are about
  any host on which \<open>grubby\<close> behaves as documented.
\<close>

locale kernel_feature =
  fixes keys :: "string list"
    and render :: "'r \<Rightarrow> string list"
    and decode :: "(string \<rightharpoonup> string) \<Rightarrow> 'e + 's"
    and ok :: "'r \<Rightarrow> bool"
    and spec :: "'r \<Rightarrow> 's"
    and unset :: 's
  assumes keys_plain: "list_all plain_token keys"
    and render_plain: "ok r \<Longrightarrow> list_all plain_token (render r)"
    and render_keys: "ok r \<Longrightarrow> token_keys (render r) = set keys"
    and decode_local: "(\<And>k. k \<in> set keys \<Longrightarrow> m k = m' k) \<Longrightarrow> decode m = decode m'"
    and decode_render: "ok r \<Longrightarrow> decode (kernel_args (render r) Map.empty) = Inr (spec r)"
    and decode_unset: "decode Map.empty = Inr unset"
begin

lemma decode_without_keys:
  assumes "\<forall>t \<in> set toks. fst (kernel_arg t) \<notin> set keys"
  shows "decode (kernel_args (toks @ rest) Map.empty) = decode (kernel_args rest Map.empty)"
proof (rule decode_local)
  fix k assume k: "k \<in> set keys"
  have "kernel_args (toks @ rest) args = kernel_args rest (kernel_args toks args)" for args
    by (induction toks arbitrary: args) auto
  moreover have "kernel_args toks Map.empty k = None"
  proof -
    have "\<not> (\<exists>t \<in> set toks. t \<noteq> [] \<and> fst (kernel_arg t) = k)" using assms k by blast
    then show ?thesis using kernel_args_lookup [of toks Map.empty k] by (simp only: if_False)
  qed
  ultimately show "kernel_args (toks @ rest) Map.empty k = kernel_args rest Map.empty k"
    using kernel_args_lookup [of rest "kernel_args toks Map.empty" k] kernel_args_lookup [of rest Map.empty k]
    by (metis (full_types))
qed

lemma read_after_set:
  assumes laws: "grubby_laws h toks" and wf: "wf_cmdline (toks (machine w) @ render r)" and "ok r"
  shows "\<exists>w1 w2 w3 args. grubby_remove h keys w = (Inr (), w1) \<and> grubby_add h (render r) w1 = (Inr (), w2) \<and>
           kernel_files_kept h (machine w) (machine w2) \<and>
           getDefaultKernelArgs h w2 = (Inr args, w3) \<and> machine w3 = machine w2 \<and>
           decode args = Inr (spec r)"
proof -
  obtain w1 where w1: "grubby_remove h keys w = (Inr (), w1)" "kernel_files_kept h (machine w) (machine w1)"
    "toks (machine w1) = filter (\<lambda>t. fst (kernel_arg t) \<notin> set keys) (toks (machine w))"
    using grubby_remove_laws [OF laws keys_plain] by blast
  obtain w2 where w2: "grubby_add h (render r) w1 = (Inr (), w2)" "kernel_files_kept h (machine w1) (machine w2)"
    "toks (machine w2) = filter (\<lambda>t. fst (kernel_arg t) \<notin> token_keys (render r)) (toks (machine w1)) @ render r"
    using grubby_add_laws [OF laws render_plain [OF \<open>ok r\<close>]] by blast
  let ?old = "filter (\<lambda>t. fst (kernel_arg t) \<notin> set keys) (toks (machine w))"
  have t: "toks (machine w2) = ?old @ render r"
    using w1(3) w2(3) render_keys [OF \<open>ok r\<close>] by simp
  then have "wf_cmdline (toks (machine w2))" using wf by (simp add: wf_cmdline_filter)
  then obtain w3 where w3: "getDefaultKernelArgs h w2 = (Inr (kernel_args (toks (machine w2)) Map.empty), w3)"
    "machine w3 = machine w2"
    using getDefaultKernelArgs_laws [OF laws] by blast
  have "decode (kernel_args (toks (machine w2)) Map.empty) = Inr (spec r)"
    unfolding t using decode_without_keys [of ?old "render r"] decode_render [OF \<open>ok r\<close>] by simp
  with w1(1) w2(1) w3 kernel_files_kept_trans [OF w1(2) w2(2)] show ?thesis
    by (intro exI conjI)
qed

lemma read_after_remove:
  assumes laws: "grubby_laws h toks" and wf: "wf_cmdline (toks (machine w))"
  shows "\<exists>w1 w2 args. grubby_remove h keys w = (Inr (), w1) \<and>
           kernel_files_kept h (machine w) (machine w1) \<and>
           getDefaultKernelArgs h w1 = (Inr args, w2) \<and> machine w2 = machine w1 \<and> decode args = Inr unset"
proof -
  obtain w1 where w1: "grubby_remove h keys w = (Inr (), w1)" "kernel_files_kept h (machine w) (machine w1)"
    "toks (machine w1) = filter (\<lambda>t. fst (kernel_arg t) \<notin> set keys) (toks (machine w))"
    using grubby_remove_laws [OF laws keys_plain] by blast
  have "wf_cmdline (toks (machine w1))" using wf w1(3) by (simp add: wf_cmdline_filter1)
  then obtain w2 where w2: "getDefaultKernelArgs h w1 = (Inr (kernel_args (toks (machine w1)) Map.empty), w2)"
    "machine w2 = machine w1"
    using getDefaultKernelArgs_laws [OF laws] by blast
  have "decode (kernel_args (toks (machine w1)) Map.empty) = Inr unset"
    using decode_without_keys [of "toks (machine w1)" "[]"] decode_unset w1(3) by simp
  with w1 w2 show ?thesis by blast
qed

end

subsection \<open>A host with a grubby\<close>

text \<open>A machine that is its kernel arguments, with fixed files, for the examples.\<close>

definition demo_grubby :: "string list \<Rightarrow> string list \<Rightarrow> cmd_result \<times> string list" where
  "demo_grubby argv m =
     (case argv of
        [_, a] \<Rightarrow> (\<lparr>Succeeded = True, Stdout = args_line m @ newline, Stderr = [], Combined = []\<rparr>, m)
      | [_, _, b, c] \<Rightarrow>
          (\<lparr>Succeeded = True, Stdout = [], Stderr = [], Combined = []\<rparr>,
           if b = ''--args'' then filter (\<lambda>t. fst (kernel_arg t) \<notin> token_keys (Fields c)) m @ Fields c
           else filter (\<lambda>t. fst (kernel_arg t) \<notin> set (Fields c)) m)
      | _ \<Rightarrow> (\<lparr>Succeeded = False, Stdout = [], Stderr = [], Combined = []\<rparr>, m))"

definition demo_host :: "(string \<rightharpoonup> string) \<Rightarrow> (string \<rightharpoonup> string list) \<Rightarrow> string list host" where
  "demo_host files dirs =
     \<lparr>LookPath = \<lambda>b m. True, Geteuid = \<lambda>m. 0, RunProgram = demo_grubby,
      FileContent = \<lambda>p m. files p, DirEntries = \<lambda>p m. dirs p,
      StatPath = \<lambda>p m. StatMissing, MakeDirs = \<lambda>p m. (False, m)\<rparr>"

lemma Join_length: "length (Join ts [c]) \<le> sum_list (map (\<lambda>t. length t + 1) ts)"
  by (induction ts "[c]" rule: Join.induct) auto

lemma demo_host_laws: "grubby_laws (demo_host files dirs) id"
proof -
  have info: "scan_lines (args_line m @ newline) = ([] @ args_line m # [], False)"
    if wf: "wf_cmdline m" for m
  proof -
    have plain: "list_all plain_token m" using wf by (simp add: wf_cmdline_def)
    have nl: "CHR 0x0A \<notin> set (Join m '' '')" using Join_plain_chars [OF plain] by blast
    have cr: "CHR 0x0D \<notin> set (Join m '' '')"
    proof
      assume "CHR 0x0D \<in> set (Join m '' '')"
      then have "\<exists>t \<in> set m. CHR 0x0D \<in> set t" using set_Join [of m "'' ''"] by auto
      then obtain t where "plain_token t" "CHR 0x0D \<in> set t" using plain by (auto simp: list_all_iff)
      then have "\<not> is_space (CHR 0x0D)" using plain_tokenD by blast
      then show False using is_space_chars(3) by contradiction
    qed
    have "length (args_line m) < max_token"
      using wf Join_length [of m "CHR '' ''"]
      by (simp add: args_line_def wf_cmdline_def cmdline_size_def max_token_def)
    with nl cr show ?thesis
      using scan_lines_Join [of "[args_line m]"] by (simp add: args_line_def)
  qed
  show ?thesis
    unfolding grubby_laws_def
    using info
    by (auto simp: demo_host_def demo_grubby_def Fields_Join kernel_files_kept_def)
      (metis append_Nil empty_iff list.set(1))+
qed

end
