(* ===== verification/CoreIsolation.thy ===== *)
theory CoreIsolation
  imports CpuPinning KernelArgs
begin

text \<open>
  Isolating physical cores of a slave for guests: \<open>slave/virsh/core_isolation.go\<close>.  A request
  names core indices per socket; the logical CPUs of these cores are written to the kernel
  arguments \<open>isolcpus\<close>, \<open>nohz_full\<close> and \<open>rcu_nocbs\<close>, and the state is read back from them.
\<close>

subsection \<open>Data\<close>

record HostCoreIsolationSocketSelection =
  SelSocketID :: int
  CoreIndices :: "int list"

record HostCoreIsolationSocketState =
  StateSocketID :: int
  TotalPhysicalCores :: int
  MaxIsolatableCores :: int
  IsolatedCoreIndices :: "int list"

record HostCoreIsolationState =
  Enabled :: bool
  RebootRequired :: bool
  Message :: string
  Isolcpus :: string
  NohzFull :: string
  RcuNocbs :: string
  ActiveIsolcpus :: string
  ConfiguredCPUs :: "int list"
  ActiveCPUs :: "int list"
  SocketStates :: "HostCoreIsolationSocketState list"

record hostIsolationKernelArgs =
  IsolcpusRaw :: string
  NohzFullRaw :: string
  RcuNocbsRaw :: string
  IsolcpusNorm :: string
  NohzFullNorm :: string
  RcuNocbsNorm :: string
  ArgCPUs :: "int list"

datatype isolation_error =
    KernelErr kernel_error
  | TopologyErr
  | NoSocketSelection
  | SocketTwice int
  | NoSuchSocket int
  | SocketWithoutCores int
  | NoCoreIndex int
  | LimitExceeded int int int int
  | CoreIndexOutOfRange int int int
  | NoCoresForIsolation
  | MissingCPUList string string
  | BadCPUList string string cpu_list_error
  | TopologyPanic pin_error

definition coreIsolationArgIsolcpus :: string where "coreIsolationArgIsolcpus = ''isolcpus''"
definition coreIsolationArgNohzFull :: string where "coreIsolationArgNohzFull = ''nohz_full''"
definition coreIsolationArgRcuNocbs :: string where "coreIsolationArgRcuNocbs = ''rcu_nocbs''"

subsection \<open>Validating a request\<close>

text \<open>The map \<open>socketByID\<close>: a later socket of the same id replaces an earlier one.\<close>

definition socketByID :: "CPUSocket list \<Rightarrow> int \<Rightarrow> CPUSocket option" where
  "socketByID sockets = map_of (rev (map (\<lambda>s. (SocketID s, s)) sockets))"

fun isolated_siblings :: "int \<Rightarrow> PhysicalCore list \<Rightarrow> int list \<Rightarrow> isolation_error + int list" where
  "isolated_siblings sid cores [] = Inr []"
| "isolated_siblings sid cores (idx # idxs) =
     (if idx < 0 \<or> int (length cores) \<le> idx
      then Inl (CoreIndexOutOfRange sid idx (int (length cores) - 1))
      else map_sum id (\<lambda>cpus. CoreSiblings (cores ! nat idx) @ cpus) (isolated_siblings sid cores idxs))"

definition selection_cpus :: "CPUSocket list \<Rightarrow> HostCoreIsolationSocketSelection \<Rightarrow> isolation_error + int list" where
  "selection_cpus sockets sel =
     (let sid = SelSocketID sel in
      case socketByID sockets sid of
        None \<Rightarrow> Inl (NoSuchSocket sid)
      | Some socket \<Rightarrow>
          (case GetPhysicalCores socket of
             Inl e \<Rightarrow> Inl (TopologyPanic e)
           | Inr physCores \<Rightarrow>
               (let totalPhysCores = int (length physCores);
                    maxIsolatable = totalPhysCores div 2;
                    coreIndices = normalizeCoreIndices (CoreIndices sel)
                in if totalPhysCores = 0 then Inl (SocketWithoutCores sid)
                   else if coreIndices = [] then Inl (NoCoreIndex sid)
                   else if maxIsolatable < int (length coreIndices)
                        then Inl (LimitExceeded sid (int (length coreIndices)) maxIsolatable totalPhysCores)
                   else isolated_siblings sid physCores coreIndices)))"

fun selections_cpus ::
  "CPUSocket list \<Rightarrow> int list \<Rightarrow> HostCoreIsolationSocketSelection list \<Rightarrow> isolation_error + int list" where
  "selections_cpus sockets seen [] = Inr []"
| "selections_cpus sockets seen (sel # sels) =
     (if SelSocketID sel \<in> set seen then Inl (SocketTwice (SelSocketID sel))
      else (case selection_cpus sockets sel of
              Inl e \<Rightarrow> Inl e
            | Inr cpus \<Rightarrow>
                map_sum id (\<lambda>rest. cpus @ rest) (selections_cpus sockets (SelSocketID sel # seen) sels)))"

definition buildValidatedHostIsolationCPUSet ::
  "HostCoreIsolationSocketSelection list \<Rightarrow> CPUSocket list \<Rightarrow> isolation_error + int list" where
  "buildValidatedHostIsolationCPUSet req sockets =
     (if req = [] then Inl NoSocketSelection
      else map_sum id uniqueSortedInts (selections_cpus sockets [] req))"

subsection \<open>The state per socket\<close>

definition isolated_index :: "int list \<Rightarrow> PhysicalCore \<Rightarrow> int list" where
  "isolated_index isolatedCPUs core =
     (if CoreSiblings core = [] then []
      else if list_all (\<lambda>sib. sib \<in> set isolatedCPUs) (CoreSiblings core) then [CoreIndex core]
      else [])"

fun buildHostCoreIsolationSocketStates ::
  "CPUSocket list \<Rightarrow> int list \<Rightarrow> isolation_error + HostCoreIsolationSocketState list" where
  "buildHostCoreIsolationSocketStates [] isolatedCPUs = Inr []"
| "buildHostCoreIsolationSocketStates (sock # socks) isolatedCPUs =
     (case GetPhysicalCores sock of
        Inl e \<Rightarrow> Inl (TopologyPanic e)
      | Inr physCores \<Rightarrow>
          map_sum id
            (\<lambda>states. \<lparr>StateSocketID = SocketID sock,
                       TotalPhysicalCores = int (length physCores),
                       MaxIsolatableCores = int (length physCores) div 2,
                       IsolatedCoreIndices = concat (map (isolated_index isolatedCPUs) physCores)\<rparr> # states)
            (buildHostCoreIsolationSocketStates socks isolatedCPUs))"

subsection \<open>Kernel arguments\<close>

definition containsASCIIDigit :: "string \<Rightarrow> bool" where
  "containsASCIIDigit s = list_ex is_digit s"

definition extractIsolcpusCPUList :: "string \<Rightarrow> string" where
  "extractIsolcpusCPUList raw0 =
     (let raw = TrimSpace raw0 in
      if raw = [] then []
      else (let parts = Split raw (CHR '','');
                tail = dropWhile (\<lambda>p. \<not> containsASCIIDigit (TrimSpace p)) parts
            in if tail = [] then [] else Join tail '',''))"

definition normalizeKernelCPUArg :: "string \<Rightarrow> string \<Rightarrow> isolation_error + (string \<times> int list)" where
  "normalizeKernelCPUArg argName raw0 =
     (let raw = TrimSpace raw0 in
      if raw = [] then Inr ([], [])
      else (let cpuListValue = (if argName = coreIsolationArgIsolcpus then extractIsolcpusCPUList raw else raw)
            in if argName = coreIsolationArgIsolcpus \<and> cpuListValue = []
               then Inl (MissingCPUList argName raw)
               else (case expandCPUList cpuListValue of
                       Inl e \<Rightarrow> Inl (BadCPUList argName raw e)
                     | Inr cpus0 \<Rightarrow> (let cpus = uniqueSortedInts cpus0 in Inr (compressCPUList cpus, cpus)))))"

definition parseHostIsolationKernelArgs ::
  "(string \<rightharpoonup> string) \<Rightarrow> isolation_error + hostIsolationKernelArgs" where
  "parseHostIsolationKernelArgs args =
     (let isolcpus = TrimSpace (lookup_str args coreIsolationArgIsolcpus);
          nohz = TrimSpace (lookup_str args coreIsolationArgNohzFull);
          rcu = TrimSpace (lookup_str args coreIsolationArgRcuNocbs)
      in case normalizeKernelCPUArg coreIsolationArgIsolcpus isolcpus of
           Inl e \<Rightarrow> Inl e
         | Inr (isolNorm, isolCPUs) \<Rightarrow>
             (case normalizeKernelCPUArg coreIsolationArgNohzFull nohz of
                Inl e \<Rightarrow> Inl e
              | Inr (nohzNorm, nohzCPUs) \<Rightarrow>
                  (case normalizeKernelCPUArg coreIsolationArgRcuNocbs rcu of
                     Inl e \<Rightarrow> Inl e
                   | Inr (rcuNorm, rcuCPUs) \<Rightarrow>
                       Inr \<lparr>IsolcpusRaw = isolcpus, NohzFullRaw = nohz, RcuNocbsRaw = rcu,
                            IsolcpusNorm = isolNorm, NohzFullNorm = nohzNorm, RcuNocbsNorm = rcuNorm,
                            ArgCPUs = (if isolCPUs \<noteq> [] then isolCPUs
                                       else if nohzCPUs \<noteq> [] then nohzCPUs else rcuCPUs)\<rparr>)))"

subsection \<open>Reading and changing the isolation of a host\<close>

definition sysfs_of :: "'w host \<Rightarrow> 'w world \<Rightarrow> sysfs" where
  "sysfs_of h w = \<lparr>ReadDir = (\<lambda>p. DirEntries h p (machine w)), ReadFile = (\<lambda>p. FileContent h p (machine w))\<rparr>"

definition host_sockets :: "'w host \<Rightarrow> ('w world, isolation_error, CPUSocket list) act" where
  "host_sockets h =
     bindE (getW (\<lambda>w. GetCPUSockets (sysfs_of h w))) (\<lambda>r.
       case r of None \<Rightarrow> fail TopologyErr | Some sockets \<Rightarrow> ret sockets)"

definition isolation_state ::
  "hostIsolationKernelArgs \<Rightarrow> hostIsolationKernelArgs \<Rightarrow> HostCoreIsolationSocketState list
     \<Rightarrow> HostCoreIsolationState" where
  "isolation_state configured active socketStates =
     \<lparr>Enabled = (IsolcpusRaw configured \<noteq> [] \<or> NohzFullRaw configured \<noteq> [] \<or> RcuNocbsRaw configured \<noteq> []),
      RebootRequired = (IsolcpusNorm configured \<noteq> IsolcpusNorm active \<or>
                        NohzFullNorm configured \<noteq> NohzFullNorm active \<or>
                        RcuNocbsNorm configured \<noteq> RcuNocbsNorm active),
      Message = [],
      Isolcpus = IsolcpusRaw configured, NohzFull = NohzFullRaw configured,
      RcuNocbs = RcuNocbsRaw configured, ActiveIsolcpus = IsolcpusRaw active,
      ConfiguredCPUs = ArgCPUs configured, ActiveCPUs = ArgCPUs active,
      SocketStates = socketStates\<rparr>"

definition GetHostCoreIsolation :: "'w host \<Rightarrow> ('w world, isolation_error, HostCoreIsolationState) act" where
  "GetHostCoreIsolation h =
     bindE (mapErr KernelErr (getDefaultKernelArgs h)) (\<lambda>configuredArgs.
     bindE (mapErr KernelErr (getActiveKernelArgs h)) (\<lambda>activeArgs.
     bindE (liftE (parseHostIsolationKernelArgs configuredArgs)) (\<lambda>configured.
     bindE (liftE (parseHostIsolationKernelArgs activeArgs)) (\<lambda>active.
     bindE (host_sockets h) (\<lambda>sockets.
     bindE (liftE (buildHostCoreIsolationSocketStates sockets (ArgCPUs configured))) (\<lambda>states.
       ret (isolation_state configured active states)))))))"

definition with_message :: "string \<Rightarrow> HostCoreIsolationState \<Rightarrow> HostCoreIsolationState" where
  "with_message msg st =
     st\<lparr>Message := (if RebootRequired st then msg @ '' (reboot required)'' else msg)\<rparr>"

definition isolation_keys :: "string list" where
  "isolation_keys = [coreIsolationArgIsolcpus, coreIsolationArgNohzFull, coreIsolationArgRcuNocbs]"

definition clearHostCoreIsolationKernelArgs :: "'w host \<Rightarrow> ('w world, isolation_error, unit) act" where
  "clearHostCoreIsolationKernelArgs h = mapErr KernelErr (grubby_remove h isolation_keys)"

definition isolation_tokens :: "int list \<Rightarrow> string list" where
  "isolation_tokens cpus = map (\<lambda>k. k @ ''='' @ compressCPUList cpus) isolation_keys"

definition require_grubby :: "'w host \<Rightarrow> ('w world, isolation_error, unit) act" where
  "require_grubby h =
     bindE (mapErr (\<lambda>e. KernelErr (HostErr e)) (hasBinary h ''grubby''))
       (\<lambda>b. guardE b (KernelErr (HostErr (BinaryRequired ''grubby''))))"

definition SetHostCoreIsolation ::
  "'w host \<Rightarrow> HostCoreIsolationSocketSelection list \<Rightarrow> ('w world, isolation_error, HostCoreIsolationState) act" where
  "SetHostCoreIsolation h req =
     bindE (host_sockets h) (\<lambda>sockets.
     bindE (liftE (buildValidatedHostIsolationCPUSet req sockets)) (\<lambda>selectedCPUs.
     bindE (guardE (selectedCPUs \<noteq> []) NoCoresForIsolation) (\<lambda>_.
     bindE (require_grubby h) (\<lambda>_.
     bindE (clearHostCoreIsolationKernelArgs h) (\<lambda>_.
     bindE (mapErr KernelErr (grubby_add h (isolation_tokens selectedCPUs))) (\<lambda>_.
     bindE (GetHostCoreIsolation h) (\<lambda>state.
       ret (with_message ''host core isolation updated'' state))))))))"

definition RemoveHostCoreIsolation :: "'w host \<Rightarrow> ('w world, isolation_error, HostCoreIsolationState) act" where
  "RemoveHostCoreIsolation h =
     bindE (require_grubby h) (\<lambda>_.
     bindE (clearHostCoreIsolationKernelArgs h) (\<lambda>_.
     bindE (GetHostCoreIsolation h) (\<lambda>state.
       ret (with_message ''host core isolation removed'' state))))"

subsection \<open>What a validated request selects\<close>

definition selects :: "CPUSocket list \<Rightarrow> HostCoreIsolationSocketSelection \<Rightarrow> PhysicalCore list \<Rightarrow> bool" where
  "selects sockets sel cores \<longleftrightarrow>
     (\<exists>socket. socketByID sockets (SelSocketID sel) = Some socket \<and> GetPhysicalCores socket = Inr cores)"

definition selection_ok :: "HostCoreIsolationSocketSelection \<Rightarrow> PhysicalCore list \<Rightarrow> bool" where
  "selection_ok sel cores \<longleftrightarrow>
     CoreIndices sel \<noteq> [] \<and> card (set (CoreIndices sel)) \<le> length cores div 2 \<and>
     (\<forall>i \<in> set (CoreIndices sel). 0 \<le> i \<and> i < int (length cores))"

definition chosen_cpus :: "HostCoreIsolationSocketSelection \<Rightarrow> PhysicalCore list \<Rightarrow> int set" where
  "chosen_cpus sel cores = (\<Union>i \<in> set (CoreIndices sel). set (CoreSiblings (cores ! nat i)))"

lemma isolated_siblings_Inr:
  "isolated_siblings sid cores idxs = Inr cpus \<Longrightarrow>
     (\<forall>i \<in> set idxs. 0 \<le> i \<and> i < int (length cores)) \<and>
     set cpus = (\<Union>i \<in> set idxs. set (CoreSiblings (cores ! nat i)))"
proof (induction sid cores idxs arbitrary: cpus rule: isolated_siblings.induct)
  case (2 sid cores idx idxs)
  then show ?case by (cases "isolated_siblings sid cores idxs") (auto split: if_splits)
qed simp

lemma selection_cpus_Inr:
  assumes "selection_cpus sockets sel = Inr cpus"
  shows "\<exists>cores. selects sockets sel cores \<and> selection_ok sel cores \<and> set cpus = chosen_cpus sel cores"
proof -
  from assms obtain socket where s: "socketByID sockets (SelSocketID sel) = Some socket"
    by (auto simp: selection_cpus_def Let_def split: option.splits)
  from assms s obtain cores where c: "GetPhysicalCores socket = Inr cores"
    by (auto simp: selection_cpus_def Let_def split: sum.splits)
  let ?n = "normalizeCoreIndices (CoreIndices sel)"
  have isib: "isolated_siblings (SelSocketID sel) cores ?n = Inr cpus" "?n \<noteq> []"
    "int (length ?n) \<le> int (length cores) div 2"
    using assms s c by (auto simp: selection_cpus_def Let_def split: if_splits)
  have n: "set ?n = set (CoreIndices sel)" "length ?n = card (set (CoreIndices sel))"
    by (simp_all add: normalizeCoreIndices_eq)
  have "card (set (CoreIndices sel)) \<le> length cores div 2"
    using isib(3) n(2) by (simp add: zdiv_int)
  then have "selection_ok sel cores"
    using isolated_siblings_Inr [OF isib(1)] isib(2) n(1) by (auto simp: selection_ok_def)
  with s c isolated_siblings_Inr [OF isib(1)] n(1) show ?thesis
    by (auto simp: selects_def chosen_cpus_def)
qed

lemma selections_cpus_Inr:
  "selections_cpus sockets seen req = Inr cpus \<Longrightarrow>
     distinct (map SelSocketID req) \<and> set (map SelSocketID req) \<inter> set seen = {} \<and>
     (\<forall>sel \<in> set req. \<exists>cores. selects sockets sel cores \<and> selection_ok sel cores) \<and>
     set cpus = (\<Union>sel \<in> set req. \<Union>cores \<in> {cores. selects sockets sel cores}. chosen_cpus sel cores)"
proof (induction sockets seen req arbitrary: cpus rule: selections_cpus.induct)
  case (2 sockets seen sel sels)
  have ns: "SelSocketID sel \<notin> set seen" using "2.prems" by (auto split: if_splits)
  obtain cs where cs: "selection_cpus sockets sel = Inr cs"
    using "2.prems" ns by (cases "selection_cpus sockets sel") auto
  obtain rest where rest: "selections_cpus sockets (SelSocketID sel # seen) sels = Inr rest"
    "cpus = cs @ rest"
    using "2.prems" ns cs by (cases "selections_cpus sockets (SelSocketID sel # seen) sels") auto
  note ih = "2.IH" [OF ns cs rest(1)]
  obtain cores where c: "selects sockets sel cores" "selection_ok sel cores" "set cs = chosen_cpus sel cores"
    using selection_cpus_Inr [OF cs] by blast
  have "{cores. selects sockets sel cores} = {cores}"
    using c(1) by (auto simp: selects_def)
  then have set_eq: "set cpus = (\<Union>s \<in> set (sel # sels). \<Union>cores \<in> {cores. selects sockets s cores}. chosen_cpus s cores)"
    using rest(2) c(3) ih by simp
  have ok: "\<forall>s \<in> set (sel # sels). \<exists>cores. selects sockets s cores \<and> selection_ok s cores"
    using c(1,2) ih by auto
  have "distinct (map SelSocketID (sel # sels))" "set (map SelSocketID (sel # sels)) \<inter> set seen = {}"
    using ih ns by auto
  with set_eq ok show ?case by blast
qed simp

lemma validated_cpus:
  assumes "buildValidatedHostIsolationCPUSet req sockets = Inr cpus"
  shows "req \<noteq> []" "distinct (map SelSocketID req)"
    "\<forall>sel \<in> set req. \<exists>cores. selects sockets sel cores \<and> selection_ok sel cores"
    "set cpus = (\<Union>sel \<in> set req. \<Union>cores \<in> {cores. selects sockets sel cores}. chosen_cpus sel cores)"
    "sorted_wrt (<) cpus"
proof -
  show "req \<noteq> []" using assms by (auto simp: buildValidatedHostIsolationCPUSet_def)
  with assms obtain cs where cs: "selections_cpus sockets [] req = Inr cs" "cpus = uniqueSortedInts cs"
    by (cases "selections_cpus sockets [] req") (auto simp: buildValidatedHostIsolationCPUSet_def)
  have set_cpus: "set cpus = set cs" using cs(2) by (simp add: uniqueSortedInts_eq)
  show "sorted_wrt (<) cpus" using cs(2) by (simp add: uniqueSortedInts_eq)
  note r = selections_cpus_Inr [OF cs(1)]
  from r show "distinct (map SelSocketID req)" by (elim conjE)
  from r show "\<forall>sel \<in> set req. \<exists>cores. selects sockets sel cores \<and> selection_ok sel cores"
    by (elim conjE)
  from r show "set cpus = (\<Union>sel \<in> set req. \<Union>cores \<in> {cores. selects sockets sel cores}. chosen_cpus sel cores)"
    unfolding set_cpus by (elim conjE)
qed

subsection \<open>Well-formed hosts\<close>

definition socket_cpus :: "CPUSocket \<Rightarrow> int set" where
  "socket_cpus s = (\<Union>c \<in> set (CPUs s). set (Siblings c))"

text \<open>Sockets have distinct ids and no CPU belongs to two of them.\<close>

definition wf_topology :: "CPUSocket list \<Rightarrow> bool" where
  "wf_topology sockets \<longleftrightarrow>
     distinct (map SocketID sockets) \<and> list_all wf_socket sockets \<and>
     list_all (\<lambda>s. list_all (\<lambda>t. SocketID s = SocketID t \<or> socket_cpus s \<inter> socket_cpus t = {}) sockets) sockets"

lemma wf_topologyD:
  assumes "wf_topology sockets"
  shows "distinct (map SocketID sockets)" "s \<in> set sockets \<Longrightarrow> wf_socket s"
    "s \<in> set sockets \<Longrightarrow> t \<in> set sockets \<Longrightarrow> x \<in> socket_cpus s \<Longrightarrow> x \<in> socket_cpus t \<Longrightarrow> s = t"
proof -
  show d: "distinct (map SocketID sockets)" and "s \<in> set sockets \<Longrightarrow> wf_socket s"
    using assms by (auto simp: wf_topology_def list_all_iff)
  assume st: "s \<in> set sockets" "t \<in> set sockets" "x \<in> socket_cpus s" "x \<in> socket_cpus t"
  then have "SocketID s = SocketID t"
    using assms unfolding wf_topology_def list_all_iff by blast
  with d st show "s = t" by (auto simp: distinct_map dest: inj_onD)
qed

lemma socketByID_mem:
  assumes "distinct (map SocketID sockets)"
  shows "socketByID sockets sid = Some s \<longleftrightarrow> s \<in> set sockets \<and> SocketID s = sid"
proof -
  have "distinct (map fst (rev (map (\<lambda>s. (SocketID s, s)) sockets)))"
    using assms by (simp add: rev_map [symmetric] comp_def distinct_rev)
  then show ?thesis
    unfolding socketByID_def by (subst map_of_eq_Some_iff) auto
qed

lemma core_cpus_in_socket:
  assumes "cores_spec s cores" "wf_socket s" "k \<in> set cores"
  shows "set (CoreSiblings k) \<subseteq> socket_cpus s"
proof -
  obtain c where c: "c \<in> set (CPUs s)" "core_of c k"
    using assms(1,3) unfolding cores_spec_def by metis
  with core_of_props(5) [OF assms(2) c] show ?thesis by (auto simp: socket_cpus_def)
qed

text \<open>A core of a socket is isolated as a whole or not at all.\<close>

lemma core_selected_iff:
  assumes wf: "wf_topology sockets" and v: "buildValidatedHostIsolationCPUSet req sockets = Inr cpus"
    and s: "s \<in> set sockets" and c: "GetPhysicalCores s = Inr cores" "cores_spec s cores"
    and i: "i < length cores" and x: "x \<in> set (CoreSiblings (cores ! i))"
  shows "x \<in> set cpus \<longleftrightarrow> (\<exists>sel \<in> set req. SelSocketID sel = SocketID s \<and> int i \<in> set (CoreIndices sel))"
proof -
  note sock = socketByID_mem [OF wf_topologyD(1) [OF wf]]
  have ws: "wf_socket s" using wf_topologyD(2) [OF wf s] .
  have xs: "x \<in> socket_cpus s"
    using core_cpus_in_socket [OF c(2) ws, of "cores ! i"] i x by auto
  show ?thesis
  proof
    assume "x \<in> set cpus"
    then obtain sel cs where sel: "sel \<in> set req" "selects sockets sel cs" "x \<in> chosen_cpus sel cs"
      using validated_cpus(4) [OF v] by auto
    from sel(2) obtain t where t: "t \<in> set sockets" "SocketID t = SelSocketID sel" "GetPhysicalCores t = Inr cs"
      using sock by (auto simp: selects_def)
    obtain j where j: "j \<in> set (CoreIndices sel)" "x \<in> set (CoreSiblings (cs ! nat j))"
      using sel(3) by (auto simp: chosen_cpus_def)
    have sok: "selection_ok sel cs"
      using validated_cpus(3) [OF v] sel(1,2) by (fastforce simp: selects_def)
    then have jr: "0 \<le> j" "j < int (length cs)" using j(1) by (auto simp: selection_ok_def)
    have wt: "wf_socket t" using wf_topologyD(2) [OF wf t(1)] .
    obtain cs' where "GetPhysicalCores t = Inr cs'" "cores_spec t cs'" using wf_cores [OF wt] .
    then have sp: "cores_spec t cs" using t(3) by simp
    have "x \<in> socket_cpus t"
      using core_cpus_in_socket [OF sp wt, of "cs ! nat j"] jr j(2) by auto
    then have "t = s" using wf_topologyD(3) [OF wf t(1) s] xs by blast
    then have eq: "cs = cores" using t(3) c(1) by simp
    have "cs ! nat j = cores ! i"
      by (rule cores_disjoint [OF wt sp]) (use jr i eq j(2) x in auto)
    then have "nat j = i"
      using cores_distinct [OF sp] eq i jr by (simp add: nth_eq_iff_index_eq)
    then have "j = int i" using jr by simp
    with sel(1) t(2) \<open>t = s\<close> j(1) show "\<exists>sel \<in> set req. SelSocketID sel = SocketID s \<and> int i \<in> set (CoreIndices sel)"
      by auto
  next
    assume "\<exists>sel \<in> set req. SelSocketID sel = SocketID s \<and> int i \<in> set (CoreIndices sel)"
    then obtain sel where sel: "sel \<in> set req" "SelSocketID sel = SocketID s" "int i \<in> set (CoreIndices sel)"
      by blast
    have "selects sockets sel cores"
      using sock s sel(2) c(1) by (auto simp: selects_def)
    moreover have "x \<in> chosen_cpus sel cores"
      using sel(3) x by (force simp: chosen_cpus_def)
    ultimately show "x \<in> set cpus" using validated_cpus(4) [OF v] sel(1) by blast
  qed
qed

subsection \<open>The state that is reported\<close>

definition requested_indices :: "HostCoreIsolationSocketSelection list \<Rightarrow> int \<Rightarrow> int list" where
  "requested_indices req sid =
     (case find (\<lambda>sel. SelSocketID sel = sid) req of
        None \<Rightarrow> [] | Some sel \<Rightarrow> normalizeCoreIndices (CoreIndices sel))"

lemma find_selection:
  assumes "distinct (map SelSocketID req)"
  shows "find (\<lambda>sel. SelSocketID sel = sid) req = Some sel \<longleftrightarrow> sel \<in> set req \<and> SelSocketID sel = sid"
  using assms by (induction req) (auto simp: image_iff)

lemma find_no_selection: "find (\<lambda>sel. SelSocketID sel = sid) req = None \<longleftrightarrow> (\<forall>sel \<in> set req. SelSocketID sel \<noteq> sid)"
  by (auto simp: find_None_iff)

lemma set_requested_indices:
  "distinct (map SelSocketID req) \<Longrightarrow>
     i \<in> set (requested_indices req sid) \<longleftrightarrow> (\<exists>sel \<in> set req. SelSocketID sel = sid \<and> i \<in> set (CoreIndices sel))"
proof (cases "find (\<lambda>sel. SelSocketID sel = sid) req")
  case None
  then show ?thesis using find_no_selection [of sid req] by (simp add: requested_indices_def)
next
  case (Some a)
  assume d: "distinct (map SelSocketID req)"
  note f = find_selection [OF d, of sid]
  have "sel = a" if "sel \<in> set req" "SelSocketID sel = sid" for sel
    using f [of sel] f [of a] that Some by simp
  moreover have "a \<in> set req" "SelSocketID a = sid" using f [of a] Some by auto
  moreover have "set (requested_indices req sid) = set (CoreIndices a)"
    using Some by (simp add: requested_indices_def normalizeCoreIndices_eq)
  ultimately show ?thesis by blast
qed

lemma sorted_requested_indices: "sorted_wrt (<) (requested_indices req sid)"
  by (simp add: requested_indices_def normalizeCoreIndices_eq split: option.split)

lemma concat_map_if: "concat (map (\<lambda>x. if P x then [f x] else []) xs) = map f (filter P xs)"
  by (induction xs) auto

lemma isolated_indices:
  assumes wf: "wf_topology sockets" and v: "buildValidatedHostIsolationCPUSet req sockets = Inr cpus"
    and s: "s \<in> set sockets" and c: "GetPhysicalCores s = Inr cores" "cores_spec s cores"
  shows "concat (map (isolated_index cpus) cores) = requested_indices req (SocketID s)"
proof (rule strict_sorted_eqI)
  let ?R = "\<lambda>i. int i \<in> set (requested_indices req (SocketID s))"
  note dr = validated_cpus(2) [OF v]
  have one: "isolated_index cpus (cores ! i) = (if ?R i then [int i] else [])" if i: "i < length cores" for i
  proof -
    have ws: "wf_socket s" using wf_topologyD(2) [OF wf s] .
    obtain ci where ci: "ci \<in> set (CPUs s)" "core_of ci (cores ! i)"
      using c(2) i unfolding cores_spec_def by (metis nth_mem)
    have ne: "CoreSiblings (cores ! i) \<noteq> []" using core_of_props(1) [OF ws ci] .
    have "x \<in> set cpus \<longleftrightarrow> ?R i" if "x \<in> set (CoreSiblings (cores ! i))" for x
      using core_selected_iff [OF wf v s c i that] set_requested_indices [OF dr] by simp
    then have "list_all (\<lambda>sib. sib \<in> set cpus) (CoreSiblings (cores ! i)) \<longleftrightarrow> ?R i"
      using ne by (cases "CoreSiblings (cores ! i)") (auto simp: list_all_iff)
    moreover have "CoreIndex (cores ! i) = int i" using c(2) i by (simp add: cores_spec_def)
    ultimately show ?thesis using ne by (simp add: isolated_index_def)
  qed
  have "map (isolated_index cpus) cores = map (\<lambda>i. if ?R i then [int i] else []) [0..<length cores]"
    by (rule nth_equalityI) (simp_all add: one)
  then have eq: "concat (map (isolated_index cpus) cores) = map int (filter ?R [0..<length cores])"
    by (simp only: concat_map_if)
  have "sorted_wrt (<) (filter ?R [0..<length cores])"
    by (intro sorted_wrt_filter sorted_wrt_upt)
  then show "sorted_wrt (<) (concat (map (isolated_index cpus) cores))"
    by (simp add: eq sorted_wrt_map)
  show "sorted_wrt (<) (requested_indices req (SocketID s))" by (rule sorted_requested_indices)
  have rng: "0 \<le> i \<and> i < int (length cores)" if i: "i \<in> set (requested_indices req (SocketID s))" for i
  proof -
    obtain sel where sel: "sel \<in> set req" "SelSocketID sel = SocketID s" "i \<in> set (CoreIndices sel)"
      using i set_requested_indices [OF dr] by blast
    then obtain cs where "selects sockets sel cs" "selection_ok sel cs"
      using validated_cpus(3) [OF v] by blast
    moreover from this(1) have "cs = cores"
      using sel(2) s c(1) socketByID_mem [OF wf_topologyD(1) [OF wf], of "SocketID s" s]
      by (auto simp: selects_def)
    ultimately show ?thesis using sel(3) by (simp add: selection_ok_def)
  qed
  show "set (concat (map (isolated_index cpus) cores)) = set (requested_indices req (SocketID s))"
  proof (intro equalityI subsetI)
    fix i assume "i \<in> set (requested_indices req (SocketID s))"
    with rng [OF this] show "i \<in> set (concat (map (isolated_index cpus) cores))"
      unfolding eq by (auto intro!: rev_image_eqI [of "nat i"])
  qed (auto simp: eq)
qed

lemma socket_states:
  assumes wf: "wf_topology sockets" and v: "buildValidatedHostIsolationCPUSet req sockets = Inr cpus"
    and sub: "set ss \<subseteq> set sockets"
  shows "\<exists>states. buildHostCoreIsolationSocketStates ss cpus = Inr states \<and>
           map StateSocketID states = map SocketID ss \<and>
           map IsolatedCoreIndices states = map (\<lambda>s. requested_indices req (SocketID s)) ss"
  using sub
proof (induction ss)
  case (Cons s ss)
  then have s: "s \<in> set sockets" and "wf_socket s" using wf_topologyD(2) [OF wf] by auto
  then obtain cores where c: "GetPhysicalCores s = Inr cores" "cores_spec s cores"
    by (meson wf_cores)
  from Cons obtain states where "buildHostCoreIsolationSocketStates ss cpus = Inr states"
    "map StateSocketID states = map SocketID ss"
    "map IsolatedCoreIndices states = map (\<lambda>s. requested_indices req (SocketID s)) ss"
    by auto
  with c isolated_indices [OF wf v s c] show ?case by simp
qed simp

lemma socket_states_none:
  "list_all wf_socket ss \<Longrightarrow>
     \<exists>states. buildHostCoreIsolationSocketStates ss [] = Inr states \<and>
       map StateSocketID states = map SocketID ss \<and> list_all (\<lambda>st. IsolatedCoreIndices st = []) states"
proof (induction ss)
  case (Cons s ss)
  then have "wf_socket s" by simp
  then obtain cores where c: "GetPhysicalCores s = Inr cores" "cores_spec s cores" by (rule wf_cores)
  have "isolated_index [] k = []" for k
    by (cases "CoreSiblings k") (simp_all add: isolated_index_def)
  moreover from Cons obtain states where "buildHostCoreIsolationSocketStates ss [] = Inr states"
    "map StateSocketID states = map SocketID ss" "list_all (\<lambda>st. IsolatedCoreIndices st = []) states"
    by auto
  ultimately show ?case using c by simp
qed simp

subsection \<open>The kernel arguments of an isolation\<close>

lemma compressCPUList_plain:
  assumes "cpu_nums cpus" "cpus \<noteq> []"
  shows "compressCPUList cpus \<noteq> []" "\<forall>c \<in> set (compressCPUList cpus). \<not> is_space c \<and> c \<noteq> CHR 0x22 \<and> c \<noteq> CHR 0x5C"
proof -
  show "compressCPUList cpus \<noteq> []"
  proof -
    obtain ps where "compressCPUList cpus = Join ps '',''" "ps \<noteq> []" "\<forall>p \<in> set ps. p \<noteq> []"
      using compressCPUList_parts [OF assms] by metis
    then show ?thesis by (simp add: Join_eq_Nil)
  qed
  show "\<forall>c \<in> set (compressCPUList cpus). \<not> is_space c \<and> c \<noteq> CHR 0x22 \<and> c \<noteq> CHR 0x5C"
  proof
    fix c assume "c \<in> set (compressCPUList cpus)"
    then consider "is_digit c" | "c = CHR ''-''" | "c = CHR '',''"
      using compressCPUList_chars [OF assms(1)] by blast
    then show "\<not> is_space c \<and> c \<noteq> CHR 0x22 \<and> c \<noteq> CHR 0x5C"
      by cases (auto simp: is_digit_def is_space_def)
  qed
qed

lemma TrimSpace_compress: "cpu_nums cpus \<Longrightarrow> cpus \<noteq> [] \<Longrightarrow> TrimSpace (compressCPUList cpus) = compressCPUList cpus"
  using compressCPUList_plain(2) by (intro TrimSpace_no_space) blast

lemma extract_compress:
  assumes "cpu_nums cpus" "cpus \<noteq> []"
  shows "extractIsolcpusCPUList (compressCPUList cpus) = compressCPUList cpus"
proof -
  obtain ps where ps: "compressCPUList cpus = Join ps '',''" "ps \<noteq> []"
    "\<forall>p \<in> set ps. set p \<subseteq> {c. is_digit c} \<union> {CHR ''-''} \<and> is_digit (hd p) \<and> p \<noteq> [] \<and> CHR '','' \<notin> set p"
    using compressCPUList_parts [OF assms] by metis
  have sp: "Split (compressCPUList cpus) (CHR '','') = ps"
    using ps by (simp add: Split_Join)
  have h: "is_digit (hd (hd ps))" "hd ps \<noteq> []" "set (hd ps) \<subseteq> {c. is_digit c} \<union> {CHR ''-''}"
    using ps(2,3) by (meson hd_in_set)+
  have "\<forall>c \<in> set (hd ps). \<not> is_space c" using h(3) digits_not_space by (auto simp: is_space_def)
  then have "TrimSpace (hd ps) = hd ps" by (rule TrimSpace_no_space)
  then have "containsASCIIDigit (TrimSpace (hd ps))"
    using h by (auto simp: containsASCIIDigit_def list_ex_iff intro!: bexI [of _ "hd (hd ps)"])
  then have "dropWhile (\<lambda>p. \<not> containsASCIIDigit (TrimSpace p)) ps = ps"
    using ps(2) by (intro dropWhile_hd_id) simp
  then show ?thesis
    using compressCPUList_plain(1) [OF assms] ps(2)
    by (simp add: extractIsolcpusCPUList_def Let_def TrimSpace_compress [OF assms] sp ps(1) [symmetric]
        del: dropWhile_eq_Nil_conv)
qed

definition isolation_ok :: "int list \<Rightarrow> bool" where
  "isolation_ok cpus \<longleftrightarrow> cpus \<noteq> [] \<and> cpu_nums cpus \<and> sorted_wrt (<) cpus"

lemma normalize_compress:
  assumes "isolation_ok cpus"
  shows "normalizeKernelCPUArg k (compressCPUList cpus) = Inr (compressCPUList cpus, cpus)"
proof -
  have c: "cpus \<noteq> []" "cpu_nums cpus" "sorted_wrt (<) cpus" using assms by (auto simp: isolation_ok_def)
  have srt: "sorted_list_of_set (set cpus) = cpus"
    using c(3) by (simp add: sorted_list_of_set.idem_if_sorted_distinct strict_sorted_iff)
  have "expandCPUList (compressCPUList cpus) = Inr cpus"
    using compress.read_show [OF c(2,1)] srt by simp
  then show ?thesis
    using compressCPUList_plain(1) [OF c(2,1)]
    by (simp add: normalizeKernelCPUArg_def Let_def TrimSpace_compress [OF c(2,1)] extract_compress [OF c(2,1)]
        uniqueSortedInts_eq srt)
qed

definition isolation_args :: "int list \<Rightarrow> hostIsolationKernelArgs" where
  "isolation_args cpus =
     (let t = compressCPUList cpus in
      \<lparr>IsolcpusRaw = t, NohzFullRaw = t, RcuNocbsRaw = t, IsolcpusNorm = t, NohzFullNorm = t,
       RcuNocbsNorm = t, ArgCPUs = cpus\<rparr>)"

lemmas isolation_key_defs =
  isolation_keys_def coreIsolationArgIsolcpus_def coreIsolationArgNohzFull_def coreIsolationArgRcuNocbs_def

lemma kernel_arg_isolation:
  assumes "isolation_ok cpus" "k \<in> set isolation_keys"
  shows "kernel_arg (k @ ''='' @ compressCPUList cpus) = (k, compressCPUList cpus)"
proof -
  have "CHR ''='' \<notin> set k" "TrimSpace k = k"
    using assms(2) by (auto simp: isolation_key_defs TrimSpace_def is_space_def)
  moreover have "TrimSpace (compressCPUList cpus) = compressCPUList cpus"
    using assms(1) by (intro TrimSpace_compress) (auto simp: isolation_ok_def)
  ultimately show ?thesis using Cut_append [of "CHR ''=''" k "compressCPUList cpus"] by (simp add: kernel_arg_def)
qed

lemma isolation_decode:
  assumes ok: "isolation_ok cpus"
  shows "parseHostIsolationKernelArgs (kernel_args (isolation_tokens cpus) Map.empty) = Inr (isolation_args cpus)"
proof -
  let ?t = "compressCPUList cpus"
  have c: "cpus \<noteq> []" "cpu_nums cpus" using ok by (auto simp: isolation_ok_def)
  have "kernel_args (isolation_tokens cpus) Map.empty =
      Map.empty(coreIsolationArgIsolcpus \<mapsto> ?t, coreIsolationArgNohzFull \<mapsto> ?t, coreIsolationArgRcuNocbs \<mapsto> ?t)"
    using kernel_arg_isolation [OF ok]
    by (simp add: isolation_tokens_def isolation_keys_def)
  then have "lookup_str (kernel_args (isolation_tokens cpus) Map.empty) k = ?t" if "k \<in> set isolation_keys" for k
    using that by (auto simp: lookup_str_def isolation_key_defs)
  then have l: "lookup_str (kernel_args (isolation_tokens cpus) Map.empty) coreIsolationArgIsolcpus = ?t"
    "lookup_str (kernel_args (isolation_tokens cpus) Map.empty) coreIsolationArgNohzFull = ?t"
    "lookup_str (kernel_args (isolation_tokens cpus) Map.empty) coreIsolationArgRcuNocbs = ?t"
    by (simp_all add: isolation_keys_def)
  show ?thesis
    unfolding parseHostIsolationKernelArgs_def Let_def l TrimSpace_compress [OF c(2,1)] normalize_compress [OF ok]
    using c(1) by (simp add: isolation_args_def Let_def)
qed

interpretation isolation: kernel_feature isolation_keys isolation_tokens parseHostIsolationKernelArgs
    isolation_ok isolation_args
    "\<lparr>IsolcpusRaw = [], NohzFullRaw = [], RcuNocbsRaw = [], IsolcpusNorm = [], NohzFullNorm = [],
      RcuNocbsNorm = [], ArgCPUs = []\<rparr>"
proof unfold_locales
  show "list_all plain_token isolation_keys"
    by (simp add: isolation_key_defs plain_token_def is_space_def)
next
  fix cpus assume ok: "isolation_ok cpus"
  then have "\<forall>c \<in> set (compressCPUList cpus). \<not> is_space c \<and> c \<noteq> CHR 0x22 \<and> c \<noteq> CHR 0x5C"
    by (intro compressCPUList_plain) (auto simp: isolation_ok_def)
  then show "list_all plain_token (isolation_tokens cpus)"
    by (simp add: isolation_tokens_def isolation_key_defs plain_token_def is_space_def list_all_iff)
  show "token_keys (isolation_tokens cpus) = set isolation_keys"
    using kernel_arg_isolation [OF ok]
    by (simp add: token_keys_def isolation_tokens_def isolation_keys_def)
next
  fix m m' :: "string \<rightharpoonup> string"
  assume "\<And>k. k \<in> set isolation_keys \<Longrightarrow> m k = m' k"
  then have "lookup_str m k = lookup_str m' k" if "k \<in> set isolation_keys" for k
    using that by (simp add: lookup_str_def)
  then show "parseHostIsolationKernelArgs m = parseHostIsolationKernelArgs m'"
    by (simp add: parseHostIsolationKernelArgs_def isolation_keys_def)
next
  show "parseHostIsolationKernelArgs Map.empty =
      Inr \<lparr>IsolcpusRaw = [], NohzFullRaw = [], RcuNocbsRaw = [], IsolcpusNorm = [], NohzFullNorm = [],
        RcuNocbsNorm = [], ArgCPUs = []\<rparr>"
    by (simp add: parseHostIsolationKernelArgs_def lookup_str_def normalizeKernelCPUArg_def)
qed (rule isolation_decode)

subsection \<open>The topology only depends on sysfs\<close>

lemma PathJoin_sys: "HasPrefix (PathJoin (cpu_base_path # rest)) ''/sys/''"
proof -
  have "\<exists>t. PathJoin (cpu_base_path # rest) = cpu_base_path @ t"
    by (cases rest) (simp_all add: PathJoin_def)
  then show ?thesis by (auto simp: cpu_base_path_def HasPrefix_def)
qed

lemma GetCPUSockets_cong:
  assumes "\<And>p. HasPrefix p ''/sys/'' \<Longrightarrow> ReadFile fs p = ReadFile fs' p \<and> ReadDir fs p = ReadDir fs' p"
  shows "GetCPUSockets fs = GetCPUSockets fs'"
proof -
  have f: "ReadFile fs (PathJoin [PathJoin [cpu_base_path, name, a], b]) =
      ReadFile fs' (PathJoin [PathJoin [cpu_base_path, name, a], b])" for name a b
  proof -
    have "PathJoin [PathJoin [cpu_base_path, name, a], b] = PathJoin (cpu_base_path # [name, a, b])"
      by (simp add: PathJoin_def)
    then show ?thesis using assms PathJoin_sys by metis
  qed
  have e: "cpu_entry fs name = cpu_entry fs' name" for name
    unfolding cpu_entry_def readIntFromFile_def parseCPUList_def Let_def f by (rule refl)
  have "socket_map fs names m = socket_map fs' names m" for names m
    by (induction names arbitrary: m) (auto simp: e split: option.split)
  moreover have "ReadDir fs cpu_base_path = ReadDir fs' cpu_base_path"
    using assms [of cpu_base_path] by (simp add: cpu_base_path_def HasPrefix_def)
  ultimately show ?thesis by (simp add: GetCPUSockets_def split: option.split)
qed

lemma sockets_kept:
  "kernel_files_kept h (machine w) (machine w') \<Longrightarrow> GetCPUSockets (sysfs_of h w') = GetCPUSockets (sysfs_of h w)"
  by (rule GetCPUSockets_cong) (simp add: sysfs_of_def kernel_files_kept_def)

lemma cmdline_kept:
  "kernel_files_kept h m m' \<Longrightarrow> FileContent h ''/proc/cmdline'' m' = FileContent h ''/proc/cmdline'' m"
  by (simp add: kernel_files_kept_def HasPrefix_def)

lemma validated_ok:
  assumes wf: "wf_topology sockets" and v: "buildValidatedHostIsolationCPUSet req sockets = Inr cpus"
  shows "isolation_ok cpus"
proof -
  note sock = socketByID_mem [OF wf_topologyD(1) [OF wf]]
  have cores: "\<exists>s. s \<in> set sockets \<and> GetPhysicalCores s = Inr cs \<and> cores_spec s cs"
    if "selects sockets sel cs" for sel cs
  proof -
    from that obtain s where s0: "socketByID sockets (SelSocketID sel) = Some s" "GetPhysicalCores s = Inr cs"
      unfolding selects_def by blast
    have s: "s \<in> set sockets" "GetPhysicalCores s = Inr cs"
      using sock [of "SelSocketID sel" s] s0 by blast+
    from wf_topologyD(2) [OF wf s(1)] obtain cs' where "GetPhysicalCores s = Inr cs'" "cores_spec s cs'"
      by (rule wf_cores)
    with s show ?thesis by auto
  qed
  have core: "CoreSiblings (cs ! nat i) \<noteq> [] \<and> cpu_nums (CoreSiblings (cs ! nat i))"
    if sel: "selects sockets sel cs" "selection_ok sel cs" "i \<in> set (CoreIndices sel)" for sel cs i
  proof -
    obtain s where s: "s \<in> set sockets" "cores_spec s cs" using cores [OF sel(1)] by blast
    have "cs ! nat i \<in> set cs" using sel(2,3) by (auto simp: selection_ok_def)
    then obtain c where "c \<in> set (CPUs s)" "core_of c (cs ! nat i)"
      using s(2) unfolding cores_spec_def by metis
    then show ?thesis using core_of_props(1,3) [OF wf_topologyD(2) [OF wf s(1)]] by blast
  qed
  have uniq: "selects sockets sel a \<Longrightarrow> selects sockets sel b \<Longrightarrow> a = b" for sel a b
    by (auto simp: selects_def)
  have "cpu_nums cpus"
    unfolding cpu_nums_def
  proof
    fix x assume "x \<in> set cpus"
    then obtain sel cs where sel: "sel \<in> set req" "selects sockets sel cs" "x \<in> chosen_cpus sel cs"
      using validated_cpus(4) [OF v] by auto
    then have "selection_ok sel cs" using validated_cpus(3) [OF v] uniq by blast
    with sel(3) core [OF sel(2)] show "0 \<le> x \<and> x < max_int64"
      by (auto simp: chosen_cpus_def cpu_nums_def)
  qed
  moreover have "cpus \<noteq> []"
  proof -
    obtain sel where sel: "sel \<in> set req" using validated_cpus(1) [OF v] by (meson list.set_sel(1))
    then obtain cs where cs: "selects sockets sel cs" "selection_ok sel cs"
      using validated_cpus(3) [OF v] by blast
    then have i: "hd (CoreIndices sel) \<in> set (CoreIndices sel)" (is "?i \<in> _")
      by (simp add: selection_ok_def)
    have "hd (CoreSiblings (cs ! nat ?i)) \<in> chosen_cpus sel cs"
      unfolding chosen_cpus_def using core [OF cs i] by (intro UN_I [OF i]) (metis hd_in_set)
    then have "hd (CoreSiblings (cs ! nat ?i)) \<in> set cpus"
      using validated_cpus(4) [OF v] sel cs(1) by blast
    then show ?thesis by auto
  qed
  ultimately show ?thesis using validated_cpus(5) [OF v] by (simp add: isolation_ok_def)
qed

lemma GetHostCoreIsolation_eq:
  assumes "getDefaultKernelArgs h w = (Inr args, w1)" and m: "machine w1 = machine w"
    and "parseHostIsolationKernelArgs args = Inr configured"
    and "FileContent h ''/proc/cmdline'' (machine w) = Some cmdline"
    and "parseHostIsolationKernelArgs (parseKernelArgs (TrimSpace cmdline)) = Inr active"
    and "GetCPUSockets (sysfs_of h w) = Some sockets"
    and "buildHostCoreIsolationSocketStates sockets (ArgCPUs configured) = Inr states"
  shows "GetHostCoreIsolation h w = (Inr (isolation_state configured active states), w1)"
proof -
  have "sysfs_of h w1 = sysfs_of h w" using m by (simp add: sysfs_of_def)
  then show ?thesis
    using assms
    by (simp add: GetHostCoreIsolation_def host_eff getActiveKernelArgs_def host_sockets_def)
qed

lemma require_grubby_laws: "grubby_laws h toks \<Longrightarrow> require_grubby h w = (Inr (), w)"
  using grubby_lawsD(2) [of h toks "machine w"] by (simp add: require_grubby_def host_eff)

subsection \<open>Properties\<close>

text \<open>C2: a request is only accepted when it leaves at least half of the physical cores of every
  socket untouched: of a socket with n cores, at most n div 2 lose a CPU to the isolation.\<close>
theorem isolation_at_most_half:
  assumes wf: "wf_topology sockets"
    and v: "buildValidatedHostIsolationCPUSet req sockets = Inr cpus"
    and s: "s \<in> set sockets" and c: "GetPhysicalCores s = Inr cores"
  shows "card {i. i < length cores \<and> set (CoreSiblings (cores ! i)) \<inter> set cpus \<noteq> {}} \<le> length cores div 2"
proof -
  let ?A = "{i. i < length cores \<and> set (CoreSiblings (cores ! i)) \<inter> set cpus \<noteq> {}}"
  have ws: "wf_socket s" using wf_topologyD(2) [OF wf s] .
  then obtain cs where "GetPhysicalCores s = Inr cs" "cores_spec s cs" by (rule wf_cores)
  then have sp: "cores_spec s cores" using c by simp
  note dr = validated_cpus(2) [OF v]
  have mem: "\<exists>sel \<in> set req. SelSocketID sel = SocketID s \<and> int i \<in> set (CoreIndices sel)" if "i \<in> ?A" for i
    using that core_selected_iff [OF wf v s c sp] by blast
  show ?thesis
  proof (cases "find (\<lambda>sel. SelSocketID sel = SocketID s) req")
    case None
    then have "\<forall>sel \<in> set req. SelSocketID sel \<noteq> SocketID s" by (simp only: find_no_selection)
    then have "?A = {}" using mem by blast
    then have "card ?A = 0" by (simp only: card.empty)
    then show ?thesis by linarith
  next
    case (Some a)
    have a: "a \<in> set req" "SelSocketID a = SocketID s" using Some find_selection [OF dr] by blast+
    then obtain cs where "selects sockets a cs" "selection_ok a cs" using validated_cpus(3) [OF v] by blast
    moreover from this(1) have "cs = cores"
      using a s c socketByID_mem [OF wf_topologyD(1) [OF wf], of "SocketID s" s]
      by (auto simp: selects_def)
    ultimately have le: "card (set (CoreIndices a)) \<le> length cores div 2" by (simp add: selection_ok_def)
    have "int ` ?A \<subseteq> set (CoreIndices a)"
    proof
      fix j assume "j \<in> int ` ?A"
      then obtain i where i: "j = int i" "i \<in> ?A" by blast
      from mem [OF i(2)] obtain sel where sel: "sel \<in> set req" "SelSocketID sel = SocketID s"
        "int i \<in> set (CoreIndices sel)" by blast
      then have "find (\<lambda>sel. SelSocketID sel = SocketID s) req = Some sel"
        using find_selection [OF dr] by blast
      with Some sel i show "j \<in> set (CoreIndices a)" by simp
    qed
    then have "card (int ` ?A) \<le> card (set (CoreIndices a))" by (intro card_mono) auto
    then have "card ?A \<le> card (set (CoreIndices a))" by (simp add: card_image)
    with le show ?thesis by simp
  qed
qed

text \<open>C3: on a host whose \<open>grubby\<close> behaves as documented, \<open>SetHostCoreIsolation\<close> with an accepted
  request succeeds and reports exactly what was asked for: the selected CPUs as configured, and
  for every socket the requested core indices, sorted and without duplicates (none for a socket
  the request does not name); a reboot is required when the running kernel differs.\<close>
theorem set_isolation_reports_request:
  assumes laws: "grubby_laws h toks"
    and topo: "GetCPUSockets (sysfs_of h w) = Some sockets" "wf_topology sockets"
    and v: "buildValidatedHostIsolationCPUSet req sockets = Inr cpus"
    and fit: "wf_cmdline (toks (machine w) @ isolation_tokens cpus)"
    and act: "FileContent h ''/proc/cmdline'' (machine w) = Some cmdline"
      "parseHostIsolationKernelArgs (parseKernelArgs (TrimSpace cmdline)) = Inr active"
  shows "\<exists>st w'. SetHostCoreIsolation h req w = (Inr st, w') \<and> Enabled st \<and> ConfiguredCPUs st = cpus \<and>
           Isolcpus st = compressCPUList cpus \<and> ActiveCPUs st = ArgCPUs active \<and>
           map StateSocketID (SocketStates st) = map SocketID sockets \<and>
           map IsolatedCoreIndices (SocketStates st) = map (\<lambda>s. requested_indices req (SocketID s)) sockets"
proof -
  have ok: "isolation_ok cpus" by (rule validated_ok [OF topo(2) v])
  then have c: "cpus \<noteq> []" "cpu_nums cpus" by (auto simp: isolation_ok_def)
  obtain w1 w2 w3 args where w: "grubby_remove h isolation_keys w = (Inr (), w1)"
    "grubby_add h (isolation_tokens cpus) w1 = (Inr (), w2)"
    "kernel_files_kept h (machine w) (machine w2)"
    "getDefaultKernelArgs h w2 = (Inr args, w3)" "machine w3 = machine w2"
    "parseHostIsolationKernelArgs args = Inr (isolation_args cpus)"
    using isolation.read_after_set [OF laws fit ok] by blast
  obtain states where states: "buildHostCoreIsolationSocketStates sockets cpus = Inr states"
    "map StateSocketID states = map SocketID sockets"
    "map IsolatedCoreIndices states = map (\<lambda>s. requested_indices req (SocketID s)) sockets"
    using socket_states [OF topo(2) v subset_refl] by blast
  have a: "ArgCPUs (isolation_args cpus) = cpus" "IsolcpusRaw (isolation_args cpus) = compressCPUList cpus"
    by (simp_all add: isolation_args_def Let_def)
  have t: "GetCPUSockets (sysfs_of h w2) = Some sockets" using sockets_kept [OF w(3)] topo(1) by simp
  have f: "FileContent h ''/proc/cmdline'' (machine w2) = Some cmdline" using cmdline_kept [OF w(3)] act(1) by simp
  have get: "GetHostCoreIsolation h w2 = (Inr (isolation_state (isolation_args cpus) active states), w3)"
    using states(1) by (intro GetHostCoreIsolation_eq [OF w(4,5,6) f act(2) t]) (simp add: a)
  have "SetHostCoreIsolation h req w =
      (Inr (with_message ''host core isolation updated'' (isolation_state (isolation_args cpus) active states)), w3)"
    using topo(1) v c(1) w(1,2) get
    by (simp add: SetHostCoreIsolation_def clearHostCoreIsolationKernelArgs_def host_sockets_def host_eff
        require_grubby_laws [OF laws, unfolded host_eff])
  then show ?thesis
    using states(2,3) compressCPUList_plain(1) [OF c(2,1)]
    by (auto simp: with_message_def isolation_state_def a)
qed

lemma normalize_spec:
  assumes "normalizeKernelCPUArg k raw = Inr (norm, cpus)"
  shows "norm = compressCPUList cpus \<and> sorted_wrt (<) cpus \<and> (\<forall>x \<in> set cpus. 0 \<le> x \<and> x \<le> max_int64)"
proof (cases "TrimSpace raw = []")
  case True
  with assms show ?thesis
    by (simp add: normalizeKernelCPUArg_def compressCPUList_def uniqueSortedInts_eq)
next
  case False
  with assms obtain s cs where e: "expandCPUList s = Inr cs" "cpus = uniqueSortedInts cs"
    "norm = compressCPUList (uniqueSortedInts cs)"
    by (auto simp: normalizeKernelCPUArg_def Let_def split: if_splits sum.splits)
  then have "set cpus = set cs" "sorted_wrt (<) cpus" by (simp_all add: uniqueSortedInts_eq)
  with e expandCPUList_bounds [OF e(1)] show ?thesis by auto
qed

text \<open>Comparing the normal forms of two values of a kernel argument, as the test for a
  required reboot does, is comparing the sets of CPUs they stand for: spelling, order and
  duplicates do not matter, and different sets are never confused.\<close>
theorem normal_forms_compare_sets:
  assumes a: "normalizeKernelCPUArg k a = Inr (na, ca)" and b: "normalizeKernelCPUArg k' b = Inr (nb, cb)"
    and bound: "max_int64 \<notin> set ca \<union> set cb"
  shows "na = nb \<longleftrightarrow> set ca = set cb"
proof -
  have n: "na = compressCPUList ca" "nb = compressCPUList cb" and cpus: "cpu_nums ca" "cpu_nums cb"
    using normalize_spec [OF a] normalize_spec [OF b] bound by (auto simp: cpu_nums_def less_le)
  have e: "compressCPUList [] = []" by (simp add: compressCPUList_def uniqueSortedInts_eq)
  show ?thesis
  proof (cases "ca = [] \<or> cb = []")
    case True
    then show ?thesis
      using compressCPUList_plain(1) [OF cpus(1)] compressCPUList_plain(1) [OF cpus(2)] e n by force
  next
    case False
    then show ?thesis using compress.show_set_inject [OF cpus] n by simp
  qed
qed

subsection \<open>Examples\<close>

definition demo_files :: "string \<rightharpoonup> string" where
  "demo_files = map_of
     [(''/proc/cmdline'', ''quiet isolcpus=2'' @ newline),
      (''/sys/devices/system/cpu/cpu0/topology/physical_package_id'', ''0'' @ newline),
      (''/sys/devices/system/cpu/cpu1/topology/physical_package_id'', ''0'' @ newline),
      (''/sys/devices/system/cpu/cpu2/topology/physical_package_id'', ''0'' @ newline),
      (''/sys/devices/system/cpu/cpu3/topology/physical_package_id'', ''0'' @ newline),
      (''/sys/devices/system/cpu/cpu0/topology/thread_siblings_list'', ''0,2'' @ newline),
      (''/sys/devices/system/cpu/cpu1/topology/thread_siblings_list'', ''1,3'' @ newline),
      (''/sys/devices/system/cpu/cpu2/topology/thread_siblings_list'', ''0,2'' @ newline),
      (''/sys/devices/system/cpu/cpu3/topology/thread_siblings_list'', ''1,3'' @ newline)]"

definition demo_dirs :: "string \<rightharpoonup> string list" where
  "demo_dirs = map_of [(''/sys/devices/system/cpu'', [''cpu0'', ''cpu1'', ''cpu2'', ''cpu3'', ''cpufreq''])]"

definition demo_world :: "string list world" where
  "demo_world = \<lparr>machine = [''quiet''], issued = []\<rparr>"

definition demo_sockets :: "CPUSocket list" where
  "demo_sockets = [\<lparr>SocketID = 0, CPUs = [\<lparr>CPUID = 0, Siblings = [0, 2]\<rparr>, \<lparr>CPUID = 1, Siblings = [1, 3]\<rparr>,
     \<lparr>CPUID = 2, Siblings = [0, 2]\<rparr>, \<lparr>CPUID = 3, Siblings = [1, 3]\<rparr>]\<rparr>]"

definition demo_request :: "HostCoreIsolationSocketSelection list" where
  "demo_request = [\<lparr>SelSocketID = 0, CoreIndices = [1, 1]\<rparr>]"

lemma demo_topology:
  "GetCPUSockets (sysfs_of (demo_host demo_files demo_dirs) demo_world) = Some demo_sockets"
  "wf_topology demo_sockets"
  "buildValidatedHostIsolationCPUSet demo_request demo_sockets = Inr [1, 3]"
proof -
  show "GetCPUSockets (sysfs_of (demo_host demo_files demo_dirs) demo_world) = Some demo_sockets"
    by code_simp
  show "wf_topology demo_sockets"
    by (simp add: demo_sockets_def wf_topology_def wf_socket_def max_int64_def)
  show "buildValidatedHostIsolationCPUSet demo_request demo_sockets = Inr [1, 3]"
    by code_simp
qed

lemma demo_cmdline:
  "wf_cmdline (machine demo_world @ isolation_tokens [1, 3])"
  "FileContent (demo_host demo_files demo_dirs) ''/proc/cmdline'' (machine demo_world) =
     Some (''quiet isolcpus=2'' @ newline)"
  "parseHostIsolationKernelArgs (parseKernelArgs (TrimSpace (''quiet isolcpus=2'' @ newline))) =
     Inr \<lparr>IsolcpusRaw = ''2'', NohzFullRaw = [], RcuNocbsRaw = [], IsolcpusNorm = ''2'', NohzFullNorm = [],
          RcuNocbsNorm = [], ArgCPUs = [2]\<rparr>"
proof -
  have "isolation_tokens [1, 3] = [''isolcpus=1,3'', ''nohz_full=1,3'', ''rcu_nocbs=1,3'']" by code_simp
  then show "wf_cmdline (machine demo_world @ isolation_tokens [1, 3])"
    by (simp add: wf_cmdline_def demo_world_def plain_token_def is_space_def cmdline_size_def)
  show "FileContent (demo_host demo_files demo_dirs) ''/proc/cmdline'' (machine demo_world) =
     Some (''quiet isolcpus=2'' @ newline)"
    by (simp add: demo_host_def demo_files_def)
  show "parseHostIsolationKernelArgs (parseKernelArgs (TrimSpace (''quiet isolcpus=2'' @ newline))) =
     Inr \<lparr>IsolcpusRaw = ''2'', NohzFullRaw = [], RcuNocbsRaw = [], IsolcpusNorm = ''2'', NohzFullNorm = [],
          RcuNocbsNorm = [], ArgCPUs = [2]\<rparr>"
    by code_simp
qed

lemma isolation_at_most_half_witness:
  "\<exists>cores. GetPhysicalCores (hd demo_sockets) = Inr cores \<and>
     card {i. i < length cores \<and> set (CoreSiblings (cores ! i)) \<inter> set [1, 3] \<noteq> {}} \<le> length cores div 2"
proof -
  have s: "hd demo_sockets \<in> set demo_sockets" by (simp add: demo_sockets_def)
  with wf_topologyD(2) [OF demo_topology(2)] have "wf_socket (hd demo_sockets)" by blast
  then obtain cores where c: "GetPhysicalCores (hd demo_sockets) = Inr cores"
    by (rule wf_cores)
  with isolation_at_most_half [OF demo_topology(2,3) s c] show ?thesis by blast
qed

lemma set_isolation_reports_request_witness:
  "\<exists>st w'. SetHostCoreIsolation (demo_host demo_files demo_dirs) demo_request demo_world = (Inr st, w') \<and>
     ConfiguredCPUs st = [1, 3] \<and> map IsolatedCoreIndices (SocketStates st) = [[1]]"
proof -
  have fit: "wf_cmdline (id (machine demo_world) @ isolation_tokens [1, 3])" using demo_cmdline(1) by simp
  have m: "map (\<lambda>s. requested_indices demo_request (SocketID s)) demo_sockets = [[1]]" by code_simp
  show ?thesis
    using set_isolation_reports_request [OF demo_host_laws demo_topology(1,2,3) fit demo_cmdline(2,3)]
    unfolding m by (elim exE conjE) (intro exI conjI)
qed

lemma normal_forms_compare_sets_witness:
  "\<exists>na nb. normalizeKernelCPUArg ''nohz_full'' ''3,1-2'' = Inr (na, [1, 2, 3]) \<and>
     normalizeKernelCPUArg ''nohz_full'' ''1-3,2'' = Inr (nb, [1, 2, 3]) \<and> na = nb"
proof -
  have ab: "normalizeKernelCPUArg ''nohz_full'' ''3,1-2'' = Inr (''1-3'', [1, 2, 3])"
    "normalizeKernelCPUArg ''nohz_full'' ''1-3,2'' = Inr (''1-3'', [1, 2, 3])" by code_simp+
  have "max_int64 \<notin> set [1, 2, 3] \<union> set [1, 2, 3 :: int]" by (simp add: max_int64_def)
  from normal_forms_compare_sets [OF ab this] ab show ?thesis by blast
qed

end
