(* ===== verification/HostHugePages.thy ===== *)
theory HostHugePages
  imports KernelArgs
begin

text \<open>
  Huge pages of a slave: \<open>slave/virsh/host_hugepages.go\<close>.  The page size and count are kept in the
  kernel arguments \<open>default_hugepagesz\<close>, \<open>hugepagesz\<close> and \<open>hugepages\<close>; sizes written in
  different units are compared in a normal form.
\<close>

subsection \<open>Data\<close>

record HostHugePagesRequest =
  ReqPageSize :: string
  ReqPageCount :: int

record HostHugePagesState =
  HPEnabled :: bool
  HPRebootRequired :: bool
  HPMessage :: string
  PageSize :: string
  PageCount :: int
  ActivePageSize :: string
  ActivePageCount :: int
  DefaultHugepagesz :: string
  Hugepagesz :: string
  Hugepages :: string
  ActiveDefaultHugepagesz :: string
  ActiveHugepagesz :: string
  ActiveHugepages :: string

record hostHugePagesKernelArgs =
  DefaultHugepageszRaw :: string
  HugepageszRaw :: string
  HugepagesRaw :: string
  DefaultHugepageszNorm :: string
  HugepageszNorm :: string
  HugepagesNorm :: string
  ArgPageSize :: string
  ArgPageCount :: int
  HasCount :: bool

record procHugePagesInfo =
  PageSizeKB :: int
  ProcPageCount :: int

datatype hugepages_error =
    HPKernelErr kernel_error
  | SizeFormat
  | SizeNumber string
  | SizeNotPositive
  | SizeUnit string
  | CountNumber string
  | CountNegative
  | InvalidArg string string hugepages_error
  | PageSizeRequired
  | PageCountNotPositive
  | NoMeminfo
  | MeminfoTotal string
  | MeminfoSize hugepages_error
  | MeminfoTooLong

definition hostHugePagesArgDefaultSize :: string where "hostHugePagesArgDefaultSize = ''default_hugepagesz''"
definition hostHugePagesArgSize :: string where "hostHugePagesArgSize = ''hugepagesz''"
definition hostHugePagesArgCount :: string where "hostHugePagesArgCount = ''hugepages''"

subsection \<open>Sizes and counts\<close>

definition splitHugePageSizeToken :: "string \<Rightarrow> string \<times> string" where
  "splitHugePageSizeToken tok0 =
     (let tok = TrimSpace tok0;
          i = length (takeWhile is_digit tok)
      in if tok = [] then ([], [])
         else if i = 0 \<or> length tok \<le> i then ([], [])
         else (take i tok, drop i tok))"

definition formatHugePageSizeKB :: "int \<Rightarrow> string" where
  "formatHugePageSizeKB kb =
     (if kb \<le> 0 then []
      else if kb mod (1024 * 1024) = 0 then Itoa (kb div (1024 * 1024)) @ ''G''
      else if kb mod 1024 = 0 then Itoa (kb div 1024) @ ''M''
      else Itoa kb @ ''K'')"

text \<open>The multiplications are those of 64-bit integers.\<close>

definition size_in_unit :: "int \<Rightarrow> string \<Rightarrow> string \<Rightarrow> hugepages_error + string" where
  "size_in_unit n unit unitStr =
     (if unit = ''K'' then Inr (formatHugePageSizeKB n)
      else if unit = ''M'' then Inr (formatHugePageSizeKB (wrap64 (n * 1024)))
      else if unit = ''G'' then Inr (formatHugePageSizeKB (wrap64 (wrap64 (n * 1024) * 1024)))
      else Inl (SizeUnit unitStr))"

definition normalizeHugePageSize :: "string \<Rightarrow> hugepages_error + string" where
  "normalizeHugePageSize raw0 =
     (let raw = TrimSpace raw0 in
      if raw = [] then Inr []
      else (let parts = Fields raw in
            if 2 < length parts then Inl SizeFormat
            else (let (numberStr, unitStr) =
                        (if length parts = 1 then splitHugePageSizeToken (parts ! 0)
                         else (parts ! 0, parts ! 1))
                  in if numberStr = [] \<or> unitStr = [] then Inl SizeFormat
                     else (case Atoi numberStr of
                             None \<Rightarrow> Inl (SizeNumber numberStr)
                           | Some n \<Rightarrow>
                               (if n \<le> 0 then Inl SizeNotPositive
                                else size_in_unit n
                                  (TrimSuffix (TrimSuffix (ToUpper (TrimSpace unitStr)) ''IB'') ''B'')
                                  unitStr)))))"

definition normalizeHugePagesCount :: "string \<Rightarrow> hugepages_error + (string \<times> int \<times> bool)" where
  "normalizeHugePagesCount raw0 =
     (let raw = TrimSpace raw0 in
      if raw = [] then Inr ([], 0, False)
      else (case Atoi raw of
              None \<Rightarrow> Inl (CountNumber raw)
            | Some v \<Rightarrow> if v < 0 then Inl CountNegative else Inr (Itoa v, v, True)))"

fun firstNonEmpty :: "string list \<Rightarrow> string" where
  "firstNonEmpty [] = []"
| "firstNonEmpty (v # vs) = (if TrimSpace v \<noteq> [] then TrimSpace v else firstNonEmpty vs)"

subsection \<open>Kernel arguments and /proc/meminfo\<close>

definition wrap_arg :: "string \<Rightarrow> string \<Rightarrow> hugepages_error + 'a \<Rightarrow> hugepages_error + 'a" where
  "wrap_arg name raw r = map_sum (InvalidArg name raw) id r"

definition parseHostHugePagesKernelArgs ::
  "(string \<rightharpoonup> string) \<Rightarrow> hugepages_error + hostHugePagesKernelArgs" where
  "parseHostHugePagesKernelArgs args =
     (let dflt = TrimSpace (lookup_str args hostHugePagesArgDefaultSize);
          sz = TrimSpace (lookup_str args hostHugePagesArgSize);
          count = TrimSpace (lookup_str args hostHugePagesArgCount)
      in case wrap_arg hostHugePagesArgDefaultSize dflt (normalizeHugePageSize dflt) of
           Inl e \<Rightarrow> Inl e
         | Inr dfltNorm \<Rightarrow>
             (case wrap_arg hostHugePagesArgSize sz (normalizeHugePageSize sz) of
                Inl e \<Rightarrow> Inl e
              | Inr sizeNorm \<Rightarrow>
                  (case wrap_arg hostHugePagesArgCount count (normalizeHugePagesCount count) of
                     Inl e \<Rightarrow> Inl e
                   | Inr (countNorm, n, has) \<Rightarrow>
                       Inr \<lparr>DefaultHugepageszRaw = dflt, HugepageszRaw = sz, HugepagesRaw = count,
                            DefaultHugepageszNorm = dfltNorm, HugepageszNorm = sizeNorm,
                            HugepagesNorm = countNorm,
                            ArgPageSize = firstNonEmpty [dfltNorm, sizeNorm],
                            ArgPageCount = n, HasCount = has\<rparr>)))"

definition meminfo_line :: "string \<Rightarrow> procHugePagesInfo \<Rightarrow> hugepages_error + procHugePagesInfo" where
  "meminfo_line l info =
     (let line = TrimSpace l in
      if HasPrefix line ''HugePages_Total:'' then
        (let raw = TrimSpace (TrimPrefix line ''HugePages_Total:'') in
         case Atoi raw of
           None \<Rightarrow> Inl (MeminfoTotal raw)
         | Some v \<Rightarrow> Inr (info\<lparr>ProcPageCount := v\<rparr>))
      else if HasPrefix line ''Hugepagesize:'' then
        (case normalizeHugePageSize (TrimSpace (TrimPrefix line ''Hugepagesize:'')) of
           Inl e \<Rightarrow> Inl (MeminfoSize e)
         | Inr sz \<Rightarrow>
             (if sz = [] then Inr info
              else (let (kbStr, unit) = splitHugePageSizeToken sz in
                    case Atoi kbStr of
                      None \<Rightarrow> Inl (MeminfoSize (SizeNumber kbStr))
                    | Some kb \<Rightarrow>
                        (let u = ToUpper unit in
                         if u = ''K'' then Inr (info\<lparr>PageSizeKB := kb\<rparr>)
                         else if u = ''M'' then Inr (info\<lparr>PageSizeKB := wrap64 (kb * 1024)\<rparr>)
                         else if u = ''G'' then Inr (info\<lparr>PageSizeKB := wrap64 (wrap64 (kb * 1024) * 1024)\<rparr>)
                         else Inr info))))
      else Inr info)"

fun meminfo_lines :: "string list \<Rightarrow> procHugePagesInfo \<Rightarrow> hugepages_error + procHugePagesInfo" where
  "meminfo_lines [] info = Inr info"
| "meminfo_lines (l # ls) info =
     (case meminfo_line l info of Inl e \<Rightarrow> Inl e | Inr info' \<Rightarrow> meminfo_lines ls info')"

definition parse_meminfo :: "string \<Rightarrow> hugepages_error + procHugePagesInfo" where
  "parse_meminfo text =
     (let (lines, tooLong) = scan_lines text in
      case meminfo_lines lines \<lparr>PageSizeKB = 0, ProcPageCount = 0\<rparr> of
        Inl e \<Rightarrow> Inl e
      | Inr info \<Rightarrow> if tooLong then Inl MeminfoTooLong else Inr info)"

definition readProcHugePagesInfo :: "'w host \<Rightarrow> ('w world, hugepages_error, procHugePagesInfo) act" where
  "readProcHugePagesInfo h =
     bindE (getW (\<lambda>w. FileContent h ''/proc/meminfo'' (machine w))) (\<lambda>data.
       case data of None \<Rightarrow> fail NoMeminfo | Some text \<Rightarrow> liftE (parse_meminfo text))"

subsection \<open>Reading and changing the huge pages of a host\<close>

definition hugepages_state ::
  "hostHugePagesKernelArgs \<Rightarrow> hostHugePagesKernelArgs \<Rightarrow> procHugePagesInfo \<Rightarrow> HostHugePagesState" where
  "hugepages_state configured active procInfo =
     \<lparr>HPEnabled = (DefaultHugepageszRaw configured \<noteq> [] \<or> HugepageszRaw configured \<noteq> [] \<or>
                   HugepagesRaw configured \<noteq> []),
      HPRebootRequired = (DefaultHugepageszNorm configured \<noteq> DefaultHugepageszNorm active \<or>
                          HugepageszNorm configured \<noteq> HugepageszNorm active \<or>
                          HugepagesNorm configured \<noteq> HugepagesNorm active),
      HPMessage = [],
      PageSize = ArgPageSize configured, PageCount = ArgPageCount configured,
      ActivePageSize = firstNonEmpty [ArgPageSize active, formatHugePageSizeKB (PageSizeKB procInfo)],
      ActivePageCount = (if HasCount active then ArgPageCount active else ProcPageCount procInfo),
      DefaultHugepagesz = DefaultHugepageszRaw configured, Hugepagesz = HugepageszRaw configured,
      Hugepages = HugepagesRaw configured,
      ActiveDefaultHugepagesz = DefaultHugepageszRaw active, ActiveHugepagesz = HugepageszRaw active,
      ActiveHugepages = HugepagesRaw active\<rparr>"

definition GetHostHugePages :: "'w host \<Rightarrow> ('w world, hugepages_error, HostHugePagesState) act" where
  "GetHostHugePages h =
     bindE (mapErr HPKernelErr (getDefaultKernelArgs h)) (\<lambda>configuredArgs.
     bindE (mapErr HPKernelErr (getActiveKernelArgs h)) (\<lambda>activeArgs.
     bindE (liftE (parseHostHugePagesKernelArgs configuredArgs)) (\<lambda>configured.
     bindE (liftE (parseHostHugePagesKernelArgs activeArgs)) (\<lambda>active.
     bindE (readProcHugePagesInfo h) (\<lambda>procInfo.
       ret (hugepages_state configured active procInfo))))))"

definition hp_message :: "string \<Rightarrow> HostHugePagesState \<Rightarrow> HostHugePagesState" where
  "hp_message msg st =
     st\<lparr>HPMessage := (if HPRebootRequired st then msg @ '' (reboot required)'' else msg)\<rparr>"

definition hugepages_keys :: "string list" where
  "hugepages_keys = [hostHugePagesArgDefaultSize, hostHugePagesArgSize, hostHugePagesArgCount]"

definition clearHostHugePagesKernelArgs :: "'w host \<Rightarrow> ('w world, hugepages_error, unit) act" where
  "clearHostHugePagesKernelArgs h = mapErr HPKernelErr (grubby_remove h hugepages_keys)"

definition hugepages_tokens :: "string \<times> int \<Rightarrow> string list" where
  "hugepages_tokens setting = (case setting of (pageSize, count) \<Rightarrow>
     [hostHugePagesArgDefaultSize @ ''='' @ pageSize,
      hostHugePagesArgSize @ ''='' @ pageSize,
      hostHugePagesArgCount @ ''='' @ Itoa count])"

definition hp_require_grubby :: "'w host \<Rightarrow> ('w world, hugepages_error, unit) act" where
  "hp_require_grubby h =
     bindE (mapErr (\<lambda>e. HPKernelErr (HostErr e)) (hasBinary h ''grubby''))
       (\<lambda>b. guardE b (HPKernelErr (HostErr (BinaryRequired ''grubby''))))"

definition SetHostHugePages ::
  "'w host \<Rightarrow> HostHugePagesRequest \<Rightarrow> ('w world, hugepages_error, HostHugePagesState) act" where
  "SetHostHugePages h req =
     bindE (hp_require_grubby h) (\<lambda>_.
     bindE (liftE (normalizeHugePageSize (ReqPageSize req))) (\<lambda>pageSize.
     bindE (guardE (pageSize \<noteq> []) PageSizeRequired) (\<lambda>_.
     bindE (guardE (0 < ReqPageCount req) PageCountNotPositive) (\<lambda>_.
     bindE (clearHostHugePagesKernelArgs h) (\<lambda>_.
     bindE (mapErr HPKernelErr (grubby_add h (hugepages_tokens (pageSize, ReqPageCount req)))) (\<lambda>_.
     bindE (GetHostHugePages h) (\<lambda>state.
       ret (hp_message ''host hugepages updated'' state))))))))"

definition RemoveHostHugePages :: "'w host \<Rightarrow> ('w world, hugepages_error, HostHugePagesState) act" where
  "RemoveHostHugePages h =
     bindE (hp_require_grubby h) (\<lambda>_.
     bindE (clearHostHugePagesKernelArgs h) (\<lambda>_.
     bindE (GetHostHugePages h) (\<lambda>state.
       ret (hp_message ''host hugepages removed'' state))))"

subsection \<open>The normal form of a size\<close>

definition size_unit :: "char \<Rightarrow> int" where
  "size_unit u = (if u = CHR ''G'' then 1024 * 1024 else if u = CHR ''M'' then 1024 else 1)"

lemma units_checked:
  "list_all (\<lambda>u. TrimSuffix (TrimSuffix (ToUpper (TrimSpace [u])) ''IB'') ''B'' = [u] \<and> \<not> is_digit u \<and>
     \<not> is_space u \<and> u \<noteq> CHR 0x22 \<and> u \<noteq> CHR 0x5C) ''KMG''"
  by code_simp

lemma unit_facts:
  assumes "u \<in> set ''KMG''"
  shows "TrimSuffix (TrimSuffix (ToUpper (TrimSpace [u])) ''IB'') ''B'' = [u]"
    "\<not> is_digit u" "\<not> is_space u" "u \<noteq> CHR 0x22" "u \<noteq> CHR 0x5C"
  using units_checked assms unfolding list_all_iff by blast+

lemma Itoa_digits: "0 \<le> n \<Longrightarrow> c \<in> set (Itoa n) \<Longrightarrow> is_digit c \<and> \<not> is_space c"
  using Itoa_plain by blast

lemma takeWhile_Itoa: "0 \<le> n \<Longrightarrow> \<not> is_digit u \<Longrightarrow> takeWhile is_digit (Itoa n @ [u]) = Itoa n"
  using Itoa_digits [of n] by (subst takeWhile_append2) auto

lemma number_unit_token:
  assumes n: "0 \<le> n" and u: "u \<in> set ''KMG''"
  shows "TrimSpace (Itoa n @ [u]) = Itoa n @ [u]" "Fields (Itoa n @ [u]) = [Itoa n @ [u]]"
    "splitHugePageSizeToken (Itoa n @ [u]) = (Itoa n, [u])"
proof -
  have ns: "\<forall>c \<in> set (Itoa n @ [u]). \<not> is_space c"
    using Itoa_digits [OF n] unit_facts(3) [OF u] by auto
  show t: "TrimSpace (Itoa n @ [u]) = Itoa n @ [u]" using ns by (rule TrimSpace_no_space)
  show "Fields (Itoa n @ [u]) = [Itoa n @ [u]]" using ns by (intro Fields_single) auto
  show "splitHugePageSizeToken (Itoa n @ [u]) = (Itoa n, [u])"
    unfolding splitHugePageSizeToken_def t Let_def takeWhile_Itoa [OF n unit_facts(2) [OF u]] by simp
qed

lemma normalize_number_unit:
  assumes n: "0 < n" "n * size_unit u \<le> max_int64" and u: "u \<in> set ''KMG''"
  shows "normalizeHugePageSize (Itoa n @ [u]) = Inr (formatHugePageSizeKB (n * size_unit u))"
proof -
  note tok = number_unit_token [OF less_imp_le [OF n(1)] u]
  have pos: "1 \<le> size_unit u" by (simp add: size_unit_def)
  have "n * 1 \<le> n * size_unit u" using n(1) pos by (intro mult_left_mono) simp_all
  then have "n \<le> max_int64" using n(2) by linarith
  then have fits: "fits64 n" using n by (simp add: fits64_def min_int64_def)
  have w: "fits64 (n * size_unit u)" using n pos by (auto simp: fits64_def min_int64_def mult_pos_pos intro: order_trans [of _ 0])
  have m: "u = CHR ''G'' \<Longrightarrow> fits64 (n * 1024)"
    using n by (auto simp: fits64_def min_int64_def size_unit_def)
  have m2: "u = CHR ''G'' \<Longrightarrow> fits64 (1048576 * n)"
    using w by (simp add: size_unit_def mult.commute)
  have "size_in_unit n [u] [u] = Inr (formatHugePageSizeKB (n * size_unit u))"
    using u w m m2 by (auto simp: size_in_unit_def size_unit_def wrap64_id mult.commute)
  then show ?thesis
    using n(1) unit_facts(1) [OF u] fits
    by (simp add: normalizeHugePageSize_def tok)
qed

lemma format_is_number_unit:
  assumes "0 < kb"
  obtains n u where "formatHugePageSizeKB kb = Itoa n @ [u]" "u \<in> set ''KMG''" "0 < n" "n * size_unit u = kb"
proof -
  consider "kb mod (1024 * 1024) = 0" | "kb mod (1024 * 1024) \<noteq> 0" "kb mod 1024 = 0" | "kb mod 1024 \<noteq> 0" "kb mod (1024 * 1024) \<noteq> 0"
    by (cases "kb mod (1024 * 1024) = 0"; cases "kb mod 1024 = 0") auto
  then show thesis
  proof cases
    case 1
    then have "kb div (1024 * 1024) * (1024 * 1024) = kb" by auto
    moreover from this have "0 < kb div (1024 * 1024)" using assms by (simp add: zero_less_mult_iff)
    ultimately show ?thesis using assms 1 by (intro that [of "kb div (1024 * 1024)" "CHR ''G''"]) (simp_all add: formatHugePageSizeKB_def size_unit_def)
  next
    case 2
    then have "kb div 1024 * 1024 = kb" by auto
    moreover from this have "0 < kb div 1024" using assms by (simp add: zero_less_mult_iff)
    ultimately show ?thesis using assms 2 by (intro that [of "kb div 1024" "CHR ''M''"]) (simp_all add: formatHugePageSizeKB_def size_unit_def)
  next
    case 3
    then show ?thesis using assms by (intro that [of kb "CHR ''K''"]) (simp_all add: formatHugePageSizeKB_def size_unit_def)
  qed
qed

lemma format_normal:
  "0 < kb \<Longrightarrow> kb \<le> max_int64 \<Longrightarrow> normalizeHugePageSize (formatHugePageSizeKB kb) = Inr (formatHugePageSizeKB kb)"
  by (erule format_is_number_unit [of kb]) (metis normalize_number_unit)

lemma format_inject:
  assumes "0 < a" "0 < b" "formatHugePageSizeKB a = formatHugePageSizeKB b"
  shows "a = b"
proof -
  obtain n u where a: "formatHugePageSizeKB a = Itoa n @ [u]" "0 < n" "n * size_unit u = a"
    using format_is_number_unit [OF assms(1)] by metis
  obtain m v where b: "formatHugePageSizeKB b = Itoa m @ [v]" "0 < m" "m * size_unit v = b"
    using format_is_number_unit [OF assms(2)] by metis
  have "Itoa n = Itoa m" "u = v" using a(1) b(1) assms(3) by auto
  then have "n = m" using Itoa_inj a(2) b(2) by simp
  with a(3) b(3) \<open>u = v\<close> show ?thesis by simp
qed

lemma normalize_result:
  assumes "normalizeHugePageSize raw = Inr t"
  shows "t = [] \<or> (\<exists>kb. 0 < kb \<and> kb \<le> max_int64 \<and> t = formatHugePageSizeKB kb)"
proof -
  have f: "formatHugePageSizeKB kb = [] \<or> (\<exists>k. 0 < k \<and> k \<le> max_int64 \<and> formatHugePageSizeKB kb = formatHugePageSizeKB k)"
    if "fits64 kb" for kb
  proof (cases "kb \<le> 0")
    case False
    then show ?thesis using that by (intro disjI2 exI [of _ kb]) (simp add: fits64_def)
  qed (simp add: formatHugePageSizeKB_def)
  have u: "t' = [] \<or> (\<exists>kb. 0 < kb \<and> kb \<le> max_int64 \<and> t' = formatHugePageSizeKB kb)"
    if "size_in_unit n unit us = Inr t'" "fits64 n" for n unit us t'
    using that f by (auto simp: size_in_unit_def split: if_splits)
  from assms show ?thesis
    by (auto simp: normalizeHugePageSize_def Let_def split: if_splits option.splits prod.splits
        dest: u Atoi_fits)
qed

subsection \<open>The kernel arguments of a setting\<close>

definition setting_ok :: "string \<times> int \<Rightarrow> bool" where
  "setting_ok setting \<longleftrightarrow>
     fst setting \<noteq> [] \<and> normalizeHugePageSize (fst setting) = Inr (fst setting) \<and>
     list_all (\<lambda>c. \<not> is_space c \<and> c \<noteq> CHR 0x22 \<and> c \<noteq> CHR 0x5C) (fst setting) \<and>
     0 < snd setting \<and> snd setting \<le> max_int64"

definition setting_args :: "string \<times> int \<Rightarrow> hostHugePagesKernelArgs" where
  "setting_args setting = (case setting of (sz, n) \<Rightarrow>
     \<lparr>DefaultHugepageszRaw = sz, HugepageszRaw = sz, HugepagesRaw = Itoa n,
      DefaultHugepageszNorm = sz, HugepageszNorm = sz, HugepagesNorm = Itoa n,
      ArgPageSize = sz, ArgPageCount = n, HasCount = True\<rparr>)"

definition no_setting :: hostHugePagesKernelArgs where
  "no_setting = \<lparr>DefaultHugepageszRaw = [], HugepageszRaw = [], HugepagesRaw = [],
      DefaultHugepageszNorm = [], HugepageszNorm = [], HugepagesNorm = [],
      ArgPageSize = [], ArgPageCount = 0, HasCount = False\<rparr>"

lemma format_plain:
  assumes "0 < kb"
  shows "formatHugePageSizeKB kb \<noteq> []"
    "list_all (\<lambda>c. \<not> is_space c \<and> c \<noteq> CHR 0x22 \<and> c \<noteq> CHR 0x5C) (formatHugePageSizeKB kb)"
proof -
  obtain n u where f: "formatHugePageSizeKB kb = Itoa n @ [u]" "u \<in> set ''KMG''" "0 < n"
    using format_is_number_unit [OF assms] by metis
  have "\<not> is_space c \<and> c \<noteq> CHR 0x22 \<and> c \<noteq> CHR 0x5C" if "c \<in> set (Itoa n)" for c
    using Itoa_digits [OF less_imp_le [OF f(3)] that] by (auto simp: is_digit_def)
  then show "formatHugePageSizeKB kb \<noteq> []"
    "list_all (\<lambda>c. \<not> is_space c \<and> c \<noteq> CHR 0x22 \<and> c \<noteq> CHR 0x5C) (formatHugePageSizeKB kb)"
    using unit_facts(3,4,5) [OF f(2)] by (simp_all add: f(1) list_all_iff)
qed

lemma request_setting_ok:
  assumes "normalizeHugePageSize (ReqPageSize req) = Inr sz" "sz \<noteq> []"
    and "0 < ReqPageCount req" "ReqPageCount req \<le> max_int64"
  shows "setting_ok (sz, ReqPageCount req)"
proof -
  obtain kb where "0 < kb" "kb \<le> max_int64" "sz = formatHugePageSizeKB kb"
    using normalize_result [OF assms(1)] assms(2) by blast
  then show ?thesis
    using assms(2,3,4) format_normal format_plain by (simp add: setting_ok_def)
qed

lemmas hugepages_key_defs =
  hugepages_keys_def hostHugePagesArgDefaultSize_def hostHugePagesArgSize_def hostHugePagesArgCount_def

lemma kernel_arg_pair:
  assumes "CHR ''='' \<notin> set k" "TrimSpace k = k" "TrimSpace v = v"
  shows "kernel_arg (k @ ''='' @ v) = (k, v)"
  using Cut_append [OF assms(1), of v] assms(2,3) by (simp add: kernel_arg_def)

lemma hugepages_key_plain:
  "k \<in> set hugepages_keys \<Longrightarrow> CHR ''='' \<notin> set k \<and> TrimSpace k = k"
  by (auto simp: hugepages_key_defs TrimSpace_def is_space_def)

lemma setting_trim: "setting_ok (sz, n) \<Longrightarrow> TrimSpace sz = sz"
  by (rule TrimSpace_no_space) (simp add: setting_ok_def list_all_iff)

lemma setting_tokens:
  assumes "setting_ok (sz, n)"
  shows "kernel_arg (hostHugePagesArgDefaultSize @ ''='' @ sz) = (hostHugePagesArgDefaultSize, sz)"
    "kernel_arg (hostHugePagesArgSize @ ''='' @ sz) = (hostHugePagesArgSize, sz)"
    "kernel_arg (hostHugePagesArgCount @ ''='' @ Itoa n) = (hostHugePagesArgCount, Itoa n)"
  using hugepages_key_plain setting_trim [OF assms]
  by (simp_all add: kernel_arg_pair hugepages_keys_def del: append.simps)

lemma setting_decode:
  assumes ok: "setting_ok (sz, n)"
  shows "parseHostHugePagesKernelArgs (kernel_args (hugepages_tokens (sz, n)) Map.empty) = Inr (setting_args (sz, n))"
proof -
  let ?m = "kernel_args (hugepages_tokens (sz, n)) Map.empty"
  have n: "fits64 n" "\<not> n < 0" using ok by (auto simp: setting_ok_def fits64_def min_int64_def)
  have m: "?m = Map.empty(hostHugePagesArgDefaultSize \<mapsto> sz, hostHugePagesArgSize \<mapsto> sz, hostHugePagesArgCount \<mapsto> Itoa n)"
    using setting_tokens [OF ok] by (simp add: hugepages_tokens_def)
  have l: "lookup_str ?m hostHugePagesArgDefaultSize = sz" "lookup_str ?m hostHugePagesArgSize = sz"
    "lookup_str ?m hostHugePagesArgCount = Itoa n"
    unfolding m by (simp_all add: lookup_str_def hugepages_key_defs)
  have sz: "normalizeHugePageSize sz = Inr sz" "sz \<noteq> []" using ok by (auto simp: setting_ok_def)
  have count: "normalizeHugePagesCount (Itoa n) = Inr (Itoa n, n, True)"
    using n by (simp add: normalizeHugePagesCount_def)
  show ?thesis
    unfolding parseHostHugePagesKernelArgs_def Let_def l setting_trim [OF ok] TrimSpace_Itoa sz(1) count
    using sz(2) by (simp add: wrap_arg_def setting_args_def setting_trim [OF ok])
qed

interpretation hugepages: kernel_feature hugepages_keys hugepages_tokens parseHostHugePagesKernelArgs
    setting_ok setting_args no_setting
proof unfold_locales
  show "list_all plain_token hugepages_keys"
    by (simp add: hugepages_key_defs plain_token_def is_space_def)
next
  fix r assume ok: "setting_ok r"
  obtain sz n where r: "r = (sz, n)" by (cases r)
  have "\<not> is_space c \<and> c \<noteq> CHR 0x22 \<and> c \<noteq> CHR 0x5C" if "c \<in> set (Itoa n)" for c
    using Itoa_digits [of n c] that ok by (auto simp: setting_ok_def is_digit_def r)
  then show "list_all plain_token (hugepages_tokens r)"
    using ok by (simp add: r hugepages_tokens_def hugepages_key_defs plain_token_def is_space_def
        list_all_iff setting_ok_def)
  show "token_keys (hugepages_tokens r) = set hugepages_keys"
    using setting_tokens [of sz n] ok
    by (simp add: r token_keys_def hugepages_tokens_def hugepages_keys_def del: append.simps)
  show "parseHostHugePagesKernelArgs (kernel_args (hugepages_tokens r) Map.empty) = Inr (setting_args r)"
    using setting_decode ok by (simp add: r)
next
  fix m m' :: "string \<rightharpoonup> string"
  assume "\<And>k. k \<in> set hugepages_keys \<Longrightarrow> m k = m' k"
  then have "lookup_str m k = lookup_str m' k" if "k \<in> set hugepages_keys" for k
    using that by (simp add: lookup_str_def)
  then show "parseHostHugePagesKernelArgs m = parseHostHugePagesKernelArgs m'"
    by (simp add: parseHostHugePagesKernelArgs_def hugepages_keys_def)
next
  show "parseHostHugePagesKernelArgs Map.empty = Inr no_setting"
    by (simp add: parseHostHugePagesKernelArgs_def lookup_str_def normalizeHugePageSize_def
        normalizeHugePagesCount_def wrap_arg_def no_setting_def)
qed

subsection \<open>Properties\<close>

lemma meminfo_kept:
  "kernel_files_kept h m m' \<Longrightarrow>
     FileContent h ''/proc/cmdline'' m' = FileContent h ''/proc/cmdline'' m \<and>
     FileContent h ''/proc/meminfo'' m' = FileContent h ''/proc/meminfo'' m"
  by (simp add: kernel_files_kept_def HasPrefix_def)

lemma GetHostHugePages_eq:
  assumes "getDefaultKernelArgs h w = (Inr args, w1)" "machine w1 = machine w"
    and "parseHostHugePagesKernelArgs args = Inr configured"
    and "FileContent h ''/proc/cmdline'' (machine w) = Some cmdline"
    and "parseHostHugePagesKernelArgs (parseKernelArgs (TrimSpace cmdline)) = Inr active"
    and "FileContent h ''/proc/meminfo'' (machine w) = Some meminfo" "parse_meminfo meminfo = Inr procInfo"
  shows "GetHostHugePages h w = (Inr (hugepages_state configured active procInfo), w1)"
  using assms by (simp add: GetHostHugePages_def host_eff getActiveKernelArgs_def readProcHugePagesInfo_def)

lemma hp_require_grubby_laws: "grubby_laws h toks \<Longrightarrow> hp_require_grubby h w = (Inr (), w)"
  using grubby_lawsD(2) [of h toks "machine w"] by (simp add: hp_require_grubby_def host_eff)

text \<open>C4: on a host whose \<open>grubby\<close> behaves as documented, \<open>SetHostHugePages\<close> with a valid size and
  a positive count succeeds and reports the normal form of the requested size and the count as
  configured, and a reboot as required exactly when the running kernel's normal forms differ.\<close>
theorem set_hugepages_reports_request:
  assumes laws: "grubby_laws h toks"
    and sz: "normalizeHugePageSize (ReqPageSize req) = Inr sz" "sz \<noteq> []"
    and n: "0 < ReqPageCount req" "ReqPageCount req \<le> max_int64"
    and fit: "wf_cmdline (toks (machine w) @ hugepages_tokens (sz, ReqPageCount req))"
    and act: "FileContent h ''/proc/cmdline'' (machine w) = Some cmdline"
      "parseHostHugePagesKernelArgs (parseKernelArgs (TrimSpace cmdline)) = Inr active"
    and mem: "FileContent h ''/proc/meminfo'' (machine w) = Some meminfo" "parse_meminfo meminfo = Inr procInfo"
  shows "\<exists>st w'. SetHostHugePages h req w = (Inr st, w') \<and> HPEnabled st \<and> PageSize st = sz \<and>
           PageCount st = ReqPageCount req \<and>
           (HPRebootRequired st \<longleftrightarrow> \<not> (DefaultHugepageszNorm active = sz \<and> HugepageszNorm active = sz \<and>
              HugepagesNorm active = Itoa (ReqPageCount req)))"
proof -
  let ?s = "(sz, ReqPageCount req)"
  have ok: "setting_ok ?s" using request_setting_ok [OF sz n] .
  obtain w1 w2 w3 args where w: "grubby_remove h hugepages_keys w = (Inr (), w1)"
    "grubby_add h (hugepages_tokens ?s) w1 = (Inr (), w2)"
    "kernel_files_kept h (machine w) (machine w2)"
    "getDefaultKernelArgs h w2 = (Inr args, w3)" "machine w3 = machine w2"
    "parseHostHugePagesKernelArgs args = Inr (setting_args ?s)"
    using hugepages.read_after_set [OF laws fit ok] by blast
  have "GetHostHugePages h w2 = (Inr (hugepages_state (setting_args ?s) active procInfo), w3)"
    using GetHostHugePages_eq [OF w(4,5,6)] act mem meminfo_kept [OF w(3)] by simp
  then have "SetHostHugePages h req w =
      (Inr (hp_message ''host hugepages updated'' (hugepages_state (setting_args ?s) active procInfo)), w3)"
    using sz n w(1,2)
    by (simp add: SetHostHugePages_def clearHostHugePagesKernelArgs_def host_eff
        hp_require_grubby_laws [OF laws, unfolded host_eff])
  then show ?thesis
    using sz(2) by (auto simp: hp_message_def hugepages_state_def setting_args_def)
qed

text \<open>Normalising a page size is idempotent, and two positive amounts of kilobytes have the
  same normal form exactly when they are equal, so comparing normal forms compares sizes.\<close>
theorem page_size_normal_form:
  "(normalizeHugePageSize raw = Inr t \<longrightarrow> normalizeHugePageSize t = Inr t) \<and>
   (0 < a \<and> 0 < b \<longrightarrow> (formatHugePageSizeKB a = formatHugePageSizeKB b) = (a = b))"
proof (intro conjI impI)
  assume "normalizeHugePageSize raw = Inr t"
  then consider "t = []" | kb where "0 < kb" "kb \<le> max_int64" "t = formatHugePageSizeKB kb"
    using normalize_result by blast
  then show "normalizeHugePageSize t = Inr t"
    using format_normal by cases (simp_all add: normalizeHugePageSize_def)
next
  assume "0 < a \<and> 0 < b"
  then show "(formatHugePageSizeKB a = formatHugePageSizeKB b) = (a = b)"
    using format_inject by blast
qed

definition demo_hp_files :: "string \<rightharpoonup> string" where
  "demo_hp_files = map_of
     [(''/proc/cmdline'', ''quiet hugepagesz=2048kB hugepages=8'' @ newline),
      (''/proc/meminfo'', Join [''MemTotal: 100 kB'', ''HugePages_Total:       8'', ''Hugepagesize:       2048 kB'']
         newline @ newline)]"

definition demo_hp_active :: hostHugePagesKernelArgs where
  "demo_hp_active = \<lparr>DefaultHugepageszRaw = [], HugepageszRaw = ''2048kB'', HugepagesRaw = ''8'',
      DefaultHugepageszNorm = [], HugepageszNorm = ''2M'', HugepagesNorm = ''8'',
      ArgPageSize = ''2M'', ArgPageCount = 8, HasCount = True\<rparr>"

lemma demo_hp_lines:
  "meminfo_lines [''MemTotal: 100 kB'', ''HugePages_Total:       8'', ''Hugepagesize:       2048 kB'']
     \<lparr>PageSizeKB = 0, ProcPageCount = 0\<rparr> = Inr \<lparr>PageSizeKB = 2048, ProcPageCount = 8\<rparr>"
  by code_simp

lemma demo_hp_meminfo:
  "parse_meminfo (Join [''MemTotal: 100 kB'', ''HugePages_Total:       8'', ''Hugepagesize:       2048 kB'']
         newline @ newline) = Inr \<lparr>PageSizeKB = 2048, ProcPageCount = 8\<rparr>"
proof -
  have "scan_lines (Join [''MemTotal: 100 kB'', ''HugePages_Total:       8'', ''Hugepagesize:       2048 kB'']
         newline @ newline) =
      ([''MemTotal: 100 kB'', ''HugePages_Total:       8'', ''Hugepagesize:       2048 kB''], False)"
    by (rule scan_lines_Join) (simp_all add: max_token_def)
  then show ?thesis using demo_hp_lines by (simp only: parse_meminfo_def Let_def prod.case sum.case if_False)
qed

lemma set_hugepages_reports_request_witness:
  "\<exists>st w'. SetHostHugePages (demo_host demo_hp_files Map.empty)
       \<lparr>ReqPageSize = ''2048 kB'', ReqPageCount = 16\<rparr> \<lparr>machine = [''quiet''], issued = []\<rparr> = (Inr st, w') \<and>
     PageSize st = ''2M'' \<and> PageCount st = 16 \<and> HPRebootRequired st"
proof -
  let ?req = "\<lparr>ReqPageSize = ''2048 kB'', ReqPageCount = 16\<rparr>"
  let ?w = "\<lparr>machine = [''quiet''], issued = []\<rparr> :: string list world"
  have sz: "normalizeHugePageSize (ReqPageSize ?req) = Inr ''2M''" by code_simp
  have t: "hugepages_tokens (''2M'', 16) = [''default_hugepagesz=2M'', ''hugepagesz=2M'', ''hugepages=16'']"
    by code_simp
  have fit: "wf_cmdline (id (machine ?w) @ hugepages_tokens (''2M'', ReqPageCount ?req))"
    using t by (simp add: wf_cmdline_def plain_token_def is_space_def cmdline_size_def)
  have c: "FileContent (demo_host demo_hp_files Map.empty) ''/proc/cmdline'' (machine ?w) =
      Some (''quiet hugepagesz=2048kB hugepages=8'' @ newline)"
    by (simp add: demo_host_def demo_hp_files_def)
  have m: "FileContent (demo_host demo_hp_files Map.empty) ''/proc/meminfo'' (machine ?w) =
      Some (Join [''MemTotal: 100 kB'', ''HugePages_Total:       8'', ''Hugepagesize:       2048 kB''] newline @ newline)"
    by (simp add: demo_host_def demo_hp_files_def)
  have act: "parseHostHugePagesKernelArgs (parseKernelArgs
      (TrimSpace (''quiet hugepagesz=2048kB hugepages=8'' @ newline))) = Inr demo_hp_active"
    by code_simp
  have "DefaultHugepageszNorm demo_hp_active \<noteq> ''2M''" by (simp add: demo_hp_active_def)
  with set_hugepages_reports_request [OF demo_host_laws sz _ _ _ fit c act m demo_hp_meminfo]
  show ?thesis by (simp add: max_int64_def) blast
qed

lemma page_size_normal_form_witness:
  "normalizeHugePageSize ''2M'' = Inr ''2M'' \<and> (formatHugePageSizeKB 2048 = formatHugePageSizeKB 4096) = False"
proof -
  have "normalizeHugePageSize ''2048 kB'' = Inr ''2M''" by code_simp
  with page_size_normal_form [of "''2048 kB''" "''2M''" 2048 4096] show ?thesis by simp
qed

end
