(* ===== verification/Registry.thy ===== *)
theory Registry
  imports Effects
begin

text \<open>
  The master's table of slave connections: \<open>master/protocol/helpers.go\<close> and
  \<open>master/protocol/protocol.go\<close>.  gRPC, the clock and what other goroutines do during a sleep are
  a parameter (\<open>net\<close>); the table operations, which run under one lock, are functions on the list.
\<close>

subsection \<open>Data\<close>

type_synonym grpc_conn = nat

text \<open>A time is a number; 0 is \<open>time.Time{}\<close>, the value for which \<open>IsZero\<close> holds.\<close>

record ConnectionsStruct =
  Addr :: string
  MachineName :: string
  Connection :: "grpc_conn option"
  LastSeen :: nat
  EntryTime :: nat

datatype protocol_error =
    NilConnection
  | PingFailed string
  | EmptyAddr
  | EmptyMachineName
  | DialFailed string
  | InitialPingFailed string
  | ConnShutdown
  | ReadyTimeout

record 'w net =
  DialContext :: "string \<Rightarrow> 'w \<Rightarrow> grpc_conn option \<times> 'w"
  NotifyClient :: "grpc_conn \<Rightarrow> string \<Rightarrow> 'w \<Rightarrow> bool \<times> 'w"
  CloseConn :: "grpc_conn \<Rightarrow> 'w \<Rightarrow> bool \<times> 'w"
  NowTime :: "'w \<Rightarrow> nat \<times> 'w"
  SleepSeconds :: "nat \<Rightarrow> ConnectionsStruct list \<Rightarrow> 'w \<Rightarrow> ConnectionsStruct list \<times> 'w"

record 'w master =
  connections :: "ConnectionsStruct list"
  outside :: 'w
  notified :: "string list"
  callbacks :: "(string \<times> string \<times> grpc_conn) list"
  spawned :: "ConnectionsStruct list"

type_synonym ('w, 'a) mact = "('w master, protocol_error, 'a) act"

subsection \<open>The table\<close>

fun GetConnectionByAddr :: "ConnectionsStruct list \<Rightarrow> string \<Rightarrow> ConnectionsStruct option" where
  "GetConnectionByAddr [] addr = None"
| "GetConnectionByAddr (c # cs) addr = (if Addr c = addr then Some c else GetConnectionByAddr cs addr)"

fun GetConnectionByMachineName :: "ConnectionsStruct list \<Rightarrow> string \<Rightarrow> ConnectionsStruct option" where
  "GetConnectionByMachineName [] name = None"
| "GetConnectionByMachineName (c # cs) name =
     (if MachineName c = name then Some c else GetConnectionByMachineName cs name)"

text \<open>The new table and the entry that was replaced, if any.\<close>

fun addOrReplaceConnection ::
  "ConnectionsStruct \<Rightarrow> ConnectionsStruct list \<Rightarrow> ConnectionsStruct list \<times> ConnectionsStruct option" where
  "addOrReplaceConnection conn [] = ([conn], None)"
| "addOrReplaceConnection conn (existing # cs) =
     (if Addr existing = Addr conn \<or> MachineName existing = MachineName conn
      then (conn # cs, Some existing)
      else (case addOrReplaceConnection conn cs of (cs', replaced) \<Rightarrow> (existing # cs', replaced)))"

fun removeConnection ::
  "string \<Rightarrow> nat \<Rightarrow> ConnectionsStruct list \<Rightarrow> ConnectionsStruct list \<times> ConnectionsStruct option" where
  "removeConnection addr expectedEntry [] = ([], None)"
| "removeConnection addr expectedEntry (c # cs) =
     (if Addr c = addr \<and> (expectedEntry = 0 \<or> EntryTime c = expectedEntry) then (cs, Some c)
      else (case removeConnection addr expectedEntry cs of (cs', removed) \<Rightarrow> (c # cs', removed)))"

fun markSlaveHealthy :: "string \<Rightarrow> nat \<Rightarrow> ConnectionsStruct list \<Rightarrow> ConnectionsStruct list" where
  "markSlaveHealthy addr now [] = []"
| "markSlaveHealthy addr now (c # cs) =
     (if Addr c = addr then c\<lparr>LastSeen := now\<rparr> # cs else c # markSlaveHealthy addr now cs)"

definition GetAllGRPCConnections :: "ConnectionsStruct list \<Rightarrow> grpc_conn list" where
  "GetAllGRPCConnections cs = List.map_filter Connection cs"

definition GetAllMachineNames :: "ConnectionsStruct list \<Rightarrow> string list" where
  "GetAllMachineNames cs = map MachineName cs"

definition GetConnectionsSnapshot :: "ConnectionsStruct list \<Rightarrow> ConnectionsStruct list" where
  "GetConnectionsSnapshot cs = cs"

subsection \<open>Connectivity\<close>

datatype conn_state = Idle | Connecting | Ready | TransientFailure | Shutdown

definition IsConnectionHealthy :: "conn_state option \<Rightarrow> bool" where
  "IsConnectionHealthy s = (case s of None \<Rightarrow> False | Some st \<Rightarrow> st = Ready \<or> st = Idle)"

text \<open>The loop of \<open>EnsureConnectionReady\<close>, over the states \<open>WaitForStateChange\<close> reports before the
  deadline.\<close>

fun wait_ready :: "conn_state \<Rightarrow> conn_state list \<Rightarrow> conn_state \<times> protocol_error option" where
  "wait_ready st [] = (st, Some ReadyTimeout)"
| "wait_ready st (new # rest) =
     (if new = Ready then (new, None)
      else if new = Shutdown then (new, Some ConnShutdown)
      else wait_ready new rest)"

definition EnsureConnectionReady ::
  "conn_state option \<Rightarrow> conn_state list \<Rightarrow> conn_state \<times> protocol_error option" where
  "EnsureConnectionReady conn changes =
     (case conn of
        None \<Rightarrow> (Shutdown, Some NilConnection)
      | Some st \<Rightarrow>
          (if st = Ready then (st, None)
           else if st = Shutdown then (st, Some ConnShutdown)
           else wait_ready st changes))"

definition GetHealthyConnectionByMachineName ::
  "(grpc_conn \<Rightarrow> 'w \<Rightarrow> conn_state) \<Rightarrow> string \<Rightarrow> 'w master \<Rightarrow> ConnectionsStruct option \<times> 'w master" where
  "GetHealthyConnectionByMachineName GetState name w =
     (case GetConnectionByMachineName (connections w) name of
        None \<Rightarrow> (None, w)
      | Some conn \<Rightarrow>
          (case Connection conn of
             None \<Rightarrow> (None, w)
           | Some c \<Rightarrow>
               (if \<not> IsConnectionHealthy (Some (GetState c (outside w)))
                then (None, w\<lparr>spawned := spawned w @ [conn]\<rparr>)
                else (Some conn, w))))"

subsection \<open>Effects\<close>

definition now :: "'w net \<Rightarrow> ('w, nat) mact" where
  "now net w = (case NowTime net (outside w) of (t, o') \<Rightarrow> (Inr t, w\<lparr>outside := o'\<rparr>))"

definition close :: "'w net \<Rightarrow> grpc_conn \<Rightarrow> ('w, bool) mact" where
  "close net c w = (case CloseConn net c (outside w) of (b, o') \<Rightarrow> (Inr b, w\<lparr>outside := o'\<rparr>))"

definition sleep :: "'w net \<Rightarrow> nat \<Rightarrow> ('w, unit) mact" where
  "sleep net n w = (case SleepSeconds net n (connections w) (outside w) of
     (cs, o') \<Rightarrow> (Inr (), w\<lparr>connections := cs, outside := o'\<rparr>))"

definition PingSlave :: "'w net \<Rightarrow> grpc_conn option \<Rightarrow> string \<Rightarrow> ('w, unit) mact" where
  "PingSlave net conn name w =
     (case conn of
        None \<Rightarrow> (Inl NilConnection, w)
      | Some c \<Rightarrow>
          (case NotifyClient net c (''Ping to slave '' @ name) (outside w) of
             (answered, o') \<Rightarrow>
               (if answered then (Inr (), w\<lparr>outside := o'\<rparr>) else (Inl (PingFailed name), w\<lparr>outside := o'\<rparr>))))"

definition mark_healthy :: "'w net \<Rightarrow> string \<Rightarrow> ('w, unit) mact" where
  "mark_healthy net addr =
     bindE (now net) (\<lambda>t. modW (\<lambda>w. w\<lparr>connections := markSlaveHealthy addr t (connections w)\<rparr>))"

definition add_connection :: "ConnectionsStruct \<Rightarrow> ('w, ConnectionsStruct option) mact" where
  "add_connection conn w =
     (case addOrReplaceConnection conn (connections w) of
        (cs, replaced) \<Rightarrow> (Inr replaced, w\<lparr>connections := cs\<rparr>))"

definition remove_connection :: "string \<Rightarrow> string \<Rightarrow> nat \<Rightarrow> ('w, ConnectionsStruct option) mact" where
  "remove_connection addr name expectedEntry w =
     (case removeConnection addr expectedEntry (connections w) of
        (cs, None) \<Rightarrow> (Inr None, w)
      | (cs, Some c) \<Rightarrow>
          (Inr (Some c), w\<lparr>connections := cs, notified := notified w @ [''Lost connection to '' @ name]\<rparr>))"

text \<open>Closing an entry's connection; an error of \<open>Close\<close> is only logged.\<close>

definition close_entry :: "'w net \<Rightarrow> ConnectionsStruct option \<Rightarrow> ('w, unit) mact" where
  "close_entry net entry =
     (case entry of
        None \<Rightarrow> ret ()
      | Some e \<Rightarrow> (case Connection e of None \<Rightarrow> ret () | Some c \<Rightarrow> bindE (close net c) (\<lambda>_. ret ())))"

definition JoinHostPort :: "string \<Rightarrow> string \<Rightarrow> string" where
  "JoinHostPort host port =
     (if CHR '':'' \<in> set host \<or> CHR ''%'' \<in> set host then ''['' @ host @ '']:'' @ port
      else host @ '':'' @ port)"

definition NewSlaveConnection :: "'w net \<Rightarrow> string \<Rightarrow> string \<Rightarrow> ('w, unit) mact" where
  "NewSlaveConnection net addr machineName =
     (if addr = [] then fail EmptyAddr
      else if machineName = [] then fail EmptyMachineName
      else (let target = JoinHostPort addr ''50052'' in
        bindE (\<lambda>w. case DialContext net target (outside w) of
                     (None, o') \<Rightarrow> (Inl (DialFailed target), w\<lparr>outside := o'\<rparr>)
                   | (Some c, o') \<Rightarrow> (Inr c, w\<lparr>outside := o'\<rparr>)) (\<lambda>conn.
        bindR (PingSlave net (Some conn) machineName) (\<lambda>r.
          case r of
            Inl _ \<Rightarrow> bindE (close net conn) (\<lambda>_. fail (InitialPingFailed machineName))
          | Inr _ \<Rightarrow>
              bindE (now net) (\<lambda>lastSeen.
              bindE (now net) (\<lambda>entryTime.
              bindE (add_connection \<lparr>Addr = addr, MachineName = machineName, Connection = Some conn,
                                     LastSeen = lastSeen, EntryTime = entryTime\<rparr>) (\<lambda>replaced.
              bindE (close_entry net replaced) (\<lambda>_.
                modW (\<lambda>w. w\<lparr>callbacks := callbacks w @ [(addr, machineName, conn)]\<rparr>)))))))))"

text \<open>Three attempts; the argument is the number that is left.\<close>

fun restore_attempts :: "nat \<Rightarrow> 'w net \<Rightarrow> string \<Rightarrow> string \<Rightarrow> ('w, bool) mact" where
  "restore_attempts 0 net addr machineName = ret False"
| "restore_attempts (Suc n) net addr machineName =
     bindR (NewSlaveConnection net addr machineName) (\<lambda>r.
       case r of
         Inr _ \<Rightarrow> ret True
       | Inl _ \<Rightarrow>
           (if 0 < n
            then bindE (sleep net 2) (\<lambda>_.
                 bindE (getW (\<lambda>w. GetConnectionByAddr (connections w) addr)) (\<lambda>existing.
                   if existing \<noteq> None then ret True else restore_attempts n net addr machineName))
            else restore_attempts n net addr machineName))"

definition tryRestoreConnection :: "'w net \<Rightarrow> string \<Rightarrow> string \<Rightarrow> ('w, bool) mact" where
  "tryRestoreConnection net addr machineName =
     bindE (getW (\<lambda>w. GetConnectionByAddr (connections w) addr)) (\<lambda>existing.
       if existing \<noteq> None then ret True else restore_attempts 3 net addr machineName)"

text \<open>Up to three pings with two seconds in between: did one succeed?\<close>

fun ping_attempts :: "nat \<Rightarrow> 'w net \<Rightarrow> ConnectionsStruct \<Rightarrow> ('w, bool) mact" where
  "ping_attempts 0 net connection = ret False"
| "ping_attempts (Suc n) net connection =
     bindR (PingSlave net (Connection connection) (MachineName connection)) (\<lambda>r.
       case r of
         Inr _ \<Rightarrow> bindE (mark_healthy net (Addr connection)) (\<lambda>_. ret True)
       | Inl _ \<Rightarrow>
           (if 0 < n then bindE (sleep net 2) (\<lambda>_. ping_attempts n net connection)
            else ping_attempts n net connection))"

definition remove_and_restore :: "'w net \<Rightarrow> ConnectionsStruct \<Rightarrow> ('w, unit) mact" where
  "remove_and_restore net connection =
     bindE (remove_connection (Addr connection) (MachineName connection) (EntryTime connection)) (\<lambda>removed.
     bindE (close_entry net removed) (\<lambda>_.
       if removed \<noteq> None
       then bindE (tryRestoreConnection net (Addr connection) (MachineName connection)) (\<lambda>_. ret ())
       else ret ()))"

definition CheckConnectionStateRemove :: "'w net \<Rightarrow> ConnectionsStruct \<Rightarrow> ('w, unit) mact" where
  "CheckConnectionStateRemove net connection =
     (if Connection connection = None then remove_and_restore net connection
      else bindE (ping_attempts 3 net connection) (\<lambda>ok.
             if ok then ret () else remove_and_restore net connection))"

definition ping_one :: "'w net \<Rightarrow> ConnectionsStruct \<Rightarrow> ('w, unit) mact" where
  "ping_one net c =
     (if Connection c = None then CheckConnectionStateRemove net c
      else bindR (PingSlave net (Connection c) (MachineName c)) (\<lambda>r.
             case r of
               Inl _ \<Rightarrow> CheckConnectionStateRemove net c
             | Inr _ \<Rightarrow> mark_healthy net (Addr c)))"

definition PingAllSlaves :: "'w net \<Rightarrow> ('w, unit) mact" where
  "PingAllSlaves net =
     bindE (getW (\<lambda>w. GetConnectionsSnapshot (connections w))) (\<lambda>snapshot. forE snapshot (ping_one net))"

definition SetConnection :: "'w net \<Rightarrow> string \<Rightarrow> string \<Rightarrow> ('w, string) mact" where
  "SetConnection net addr machineName =
     bindE (NewSlaveConnection net addr machineName) (\<lambda>_.
     bindE (PingAllSlaves net) (\<lambda>_. ret ''OK do Master''))"

subsection \<open>Laws of the table\<close>

lemma by_addr_sound: "GetConnectionByAddr cs addr = Some c \<Longrightarrow> c \<in> set cs \<and> Addr c = addr"
  by (induction cs) (auto split: if_splits)

lemma by_name_sound: "GetConnectionByMachineName cs name = Some c \<Longrightarrow> c \<in> set cs \<and> MachineName c = name"
  by (induction cs) (auto split: if_splits)

lemma by_addr_None: "GetConnectionByAddr cs addr = None \<longleftrightarrow> (\<forall>c \<in> set cs. Addr c \<noteq> addr)"
  by (induction cs) auto

lemma by_name_None: "GetConnectionByMachineName cs name = None \<longleftrightarrow> (\<forall>c \<in> set cs. MachineName c \<noteq> name)"
  by (induction cs) auto

lemma by_addr_add: "GetConnectionByAddr (fst (addOrReplaceConnection c cs)) (Addr c) = Some c"
  by (induction c cs rule: addOrReplaceConnection.induct) (auto split: prod.splits)

lemma by_name_add: "GetConnectionByMachineName (fst (addOrReplaceConnection c cs)) (MachineName c) = Some c"
  by (induction c cs rule: addOrReplaceConnection.induct) (auto split: prod.splits)

text \<open>Either nothing matched and the entry is appended, or the first match is overwritten.\<close>

lemma addOrReplace_cases:
  obtains "addOrReplaceConnection c cs = (cs @ [c], None)"
    "\<forall>e \<in> set cs. Addr e \<noteq> Addr c \<and> MachineName e \<noteq> MachineName c"
  | pre e post where "cs = pre @ e # post" "addOrReplaceConnection c cs = (pre @ c # post, Some e)"
    "Addr e = Addr c \<or> MachineName e = MachineName c"
    "\<forall>x \<in> set pre. Addr x \<noteq> Addr c \<and> MachineName x \<noteq> MachineName c"
proof (induction cs arbitrary: thesis)
  case Nil
  then show ?case by simp
next
  case (Cons x cs)
  show ?case
  proof (cases "Addr x = Addr c \<or> MachineName x = MachineName c")
    case True
    then show ?thesis using Cons.prems(2) [of "[]" x cs] by simp
  next
    case False
    show ?thesis
    proof (rule Cons.IH)
      assume "addOrReplaceConnection c cs = (cs @ [c], None)"
        "\<forall>e \<in> set cs. Addr e \<noteq> Addr c \<and> MachineName e \<noteq> MachineName c"
      with False Cons.prems(1) show ?thesis by simp
    next
      fix pre e post
      assume "cs = pre @ e # post" "addOrReplaceConnection c cs = (pre @ c # post, Some e)"
        "Addr e = Addr c \<or> MachineName e = MachineName c"
        "\<forall>x \<in> set pre. Addr x \<noteq> Addr c \<and> MachineName x \<noteq> MachineName c"
      with False show ?thesis using Cons.prems(2) [of "x # pre" e post] by simp
    qed
  qed
qed

lemma removeConnection_cases:
  obtains "removeConnection addr t cs = (cs, None)"
    "\<forall>e \<in> set cs. \<not> (Addr e = addr \<and> (t = 0 \<or> EntryTime e = t))"
  | pre e post where "cs = pre @ e # post" "removeConnection addr t cs = (pre @ post, Some e)"
    "Addr e = addr" "t = 0 \<or> EntryTime e = t"
proof (induction cs arbitrary: thesis)
  case Nil
  then show ?case by simp
next
  case (Cons x cs)
  show ?case
  proof (cases "Addr x = addr \<and> (t = 0 \<or> EntryTime x = t)")
    case True
    then show ?thesis using Cons.prems(2) [of "[]" x cs] by simp
  next
    case False
    show ?thesis
    proof (rule Cons.IH)
      assume "removeConnection addr t cs = (cs, None)"
        "\<forall>e \<in> set cs. \<not> (Addr e = addr \<and> (t = 0 \<or> EntryTime e = t))"
      with False Cons.prems(1) show ?thesis by simp
    next
      fix pre e post
      assume "cs = pre @ e # post" "removeConnection addr t cs = (pre @ post, Some e)"
        "Addr e = addr" "t = 0 \<or> EntryTime e = t"
      with False show ?thesis by (intro Cons.prems(2) [of "x # pre" e post]) auto
    qed
  qed
qed

lemma set_addOrReplace: "set (fst (addOrReplaceConnection c cs)) \<subseteq> insert c (set cs)"
  by (rule addOrReplace_cases [of c cs]) auto

lemma set_removeConnection: "set (fst (removeConnection addr t cs)) \<subseteq> set cs"
  by (rule removeConnection_cases [of addr t cs]) auto

lemma by_addr_remove_other:
  "GetConnectionByAddr cs a = Some c \<Longrightarrow> t \<noteq> 0 \<Longrightarrow> EntryTime c \<noteq> t \<Longrightarrow>
     GetConnectionByAddr (fst (removeConnection addr t cs)) a = Some c"
  by (induction addr t cs rule: removeConnection.induct) (auto split: prod.splits if_splits)

lemma by_name_remove_other:
  "GetConnectionByMachineName cs n = Some c \<Longrightarrow> t \<noteq> 0 \<Longrightarrow> EntryTime c \<noteq> t \<Longrightarrow>
     GetConnectionByMachineName (fst (removeConnection addr t cs)) n = Some c"
  by (induction addr t cs rule: removeConnection.induct) (auto split: prod.splits if_splits)

text \<open>
  The table as its clients see it: what a lookup returns after a registration, and that a health
  check that gives up on an old entry does not take a newer one away.
\<close>

locale connection_table =
  fixes entries :: "'t \<Rightarrow> ConnectionsStruct set"
    and by_addr :: "'t \<Rightarrow> string \<Rightarrow> ConnectionsStruct option"
    and by_name :: "'t \<Rightarrow> string \<Rightarrow> ConnectionsStruct option"
    and register :: "ConnectionsStruct \<Rightarrow> 't \<Rightarrow> 't"
    and drop_entry :: "string \<Rightarrow> nat \<Rightarrow> 't \<Rightarrow> 't"
  assumes found_addr: "by_addr t a = Some c \<Longrightarrow> c \<in> entries t \<and> Addr c = a"
    and found_name: "by_name t n = Some c \<Longrightarrow> c \<in> entries t \<and> MachineName c = n"
    and registered_addr: "by_addr (register c t) (Addr c) = Some c"
    and registered_name: "by_name (register c t) (MachineName c) = Some c"
    and register_entries: "entries (register c t) \<subseteq> insert c (entries t)"
    and drop_entries: "entries (drop_entry a old t) \<subseteq> entries t"
    and drop_keeps_addr: "by_addr t a = Some c \<Longrightarrow> old \<noteq> 0 \<Longrightarrow> EntryTime c \<noteq> old \<Longrightarrow>
          by_addr (drop_entry b old t) a = Some c"
    and drop_keeps_name: "by_name t n = Some c \<Longrightarrow> old \<noteq> 0 \<Longrightarrow> EntryTime c \<noteq> old \<Longrightarrow>
          by_name (drop_entry b old t) n = Some c"
begin

definition stale_drops :: "(string \<times> nat) list \<Rightarrow> 't \<Rightarrow> 't" where
  "stale_drops ds t = fold (\<lambda>(a, old). drop_entry a old) ds t"

lemma newest_survives:
  assumes "\<forall>(a, old) \<in> set ds. old \<noteq> 0 \<and> old \<noteq> EntryTime c"
    and "by_addr t (Addr c) = Some c" "by_name t (MachineName c) = Some c"
  shows "by_addr (stale_drops ds t) (Addr c) = Some c \<and> by_name (stale_drops ds t) (MachineName c) = Some c"
  using assms
proof (induction ds arbitrary: t)
  case (Cons d ds)
  obtain a old where d: "d = (a, old)" by (cases d)
  with Cons.prems have "old \<noteq> 0" "EntryTime c \<noteq> old" by auto
  then have "by_addr (drop_entry a old t) (Addr c) = Some c" "by_name (drop_entry a old t) (MachineName c) = Some c"
    using drop_keeps_addr [OF Cons.prems(2)] drop_keeps_name [OF Cons.prems(3)] by auto
  with Cons d show ?case by (simp add: stale_drops_def)
qed (simp add: stale_drops_def)

lemma registered_survives:
  assumes "\<forall>(a, old) \<in> set ds. old \<noteq> 0 \<and> old \<noteq> EntryTime c"
  shows "by_addr (stale_drops ds (register c t)) (Addr c) = Some c"
    and "by_name (stale_drops ds (register c t)) (MachineName c) = Some c"
  using newest_survives [OF assms registered_addr registered_name] by blast+

end

interpretation table: connection_table set GetConnectionByAddr GetConnectionByMachineName
    "\<lambda>c cs. fst (addOrReplaceConnection c cs)" "\<lambda>a t cs. fst (removeConnection a t cs)"
  by unfold_locales
     (use by_addr_sound by_name_sound by_addr_add by_name_add set_addOrReplace set_removeConnection
        by_addr_remove_other by_name_remove_other in auto)

subsection \<open>How the table evolves\<close>

definition valid_entry :: "ConnectionsStruct \<Rightarrow> bool" where
  "valid_entry c \<longleftrightarrow> Addr c \<noteq> [] \<and> MachineName c \<noteq> [] \<and> Connection c \<noteq> None"

text \<open>The atomic operations, each under the lock, in any order and by any goroutine.\<close>

inductive table_step :: "ConnectionsStruct list \<Rightarrow> ConnectionsStruct list \<Rightarrow> bool" where
  registered: "valid_entry c \<Longrightarrow> table_step cs (fst (addOrReplaceConnection c cs))"
| dropped: "table_step cs (fst (removeConnection addr t cs))"
| answered: "table_step cs (markSlaveHealthy addr t cs)"

definition evolves :: "ConnectionsStruct list \<Rightarrow> ConnectionsStruct list \<Rightarrow> bool" where
  "evolves = table_step\<^sup>*\<^sup>*"

lemma evolves_step: "table_step cs cs' \<Longrightarrow> evolves cs cs'"
  by (simp add: evolves_def)

lemma set_markSlaveHealthy:
  "e \<in> set (markSlaveHealthy addr t cs) \<Longrightarrow> \<exists>c \<in> set cs. e = c \<or> e = c\<lparr>LastSeen := t\<rparr>"
  by (induction addr t cs rule: markSlaveHealthy.induct) (auto split: if_splits)

inductive_cases table_stepE: "table_step cs cs'"

lemma table_step_valid: "table_step cs cs' \<Longrightarrow> list_all valid_entry cs \<Longrightarrow> list_all valid_entry cs'"
proof (erule table_stepE)
  fix c
  assume "list_all valid_entry cs" "valid_entry c" "cs' = fst (addOrReplaceConnection c cs)"
  then show "list_all valid_entry cs'"
    using set_addOrReplace [of c cs] by (auto simp: list_all_iff)
next
  fix addr t
  assume "list_all valid_entry cs" "cs' = fst (removeConnection addr t cs)"
  then show "list_all valid_entry cs'"
    using set_removeConnection [of addr t cs] by (auto simp: list_all_iff)
next
  fix addr t
  assume "list_all valid_entry cs" "cs' = markSlaveHealthy addr t cs"
  then show "list_all valid_entry cs'"
    by (auto simp: list_all_iff valid_entry_def dest!: set_markSlaveHealthy)
qed

lemma evolves_valid: "evolves cs cs' \<Longrightarrow> list_all valid_entry cs \<Longrightarrow> list_all valid_entry cs'"
  unfolding evolves_def by (induction rule: rtranclp_induct) (auto intro: table_step_valid)

definition master_evolves :: "'w master \<Rightarrow> 'w master \<Rightarrow> bool" where
  "master_evolves w w' \<longleftrightarrow> evolves (connections w) (connections w')"

lemma master_evolves_order [steps_intro]: "reflp master_evolves" "transp master_evolves"
  by (auto simp: master_evolves_def evolves_def reflp_def transp_def)

text \<open>While this goroutine sleeps, the others use the same operations.\<close>

definition fair_net :: "'w net \<Rightarrow> bool" where
  "fair_net net \<longleftrightarrow> (\<forall>n cs o'. evolves cs (fst (SleepSeconds net n cs o')))"

lemma steps_outside [steps_intro]:
  "steps master_evolves (now net)" "steps master_evolves (close net c)"
  "steps master_evolves (PingSlave net conn name)"
  by (auto simp: steps_def now_def close_def PingSlave_def master_evolves_def evolves_def
      split: prod.split option.split)

lemma steps_sleep [steps_intro]: "fair_net net \<Longrightarrow> steps master_evolves (sleep net n)"
  unfolding fair_net_def steps_def sleep_def master_evolves_def by (auto split: prod.split) (metis fst_conv)

lemma steps_mark [steps_intro]: "steps master_evolves (mark_healthy net addr)"
  unfolding mark_healthy_def
  by (intro steps_intro)
     (auto simp: steps_def modW_def master_evolves_def intro!: evolves_step answered)

lemma steps_add [steps_intro]: "valid_entry c \<Longrightarrow> steps master_evolves (add_connection c)"
  unfolding steps_def add_connection_def master_evolves_def
  by (auto split: prod.split) (metis evolves_step fst_conv registered)

lemma steps_remove [steps_intro]: "steps master_evolves (remove_connection addr name t)"
  unfolding steps_def remove_connection_def master_evolves_def
  by (auto split: prod.split option.split)
     (metis evolves_def rtranclp.rtrancl_refl, metis dropped evolves_step fst_conv)

lemma steps_close_entry [steps_intro]: "steps master_evolves (close_entry net e)"
  unfolding close_entry_def by (intro steps_intro)

lemma steps_dial [steps_intro]:
  "steps master_evolves (\<lambda>w. case DialContext net target (outside w) of
      (None, o') \<Rightarrow> (Inl (DialFailed target), w\<lparr>outside := o'\<rparr>)
    | (Some c, o') \<Rightarrow> (Inr c, w\<lparr>outside := o'\<rparr>))"
  by (auto simp: steps_def master_evolves_def evolves_def split: prod.split option.split)

lemma steps_callback [steps_intro]: "steps master_evolves (modW (\<lambda>w. w\<lparr>callbacks := f w\<rparr>))"
  by (simp add: steps_def modW_def master_evolves_def evolves_def)

lemma steps_New [steps_intro]: "steps master_evolves (NewSlaveConnection net addr name)"
proof (cases "addr = [] \<or> name = []")
  case True
  then show ?thesis
    unfolding NewSlaveConnection_def by (auto intro!: steps_intro)
next
  case False
  then have v: "valid_entry \<lparr>Addr = addr, MachineName = name, Connection = Some c, LastSeen = t, EntryTime = t'\<rparr>" for c t t'
    by (simp add: valid_entry_def)
  show ?thesis
    unfolding NewSlaveConnection_def Let_def by (intro steps_intro v)
qed

lemma steps_restore [steps_intro]:
  "fair_net net \<Longrightarrow> steps master_evolves (restore_attempts n net addr name)"
  by (induction n net addr name rule: restore_attempts.induct) (auto intro!: steps_intro)

lemma steps_try [steps_intro]: "fair_net net \<Longrightarrow> steps master_evolves (tryRestoreConnection net addr name)"
  unfolding tryRestoreConnection_def by (intro steps_intro)

lemma steps_pings [steps_intro]: "fair_net net \<Longrightarrow> steps master_evolves (ping_attempts n net c)"
  by (induction n net c rule: ping_attempts.induct) (auto intro!: steps_intro)

lemma steps_check [steps_intro]: "fair_net net \<Longrightarrow> steps master_evolves (CheckConnectionStateRemove net c)"
  unfolding CheckConnectionStateRemove_def remove_and_restore_def by (intro steps_intro)

lemma steps_ping_all [steps_intro]: "fair_net net \<Longrightarrow> steps master_evolves (PingAllSlaves net)"
  unfolding PingAllSlaves_def ping_one_def by (intro steps_intro)

lemma steps_set [steps_intro]: "fair_net net \<Longrightarrow> steps master_evolves (SetConnection net addr name)"
  unfolding SetConnection_def by (intro steps_intro)

subsection \<open>A network that answers or does not\<close>

text \<open>
  For the effect of a round of pings: no other goroutine interferes, a connection answers every
  ping or none (\<open>ans\<close>) until it is closed, dialling returns a new handle (\<open>hs\<close> are the handles in
  use) and the clock (\<open>tick\<close>) advances.
\<close>

definition same_answers :: "('w \<Rightarrow> grpc_conn \<Rightarrow> bool) \<Rightarrow> ('w \<Rightarrow> grpc_conn set) \<Rightarrow> ('w \<Rightarrow> nat) \<Rightarrow> 'w \<Rightarrow> 'w \<Rightarrow> bool" where
  "same_answers ans hs tick o1 o2 \<longleftrightarrow> ans o2 = ans o1 \<and> hs o2 = hs o1 \<and> tick o1 \<le> tick o2"

definition quiet_net ::
  "'w net \<Rightarrow> ('w \<Rightarrow> grpc_conn \<Rightarrow> bool) \<Rightarrow> ('w \<Rightarrow> grpc_conn set) \<Rightarrow> ('w \<Rightarrow> nat) \<Rightarrow> bool" where
  "quiet_net net ans hs tick \<longleftrightarrow>
     (\<forall>c t o1 r o2. NotifyClient net c t o1 = (r, o2) \<longrightarrow> r = ans o1 c \<and> same_answers ans hs tick o1 o2) \<and>
     (\<forall>c o1 r o2. CloseConn net c o1 = (r, o2) \<longrightarrow>
        (\<forall>d. d \<noteq> c \<longrightarrow> ans o2 d = ans o1 d) \<and> hs o2 = hs o1 \<and> tick o1 \<le> tick o2) \<and>
     (\<forall>t o1 r o2. DialContext net t o1 = (r, o2) \<longrightarrow>
        (\<forall>d \<in> hs o1. ans o2 d = ans o1 d) \<and> hs o1 \<subseteq> hs o2 \<and> tick o1 \<le> tick o2 \<and>
        (\<forall>d. r = Some d \<longrightarrow> d \<notin> hs o1 \<and> d \<in> hs o2)) \<and>
     (\<forall>o1 r o2. NowTime net o1 = (r, o2) \<longrightarrow>
        r = tick o1 \<and> same_answers ans hs tick o1 o2 \<and> tick o1 < tick o2) \<and>
     (\<forall>n cs o1 cs' o2. SleepSeconds net n cs o1 = (cs', o2) \<longrightarrow> cs' = cs \<and> same_answers ans hs tick o1 o2)"

lemma quiet_notify:
  "quiet_net net ans hs tick \<Longrightarrow> NotifyClient net c t o1 = (r, o2) \<Longrightarrow> r = ans o1 c \<and> same_answers ans hs tick o1 o2"
  unfolding quiet_net_def by (elim conjE) simp

lemma quiet_close:
  "quiet_net net ans hs tick \<Longrightarrow> CloseConn net c o1 = (r, o2) \<Longrightarrow>
     (\<forall>d. d \<noteq> c \<longrightarrow> ans o2 d = ans o1 d) \<and> hs o2 = hs o1 \<and> tick o1 \<le> tick o2"
  unfolding quiet_net_def by (elim conjE) simp

lemma quiet_dial:
  "quiet_net net ans hs tick \<Longrightarrow> DialContext net t o1 = (r, o2) \<Longrightarrow>
     (\<forall>d \<in> hs o1. ans o2 d = ans o1 d) \<and> hs o1 \<subseteq> hs o2 \<and> tick o1 \<le> tick o2 \<and>
     (\<forall>d. r = Some d \<longrightarrow> d \<notin> hs o1 \<and> d \<in> hs o2)"
  unfolding quiet_net_def by (elim conjE) simp

lemma quiet_now:
  "quiet_net net ans hs tick \<Longrightarrow> NowTime net o1 = (r, o2) \<Longrightarrow>
     r = tick o1 \<and> same_answers ans hs tick o1 o2 \<and> tick o1 < tick o2"
proof -
  assume "quiet_net net ans hs tick"
  then have "\<forall>o1 r o2. NowTime net o1 = (r, o2) \<longrightarrow>
        r = tick o1 \<and> same_answers ans hs tick o1 o2 \<and> tick o1 < tick o2"
    unfolding quiet_net_def by (elim conjE)
  moreover assume "NowTime net o1 = (r, o2)"
  ultimately show ?thesis by blast
qed

lemma quiet_sleep:
  "quiet_net net ans hs tick \<Longrightarrow> SleepSeconds net n cs o1 = (cs', o2) \<Longrightarrow>
     cs' = cs \<and> same_answers ans hs tick o1 o2"
  unfolding quiet_net_def by (elim conjE) simp

type_synonym entry_sig = "string \<times> nat \<times> grpc_conn option"

definition sig_of :: "ConnectionsStruct \<Rightarrow> entry_sig" where
  "sig_of c = (Addr c, EntryTime c, Connection c)"

definition ok_sig :: "('w \<Rightarrow> grpc_conn \<Rightarrow> bool) \<Rightarrow> ('w \<Rightarrow> grpc_conn set) \<Rightarrow> ('w \<Rightarrow> nat) \<Rightarrow>
    entry_sig set \<Rightarrow> 'w \<Rightarrow> entry_sig \<Rightarrow> bool" where
  "ok_sig ans hs tick K o' s \<longleftrightarrow>
     (case s of (a, t, d) \<Rightarrow>
        (\<exists>c. d = Some c \<and> c \<in> hs o' \<and> (\<not> ans o' c \<longrightarrow> s \<in> K)) \<and> 0 < t \<and> t < tick o')"

text \<open>Entries that do not answer are among the suspects \<open>K\<close>; handles and keys are distinct.\<close>

definition sound :: "('w \<Rightarrow> grpc_conn \<Rightarrow> bool) \<Rightarrow> ('w \<Rightarrow> grpc_conn set) \<Rightarrow> ('w \<Rightarrow> nat) \<Rightarrow>
    entry_sig set \<Rightarrow> 'w master \<Rightarrow> bool" where
  "sound ans hs tick K w \<longleftrightarrow>
     (\<forall>c \<in> set (connections w). ok_sig ans hs tick K (outside w) (sig_of c)) \<and>
     distinct (map Connection (connections w)) \<and>
     distinct (map (\<lambda>c. (Addr c, EntryTime c)) (connections w)) \<and> 0 < tick (outside w)"

lemma ok_sig_mono:
  assumes "ok_sig ans hs tick K o1 (a, t, d)" "hs o1 \<subseteq> hs o2" "tick o1 \<le> tick o2"
    and "\<And>c. d = Some c \<Longrightarrow> c \<in> hs o1 \<Longrightarrow> ans o2 c = ans o1 c"
  shows "ok_sig ans hs tick K o2 (a, t, d)"
  using assms by (auto simp: ok_sig_def)

lemma sound_outside:
  assumes "sound ans hs tick K w" "hs (outside w) \<subseteq> hs o2" "tick (outside w) \<le> tick o2"
    and "\<And>c e. e \<in> set (connections w) \<Longrightarrow> Connection e = Some c \<Longrightarrow> c \<in> hs (outside w) \<Longrightarrow> ans o2 c = ans (outside w) c"
  shows "sound ans hs tick K (w\<lparr>outside := o2\<rparr>)"
proof -
  have "ok_sig ans hs tick K o2 (sig_of c)" if c: "c \<in> set (connections w)" for c
  proof -
    have "ok_sig ans hs tick K (outside w) (Addr c, EntryTime c, Connection c)"
      using assms(1) c by (simp add: sound_def sig_of_def)
    from ok_sig_mono [OF this assms(2,3)] assms(4) [OF c] show ?thesis
      unfolding sig_of_def by blast
  qed
  then show ?thesis using assms(1,3) by (simp add: sound_def)
qed

lemma sound_same:
  "sound ans hs tick K w \<Longrightarrow> same_answers ans hs tick (outside w) o2 \<Longrightarrow> sound ans hs tick K (w\<lparr>outside := o2\<rparr>)"
  by (rule sound_outside) (simp_all add: same_answers_def)

lemma sound_sigs:
  assumes "sound ans hs tick K w" "map sig_of cs = map sig_of (connections w)"
  shows "sound ans hs tick K (w\<lparr>connections := cs\<rparr>)"
proof -
  have f: "map f cs = map f (connections w)" if "\<And>c. f c = g (sig_of c)" for f :: "ConnectionsStruct \<Rightarrow> 'x" and g
  proof -
    have "map f xs = map g (map sig_of xs)" for xs using that by simp
    then show ?thesis using assms(2) by metis
  qed
  have "map Connection cs = map Connection (connections w)"
    by (rule f [of _ "\<lambda>(a, t, d). d"]) (simp add: sig_of_def)
  moreover have "map (\<lambda>c. (Addr c, EntryTime c)) cs = map (\<lambda>c. (Addr c, EntryTime c)) (connections w)"
    by (rule f [of _ "\<lambda>(a, t, d). (a, t)"]) (simp add: sig_of_def)
  moreover have sigs: "sig_of ` set cs = sig_of ` set (connections w)"
    using assms(2) by (metis list.set_map)
  moreover have "\<forall>c \<in> set cs. ok_sig ans hs tick K (outside w) (sig_of c)"
  proof
    fix c assume "c \<in> set cs"
    then have "sig_of c \<in> sig_of ` set (connections w)" using sigs by blast
    then obtain e where "e \<in> set (connections w)" "sig_of c = sig_of e" by blast
    with assms(1) show "ok_sig ans hs tick K (outside w) (sig_of c)" by (simp add: sound_def)
  qed
  ultimately show ?thesis using assms(1) by (simp add: sound_def)
qed

lemma sound_frame [simp]:
  "sound ans hs tick K (w\<lparr>callbacks := x\<rparr>) = sound ans hs tick K w"
  "sound ans hs tick K (w\<lparr>notified := y\<rparr>) = sound ans hs tick K w"
  by (simp_all add: sound_def)

lemma map_sig_mark: "map sig_of (markSlaveHealthy a t cs) = map sig_of cs"
  by (induction a t cs rule: markSlaveHealthy.induct) (auto simp: sig_of_def)

subsection \<open>The effect of each operation\<close>

lemma wp_now:
  assumes q: "quiet_net net ans hs tick" and s: "sound ans hs tick K w"
    and post: "\<And>o2. sound ans hs tick K (w\<lparr>outside := o2\<rparr>) \<Longrightarrow> tick (outside w) < tick o2 \<Longrightarrow>
        ans o2 = ans (outside w) \<Longrightarrow> hs o2 = hs (outside w) \<Longrightarrow> Q (Inr (tick (outside w))) (w\<lparr>outside := o2\<rparr>)"
  shows "wp (now net) Q w"
proof -
  obtain r o2 where n: "NowTime net (outside w) = (r, o2)" by (cases "NowTime net (outside w)")
  note law = quiet_now [OF q n]
  then have "Q (Inr (tick (outside w))) (w\<lparr>outside := o2\<rparr>)"
    using sound_same [OF s] by (intro post) (simp_all add: same_answers_def)
  with law n show ?thesis by (simp add: wp_def now_def)
qed

lemma wp_ping:
  assumes q: "quiet_net net ans hs tick" and s: "sound ans hs tick K w"
    and post: "\<And>o2. sound ans hs tick K (w\<lparr>outside := o2\<rparr>) \<Longrightarrow> ans o2 = ans (outside w) \<Longrightarrow>
        hs o2 = hs (outside w) \<Longrightarrow>
        Q (if ans (outside w) c then Inr () else Inl (PingFailed name)) (w\<lparr>outside := o2\<rparr>)"
  shows "wp (PingSlave net (Some c) name) Q w"
proof -
  obtain r o2 where n: "NotifyClient net c (''Ping to slave '' @ name) (outside w) = (r, o2)"
    by (cases "NotifyClient net c (''Ping to slave '' @ name) (outside w)")
  note law = quiet_notify [OF q n]
  then have "Q (if ans (outside w) c then Inr () else Inl (PingFailed name)) (w\<lparr>outside := o2\<rparr>)"
    using sound_same [OF s] by (intro post) (simp_all add: same_answers_def)
  with law n show ?thesis by (simp add: wp_def PingSlave_def split: if_splits)
qed

lemma wp_sleep:
  assumes q: "quiet_net net ans hs tick" and s: "sound ans hs tick K w"
    and post: "\<And>o2. sound ans hs tick K (w\<lparr>outside := o2\<rparr>) \<Longrightarrow> ans o2 = ans (outside w) \<Longrightarrow>
        Q (Inr ()) (w\<lparr>outside := o2\<rparr>)"
  shows "wp (sleep net n) Q w"
proof -
  obtain cs o2 where n: "SleepSeconds net n (connections w) (outside w) = (cs, o2)"
    by (cases "SleepSeconds net n (connections w) (outside w)")
  note law = quiet_sleep [OF q n]
  then have "Q (Inr ()) (w\<lparr>outside := o2\<rparr>)"
    using sound_same [OF s] by (intro post) (simp_all add: same_answers_def)
  with law n show ?thesis by (simp add: wp_def sleep_def)
qed

lemma wp_close:
  assumes q: "quiet_net net ans hs tick" and s: "sound ans hs tick K w"
    and c: "\<forall>e \<in> set (connections w). Connection e \<noteq> Some c"
    and post: "\<And>b o2. sound ans hs tick K (w\<lparr>outside := o2\<rparr>) \<Longrightarrow> Q (Inr b) (w\<lparr>outside := o2\<rparr>)"
  shows "wp (close net c) Q w"
proof -
  obtain b o2 where n: "CloseConn net c (outside w) = (b, o2)" by (cases "CloseConn net c (outside w)")
  have "sound ans hs tick K (w\<lparr>outside := o2\<rparr>)"
    using quiet_close [OF q n] c by (intro sound_outside [OF s]) auto
  with n post show ?thesis by (simp add: wp_def close_def)
qed

lemma wp_close_entry:
  assumes q: "quiet_net net ans hs tick" and s: "sound ans hs tick K w"
    and c: "\<And>e c. entry = Some e \<Longrightarrow> Connection e = Some c \<Longrightarrow> \<forall>x \<in> set (connections w). Connection x \<noteq> Some c"
    and post: "\<And>w'. sound ans hs tick K w' \<Longrightarrow> connections w' = connections w \<Longrightarrow> Q (Inr ()) w'"
  shows "wp (close_entry net entry) Q w"
proof (cases entry)
  case None
  then show ?thesis using s post by (simp add: close_entry_def wp_rules)
next
  case (Some e)
  show ?thesis
  proof (cases "Connection e")
    case None
    then show ?thesis using Some s post by (simp add: close_entry_def wp_rules)
  next
    case (Some d)
    with \<open>entry = Some e\<close> show ?thesis
      using c [of e d] by (auto simp: close_entry_def wp_rules intro!: wp_close [OF q s] post)
  qed
qed

lemma wp_mark_healthy:
  assumes q: "quiet_net net ans hs tick" and s: "sound ans hs tick K w"
    and post: "\<And>w'. sound ans hs tick K w' \<Longrightarrow> Q (Inr ()) w'"
  shows "wp (mark_healthy net a) Q w"
  unfolding mark_healthy_def wp_rules
  by (rule wp_now [OF q s]) (auto simp: wp_rules intro!: post sound_sigs map_sig_mark)

text \<open>Registering an answering connection under a fresh handle and the current time.\<close>

lemma wp_add:
  assumes s: "sound ans hs tick K w" and d: "Connection c = Some d" "d \<in> hs (outside w)" "ans (outside w) d"
    and fresh: "\<forall>e \<in> set (connections w). Connection e \<noteq> Some d"
    and t: "0 < EntryTime c" "EntryTime c < tick (outside w)" "\<forall>e \<in> set (connections w). EntryTime e < EntryTime c"
    and post: "\<And>replaced w'. sound ans hs tick K w' \<Longrightarrow>
        (\<And>e x. replaced = Some e \<Longrightarrow> Connection e = Some x \<Longrightarrow> \<forall>y \<in> set (connections w'). Connection y \<noteq> Some x) \<Longrightarrow>
        Q (Inr replaced) w'"
  shows "wp (add_connection c) Q w"
proof -
  have okc: "ok_sig ans hs tick K (outside w) (sig_of c)"
    using d t by (simp add: ok_sig_def sig_of_def)
  show ?thesis
  proof (rule addOrReplace_cases [of c "connections w"])
    assume a: "addOrReplaceConnection c (connections w) = (connections w @ [c], None)"
    have "sound ans hs tick K (w\<lparr>connections := connections w @ [c]\<rparr>)"
      using s okc fresh t(3) d(1) by (auto simp: sound_def)
    then have "Q (Inr None) (w\<lparr>connections := connections w @ [c]\<rparr>)" by (rule post) simp
    with a show ?thesis by (simp add: wp_def add_connection_def)
  next
    fix pre e post'
    assume cs: "connections w = pre @ e # post'"
      and a: "addOrReplaceConnection c (connections w) = (pre @ c # post', Some e)"
    have "sound ans hs tick K (w\<lparr>connections := pre @ c # post'\<rparr>)"
      using s okc fresh t(3) d(1) by (auto simp: sound_def cs)
    moreover have "\<forall>y \<in> set (pre @ c # post'). Connection y \<noteq> Some x" if x: "Connection e = Some x" for x
    proof -
      have "x \<noteq> d" using fresh x by (auto simp: cs)
      moreover have "Connection e \<notin> Connection ` set (pre @ post')" using s by (simp add: sound_def cs image_Un)
      ultimately show ?thesis using d(1) x by force
    qed
    ultimately have "Q (Inr (Some e)) (w\<lparr>connections := pre @ c # post'\<rparr>)" by (intro post) auto
    with a show ?thesis by (simp add: wp_def add_connection_def)
  qed
qed

lemma wp_remove:
  assumes s: "sound ans hs tick K w" and t: "t \<noteq> 0"
    and post: "\<And>removed w'. sound ans hs tick (K - {s. fst s = a \<and> fst (snd s) = t}) w' \<Longrightarrow>
        (\<And>e x. removed = Some e \<Longrightarrow> Connection e = Some x \<Longrightarrow> \<forall>y \<in> set (connections w'). Connection y \<noteq> Some x) \<Longrightarrow>
        Q (Inr removed) w'"
  shows "wp (remove_connection a n t) Q w"
proof (rule removeConnection_cases [of a t "connections w"])
  assume r: "removeConnection a t (connections w) = (connections w, None)"
    and none: "\<forall>e \<in> set (connections w). \<not> (Addr e = a \<and> (t = 0 \<or> EntryTime e = t))"
  have "sound ans hs tick (K - {s. fst s = a \<and> fst (snd s) = t}) w"
    using s none by (auto simp: sound_def ok_sig_def sig_of_def)
  then have "Q (Inr None) w" by (rule post) simp
  with r show ?thesis by (simp add: wp_def remove_connection_def)
next
  fix pre e post'
  assume cs: "connections w = pre @ e # post'"
    and r: "removeConnection a t (connections w) = (pre @ post', Some e)"
    and e: "Addr e = a" "t = 0 \<or> EntryTime e = t"
  have key: "\<forall>x \<in> set (pre @ post'). \<not> (Addr x = a \<and> EntryTime x = t)"
  proof (intro ballI notI)
    fix x assume x: "x \<in> set (pre @ post')" "Addr x = a \<and> EntryTime x = t"
    have "(Addr e, EntryTime e) \<notin> (\<lambda>x. (Addr x, EntryTime x)) ` set (pre @ post')"
      using s by (simp add: sound_def cs image_Un)
    moreover have "(Addr x, EntryTime x) \<in> (\<lambda>x. (Addr x, EntryTime x)) ` set (pre @ post')"
      using x(1) by (rule imageI)
    moreover have "(Addr x, EntryTime x) = (Addr e, EntryTime e)" using x(2) e t by simp
    ultimately show False by simp
  qed
  have "sound ans hs tick (K - {s. fst s = a \<and> fst (snd s) = t}) (w\<lparr>connections := pre @ post'\<rparr>)"
    using s key by (auto simp: sound_def ok_sig_def sig_of_def cs)
  moreover have "\<forall>y \<in> set (pre @ post'). Connection y \<noteq> Some x" if "Connection e = Some x" for x
  proof -
    have "Connection e \<notin> Connection ` set (pre @ post')" using s by (simp add: sound_def cs image_Un)
    then show ?thesis using that by force
  qed
  ultimately have "Q (Inr (Some e))
      (w\<lparr>connections := pre @ post', notified := notified w @ [''Lost connection to '' @ n]\<rparr>)"
    by (intro post) auto
  with r show ?thesis by (simp add: wp_def remove_connection_def)
qed

lemma sound_fresh:
  assumes "sound ans hs tick K w" "d \<notin> hs (outside w)" "e \<in> set (connections w)"
  shows "Connection e \<noteq> Some d" "EntryTime e < tick (outside w)"
  using assms by (auto simp: sound_def ok_sig_def sig_of_def)

lemma wp_New:
  assumes q: "quiet_net net ans hs tick" and s: "sound ans hs tick K w"
    and post: "\<And>r w'. sound ans hs tick K w' \<Longrightarrow> Q r w'"
  shows "wp (NewSlaveConnection net addr name) Q w"
proof (cases "addr = [] \<or> name = []")
  case True
  then show ?thesis using s post by (auto simp: NewSlaveConnection_def wp_rules)
next
  case False
  let ?target = "JoinHostPort addr ''50052''"
  obtain r o1 where dial: "DialContext net ?target (outside w) = (r, o1)"
    by (cases "DialContext net ?target (outside w)")
  note law = quiet_dial [OF q dial]
  have s1: "sound ans hs tick K (w\<lparr>outside := o1\<rparr>)"
    using law by (intro sound_outside [OF s]) auto
  show ?thesis
  proof (cases r)
    case None
    then have "Q (Inl (DialFailed ?target)) (w\<lparr>outside := o1\<rparr>)" using s1 post by blast
    with None False dial show ?thesis
      by (simp add: NewSlaveConnection_def Let_def wp_def bindE_def)
  next
    case (Some d)
    have d: "d \<notin> hs (outside w)" "d \<in> hs o1" using law Some by auto
    have fresh: "\<forall>e \<in> set (connections w). Connection e \<noteq> Some d"
      using sound_fresh(1) [OF s d(1)] by blast
    let ?w1 = "w\<lparr>outside := o1\<rparr>"
    define rest where "rest = bindR (PingSlave net (Some d) name) (\<lambda>r.
          case r of
            Inl _ \<Rightarrow> bindE (close net d) (\<lambda>_. fail (InitialPingFailed name))
          | Inr _ \<Rightarrow>
              bindE (now net) (\<lambda>lastSeen.
              bindE (now net) (\<lambda>entryTime.
              bindE (add_connection \<lparr>Addr = addr, MachineName = name, Connection = Some d,
                                     LastSeen = lastSeen, EntryTime = entryTime\<rparr>) (\<lambda>replaced.
              bindE (close_entry net replaced) (\<lambda>_.
                modW (\<lambda>w. w\<lparr>callbacks := callbacks w @ [(addr, name, d)]\<rparr>))))))"
    have "wp rest Q ?w1"
      unfolding rest_def wp_rules
    proof (rule wp_ping [OF q s1])
      fix o2
      assume s2: "sound ans hs tick K (?w1\<lparr>outside := o2\<rparr>)" and same: "ans o2 = ans (outside ?w1)" "hs o2 = hs (outside ?w1)"
      show "wp (case if ans (outside ?w1) d then Inr () else Inl (PingFailed name) of
            Inl _ \<Rightarrow> bindE (close net d) (\<lambda>_. fail (InitialPingFailed name))
          | Inr _ \<Rightarrow>
              bindE (now net) (\<lambda>lastSeen.
              bindE (now net) (\<lambda>entryTime.
              bindE (add_connection \<lparr>Addr = addr, MachineName = name, Connection = Some d,
                                     LastSeen = lastSeen, EntryTime = entryTime\<rparr>) (\<lambda>replaced.
              bindE (close_entry net replaced) (\<lambda>_.
                modW (\<lambda>w. w\<lparr>callbacks := callbacks w @ [(addr, name, d)]\<rparr>)))))) Q (?w1\<lparr>outside := o2\<rparr>)"
      proof (cases "ans o1 d")
        case False
        have "wp (bindE (close net d) (\<lambda>_. fail (InitialPingFailed name))) Q (?w1\<lparr>outside := o2\<rparr>)"
          unfolding wp_bindE using fresh by (intro wp_close [OF q s2]) (simp_all add: wp_rules post)
        with False show ?thesis by simp
      next
        case True
        have "wp (bindE (now net) (\<lambda>lastSeen.
              bindE (now net) (\<lambda>entryTime.
              bindE (add_connection \<lparr>Addr = addr, MachineName = name, Connection = Some d,
                                     LastSeen = lastSeen, EntryTime = entryTime\<rparr>) (\<lambda>replaced.
              bindE (close_entry net replaced) (\<lambda>_.
                modW (\<lambda>w. w\<lparr>callbacks := callbacks w @ [(addr, name, d)]\<rparr>)))))) Q (?w1\<lparr>outside := o2\<rparr>)"
          unfolding wp_bindE
        proof (rule wp_now [OF q s2], simp only: sum.case, rule wp_now [OF q], assumption, simp only: sum.case)
          fix o3 o4
          let ?w3 = "?w1\<lparr>outside := o2, outside := o3\<rparr>" and ?w4 = "?w1\<lparr>outside := o2, outside := o3, outside := o4\<rparr>"
          assume s3: "sound ans hs tick K ?w3" and t3: "tick (outside (?w1\<lparr>outside := o2\<rparr>)) < tick o3"
            and a3: "ans o3 = ans (outside (?w1\<lparr>outside := o2\<rparr>))" "hs o3 = hs (outside (?w1\<lparr>outside := o2\<rparr>))"
            and s4: "sound ans hs tick K ?w4" and t4: "tick (outside ?w3) < tick o4"
            and a4: "ans o4 = ans (outside ?w3)" "hs o4 = hs (outside ?w3)"
          have "d \<in> hs (outside ?w4)" "ans (outside ?w4) d" using a3 a4 same d True by simp_all
          moreover have "\<forall>e \<in> set (connections ?w4). Connection e \<noteq> Some d" using fresh by simp
          moreover have "0 < tick (outside ?w3)" using s3 by (simp add: sound_def)
          moreover have "\<forall>e \<in> set (connections ?w4). EntryTime e < tick (outside ?w3)"
            using s3 by (auto simp: sound_def ok_sig_def sig_of_def)
          ultimately show "wp (add_connection \<lparr>Addr = addr, MachineName = name, Connection = Some d,
                 LastSeen = tick (outside (?w1\<lparr>outside := o2\<rparr>)), EntryTime = tick (outside ?w3)\<rparr>)
              (\<lambda>r. case r of Inl e \<Rightarrow> Q (Inl e) | Inr replaced \<Rightarrow>
                wp (close_entry net replaced) (\<lambda>r. case r of Inl e \<Rightarrow> Q (Inl e) | Inr _ \<Rightarrow>
                   wp (modW (\<lambda>w. w\<lparr>callbacks := callbacks w @ [(addr, name, d)]\<rparr>)) Q)) ?w4"
            using t4 by (intro wp_add [OF s4, of _ d]) (auto simp: wp_rules intro!: wp_close_entry [OF q] post)
        qed
        with True show ?thesis by simp
      qed
    qed
    with Some False dial show ?thesis
      by (simp add: NewSlaveConnection_def Let_def wp_def bindE_def rest_def)
  qed
qed

lemma wp_restore:
  assumes q: "quiet_net net ans hs tick" and s: "sound ans hs tick K w"
    and post: "\<And>b w'. sound ans hs tick K w' \<Longrightarrow> Q (Inr b) w'"
  shows "wp (restore_attempts n net addr name) Q w"
  using s
proof (induction n arbitrary: w)
  case 0
  then show ?case by (simp add: wp_rules post)
next
  case (Suc n)
  show ?case
    unfolding restore_attempts.simps wp_bindR
  proof (rule wp_New [OF q Suc.prems])
    fix r and w' :: "'a master"
    assume s': "sound ans hs tick K w'"
    have retry: "wp (bindE (sleep net 2) (\<lambda>_.
                 bindE (getW (\<lambda>w. GetConnectionByAddr (connections w) addr)) (\<lambda>existing.
                   if existing \<noteq> None then ret True else restore_attempts n net addr name))) Q w'"
      unfolding wp_bindE wp_getW wp_if wp_ret sum.case
      by (rule wp_sleep [OF q s']) (simp add: post Suc.IH)
    show "wp (case r of
         Inr _ \<Rightarrow> ret True
       | Inl _ \<Rightarrow>
           (if 0 < n
            then bindE (sleep net 2) (\<lambda>_.
                 bindE (getW (\<lambda>w. GetConnectionByAddr (connections w) addr)) (\<lambda>existing.
                   if existing \<noteq> None then ret True else restore_attempts n net addr name))
            else restore_attempts n net addr name)) Q w'"
      using retry post [OF s'] Suc.IH [OF s'] by (cases r) (simp_all add: wp_ret)
  qed
qed

lemma wp_try:
  assumes "quiet_net net ans hs tick" "sound ans hs tick K w"
    and "\<And>b w'. sound ans hs tick K w' \<Longrightarrow> Q (Inr b) w'"
  shows "wp (tryRestoreConnection net addr name) Q w"
  unfolding tryRestoreConnection_def wp_bindE wp_getW sum.case wp_if wp_ret
  using assms by (auto intro!: wp_restore)

lemma wp_remove_and_restore:
  assumes q: "quiet_net net ans hs tick" and s: "sound ans hs tick K w" and t: "EntryTime c \<noteq> 0"
    and post: "\<And>w'. sound ans hs tick (K - {s. fst s = Addr c \<and> fst (snd s) = EntryTime c}) w' \<Longrightarrow> Q (Inr ()) w'"
  shows "wp (remove_and_restore net c) Q w"
proof -
  show ?thesis
    unfolding remove_and_restore_def wp_bindE
  proof (rule wp_remove [OF s t], unfold sum.case)
    fix removed :: "ConnectionsStruct option" and w'
    assume s': "sound ans hs tick (K - {s. fst s = Addr c \<and> fst (snd s) = EntryTime c}) w'"
      and r: "\<And>e x. removed = Some e \<Longrightarrow> Connection e = Some x \<Longrightarrow> \<forall>y \<in> set (connections w'). Connection y \<noteq> Some x"
    have after: "wp (if removed \<noteq> None
           then bindE (tryRestoreConnection net (Addr c) (MachineName c)) (\<lambda>_. ret ()) else ret ()) Q w''"
      if "sound ans hs tick (K - {s. fst s = Addr c \<and> fst (snd s) = EntryTime c}) w''" for w''
      unfolding wp_if wp_bindE wp_ret using that by (auto intro!: wp_try [OF q] post)
    show "wp (close_entry net removed) (\<lambda>r. case r of
        Inl e \<Rightarrow> Q (Inl e)
      | Inr _ \<Rightarrow> wp (if removed \<noteq> None
           then bindE (tryRestoreConnection net (Addr c) (MachineName c)) (\<lambda>_. ret ()) else ret ()) Q) w'"
      by (rule wp_close_entry [OF q s' r]) (simp_all only: sum.case after)
  qed
qed

lemma wp_failed_pings:
  assumes q: "quiet_net net ans hs tick" and d: "Connection c = Some d"
    and "sound ans hs tick K w" "\<not> ans (outside w) d"
    and post: "\<And>w'. sound ans hs tick K w' \<Longrightarrow> Q (Inr False) w'"
  shows "wp (ping_attempts n net c) Q w"
  using assms(3,4)
proof (induction n arbitrary: w)
  case 0
  then show ?case by (simp add: wp_rules post)
next
  case (Suc n)
  show ?case
    unfolding ping_attempts.simps wp_bindR d
  proof (rule wp_ping [OF q Suc.prems(1)])
    fix o2
    let ?w = "w\<lparr>outside := o2\<rparr>"
    assume s2: "sound ans hs tick K ?w" and a: "ans o2 = ans (outside w)"
    have n: "\<not> ans (outside ?w) d" using a Suc.prems(2) by simp
    have again: "wp (bindE (sleep net 2) (\<lambda>_. ping_attempts n net c)) Q ?w"
      unfolding wp_bindE using n by (intro wp_sleep [OF q s2]) (simp add: Suc.IH)
    show "wp (case if ans (outside w) d then Inr () else Inl (PingFailed (MachineName c)) of
         Inr _ \<Rightarrow> bindE (mark_healthy net (Addr c)) (\<lambda>_. ret True)
       | Inl _ \<Rightarrow> (if 0 < n then bindE (sleep net 2) (\<lambda>_. ping_attempts n net c)
            else ping_attempts n net c)) Q ?w"
      using again Suc.IH [OF s2 n] Suc.prems(2) by (cases n) simp_all
  qed
qed

lemma wp_ping_one:
  assumes q: "quiet_net net ans hs tick" and s: "sound ans hs tick K w"
    and c: "Connection c = Some d" "EntryTime c \<noteq> 0"
    and post: "\<And>w'. sound ans hs tick (K - {sig_of c}) w' \<Longrightarrow> Q (Inr ()) w'"
  shows "wp (ping_one net c) Q w"
proof -
  have sub: "sound ans hs tick (K - {sig_of c}) w'"
    if "sound ans hs tick (K - {s. fst s = Addr c \<and> fst (snd s) = EntryTime c}) w'" for w'
    using that unfolding sound_def ok_sig_def by (fastforce simp: sig_of_def)
  have "wp (bindR (PingSlave net (Some d) (MachineName c)) (\<lambda>r. case r of
      Inl _ \<Rightarrow> CheckConnectionStateRemove net c | Inr _ \<Rightarrow> mark_healthy net (Addr c))) Q w"
    unfolding wp_bindR
  proof (rule wp_ping [OF q s])
    fix o2
    let ?w = "w\<lparr>outside := o2\<rparr>"
    assume s2: "sound ans hs tick K ?w" and a: "ans o2 = ans (outside w)"
    show "wp (case if ans (outside w) d then Inr () else Inl (PingFailed (MachineName c)) of
      Inl _ \<Rightarrow> CheckConnectionStateRemove net c | Inr _ \<Rightarrow> mark_healthy net (Addr c)) Q ?w"
    proof (cases "ans (outside w) d")
      case True
      have "sound ans hs tick (K - {sig_of c}) ?w"
        using s2 True a c(1) unfolding sound_def ok_sig_def by (fastforce simp: sig_of_def)
      with True show ?thesis by (auto intro!: wp_mark_healthy [OF q] post)
    next
      case False
      with a have "\<not> ans (outside ?w) d" by simp
      then have "wp (bindE (ping_attempts 3 net c) (\<lambda>ok. if ok then ret () else remove_and_restore net c)) Q ?w"
        unfolding wp_bindE using c(2) post sub
        by (intro wp_failed_pings [OF q c(1) s2]) (auto intro!: wp_remove_and_restore [OF q])
      with False c(1) show ?thesis by (simp add: CheckConnectionStateRemove_def)
    qed
  qed
  then show ?thesis using c(1) by (simp add: ping_one_def)
qed

lemma wp_ping_list:
  assumes q: "quiet_net net ans hs tick" and "sound ans hs tick (set (map sig_of cs)) w"
    and "\<forall>c \<in> set cs. Connection c \<noteq> None \<and> EntryTime c \<noteq> 0"
    and post: "\<And>w'. sound ans hs tick {} w' \<Longrightarrow> Q (Inr ()) w'"
  shows "wp (forE cs (ping_one net)) Q w"
  using assms(2,3)
proof (induction cs arbitrary: w)
  case Nil
  then show ?case by (simp add: wp_rules post)
next
  case (Cons c cs)
  then obtain d where d: "Connection c = Some d" by auto
  have sub: "sound ans hs tick (set (map sig_of cs)) w'"
    if "sound ans hs tick (set (map sig_of (c # cs)) - {sig_of c}) w'" for w'
    using that unfolding sound_def ok_sig_def by fastforce
  show ?case
    unfolding forE.simps wp_bindE using Cons sub by (intro wp_ping_one [OF q Cons.prems(1) d]) auto
qed

subsection \<open>Properties\<close>


lemma close_entry_connections: "close_entry net e w1 = (r, w2) \<Longrightarrow> connections w2 = connections w1"
  by (auto simp: close_entry_def close_def bindE_def ret_def split: option.splits prod.splits)

lemma register_tail:
  assumes "bindE (add_connection c) (\<lambda>replaced. bindE (close_entry net replaced) (\<lambda>_.
             modW (\<lambda>w. w\<lparr>callbacks := f w\<rparr>))) w1 = (Inr (), w')"
  shows "connections w' = fst (addOrReplaceConnection c (connections w1))"
  using assms by (auto simp: bindE_eq_Inr_iff add_connection_def split: prod.splits dest!: close_entry_connections)

lemma NewSlaveConnection_registers:
  assumes "NewSlaveConnection net addr name w = (Inr (), w')"
  shows "\<exists>c cs. Addr c = addr \<and> MachineName c = name \<and> Connection c \<noteq> None \<and>
           connections w' = fst (addOrReplaceConnection c cs)"
proof -
  have ne: "addr \<noteq> []" "name \<noteq> []"
    using assms by (auto simp: NewSlaveConnection_def fail_def split: if_splits)
  from assms ne obtain conn wa where "bindR (PingSlave net (Some conn) name) (\<lambda>r.
          case r of
            Inl _ \<Rightarrow> bindE (close net conn) (\<lambda>_. fail (InitialPingFailed name))
          | Inr _ \<Rightarrow>
              bindE (now net) (\<lambda>lastSeen.
              bindE (now net) (\<lambda>entryTime.
              bindE (add_connection \<lparr>Addr = addr, MachineName = name, Connection = Some conn,
                                     LastSeen = lastSeen, EntryTime = entryTime\<rparr>) (\<lambda>replaced.
              bindE (close_entry net replaced) (\<lambda>_.
                modW (\<lambda>w. w\<lparr>callbacks := callbacks w @ [(addr, name, conn)]\<rparr>)))))) wa = (Inr (), w')"
    unfolding NewSlaveConnection_def Let_def by (simp only: if_False) (erule bindE_eq_InrE)
  then obtain wb where "bindE (now net) (\<lambda>lastSeen.
              bindE (now net) (\<lambda>entryTime.
              bindE (add_connection \<lparr>Addr = addr, MachineName = name, Connection = Some conn,
                                     LastSeen = lastSeen, EntryTime = entryTime\<rparr>) (\<lambda>replaced.
              bindE (close_entry net replaced) (\<lambda>_.
                modW (\<lambda>w. w\<lparr>callbacks := callbacks w @ [(addr, name, conn)]\<rparr>))))) wb = (Inr (), w')"
    by (cases "fst (PingSlave net (Some conn) name wa)")
       (auto simp: bindR_def bindE_eq_Inr_iff split: prod.splits)
  then obtain lastSeen wc where "bindE (now net) (\<lambda>entryTime.
              bindE (add_connection \<lparr>Addr = addr, MachineName = name, Connection = Some conn,
                                     LastSeen = lastSeen, EntryTime = entryTime\<rparr>) (\<lambda>replaced.
              bindE (close_entry net replaced) (\<lambda>_.
                modW (\<lambda>w. w\<lparr>callbacks := callbacks w @ [(addr, name, conn)]\<rparr>)))) wc = (Inr (), w')"
    by (rule bindE_eq_InrE) (rule that)
  then obtain entryTime wd where
    "bindE (add_connection \<lparr>Addr = addr, MachineName = name, Connection = Some conn,
                                     LastSeen = lastSeen, EntryTime = entryTime\<rparr>) (\<lambda>replaced.
              bindE (close_entry net replaced) (\<lambda>_.
                modW (\<lambda>w. w\<lparr>callbacks := callbacks w @ [(addr, name, conn)]\<rparr>))) wd = (Inr (), w')"
    by (rule bindE_eq_InrE) (rule that)
  note tail = register_tail [OF this]
  show ?thesis
    by (rule exI [of _ "\<lparr>Addr = addr, MachineName = name, Connection = Some conn,
        LastSeen = lastSeen, EntryTime = entryTime\<rparr>"], rule exI [of _ "connections wd"]) (simp add: tail)
qed


definition unique_table :: "ConnectionsStruct list \<Rightarrow> bool" where
  "unique_table cs \<longleftrightarrow> distinct (map Addr cs) \<and> distinct (map MachineName cs)"

text \<open>Registering a connection keeps addresses and machine names unique exactly when the new
  connection does not match one entry by its address and a different entry by its name; in that
  case only the first of the two is replaced and the other stays in the table.\<close>
theorem registration_keeps_unique:
  assumes u: "unique_table cs"
  shows "unique_table (fst (addOrReplaceConnection c cs)) \<longleftrightarrow>
           \<not> (\<exists>e \<in> set cs. \<exists>f \<in> set cs. e \<noteq> f \<and> Addr e = Addr c \<and> MachineName f = MachineName c)"
proof (rule addOrReplace_cases [of c cs])
  assume a: "addOrReplaceConnection c cs = (cs @ [c], None)"
    and none: "\<forall>e \<in> set cs. Addr e \<noteq> Addr c \<and> MachineName e \<noteq> MachineName c"
  have "unique_table (cs @ [c])" using u none by (auto simp: unique_table_def)
  with a none show ?thesis by auto
next
  fix pre e post
  assume cs: "cs = pre @ e # post" and a: "addOrReplaceConnection c cs = (pre @ c # post, Some e)"
    and e: "Addr e = Addr c \<or> MachineName e = MachineName c"
    and pre: "\<forall>x \<in> set pre. Addr x \<noteq> Addr c \<and> MachineName x \<noteq> MachineName c"
  have iff: "unique_table (pre @ c # post) \<longleftrightarrow> (\<forall>x \<in> set post. Addr x \<noteq> Addr c \<and> MachineName x \<noteq> MachineName c)"
    using u pre unfolding unique_table_def cs by (auto simp: image_iff)
  have ne: "x \<noteq> e \<and> Addr x \<noteq> Addr e \<and> MachineName x \<noteq> MachineName e" if "x \<in> set post" for x
    using u that unfolding unique_table_def cs by (auto simp: image_iff)
  have "(\<exists>x \<in> set post. Addr x = Addr c \<or> MachineName x = MachineName c) \<longleftrightarrow>
      (\<exists>e \<in> set cs. \<exists>f \<in> set cs. e \<noteq> f \<and> Addr e = Addr c \<and> MachineName f = MachineName c)"
  proof
    assume "\<exists>x \<in> set post. Addr x = Addr c \<or> MachineName x = MachineName c"
    then obtain x where x: "x \<in> set post" "Addr x = Addr c \<or> MachineName x = MachineName c" by blast
    have "x \<in> set cs" "e \<in> set cs" using x(1) by (auto simp: cs)
    with x e ne [OF x(1)] show "\<exists>e \<in> set cs. \<exists>f \<in> set cs. e \<noteq> f \<and> Addr e = Addr c \<and> MachineName f = MachineName c"
      by metis
  next
    assume "\<exists>e \<in> set cs. \<exists>f \<in> set cs. e \<noteq> f \<and> Addr e = Addr c \<and> MachineName f = MachineName c"
    then obtain x y where xy: "x \<in> set cs" "y \<in> set cs" "x \<noteq> y" "Addr x = Addr c" "MachineName y = MachineName c"
      by blast
    then have "x \<in> set post \<or> y \<in> set post" using pre by (auto simp: cs)
    with xy show "\<exists>x \<in> set post. Addr x = Addr c \<or> MachineName x = MachineName c" by blast
  qed
  with iff a show ?thesis by auto
qed

text \<open>C7: whatever is run against the master, and whatever other goroutines do to the table during
  a sleep, every entry has an address, a machine name and a connection; the branch of
  \<open>PingAllSlaves\<close> for a nil connection is never taken.\<close>
theorem entries_always_valid:
  assumes f: "fair_net net" and v: "list_all valid_entry (connections w)"
  shows "list_all valid_entry (connections (snd (PingAllSlaves net w))) \<and>
         list_all valid_entry (connections (snd (SetConnection net addr name w))) \<and>
         list_all valid_entry (connections (snd (CheckConnectionStateRemove net c w))) \<and>
         list_all valid_entry (connections (snd (NewSlaveConnection net addr name w)))"
proof -
  have "list_all valid_entry (connections (snd (m w)))" if "steps master_evolves m" for m :: "('a, 'b) mact"
    using that v evolves_valid unfolding steps_def master_evolves_def by blast
  then have all: "\<And>m :: ('a, unit) mact. steps master_evolves m \<Longrightarrow> list_all valid_entry (connections (snd (m w)))"
    by blast
  have "list_all valid_entry (connections (snd (SetConnection net addr name w)))"
    using steps_set [OF f, of addr name] v evolves_valid unfolding steps_def master_evolves_def by blast
  with all steps_ping_all [OF f] steps_check [OF f, of c] steps_New [of net addr name] show ?thesis by blast
qed

subsection \<open>Examples\<close>

text \<open>Handles count up from 0; the ones in the first component do not answer.\<close>

definition demo_net :: "(grpc_conn list \<times> nat \<times> nat) net" where
  "demo_net = \<lparr>DialContext = \<lambda>t (dead, n, k). (Some n, (dead, Suc n, k)),
     NotifyClient = \<lambda>c t (dead, n, k). (c \<notin> set dead, (dead, n, k)),
     CloseConn = \<lambda>c (dead, n, k). (True, (c # dead, n, k)),
     NowTime = \<lambda>(dead, n, k). (k, (dead, n, Suc k)),
     SleepSeconds = \<lambda>t cs (dead, n, k). (cs, (dead, n, k))\<rparr>"

definition demo_ans :: "grpc_conn list \<times> nat \<times> nat \<Rightarrow> grpc_conn \<Rightarrow> bool" where
  "demo_ans o' c \<longleftrightarrow> c \<notin> set (fst o')"

definition demo_handles :: "grpc_conn list \<times> nat \<times> nat \<Rightarrow> grpc_conn set" where
  "demo_handles o' = {..<fst (snd o')}"

definition demo_tick :: "grpc_conn list \<times> nat \<times> nat \<Rightarrow> nat" where
  "demo_tick o' = snd (snd o')"

lemma demo_quiet: "quiet_net demo_net demo_ans demo_handles demo_tick"
  by (auto simp: quiet_net_def demo_net_def demo_ans_def demo_handles_def demo_tick_def
      same_answers_def fun_eq_iff)

definition demo_master :: "(grpc_conn list \<times> nat \<times> nat) master" where
  "demo_master = \<lparr>connections =
       [\<lparr>Addr = ''10.0.0.2'', MachineName = ''a'', Connection = Some 0, LastSeen = 1, EntryTime = 1\<rparr>,
        \<lparr>Addr = ''10.0.0.3'', MachineName = ''b'', Connection = Some 1, LastSeen = 2, EntryTime = 2\<rparr>],
     outside = ([1], 2, 3), notified = [], callbacks = [], spawned = []\<rparr>"

lemma demo_sound: "sound demo_ans demo_handles demo_tick UNIV demo_master"
  by (simp add: demo_master_def sound_def ok_sig_def sig_of_def demo_ans_def demo_handles_def demo_tick_def)



lemma registration_keeps_unique_witness:
  "\<not> unique_table (fst (addOrReplaceConnection
      \<lparr>Addr = ''10.0.0.3'', MachineName = ''a'', Connection = Some 7, LastSeen = 9, EntryTime = 9\<rparr>
      (connections demo_master)))"
proof -
  have "unique_table (connections demo_master)" by (simp add: unique_table_def demo_master_def)
  from registration_keeps_unique [OF this, of "\<lparr>Addr = ''10.0.0.3'', MachineName = ''a'', Connection = Some 7,
      LastSeen = 9, EntryTime = 9\<rparr>"]
  show ?thesis by (simp add: demo_master_def)
qed

lemma demo_fair: "fair_net demo_net"
  by (auto simp: fair_net_def demo_net_def evolves_def)

lemma entries_always_valid_witness:
  "list_all valid_entry (connections (snd (PingAllSlaves demo_net demo_master)))"
proof -
  have "list_all valid_entry (connections demo_master)" by (simp add: demo_master_def valid_entry_def)
  from entries_always_valid [OF demo_fair this] show ?thesis by blast
qed

end
