(* ===== verification/BtrfsInfo.thy ===== *)
theory BtrfsInfo
  imports HostCmd
begin

text \<open>
  What a slave knows about its disks and BTRFS file systems: \<open>slave/btrfs/btrfs.go\<close> (mounts,
  matching a device to a disk), \<open>slave/btrfs/helpers.go\<close> and \<open>slave/btrfs/stats.go\<close>.  The tools and
  the decoding of the JSON they print are parameters; sizes, which the code keeps as floating point
  numbers, are left out.
\<close>

subsection \<open>Mounts\<close>

text \<open>The white-space separated fields of the lines of \<open>/proc/mounts\<close>; none when it cannot be read.\<close>

definition proc_mounts :: "'w host \<Rightarrow> 'w world \<Rightarrow> string list list" where
  "proc_mounts h w =
     (case FileContent h ''/proc/mounts'' (machine w) of
        None \<Rightarrow> []
      | Some data \<Rightarrow> map Fields (Split data (CHR 0x0A)))"

definition deviceMatchesDisk :: "string \<Rightarrow> string \<Rightarrow> bool" where
  "deviceMatchesDisk device disk =
     (if device = disk then True
      else if \<not> HasPrefix device disk then False
      else (let suffix = drop (length disk) device in
            if suffix = [] then True
            else (let suffix' = (if hd suffix = CHR ''p'' then tl suffix else suffix) in
                  if suffix' = [] then False else list_all is_digit suffix')))"

definition doesDiskExist :: "'w host \<Rightarrow> string \<Rightarrow> 'w world \<Rightarrow> bool" where
  "doesDiskExist h disk w \<longleftrightarrow> StatPath h disk (machine w) \<in> {StatDir, StatFile}"

definition isMounted :: "'w host \<Rightarrow> string \<Rightarrow> 'w world \<Rightarrow> bool" where
  "isMounted h disk w \<longleftrightarrow>
     list_ex (\<lambda>fields. fields \<noteq> [] \<and> deviceMatchesDisk (fields ! 0) disk) (proc_mounts h w)"

definition isMountPoint :: "'w host \<Rightarrow> string \<Rightarrow> 'w world \<Rightarrow> bool" where
  "isMountPoint h path w \<longleftrightarrow>
     list_ex (\<lambda>fields. 2 \<le> length fields \<and> fields ! 1 = path) (proc_mounts h w)"

definition filterLsofOutput :: "string \<Rightarrow> string" where
  "filterLsofOutput output =
     Join (filter (\<lambda>line. line \<noteq> [] \<and> \<not> HasPrefix line ''lsof:'') (map TrimSpace (Split output (CHR 0x0A))))
       newline"

definition isDuplicate :: "string \<Rightarrow> string list \<Rightarrow> bool" where
  "isDuplicate disk disks \<longleftrightarrow> 1 < length (filter (\<lambda>d. d = disk) disks)"

definition appendIfMissing :: "string list \<Rightarrow> string \<Rightarrow> string list" where
  "appendIfMissing list val0 =
     (let val = TrimSpace val0 in if val = [] then list else app_new list val)"

subsection \<open>Running the tools\<close>

datatype btrfs_error =
    CommandFailed string "string list"
  | NoCommand string
  | RaidTypeInvalid
  | DiskMissing string
  | DiskMounted string
  | DiskDuplicated string
  | TooFewDisks int string
  | WipeFailed string
  | LabelExists string string
  | NoUUID string
  | UUIDRequired
  | MountPointRequired
  | BadCompression string
  | MkdirFailed string
  | AlreadyMountPoint string
  | MountFailed string btrfs_error btrfs_error
  | StillMounted string
  | NoBlockDevices string
  | RemoveFailed string btrfs_error
  | SomeNotWiped btrfs_error
  | NotMountPoint string
  | NotInFilesystem string string
  | LastDisk
  | SameDisk
  | NewDiskInFilesystem string string
  | BalanceAfterReplace btrfs_error
  | NotDirectory string
  | StatFailed string
  | NoDevices string
  | UnsupportedProfile string
  | StatsFailed string
  | ShowFailed
  | MountsUnreadable
  | FileSystemNotFound string
  | NoDevicesForFSID string
  | NotMounted string
  | LsblkFailed

type_synonym ('w, 'a) bact = "('w world, btrfs_error, 'a) act"

definition runCommand :: "'w host \<Rightarrow> string \<Rightarrow> string list \<Rightarrow> ('w, unit) bact" where
  "runCommand h desc args =
     (if args = [] then fail (NoCommand desc)
      else bindE (exec h args) (\<lambda>r. if Succeeded r then ret () else fail (CommandFailed desc args)))"

definition wipeDiskSignatures :: "'w host \<Rightarrow> string \<Rightarrow> ('w, unit) bact" where
  "wipeDiskSignatures h disk =
     bindE (exec h [''wipefs'', ''-a'', disk]) (\<lambda>r. if Succeeded r then ret () else fail (WipeFailed disk))"

subsection \<open>Decoded output\<close>

record DeviceStat =
  Device :: string
  DevID :: int

record bg_entry =
  BgType :: string
  BgProfile :: string
  BgTotal :: int
  BgUsed :: int

record BtrfsDevice =
  DevName :: string
  DevPath :: string
  DevType :: string
  DevLabel :: string
  DevUUID :: string
  DevUUIDSub :: string
  DevMountPoint :: string
  DevMounted :: bool

datatype lsblkDevice =
  Lsblk (blk_name: string) (blk_type: string) (blk_fstype: "string option") (blk_path: "string option")
    (blk_label: "string option") (blk_mount: "string option") (blk_uuid: "string option")
    (blk_children: "lsblkDevice list")

text \<open>The host of the BTRFS tools: \<open>json.Unmarshal\<close> into the structures above is a parameter.\<close>

record 'w btrfs_host =
  base :: "'w host"
  DecodeStats :: "string \<Rightarrow> DeviceStat list option"
  DecodeDF :: "string \<Rightarrow> bg_entry list option"
  DecodeLsblk :: "string \<Rightarrow> lsblkDevice list option"

subsection \<open>File systems\<close>

record FileSystem =
  Target :: string
  Source :: string
  FSType :: string
  Options :: string
  FsUUID :: string
  Label :: string
  Compression :: string
  RaidType :: string
  Devices :: "BtrfsDevice list"
  Mounted :: bool

definition compression_opt :: "string \<Rightarrow> string option" where
  "compression_opt opt0 =
     (let opt = TrimSpace opt0 in
      if HasPrefix opt ''compress-force='' then Some (TrimPrefix opt ''compress-force='' @ '' (forced)'')
      else if HasPrefix opt ''compress='' then Some (TrimPrefix opt ''compress='')
      else if opt = ''compress'' then Some ''compress''
      else None)"

fun first_some :: "('a \<Rightarrow> 'b option) \<Rightarrow> 'a list \<Rightarrow> 'b option" where
  "first_some f [] = None"
| "first_some f (x # xs) = (case f x of Some y \<Rightarrow> Some y | None \<Rightarrow> first_some f xs)"

definition extractCompressionFromOptions :: "string \<Rightarrow> string" where
  "extractCompressionFromOptions options =
     (if options = [] then []
      else (case first_some compression_opt (Split options (CHR '','')) of None \<Rightarrow> [] | Some c \<Rightarrow> c))"

text \<open>The loop state: the best profile so far and the size of its data group.\<close>

definition raid_profile_step :: "string \<times> int \<Rightarrow> bg_entry \<Rightarrow> string \<times> int" where
  "raid_profile_step best bg =
     (let profile = TrimSpace (ToLower (BgProfile bg)) in
      if profile = [] then best
      else if EqualFold (BgType bg) ''data'' \<and> snd best \<le> BgTotal bg then (profile, BgTotal bg)
      else best)"

definition extractRaidProfile :: "bg_entry list \<Rightarrow> string" where
  "extractRaidProfile info =
     (let (bestProfile, _) = foldl raid_profile_step ([], 0) info in
      if bestProfile \<noteq> [] then bestProfile
      else (case first_some (\<lambda>bg. let p = TrimSpace (ToLower (BgProfile bg)) in if p \<noteq> [] then Some p else None) info of
              None \<Rightarrow> [] | Some p \<Rightarrow> p))"

definition GetFileSystemInfo :: "'w btrfs_host \<Rightarrow> string \<Rightarrow> ('w, bg_entry list option) bact" where
  "GetFileSystemInfo h mountPoint =
     bindE (exec (base h) [''btrfs'', ''--format'', ''json'', ''filesystem'', ''df'', mountPoint]) (\<lambda>r.
       ret (if Succeeded r then DecodeDF h (Stdout r) else None))"

record BtrfsFilesystemInfo =
  InfoLabel :: string
  InfoUUID :: string
  InfoDevices :: "(int \<times> string) list"

text \<open>\<open>Label: 'x'  uuid: ...\<close>, when the line has exactly one \<open>uuid:\<close>.\<close>

definition label_uuid :: "string \<Rightarrow> (string \<times> string) option" where
  "label_uuid line =
     (case SplitStr line ''uuid:'' of
        [l, u] \<Rightarrow> Some (TrimSet (TrimSpace (TrimPrefix l ''Label:'')) [CHR 0x27, CHR '' ''], TrimSpace u)
      | _ \<Rightarrow> None)"

definition atoi0 :: "string \<Rightarrow> int" where
  "atoi0 s = (case Atoi s of None \<Rightarrow> 0 | Some v \<Rightarrow> v)"

definition fs_info_line :: "string \<Rightarrow> BtrfsFilesystemInfo \<Rightarrow> BtrfsFilesystemInfo" where
  "fs_info_line raw info =
     (let line = TrimSpace raw in
      if line = [] then info
      else if HasPrefix line ''Label:'' then
        (case label_uuid line of None \<Rightarrow> info | Some (l, u) \<Rightarrow> info\<lparr>InfoLabel := l, InfoUUID := u\<rparr>)
      else if Contains line ''Total devices'' then info
      else if HasPrefix line ''devid'' then
        (let parts = Fields line in
         if length parts < 8 then info
         else info\<lparr>InfoDevices := InfoDevices info @ [(atoi0 (parts ! 1), parts ! 7)]\<rparr>)
      else info)"

definition GetBtrfsFilesystemInfo :: "'w btrfs_host \<Rightarrow> string \<Rightarrow> ('w, BtrfsFilesystemInfo option) bact" where
  "GetBtrfsFilesystemInfo h mountpoint =
     bindE (exec (base h) [''btrfs'', ''filesystem'', ''show'', ''-m'', mountpoint]) (\<lambda>r.
       ret (if \<not> Succeeded r then None
            else (let (lines, tooLong) = scan_lines (Combined r) in
                  if tooLong then None
                  else Some (foldl (\<lambda>i l. fs_info_line l i) \<lparr>InfoLabel = [], InfoUUID = [], InfoDevices = []\<rparr> lines))))"

definition base_name :: "string \<Rightarrow> string" where
  "base_name p =
     (let q = rev (dropWhile (\<lambda>c. c = CHR ''/'') (rev p)) in
      if p = [] then ''.'' else if q = [] then ''/'' else last (Split q (CHR ''/'')))"

definition device_of :: "int \<times> string \<Rightarrow> BtrfsDevice" where
  "device_of d = (case d of (i, path) \<Rightarrow>
     \<lparr>DevName = base_name path, DevPath = path, DevType = [], DevLabel = [], DevUUID = [],
      DevUUIDSub = [], DevMountPoint = [], DevMounted = (path \<noteq> ''MISSING'')\<rparr>)"

definition empty_fs :: FileSystem where
  "empty_fs = \<lparr>Target = [], Source = [], FSType = ''btrfs'', Options = [], FsUUID = [], Label = [],
     Compression = [], RaidType = [], Devices = [], Mounted = False\<rparr>"

text \<open>A mounted file system, from its line of \<open>/proc/mounts\<close> and the two tools.\<close>

definition mounted_fs :: "'w btrfs_host \<Rightarrow> string list \<Rightarrow> ('w, FileSystem) bact" where
  "mounted_fs h parts =
     (let target = parts ! 1;
          fs = empty_fs\<lparr>Target := target, Source := parts ! 0, Options := parts ! 3, Mounted := True,
                 Compression := extractCompressionFromOptions (parts ! 3)\<rparr> in
      bindE (GetFileSystemInfo h target) (\<lambda>info.
      bindE (GetBtrfsFilesystemInfo h target) (\<lambda>binfo.
        (let fs1 = (case info of None \<Rightarrow> fs | Some df \<Rightarrow> fs\<lparr>RaidType := extractRaidProfile df\<rparr>) in
         ret (case binfo of
                None \<Rightarrow> fs1
              | Some b \<Rightarrow> fs1\<lparr>FsUUID := InfoUUID b, Label := InfoLabel b,
                             Devices := map device_of (InfoDevices b)\<rparr>)))))"

fun mounted_all :: "'w btrfs_host \<Rightarrow> string list list \<Rightarrow> ('w, FileSystem list) bact" where
  "mounted_all h [] = ret []"
| "mounted_all h (parts # rest) =
     (if length parts < 4 \<or> parts ! 2 \<noteq> ''btrfs'' then mounted_all h rest
      else bindE (mounted_fs h parts) (\<lambda>fs. bindE (mounted_all h rest) (\<lambda>fss. ret (fs # fss))))"

text \<open>
  \<open>btrfs filesystem show\<close>: the file systems that are not mounted.  The state is the list of results
  and the file system being read; \<open>flush\<close> appends it unless its UUID has been seen.
\<close>

definition flush :: "string list \<Rightarrow> FileSystem list \<times> FileSystem option \<Rightarrow> FileSystem list" where
  "flush seen st = (case st of
      (result, None) \<Rightarrow> result
    | (result, Some cur) \<Rightarrow>
        if FsUUID cur = [] \<or> FsUUID cur \<notin> set seen then result @ [cur] else result)"

definition new_fs :: "string \<Rightarrow> FileSystem" where
  "new_fs line =
     (if HasPrefix line ''Label:'' then
        (case label_uuid line of
           Some (l, u) \<Rightarrow> empty_fs\<lparr>Label := l, FsUUID := u\<rparr>
         | None \<Rightarrow> if Contains line ''uuid:''
                   then empty_fs\<lparr>FsUUID := TrimSpace (last (SplitStr line ''uuid:''))\<rparr> else empty_fs)
      else if Contains line ''uuid:'' then empty_fs\<lparr>FsUUID := TrimSpace (last (SplitStr line ''uuid:''))\<rparr>
      else empty_fs)"

definition show_line ::
  "string list \<Rightarrow> FileSystem list \<times> FileSystem option \<Rightarrow> string \<Rightarrow> FileSystem list \<times> FileSystem option" where
  "show_line seen st raw =
     (let line = TrimSpace raw in
      if line = [] then (flush seen st, None)
      else if HasPrefix line ''Label:'' \<or> Contains line ''uuid:'' then (flush seen st, Some (new_fs line))
      else (case st of
              (result, None) \<Rightarrow> (result, None)
            | (result, Some cur) \<Rightarrow>
                if HasPrefix line ''devid'' then
                  (let parts = Fields line; path = last parts in
                   if length parts < 8 \<or> path = ''MISSING'' then (result, Some cur)
                   else (result, Some (cur\<lparr>Devices := Devices cur @
                           [(device_of (0, path))\<lparr>DevMounted := False\<rparr>]\<rparr>)))
                else (result, Some cur)))"

text \<open>A mounted file system whose RAID type is still unknown asks once more.\<close>

fun fill_raid :: "'w btrfs_host \<Rightarrow> FileSystem list \<Rightarrow> ('w, FileSystem list) bact" where
  "fill_raid h [] = ret []"
| "fill_raid h (fs # rest) =
     (let fs' = (if Mounted fs \<and> Compression fs = []
                 then fs\<lparr>Compression := extractCompressionFromOptions (Options fs)\<rparr> else fs) in
      if Mounted fs \<and> RaidType fs = []
      then bindE (GetFileSystemInfo h (Target fs)) (\<lambda>info.
           bindE (fill_raid h rest) (\<lambda>fss.
             ret ((case info of None \<Rightarrow> fs' | Some df \<Rightarrow> fs'\<lparr>RaidType := extractRaidProfile df\<rparr>) # fss)))
      else bindE (fill_raid h rest) (\<lambda>fss. ret (fs' # fss)))"

definition GetAllFileSystems :: "'w btrfs_host \<Rightarrow> ('w, FileSystem list) bact" where
  "GetAllFileSystems h =
     bindE (getW (\<lambda>w. FileContent (base h) ''/proc/mounts'' (machine w))) (\<lambda>data.
       case data of
         None \<Rightarrow> fail MountsUnreadable
       | Some text \<Rightarrow>
           bindE (mounted_all h (map Fields (Split text (CHR 0x0A)))) (\<lambda>mounted.
           bindE (exec (base h) [''btrfs'', ''filesystem'', ''show'']) (\<lambda>r.
             if \<not> Succeeded r
             then (if TrimSpace (Combined r) = [] then ret mounted else fail ShowFailed)
             else (let seen = filter (\<lambda>u. u \<noteq> []) (map FsUUID mounted);
                       st = foldl (show_line seen) (mounted, None) (Split (Combined r) (CHR 0x0A))
                   in fill_raid h (flush seen st)))))"

definition getBtrfsLabel :: "'w btrfs_host \<Rightarrow> string \<Rightarrow> ('w, string) bact" where
  "getBtrfsLabel h target0 =
     (let target = TrimSpace target0 in
      if target = [] then ret []
      else bindE (exec (base h) [''btrfs'', ''filesystem'', ''label'', target]) (\<lambda>r.
             ret (if Succeeded r then TrimSpace (Stdout r) else [])))"

definition GetFileSystemByMountPoint :: "'w btrfs_host \<Rightarrow> string \<Rightarrow> ('w, FileSystem) bact" where
  "GetFileSystemByMountPoint h mountPoint0 =
     (let mountPoint = TrimSpace mountPoint0 in
      if mountPoint = [] then fail MountPointRequired
      else bindE (GetAllFileSystems h) (\<lambda>fss.
             case find (\<lambda>fs. Target fs = mountPoint) fss of
               None \<Rightarrow> fail (FileSystemNotFound mountPoint)
             | Some fs \<Rightarrow> ret fs))"

subsection \<open>Devices\<close>

text \<open>\<open>GetFileSystemStats\<close>: the device list; the balance status and \<open>show -m\<close> only decorate it.\<close>

definition GetFileSystemStats :: "'w btrfs_host \<Rightarrow> string \<Rightarrow> ('w, DeviceStat list) bact" where
  "GetFileSystemStats h mountPoint =
     bindE (exec (base h) [''btrfs'', ''--format'', ''json'', ''device'', ''stats'', mountPoint]) (\<lambda>r.
       if \<not> Succeeded r then fail (StatsFailed mountPoint)
       else (case DecodeStats h (Stdout r) of
               None \<Rightarrow> fail (StatsFailed mountPoint)
             | Some stats \<Rightarrow>
                 bindE (exec (base h) [''btrfs'', ''balance'', ''status'', mountPoint]) (\<lambda>_.
                 bindE (GetBtrfsFilesystemInfo h mountPoint) (\<lambda>_. ret stats))))"

definition GetDisksFromRaid :: "'w btrfs_host \<Rightarrow> string \<Rightarrow> ('w, string list) bact" where
  "GetDisksFromRaid h mountPoint =
     bindE (GetFileSystemStats h mountPoint) (\<lambda>stats. ret (filter (\<lambda>d. d \<noteq> []) (map Device stats)))"

definition str_of :: "string option \<Rightarrow> string" where
  "str_of p = (case p of None \<Rightarrow> [] | Some s \<Rightarrow> s)"

definition getUUIDSub :: "'w btrfs_host \<Rightarrow> string \<Rightarrow> ('w, string) bact" where
  "getUUIDSub h path =
     (if TrimSpace path = [] then ret []
      else bindE (exec (base h) [''blkid'', ''-s'', ''UUID_SUB'', ''-o'', ''value'', path]) (\<lambda>r.
             ret (if Succeeded r then TrimSpace (Stdout r) else [])))"

text \<open>The order in which \<open>walk\<close> visits the tree.\<close>

fun preorder :: "lsblkDevice \<Rightarrow> lsblkDevice list" where
  "preorder (Lsblk n t fs p l m u ds) = Lsblk n t fs p l m u ds # concat (map preorder ds)"

type_synonym device_map = "(string \<times> BtrfsDevice list) list"

definition walk_one ::
  "'w btrfs_host \<Rightarrow> device_map \<times> (string \<times> string) list \<Rightarrow> lsblkDevice
     \<Rightarrow> ('w, device_map \<times> (string \<times> string) list) bact" where
  "walk_one h st dev = (case st of (devices, cache) \<Rightarrow>
     (let uuid = TrimSpace (str_of (blk_uuid dev)); path = TrimSpace (str_of (blk_path dev));
          mp = TrimSpace (str_of (blk_mount dev)) in
      if ToLower (TrimSpace (str_of (blk_fstype dev))) \<noteq> ''btrfs'' \<or> uuid = [] \<or> path = [] then ret st
      else bindE (case map_of cache path of Some sub \<Rightarrow> ret sub | None \<Rightarrow> getUUIDSub h path) (\<lambda>sub.
             let device = \<lparr>DevName = blk_name dev, DevPath = path, DevType = blk_type dev,
                           DevLabel = TrimSpace (str_of (blk_label dev)), DevUUID = uuid, DevUUIDSub = sub,
                           DevMountPoint = mp, DevMounted = (mp \<noteq> [])\<rparr>;
                 old = (case map_of devices uuid of None \<Rightarrow> [] | Some ds \<Rightarrow> ds)
             in ret ((uuid, old @ [device]) # filter (\<lambda>(u, _). u \<noteq> uuid) devices,
                     if sub = [] then cache else (path, sub) # cache))))"

fun walk_all ::
  "'w btrfs_host \<Rightarrow> device_map \<times> (string \<times> string) list \<Rightarrow> lsblkDevice list \<Rightarrow> ('w, device_map) bact" where
  "walk_all h st [] = ret (fst st)"
| "walk_all h st (d # ds) = bindE (walk_one h st d) (\<lambda>st'. walk_all h st' ds)"

definition collectBtrfsDevices :: "'w btrfs_host \<Rightarrow> ('w, device_map) bact" where
  "collectBtrfsDevices h =
     bindE (exec (base h) [''lsblk'', ''-b'', ''--json'', ''-o'', ''NAME,TYPE,SIZE,FSTYPE,PATH,LABEL,MOUNTPOINT,UUID''])
       (\<lambda>r. if \<not> Succeeded r then fail LsblkFailed
            else (case DecodeLsblk h (Stdout r) of
                    None \<Rightarrow> fail LsblkFailed
                  | Some devs \<Rightarrow> walk_all h ([], []) (concat (map preorder devs))))"

definition aggregateDeviceSources :: "BtrfsDevice list \<Rightarrow> string" where
  "aggregateDeviceSources devs =
     Join (foldl app_new [] (filter (\<lambda>p. p \<noteq> []) (map DevPath devs))) '',''"

text \<open>The device after the word \<open>path\<close> in a \<open>devid\<close> line.\<close>

fun after_path :: "string list \<Rightarrow> string option" where
  "after_path [] = None"
| "after_path [p] = None"
| "after_path (p # q # ps) = (if p = ''path'' then Some q else after_path (q # ps))"

definition show_devices :: "string \<Rightarrow> string list" where
  "show_devices out =
     List.map_filter (\<lambda>l. let line = TrimSpace l in
         if HasPrefix line ''devid'' then after_path (Fields line) else None) (Split out (CHR 0x0A))"

fun first_mount :: "'w btrfs_host \<Rightarrow> string \<Rightarrow> string list \<Rightarrow> ('w, string) bact" where
  "first_mount h fsid [] = fail (NotMounted fsid)"
| "first_mount h fsid (dev # devs) =
     bindE (exec (base h) [''findmnt'', ''-n'', ''-o'', ''TARGET'', ''--source'', dev]) (\<lambda>r.
       if Succeeded r \<and> TrimSpace (Stdout r) \<noteq> [] then ret (TrimSpace (Stdout r))
       else first_mount h fsid devs)"

definition GetMountPointFromUUID :: "'w btrfs_host \<Rightarrow> string \<Rightarrow> ('w, string) bact" where
  "GetMountPointFromUUID h fsid =
     bindE (exec (base h) [''btrfs'', ''filesystem'', ''show'', fsid]) (\<lambda>r.
       if \<not> Succeeded r then fail ShowFailed
       else (let devices = show_devices (Stdout r) in
             if devices = [] then fail (NoDevicesForFSID fsid) else first_mount h fsid devices))"

subsection \<open>Status texts\<close>

definition cleaned_lines :: "string \<Rightarrow> string list" where
  "cleaned_lines output = filter (\<lambda>l. l \<noteq> []) (map TrimSpace (Split (TrimSpace output) (CHR 0x0A)))"

definition parseBalanceStatusText :: "string \<Rightarrow> string" where
  "parseBalanceStatusText output =
     (let cleaned = cleaned_lines output in
      if cleaned = [] then [] else if 1 < length cleaned then last cleaned else cleaned ! 0)"

definition parseReplaceStatusText :: "string \<Rightarrow> string" where
  "parseReplaceStatusText output =
     (let cleaned = cleaned_lines output;
          informative = (\<lambda>l. let lower = ToLower l in
             Contains lower ''status'' \<or> Contains lower ''%'' \<or> Contains lower ''done'') in
      if cleaned = [] then []
      else (case find (\<lambda>l. Contains (ToLower l) ''no replacement'') cleaned of
              Some l \<Rightarrow> l
            | None \<Rightarrow> (case find informative (rev cleaned) of Some l \<Rightarrow> l | None \<Rightarrow> last cleaned)))"

definition GetBalanceStatus :: "'w btrfs_host \<Rightarrow> string \<Rightarrow> ('w, string) bact" where
  "GetBalanceStatus h mountPoint =
     bindE (exec (base h) [''btrfs'', ''balance'', ''status'', mountPoint]) (\<lambda>r.
       let status = parseBalanceStatusText (Combined r) in
       if \<not> Succeeded r \<and> status = [] then fail (CommandFailed ''balance status'' [mountPoint]) else ret status)"

definition GetReplaceStatus :: "'w btrfs_host \<Rightarrow> string \<Rightarrow> ('w, string) bact" where
  "GetReplaceStatus h mountPoint =
     bindE (exec (base h) [''btrfs'', ''replace'', ''status'', mountPoint]) (\<lambda>r.
       let status = parseReplaceStatusText (Combined r) in
       if \<not> Succeeded r \<and> status = [] then fail (CommandFailed ''replace status'' [mountPoint]) else ret status)"

subsection \<open>What the queries issue\<close>

text \<open>The commands that only read, and the others that a run issued between two states.\<close>

definition query :: "string list \<Rightarrow> bool" where
  "query argv \<longleftrightarrow>
     hd argv \<in> {''lsblk'', ''blkid'', ''findmnt''} \<or>
     take 3 argv \<in> {[''btrfs'', ''--format'', ''json''], [''btrfs'', ''filesystem'', ''show''],
                    [''btrfs'', ''balance'', ''status''], [''btrfs'', ''replace'', ''status'']} \<or>
     (take 3 argv = [''btrfs'', ''filesystem'', ''label''] \<and> length argv = 4)"

definition acts :: "string list list \<Rightarrow> 'w world \<Rightarrow> 'w world \<Rightarrow> bool" where
  "acts cs w w' \<longleftrightarrow> (\<exists>new. issued w' = issued w @ new \<and> filter (\<lambda>c. \<not> query c) new = cs)"

definition changes :: "'w world \<Rightarrow> 'w world \<Rightarrow> string list list" where
  "changes w w' = filter (\<lambda>c. \<not> query c) (drop (length (issued w)) (issued w'))"

lemma acts_changes: "acts cs w w' \<Longrightarrow> changes w w' = cs"
  by (auto simp: acts_def changes_def)

lemma acts_refl [simp, intro]: "acts [] w w"
  by (simp add: acts_def)

lemma acts_trans: "acts a w w' \<Longrightarrow> acts b w' w'' \<Longrightarrow> acts (a @ b) w w''"
  unfolding acts_def by (elim exE conjE) (rule exI, rule conjI, assumption?, auto)

lemma quiet_order: "reflp (acts [])" "transp (acts [])"
  by (auto simp: reflp_def transp_def dest: acts_trans)

lemma acts_exec: "(exec h argv w = (r, w')) \<Longrightarrow> acts (if query argv then [] else [argv]) w w'"
  by (auto simp: exec_def acts_def split: prod.splits)

lemma quiet_exec: "query argv \<Longrightarrow> steps (acts []) (exec h argv)"
  unfolding steps_def by (metis acts_exec prod.collapse)

lemmas quiet_intro =
  steps_bindE [OF quiet_order(2)] steps_bindR [OF quiet_order(2)] steps_pure [OF quiet_order(1)]
  steps_mapErr steps_forE [OF quiet_order] steps_if steps_case_sum steps_case_option quiet_exec

lemma query_list [simp]:
  "query (''btrfs'' # ''--format'' # ''json'' # rest)" "query (''btrfs'' # ''filesystem'' # ''show'' # rest)"
  "query [''btrfs'', ''filesystem'', ''label'', x]" "query (''btrfs'' # ''balance'' # ''status'' # rest)"
  "query (''btrfs'' # ''replace'' # ''status'' # rest)"
  "query (''lsblk'' # rest)" "query (''blkid'' # rest)" "query (''findmnt'' # rest)"
  by (simp_all add: query_def numeral_3_eq_3)

lemma quiet_df [simp, intro]: "steps (acts []) (GetFileSystemInfo h mp)"
  unfolding GetFileSystemInfo_def by (intro quiet_intro) simp

lemma quiet_show [simp, intro]: "steps (acts []) (GetBtrfsFilesystemInfo h mp)"
  unfolding GetBtrfsFilesystemInfo_def by (intro quiet_intro) simp

lemma quiet_mounted_fs: "steps (acts []) (mounted_fs h parts)"
  unfolding mounted_fs_def Let_def by (intro quiet_intro) simp_all

lemma quiet_mounted_all: "steps (acts []) (mounted_all h ps)"
  by (induction h ps rule: mounted_all.induct) (auto intro!: quiet_intro quiet_mounted_fs)

lemma quiet_fill_raid: "steps (acts []) (fill_raid h fss)"
  by (induction h fss rule: fill_raid.induct) (auto simp: Let_def intro!: quiet_intro)

lemma quiet_all [simp, intro]: "steps (acts []) (GetAllFileSystems h)"
  unfolding GetAllFileSystems_def Let_def
  by (intro quiet_intro quiet_mounted_all quiet_fill_raid) simp_all

lemma quiet_label [simp, intro]: "steps (acts []) (getBtrfsLabel h t)"
  unfolding getBtrfsLabel_def Let_def by (intro quiet_intro) simp_all

lemma quiet_by_mount_point [simp, intro]: "steps (acts []) (GetFileSystemByMountPoint h mp)"
  unfolding GetFileSystemByMountPoint_def Let_def by (intro quiet_intro quiet_all)

lemma quiet_stats [simp, intro]: "steps (acts []) (GetFileSystemStats h mp)"
  unfolding GetFileSystemStats_def by (intro quiet_intro quiet_show) simp_all

lemma quiet_disks [simp, intro]: "steps (acts []) (GetDisksFromRaid h mp)"
  unfolding GetDisksFromRaid_def by (intro quiet_intro quiet_stats)

lemma quiet_uuid_sub: "steps (acts []) (getUUIDSub h p)"
  unfolding getUUIDSub_def by (intro quiet_intro) simp_all

lemma quiet_walk_one: "steps (acts []) (walk_one h st dev)"
  unfolding walk_one_def Let_def by (cases st) (simp, intro impI conjI quiet_intro quiet_uuid_sub)

lemma quiet_walk_all: "steps (acts []) (walk_all h st ds)"
  by (induction h st ds rule: walk_all.induct) (auto intro!: quiet_intro quiet_walk_one)

lemma quiet_collect [simp, intro]: "steps (acts []) (collectBtrfsDevices h)"
  unfolding collectBtrfsDevices_def by (intro quiet_intro quiet_walk_all) simp_all

lemma quiet_first_mount: "steps (acts []) (first_mount h u ds)"
  by (induction ds) (auto intro!: quiet_intro)

lemma quiet_mount_of_uuid [simp, intro]: "steps (acts []) (GetMountPointFromUUID h u)"
  unfolding GetMountPointFromUUID_def Let_def by (intro quiet_intro quiet_first_mount) simp_all

end
