(* ===== verification/Btrfs.thy ===== *)
theory Btrfs
  imports BtrfsInfo
begin

text \<open>
  The BTRFS operations of a slave: \<open>slave/btrfs/btrfs.go\<close> and the handlers of
  \<open>slave/btrfs/btrfsGRPC.go\<close> that resolve a UUID to a mount point first.  The theorems say which
  commands an operation may issue, in which order, and under which conditions a disk is wiped.
\<close>

subsection \<open>RAID profiles\<close>

record raidType =
  sType :: string
  sMeta :: string
  minDisks :: int

definition raid_types :: "raidType list" where
  "raid_types =
     [\<lparr>sType = ''raid0'', sMeta = ''single'', minDisks = 2\<rparr>,
      \<lparr>sType = ''raid1'', sMeta = ''raid1'', minDisks = 2\<rparr>,
      \<lparr>sType = ''raid1c3'', sMeta = ''raid1c3'', minDisks = 3\<rparr>,
      \<lparr>sType = ''raid1c4'', sMeta = ''raid1c4'', minDisks = 4\<rparr>,
      \<lparr>sType = ''single'', sMeta = ''single'', minDisks = 1\<rparr>,
      \<lparr>sType = ''dup'', sMeta = ''dup'', minDisks = 1\<rparr>,
      \<lparr>sType = ''raid5'', sMeta = ''single'', minDisks = 3\<rparr>,
      \<lparr>sType = ''raid6'', sMeta = ''single'', minDisks = 4\<rparr>]"

definition convertStringToRaidType :: "string \<Rightarrow> raidType option" where
  "convertStringToRaidType s =
     (let rt = ToLower (TrimSpace s) in
      if rt = [] then None
      else if rt = ''raid1c2'' then Some (raid_types ! 1)
      else find (\<lambda>r. sType r = rt) raid_types)"

definition raidTypeToBtrfsProfile :: "string \<Rightarrow> btrfs_error + string" where
  "raidTypeToBtrfsProfile raidType =
     (let rt = ToLower (TrimSpace raidType) in
      if rt = [] then Inr []
      else if rt \<in> {''single'', ''raid0'', ''raid1'', ''raid1c2'', ''raid1c3'', ''raid1c4'', ''raid5'', ''raid6'', ''dup''}
      then Inr rt
      else Inl (UnsupportedProfile raidType))"

subsection \<open>Creating a file system\<close>

text \<open>The three checks of one disk; the first that fails decides the error.\<close>

definition admit_disk :: "'w host \<Rightarrow> string list \<Rightarrow> string \<Rightarrow> ('w, unit) bact" where
  "admit_disk h disks disk w =
     (if \<not> doesDiskExist h disk w then (Inl (DiskMissing disk), w)
      else if isMounted h disk w then (Inl (DiskMounted disk), w)
      else if isDuplicate disk disks then (Inl (DiskDuplicated disk), w)
      else (Inr (), w))"

text \<open>No file system carries the label yet, when the file systems can be listed at all.\<close>

definition label_unused :: "'w btrfs_host \<Rightarrow> string \<Rightarrow> ('w, unit) bact" where
  "label_unused h name =
     bindR (GetAllFileSystems h) (\<lambda>r. case r of
         Inl _ \<Rightarrow> ret ()
       | Inr fss \<Rightarrow> forE fss (\<lambda>fs. bindE (getBtrfsLabel h (Target fs)) (\<lambda>label.
           if label = name then fail (LabelExists name (Target fs)) else ret ())))"

definition mkfs_cmd :: "string \<Rightarrow> raidType \<Rightarrow> string list \<Rightarrow> string list" where
  "mkfs_cmd name raid disks =
     [''mkfs.btrfs'', ''-d'', sType raid, ''-m'', sMeta raid, ''-L'', name, ''-f'', ''-K''] @ disks"

definition created_uuid :: "'w btrfs_host \<Rightarrow> string \<Rightarrow> ('w, string) bact" where
  "created_uuid h disk =
     bindE (exec (base h) [''blkid'', ''-s'', ''UUID'', ''-o'', ''value'', disk]) (\<lambda>r.
       if \<not> Succeeded r then fail (NoUUID disk)
       else (let uuid = TrimSpace (Combined r) in if uuid = [] then fail (NoUUID disk) else ret uuid))"

definition CreateRaid :: "'w btrfs_host \<Rightarrow> string \<Rightarrow> raidType option \<Rightarrow> string list \<Rightarrow> ('w, string) bact" where
  "CreateRaid h name raid disks =
     (case raid of
        None \<Rightarrow> fail RaidTypeInvalid
      | Some rt \<Rightarrow>
          bindE (forE disks (admit_disk (base h) disks)) (\<lambda>_.
            if int (length disks) < minDisks rt then fail (TooFewDisks (minDisks rt) (sType rt))
            else bindE (forE disks (wipeDiskSignatures (base h))) (\<lambda>_.
                 bindE (label_unused h name) (\<lambda>_.
                 bindE (runCommand (base h) ''creating raid'' (mkfs_cmd name rt disks)) (\<lambda>_.
                 created_uuid h (disks ! 0))))))"

subsection \<open>Mounting\<close>

record MountResult =
  Degraded :: bool
  Problems :: "btrfs_error list"

definition mkdirAll :: "'w host \<Rightarrow> string \<Rightarrow> ('w, unit) bact" where
  "mkdirAll h path w =
     (case MakeDirs h path (machine w) of
        (ok, m) \<Rightarrow> (if ok then Inr () else Inl (MkdirFailed path), w\<lparr>machine := m\<rparr>))"

definition validCompressions :: "string list" where
  "validCompressions =
     [[], ''lzo'', ''zlib'', ''zlib:1'', ''zlib:3'', ''zlib:9'', ''zstd'', ''zstd:1'', ''zstd:3'', ''zstd:9'', ''zstd:15'']"

definition mount_cmd :: "string \<Rightarrow> string \<Rightarrow> string \<Rightarrow> string list \<Rightarrow> string list" where
  "mount_cmd uuid mountPoint compression extraOpts =
     (let opts = (if compression \<noteq> [] then [''compress='' @ compression] else []) @ extraOpts
      in [''mount'', ''-t'', ''btrfs''] @ (if opts \<noteq> [] then [''-o'', Join opts '',''] else [])
           @ [''-U'', uuid, mountPoint])"

definition MountRaid :: "'w btrfs_host \<Rightarrow> string \<Rightarrow> string \<Rightarrow> string \<Rightarrow> ('w, MountResult) bact" where
  "MountRaid h uuid0 mountPoint0 compression0 =
     (let uuid = TrimSpace uuid0; mountPoint = TrimSpace mountPoint0; compression = TrimSpace compression0 in
      if uuid = [] then fail UUIDRequired
      else if mountPoint = [] then fail MountPointRequired
      else if compression \<notin> set validCompressions then fail (BadCompression compression)
      else bindE (mkdirAll (base h) mountPoint) (\<lambda>_.
           bindE (getW (isMountPoint (base h) mountPoint)) (\<lambda>busy.
             if busy then fail (AlreadyMountPoint mountPoint)
             else bindR (runCommand (base h) ''mounting raid'' (mount_cmd uuid mountPoint compression [])) (\<lambda>r1.
                case r1 of
                  Inr _ \<Rightarrow> ret \<lparr>Degraded = False, Problems = []\<rparr>
                | Inl normalErr \<Rightarrow>
                    bindR (runCommand (base h) ''mounting raid'' (mount_cmd uuid mountPoint compression [''degraded''])) (\<lambda>r2.
                      case r2 of
                        Inr _ \<Rightarrow> ret \<lparr>Degraded = True, Problems = [normalErr]\<rparr>
                      | Inl degradedErr \<Rightarrow> fail (MountFailed uuid normalErr degradedErr))))))"

definition umount_cmd :: "string \<Rightarrow> bool \<Rightarrow> string list" where
  "umount_cmd target force = [''umount''] @ (if force then [''-f''] else []) @ [target]"

definition UMountRaid :: "'w btrfs_host \<Rightarrow> string \<Rightarrow> bool \<Rightarrow> ('w, unit) bact" where
  "UMountRaid h target force = runCommand (base h) ''unmounting raid'' (umount_cmd target force)"

subsection \<open>Removing a file system\<close>

definition wipe_cmd :: "string \<Rightarrow> string list" where
  "wipe_cmd disk = [''wipefs'', ''-a'', disk]"

definition RemoveRaid :: "'w btrfs_host \<Rightarrow> string \<Rightarrow> bool \<Rightarrow> ('w, unit) bact" where
  "RemoveRaid h targetMountPoint force =
     bindE (GetDisksFromRaid h targetMountPoint) (\<lambda>devs.
     bindE (UMountRaid h targetMountPoint force) (\<lambda>_.
     bindE (getW (isMountPoint (base h) targetMountPoint)) (\<lambda>mounted.
       if mounted then fail (StillMounted targetMountPoint)
       else forE devs (\<lambda>disk. mapErr (RemoveFailed disk) (runCommand (base h) ''wiping disk'' (wipe_cmd disk))))))"

text \<open>
  The devices and mount points of a UUID.  A UUID that \<open>lsblk\<close> prints in two letter cases has
  two entries, which the code visits in an order of its own.
\<close>

definition collectUUIDDeviceInfo :: "'w btrfs_host \<Rightarrow> string \<Rightarrow> ('w, string list \<times> string list) bact" where
  "collectUUIDDeviceInfo h uuid =
     bindE (collectBtrfsDevices h) (\<lambda>devicesByUUID.
       let devs = concat (map snd (filter (\<lambda>(candidate, _). EqualFold candidate uuid) devicesByUUID))
       in ret (foldl appendIfMissing [] (map DevPath devs), foldl appendIfMissing [] (map DevMountPoint devs)))"

definition appendMountPointFromFindmnt :: "'w btrfs_host \<Rightarrow> string \<Rightarrow> string list \<Rightarrow> ('w, string list) bact" where
  "appendMountPointFromFindmnt h uuid mountPoints =
     bindE (exec (base h) [''findmnt'', ''-rn'', ''-S'', ''UUID='' @ uuid, ''-o'', ''TARGET'']) (\<lambda>r.
       if \<not> Succeeded r then ret mountPoints
       else ret (appendIfMissing mountPoints (hd (Split (TrimSpace (Stdout r)) (CHR 0x0A)))))"

fun removeViaKnownMounts :: "'w btrfs_host \<Rightarrow> string list \<Rightarrow> ('w, bool) bact" where
  "removeViaKnownMounts h [] = ret False"
| "removeViaKnownMounts h (t # targets) =
     (let target = TrimSpace t in
      bindE (getW (isMountPoint (base h) target)) (\<lambda>mounted.
        if target = [] \<or> \<not> mounted then removeViaKnownMounts h targets
        else bindR (RemoveRaid h target False) (\<lambda>r.
               case r of
                 Inr _ \<Rightarrow> ret True
               | Inl err \<Rightarrow>
                   bindE (getW (isMountPoint (base h) target)) (\<lambda>still.
                     if still then fail (RemoveFailed target err) else removeViaKnownMounts h targets))))"

definition ensureFilesystemNotMounted :: "'w btrfs_host \<Rightarrow> string list \<Rightarrow> ('w, unit) bact" where
  "ensureFilesystemNotMounted h mountPoints =
     forE mountPoints (\<lambda>target. bindE (getW (isMountPoint (base h) target)) (\<lambda>mounted.
       guardE (\<not> mounted) (StillMounted target)))"

text \<open>The loop goes on after a failure; the error it reports at the end is accumulated.\<close>

fun wipe_loop :: "'w btrfs_host \<Rightarrow> btrfs_error option \<Rightarrow> string list \<Rightarrow> ('w, btrfs_error option) bact" where
  "wipe_loop h lastErr [] = ret lastErr"
| "wipe_loop h lastErr (disk # disks) =
     bindE (getW (doesDiskExist (base h) disk)) (\<lambda>there.
       if \<not> there then wipe_loop h (Some (DiskMissing disk)) disks
       else bindR (runCommand (base h) ''wiping disk'' (wipe_cmd disk)) (\<lambda>r.
              case r of
                Inr _ \<Rightarrow> wipe_loop h lastErr disks
              | Inl err \<Rightarrow> wipe_loop h (case lastErr of None \<Rightarrow> Some err | Some e \<Rightarrow> Some e) disks))"

definition wipeDevicesByUUID :: "'w btrfs_host \<Rightarrow> string list \<Rightarrow> ('w, unit) bact" where
  "wipeDevicesByUUID h devPaths =
     bindE (wipe_loop h None devPaths) (\<lambda>lastErr.
       case lastErr of None \<Rightarrow> ret () | Some e \<Rightarrow> fail (SomeNotWiped e))"

definition RemoveRaidUUID :: "'w btrfs_host \<Rightarrow> string \<Rightarrow> ('w, unit) bact" where
  "RemoveRaidUUID h uuid0 =
     (let uuid = TrimSpace uuid0 in
      if uuid = [] then fail UUIDRequired
      else bindE (collectUUIDDeviceInfo h uuid) (\<lambda>(devPaths, mountPoints).
             if devPaths = [] then fail (NoBlockDevices uuid)
             else bindE (appendMountPointFromFindmnt h uuid mountPoints) (\<lambda>mountPoints'.
                  bindE (removeViaKnownMounts h mountPoints') (\<lambda>removed.
                    if removed then ret ()
                    else bindE (ensureFilesystemNotMounted h mountPoints') (\<lambda>_.
                         wipeDevicesByUUID h devPaths)))))"

subsection \<open>Changing the devices\<close>

definition AddDiskToRaid :: "'w btrfs_host \<Rightarrow> string \<Rightarrow> string \<Rightarrow> ('w, unit) bact" where
  "AddDiskToRaid h diskPath target =
     bindE (getW (doesDiskExist (base h) diskPath)) (\<lambda>there.
       if \<not> there then fail (DiskMissing diskPath)
       else bindE (wipeDiskSignatures (base h) diskPath) (\<lambda>_.
            bindE (getW (isMounted (base h) diskPath)) (\<lambda>mounted.
              if mounted then fail (DiskMounted diskPath)
              else runCommand (base h) ''add disk to raid'' [''btrfs'', ''device'', ''add'', diskPath, target])))"

definition RemoveDisk :: "'w btrfs_host \<Rightarrow> string \<Rightarrow> string \<Rightarrow> ('w, unit) bact" where
  "RemoveDisk h diskPath target =
     bindE (getW (doesDiskExist (base h) diskPath)) (\<lambda>there.
       if \<not> there then fail (DiskMissing diskPath)
       else bindE (getW (isMountPoint (base h) target)) (\<lambda>mounted.
         if \<not> mounted then fail (NotMountPoint target)
         else bindE (GetDisksFromRaid h target) (\<lambda>devs.
           if diskPath \<notin> set devs then fail (NotInFilesystem diskPath target)
           else bindE (GetFileSystemStats h target) (\<lambda>stats.
             if length stats \<le> 1 then fail LastDisk
             else runCommand (base h) ''remove disk from raid'' [''btrfs'', ''device'', ''remove'', diskPath, target]))))"

definition validateMountPoint :: "'w btrfs_host \<Rightarrow> string \<Rightarrow> ('w, string) bact" where
  "validateMountPoint h target0 =
     (let target = TrimSpace target0 in
      if target = [] then fail MountPointRequired
      else bindE (getW (\<lambda>w. StatPath (base h) target (machine w))) (\<lambda>info.
             case info of
               StatMissing \<Rightarrow> fail (NotMountPoint target)
             | StatError \<Rightarrow> fail (StatFailed target)
             | StatFile \<Rightarrow> fail (NotDirectory target)
             | StatDir \<Rightarrow> ret target))"

text \<open>The start shared by the operations that need a file system with devices.\<close>

definition with_devices :: "'w btrfs_host \<Rightarrow> string \<Rightarrow> ('w, string \<times> DeviceStat list) bact" where
  "with_devices h target0 =
     bindE (validateMountPoint h target0) (\<lambda>target.
     bindE (GetFileSystemStats h target) (\<lambda>stats.
       if stats = [] then fail (NoDevices target) else ret (target, stats)))"

definition ChangeRaidLevel :: "'w btrfs_host \<Rightarrow> string \<Rightarrow> raidType \<Rightarrow> ('w, unit) bact" where
  "ChangeRaidLevel h target0 raid =
     bindE (with_devices h target0) (\<lambda>(target, stats).
       if int (length stats) < minDisks raid then fail (TooFewDisks (minDisks raid) (sType raid))
       else runCommand (base h) ''changing raid level''
              [''btrfs'', ''balance'', ''start'', ''-f'', ''-v'', ''-dconvert='' @ sType raid, ''-mconvert='' @ sMeta raid, target])"

record BalanceRaidReq =
  BalMountPoint :: string
  DataUsageMax :: int
  MetadataUsageMax :: int
  BalForce :: bool
  ConvertToCurrentRaid :: bool

definition clampPercent :: "int \<Rightarrow> int" where
  "clampPercent v = (if v \<le> 0 then 0 else if 100 < v then 100 else v)"

definition balance_cmd :: "BalanceRaidReq \<Rightarrow> string \<Rightarrow> string \<Rightarrow> string list" where
  "balance_cmd req profile mountPoint =
     (let dataUsage = clampPercent (DataUsageMax req); metaUsage = clampPercent (MetadataUsageMax req) in
      [''btrfs'', ''balance'', ''start'']
      @ (if BalForce req then [''-f''] else [])
      @ (if profile \<noteq> [] then [''-dconvert='' @ profile, ''-mconvert='' @ profile] else [])
      @ (if 0 < dataUsage then [''-dusage='' @ Itoa dataUsage] else [])
      @ (if 0 < metaUsage then [''-musage='' @ Itoa metaUsage] else [])
      @ [mountPoint])"

definition BalanceRaid :: "'w btrfs_host \<Rightarrow> BalanceRaidReq \<Rightarrow> ('w, unit) bact" where
  "BalanceRaid h req =
     bindE (with_devices h (TrimSpace (BalMountPoint req))) (\<lambda>(mountPoint, _).
     bindE (GetFileSystemByMountPoint h mountPoint) (\<lambda>fileSystem.
     bindE (if ConvertToCurrentRaid req then liftE (raidTypeToBtrfsProfile (RaidType fileSystem)) else ret []) (\<lambda>profile.
       runCommand (base h) ''balancing raid'' (balance_cmd req profile mountPoint))))"

definition replace_cmd :: "string \<Rightarrow> string \<Rightarrow> string \<Rightarrow> string list" where
  "replace_cmd old new target = [''btrfs'', ''device'', ''replace'', ''start'', ''-B'', old, new, target]"

definition ReplaceDisk :: "'w btrfs_host \<Rightarrow> string \<Rightarrow> string \<Rightarrow> string \<Rightarrow> ('w, unit) bact" where
  "ReplaceDisk h oldDiskPath newDiskPath target =
     (if oldDiskPath = newDiskPath then fail SameDisk
      else bindE (getW (\<lambda>w. (StatPath (base h) target (machine w) = StatMissing,
                             doesDiskExist (base h) oldDiskPath w, doesDiskExist (base h) newDiskPath w,
                             isMounted (base h) newDiskPath w))) (\<lambda>(noTarget, oldThere, newThere, newMounted).
        if noTarget then fail (NotMountPoint target)
        else if \<not> oldThere then fail (DiskMissing oldDiskPath)
        else if \<not> newThere then fail (DiskMissing newDiskPath)
        else if newMounted then fail (DiskMounted newDiskPath)
        else bindE (GetDisksFromRaid h target) (\<lambda>devs.
          if oldDiskPath \<notin> set devs then fail (NotInFilesystem oldDiskPath target)
          else if newDiskPath \<in> set devs then fail (NewDiskInFilesystem newDiskPath target)
          else bindE (runCommand (base h) ''replace disk in raid'' (replace_cmd oldDiskPath newDiskPath target)) (\<lambda>_.
               mapErr BalanceAfterReplace
                 (BalanceRaid h \<lparr>BalMountPoint = target, DataUsageMax = 100, MetadataUsageMax = 100,
                                 BalForce = False, ConvertToCurrentRaid = True\<rparr>)))))"

subsection \<open>Maintenance\<close>

definition balance_action :: "'w btrfs_host \<Rightarrow> string \<Rightarrow> string \<Rightarrow> ('w, unit) bact" where
  "balance_action h verb target0 =
     bindE (validateMountPoint h target0) (\<lambda>target.
       runCommand (base h) verb [''btrfs'', ''balance'', verb, target])"

definition PauseBalance :: "'w btrfs_host \<Rightarrow> string \<Rightarrow> ('w, unit) bact" where
  "PauseBalance h = balance_action h ''pause''"

definition ResumeBalance :: "'w btrfs_host \<Rightarrow> string \<Rightarrow> ('w, unit) bact" where
  "ResumeBalance h = balance_action h ''resume''"

definition CancelBalance :: "'w btrfs_host \<Rightarrow> string \<Rightarrow> ('w, unit) bact" where
  "CancelBalance h = balance_action h ''cancel''"

text \<open>\<open>defrag\<close> takes the algorithm without its level.\<close>

definition defrag_algorithm :: "string \<Rightarrow> string" where
  "defrag_algorithm compression =
     TrimSuffix (case Cut compression (CHR '':'') of Some (name, _) \<Rightarrow> name | None \<Rightarrow> compression) '' (forced)''"

definition Defragment :: "'w btrfs_host \<Rightarrow> string \<Rightarrow> bool \<Rightarrow> string \<Rightarrow> ('w, unit) bact" where
  "Defragment h target0 recursive compression0 =
     (let target = TrimSpace target0; compression = TrimSpace compression0 in
      if target = [] then fail MountPointRequired
      else bindE (getW (\<lambda>w. StatPath (base h) target (machine w))) (\<lambda>info.
             if info = StatMissing then fail (NotMountPoint target)
             else if info = StatError then fail (StatFailed target)
             else runCommand (base h) ''defragmenting''
                    ([''btrfs'', ''filesystem'', ''defrag'', ''-v'']
                     @ (if recursive then [''-r''] else [])
                     @ (if compression \<noteq> [] \<and> compression \<noteq> ''no'' then [''-c'' @ defrag_algorithm compression] else [])
                     @ [target])))"

definition Scrub :: "'w btrfs_host \<Rightarrow> string \<Rightarrow> bool \<Rightarrow> ('w, unit) bact" where
  "Scrub h target0 background =
     bindE (with_devices h target0) (\<lambda>(target, _).
       runCommand (base h) ''scrubbing raid''
         [''btrfs'', ''scrub'', ''start'', if background then ''-b'' else ''-B'', target])"

subsection \<open>Handlers\<close>

text \<open>The service resolves the UUID of the request to a mount point and then acts on it.\<close>

datatype btrfs_request =
    ReqCreate string string "string list"
  | ReqRemove string
  | ReqMount string string string
  | ReqUMount string bool
  | ReqAddDisk string string
  | ReqRemoveDisk string string
  | ReqReplaceDisk string string string
  | ReqChangeLevel string string
  | ReqBalance string bool bool "(int \<times> int) option"
  | ReqPause string
  | ReqResume string
  | ReqCancel string
  | ReqDefragment string
  | ReqScrub string

definition at_uuid :: "'w btrfs_host \<Rightarrow> string \<Rightarrow> (string \<Rightarrow> ('w, unit) bact) \<Rightarrow> ('w, unit) bact" where
  "at_uuid h uuid m = bindE (GetMountPointFromUUID h uuid) m"

fun handle :: "'w btrfs_host \<Rightarrow> btrfs_request \<Rightarrow> ('w, unit) bact" where
  "handle h (ReqCreate name raid disks) =
     bindE (CreateRaid h name (convertStringToRaidType raid) disks) (\<lambda>_. ret ())"
| "handle h (ReqRemove uuid) = RemoveRaidUUID h uuid"
| "handle h (ReqMount uuid target compression) = bindE (MountRaid h uuid target compression) (\<lambda>_. ret ())"
| "handle h (ReqUMount uuid force) = at_uuid h uuid (\<lambda>mp. UMountRaid h mp force)"
| "handle h (ReqAddDisk uuid diskPath) = at_uuid h uuid (AddDiskToRaid h diskPath)"
| "handle h (ReqRemoveDisk uuid diskPath) = at_uuid h uuid (RemoveDisk h diskPath)"
| "handle h (ReqReplaceDisk uuid old new) = at_uuid h uuid (ReplaceDisk h old new)"
| "handle h (ReqChangeLevel uuid level) =
     at_uuid h uuid (\<lambda>mp. case convertStringToRaidType level of
         None \<Rightarrow> fail (UnsupportedProfile level)
       | Some rt \<Rightarrow> ChangeRaidLevel h mp rt)"
| "handle h (ReqBalance uuid force convert filters) =
     at_uuid h uuid (\<lambda>mp. BalanceRaid h
       \<lparr>BalMountPoint = mp, DataUsageMax = (case filters of None \<Rightarrow> 0 | Some (d, _) \<Rightarrow> d),
        MetadataUsageMax = (case filters of None \<Rightarrow> 0 | Some (_, m) \<Rightarrow> m),
        BalForce = force, ConvertToCurrentRaid = convert\<rparr>)"
| "handle h (ReqPause uuid) = at_uuid h uuid (PauseBalance h)"
| "handle h (ReqResume uuid) = at_uuid h uuid (ResumeBalance h)"
| "handle h (ReqCancel uuid) = at_uuid h uuid (CancelBalance h)"
| "handle h (ReqDefragment uuid) = at_uuid h uuid (\<lambda>mp. Defragment h mp True [])"
| "handle h (ReqScrub uuid) = at_uuid h uuid (\<lambda>mp. Scrub h mp False)"

subsection \<open>Sequences of commands\<close>

lemma bindE_cases:
  assumes "bindE m f w = (r, w'')"
  obtains e where "m w = (Inl e, w'')" "r = Inl e" | x w' where "m w = (Inr x, w')" "f x w' = (r, w'')"
  using assms by (auto simp: bindE_def split: prod.splits sum.splits)

lemma quiet_run: "steps (acts []) m \<Longrightarrow> m w = (r, w') \<Longrightarrow> acts [] w w'"
  by (rule stepsD)

lemma runCommand_acts:
  assumes "runCommand h desc args w = (r, w')" "args \<noteq> []"
  shows "acts (if query args then [] else [args]) w w'"
    and "(r = Inr ()) = Succeeded (fst (RunProgram h args (machine w)))"
    and "machine w' = snd (RunProgram h args (machine w))"
proof -
  have "acts (if query args then [] else [args]) w (snd (exec h args w))"
    by (rule acts_exec [OF prod.collapse [symmetric]])
  then show "acts (if query args then [] else [args]) w w'"
    using assms by (auto simp: runCommand_def bindE_def exec_def ret_def fail_def split: prod.splits if_splits)
  show "(r = Inr ()) = Succeeded (fst (RunProgram h args (machine w)))"
    "machine w' = snd (RunProgram h args (machine w))"
    using assms by (auto simp: runCommand_def bindE_def exec_def ret_def fail_def split: prod.splits if_splits)
qed

lemma wipeDiskSignatures_acts: "wipeDiskSignatures h d w = (r, w') \<Longrightarrow> acts [wipe_cmd d] w w'"
  using acts_exec [of h "wipe_cmd d" w]
  by (auto simp: wipeDiskSignatures_def wipe_cmd_def bindE_def exec_def ret_def fail_def query_def
           split: prod.splits if_splits)

text \<open>A loop that issues one changing command for every element and stops at the first failure.\<close>

lemma forE_acts:
  assumes step: "\<And>x w r w'. f x w = (r, w') \<Longrightarrow> acts [g x] w w'"
  shows "forE xs f w = (r, w') \<Longrightarrow>
    \<exists>cs. acts cs w w' \<and> prefix cs (map g xs) \<and> (r = Inr () \<longrightarrow> cs = map g xs)"
proof (induction xs arbitrary: w)
  case Nil
  then show ?case by (auto simp: ret_def)
next
  case (Cons x xs)
  from Cons.prems have "bindE (f x) (\<lambda>_. forE xs f) w = (r, w')" by simp
  then show ?case
  proof (cases rule: bindE_cases)
    case (1 e)
    from step [OF 1(1)] 1(2) show ?thesis by (intro exI [of _ "[g x]"]) simp
  next
    case (2 u w1)
    from Cons.IH [OF 2(2)] obtain cs where
      "acts cs w1 w'" "prefix cs (map g xs)" "r = Inr () \<longrightarrow> cs = map g xs" by blast
    with acts_trans [OF step [OF 2(1)]] show ?thesis
      by (intro exI [of _ "g x # cs"]) simp
  qed
qed

lemma wipe_disks_acts:
  "forE ds (wipeDiskSignatures h) w = (r, w') \<Longrightarrow>
    \<exists>cs. acts cs w w' \<and> prefix cs (map wipe_cmd ds) \<and> (r = Inr () \<longrightarrow> cs = map wipe_cmd ds)"
  by (erule forE_acts [where g = wipe_cmd, rotated]) (rule wipeDiskSignatures_acts)

lemma query_change [simp]:
  "\<not> query (mkfs_cmd name rt disks)" "\<not> query (wipe_cmd d)" "\<not> query (umount_cmd t force)"
  "\<not> query (mount_cmd u m c e)"
  by (simp_all add: mkfs_cmd_def wipe_cmd_def umount_cmd_def mount_cmd_def query_def numeral_3_eq_3)

lemma cmd_nonempty [simp]:
  "mkfs_cmd name rt disks \<noteq> []" "wipe_cmd d \<noteq> []" "umount_cmd t force \<noteq> []" "mount_cmd u m c e \<noteq> []"
  by (simp_all add: mkfs_cmd_def wipe_cmd_def umount_cmd_def mount_cmd_def)

subsection \<open>Creating\<close>

lemma admit_disks:
  "forE ds (admit_disk h disks) w = (r, w') \<Longrightarrow>
     w' = w \<and> (r = Inr () \<longrightarrow> (\<forall>d \<in> set ds. doesDiskExist h d w \<and> \<not> isMounted h d w \<and> \<not> isDuplicate d disks))"
  by (induction ds) (auto simp: ret_def admit_disk_def bindE_def split: if_splits)

lemma no_duplicates:
  assumes "\<forall>d \<in> set disks. \<not> isDuplicate d disks"
  shows "distinct disks"
proof (rule ccontr)
  assume "\<not> distinct disks"
  then obtain xs y ys zs where eq: "disks = xs @ [y] @ ys @ [y] @ zs"
    using not_distinct_decomp by blast
  then have "1 < length (filter (\<lambda>d. d = y) disks)" by simp
  with assms eq show False by (simp add: isDuplicate_def)
qed

lemma quiet_label_unused: "steps (acts []) (label_unused h name)"
  unfolding label_unused_def by (intro quiet_intro quiet_all quiet_label)

lemma quiet_created_uuid: "steps (acts []) (created_uuid h d)"
  unfolding created_uuid_def Let_def by (intro quiet_intro) simp_all

lemma create_after_wipe:
  assumes "bindE (label_unused h name) (\<lambda>_. bindE (runCommand (base h) ''creating raid'' (mkfs_cmd name rt disks))
             (\<lambda>_. created_uuid h d)) w = (r, w')"
  shows "\<exists>cs. acts cs w w' \<and> prefix cs [mkfs_cmd name rt disks] \<and> ((\<exists>u. r = Inr u) \<longrightarrow> cs = [mkfs_cmd name rt disks])"
  using assms
proof (cases rule: bindE_cases)
  case (1 e)
  from quiet_run [OF quiet_label_unused 1(1)] 1(2) show ?thesis by (intro exI [of _ "[]"]) simp
next
  case (2 u w1)
  note quiet = quiet_run [OF quiet_label_unused 2(1)]
  from 2(2) show ?thesis
  proof (cases rule: bindE_cases)
    case (1 e)
    from acts_trans [OF quiet runCommand_acts(1) [OF 1(1)]] 1(2) show ?thesis
      by (intro exI [of _ "[mkfs_cmd name rt disks]"]) simp
  next
    case (2 u w2)
    from acts_trans [OF acts_trans [OF quiet runCommand_acts(1) [OF 2(1)]]
        quiet_run [OF quiet_created_uuid 2(2)]]
    show ?thesis by (intro exI [of _ "[mkfs_cmd name rt disks]"]) simp
  qed
qed

lemma create_raid_cases:
  assumes "CreateRaid h name raid disks w = (r, w')"
  obtains (refused) e where "r = Inl e" "w' = w"
  | (admitted) rt cs where "raid = Some rt" "minDisks rt \<le> int (length disks)" "distinct disks"
      "\<forall>d \<in> set disks. doesDiskExist (base h) d w \<and> \<not> isMounted (base h) d w"
      "acts cs w w'" "prefix cs (map wipe_cmd disks @ [mkfs_cmd name rt disks])"
      "(\<exists>u. r = Inr u) \<longrightarrow> cs = map wipe_cmd disks @ [mkfs_cmd name rt disks]"
proof (cases raid)
  case None
  with assms refused show ?thesis by (auto simp: CreateRaid_def fail_def)
next
  case (Some rt)
  let ?wipe = "forE disks (wipeDiskSignatures (base h))"
  let ?rest = "bindE (label_unused h name) (\<lambda>_. bindE (runCommand (base h) ''creating raid'' (mkfs_cmd name rt disks))
             (\<lambda>_. created_uuid h (disks ! 0)))"
  from assms Some have "bindE (forE disks (admit_disk (base h) disks)) (\<lambda>_.
      if int (length disks) < minDisks rt then fail (TooFewDisks (minDisks rt) (sType rt))
      else bindE ?wipe (\<lambda>_. ?rest)) w = (r, w')"
    by (simp add: CreateRaid_def)
  then show ?thesis
  proof (cases rule: bindE_cases)
    case (1 e)
    with admit_disks [OF 1(1)] refused show ?thesis by blast
  next
    case (2 u w1)
    note ok = admit_disks [OF 2(1)]
    show ?thesis
    proof (cases "int (length disks) < minDisks rt")
      case True
      with 2 ok refused show ?thesis by (auto simp: fail_def)
    next
      case False
      have adm: "minDisks rt \<le> int (length disks)" "distinct disks"
        "\<forall>d \<in> set disks. doesDiskExist (base h) d w \<and> \<not> isMounted (base h) d w"
        using False ok no_duplicates by auto
      from 2(2) False ok have "bindE ?wipe (\<lambda>_. ?rest) w = (r, w')" by simp
      then show ?thesis
      proof (cases rule: bindE_cases)
        case (1 e)
        from wipe_disks_acts [OF 1(1)] obtain cs where
          "acts cs w w'" "prefix cs (map wipe_cmd disks)" by blast
        then show ?thesis using 1(2) by (intro admitted [OF Some adm]) auto
      next
        case (2 v w2)
        from wipe_disks_acts [OF 2(1)] have w: "acts (map wipe_cmd disks) w w2" by auto
        from create_after_wipe [OF 2(2)] obtain cs where
          cs: "acts cs w2 w'" "prefix cs [mkfs_cmd name rt disks]"
            "(\<exists>u. r = Inr u) \<longrightarrow> cs = [mkfs_cmd name rt disks]" by blast
        show ?thesis
          by (rule admitted [OF Some adm acts_trans [OF w cs(1)]]) (simp only: same_prefix_prefix cs(2), use cs(3) in blast)
      qed
    qed
  qed
qed

text \<open>C8: CreateRaid wipes nothing and formats nothing unless every disk of the request exists,
  is not mounted, is named once, and there are as many disks as the profile needs; it then wipes the
  disks in order and formats them last, and on success has done all of it.\<close>

theorem create_raid_guarded:
  assumes "CreateRaid h name raid disks w = (r, w')"
  shows "((\<exists>e. r = Inl e) \<and> w' = w) \<or>
    (\<exists>rt. raid = Some rt \<and> minDisks rt \<le> int (length disks) \<and> distinct disks
       \<and> (\<forall>d \<in> set disks. doesDiskExist (base h) d w \<and> \<not> isMounted (base h) d w)
       \<and> prefix (changes w w') (map wipe_cmd disks @ [mkfs_cmd name rt disks])
       \<and> ((\<exists>u. r = Inr u) \<longrightarrow> changes w w' = map wipe_cmd disks @ [mkfs_cmd name rt disks]))"
  using assms by (cases rule: create_raid_cases) (simp_all add: acts_changes)


subsection \<open>Removing\<close>

lemma wipe_mapErr:
  "mapErr e (runCommand h desc (wipe_cmd d)) w = (r, w') \<Longrightarrow> acts [wipe_cmd d] w w'"
  using runCommand_acts(1) [of h desc "wipe_cmd d" w] by (auto simp: mapErr_def split: prod.splits)

definition wipe_reported :: "'w host \<Rightarrow> string list \<Rightarrow> ('w, unit) bact" where
  "wipe_reported h devs = forE devs (\<lambda>disk. mapErr (RemoveFailed disk) (runCommand h ''wiping disk'' (wipe_cmd disk)))"

lemma wipe_reported_acts:
  "wipe_reported h devs w = (r, w') \<Longrightarrow>
    \<exists>cs. acts cs w w' \<and> prefix cs (map wipe_cmd devs) \<and> (r = Inr () \<longrightarrow> cs = map wipe_cmd devs)"
  unfolding wipe_reported_def by (erule forE_acts [where g = wipe_cmd, rotated]) (rule wipe_mapErr)

lemma remove_raid_cases:
  assumes "RemoveRaid h t force w = (r, w')"
  obtains (unknown) e where "r = Inl e" "acts [] w w'"
  | (kept) devs w1 e where "GetDisksFromRaid h t w = (Inr devs, w1)" "r = Inl e" "acts [umount_cmd t force] w w'"
  | (wiping) devs w1 w2 cs where "GetDisksFromRaid h t w = (Inr devs, w1)"
      "UMountRaid h t force w1 = (Inr (), w2)" "\<not> isMountPoint (base h) t w2"
      "acts (umount_cmd t force # cs) w w'" "prefix cs (map wipe_cmd devs)"
      "r = Inr () \<longrightarrow> cs = map wipe_cmd devs"
  using assms [unfolded RemoveRaid_def, folded wipe_reported_def]
proof (cases rule: bindE_cases)
  case (1 e)
  with unknown quiet_run [OF quiet_disks 1(1)] show ?thesis by blast
next
  case (2 devs w1)
  note quiet = quiet_run [OF quiet_disks 2(1)] and devs = 2(1)
  from 2(2) show ?thesis
  proof (cases rule: bindE_cases)
    case (1 e)
    from acts_trans [OF quiet runCommand_acts(1) [OF 1(1) [unfolded UMountRaid_def]]] 1(2) kept [OF devs]
    show ?thesis by simp
  next
    case (2 u w2)
    from acts_trans [OF quiet runCommand_acts(1) [OF 2(1) [unfolded UMountRaid_def]]]
    have um: "acts [umount_cmd t force] w w2" by simp
    show ?thesis
    proof (cases "isMountPoint (base h) t w2")
      case True
      with 2(2) um kept [OF devs] show ?thesis by (auto simp: getW_def bindE_def fail_def)
    next
      case False
      with 2(2) have "wipe_reported (base h) devs w2 = (r, w')" by (simp add: getW_def bindE_def)
      from wipe_reported_acts [OF this] obtain cs where
        cs: "acts cs w2 w'" "prefix cs (map wipe_cmd devs)" "r = Inr () \<longrightarrow> cs = map wipe_cmd devs" by blast
      from 2(1) have "UMountRaid h t force w1 = (Inr (), w2)" by simp
      from wiping [OF devs this False _ cs(2,3)] acts_trans [OF um cs(1)] show ?thesis by simp
    qed
  qed
qed

text \<open>C9: RemoveRaid wipes a disk only after umount has succeeded and the mount point is gone from
  the mount table; it wipes the devices of the file system in the order they were reported, and on
  success has wiped all of them.\<close>

theorem remove_raid_unmounts_first:
  assumes "RemoveRaid h t force w = (r, w')"
  shows "((\<exists>e. r = Inl e) \<and> changes w w' \<in> {[], [umount_cmd t force]}) \<or>
    (\<exists>devs w1 w2 cs. GetDisksFromRaid h t w = (Inr devs, w1) \<and> UMountRaid h t force w1 = (Inr (), w2)
       \<and> \<not> isMountPoint (base h) t w2
       \<and> changes w w' = umount_cmd t force # cs \<and> prefix cs (map wipe_cmd devs)
       \<and> (r = Inr () \<longrightarrow> cs = map wipe_cmd devs))"
  using assms by (cases rule: remove_raid_cases) (auto simp: acts_changes)

text \<open>The loop over the devices of a UUID skips the missing ones and goes on after a failure.\<close>

lemma wipe_loop_acts:
  "wipe_loop h e ds w = (r, w') \<Longrightarrow>
    \<exists>ds'. acts (map wipe_cmd ds') w w' \<and> subseq ds' ds \<and> (\<exists>res. r = Inr res \<and> (res = None \<longrightarrow> e = None \<and> ds' = ds))"
proof (induction ds arbitrary: e w)
  case Nil
  then show ?case by (intro exI [of _ "[]"]) (auto simp: ret_def)
next
  case (Cons d ds)
  show ?case
  proof (cases "doesDiskExist (base h) d w")
    case False
    with Cons.prems have "wipe_loop h (Some (DiskMissing d)) ds w = (r, w')" by (simp add: getW_def bindE_def)
    from Cons.IH [OF this] show ?thesis by (elim exE conjE) (rule exI, auto)
  next
    case True
    obtain r1 w1 where run: "runCommand (base h) ''wiping disk'' (wipe_cmd d) w = (r1, w1)"
      by (metis prod.collapse)
    have one: "acts [wipe_cmd d] w w1" using runCommand_acts(1) [OF run] by simp
    let ?e = "case r1 of Inl err \<Rightarrow> Some (case e of None \<Rightarrow> err | Some x \<Rightarrow> x) | Inr _ \<Rightarrow> e"
    from Cons.prems True run have "wipe_loop h ?e ds w1 = (r, w')"
      by (auto simp: getW_def bindE_def bindR_def split: sum.splits option.splits)
    from Cons.IH [OF this] obtain ds' res where ds': "acts (map wipe_cmd ds') w1 w'" "subseq ds' ds" "r = Inr res"
      "res = None \<longrightarrow> ?e = None \<and> ds' = ds" by blast
    have "res = None \<longrightarrow> e = None" using ds'(4) by (cases r1) auto
    with acts_trans [OF one ds'(1)] ds'(2-4) show ?thesis by (intro exI [of _ "d # ds'"]) auto
  qed
qed

lemma wipe_by_uuid_acts:
  assumes "wipeDevicesByUUID h ds w = (r, w')"
  shows "\<exists>ds'. acts (map wipe_cmd ds') w w' \<and> subseq ds' ds \<and> (r = Inr () \<longrightarrow> ds' = ds)"
  using assms unfolding wipeDevicesByUUID_def
proof (cases rule: bindE_cases)
  case (1 e)
  from wipe_loop_acts [OF 1(1)] show ?thesis by auto
next
  case (2 res w1)
  from wipe_loop_acts [OF 2(1)] 2(2) show ?thesis
    by (cases res) (auto simp: ret_def fail_def)
qed

text \<open>Trying the known mount points: nothing happens when none of them is mounted.\<close>

lemma known_mounts_idle:
  assumes "\<forall>t \<in> set ts. TrimSpace t = t \<and> \<not> isMountPoint (base h) t w"
  shows "removeViaKnownMounts h ts w = (Inr False, w)"
  using assms by (induction ts) (simp_all add: Let_def ret_def getW_def bindE_def)

lemma not_mounted_unless:
  "ensureFilesystemNotMounted h ts w = (r, w') \<Longrightarrow>
     w' = w \<and> (r = Inr () \<longleftrightarrow> (\<forall>t \<in> set ts. \<not> isMountPoint (base h) t w))"
  by (induction ts) (auto simp: ensureFilesystemNotMounted_def ret_def getW_def guardE_def bindE_def split: if_splits)

lemma appendIfMissing_trimmed:
  "\<forall>t \<in> set ts. TrimSpace t = t \<Longrightarrow> t \<in> set (appendIfMissing ts x) \<Longrightarrow> TrimSpace t = t"
  by (auto simp: appendIfMissing_def Let_def split: if_splits)

lemma foldl_appendIfMissing_trimmed:
  "\<forall>t \<in> set ts. TrimSpace t = t \<Longrightarrow> \<forall>t \<in> set (foldl appendIfMissing ts xs). TrimSpace t = t"
  by (induction xs arbitrary: ts) (auto dest: appendIfMissing_trimmed)

lemma quiet_uuid_info: "steps (acts []) (collectUUIDDeviceInfo h u)"
  unfolding collectUUIDDeviceInfo_def Let_def by (intro quiet_intro quiet_collect)

lemma quiet_findmnt: "steps (acts []) (appendMountPointFromFindmnt h u mps)"
  unfolding appendMountPointFromFindmnt_def by (intro quiet_intro) simp_all

lemma uuid_info_trimmed:
  assumes "collectUUIDDeviceInfo h u w = (Inr (ds, mps), w')"
  shows "\<forall>t \<in> set mps. TrimSpace t = t"
  using assms foldl_appendIfMissing_trimmed [of "[]"]
  unfolding collectUUIDDeviceInfo_def
  by (elim bindE_eq_InrE) (simp add: Let_def)

lemma findmnt_trimmed:
  assumes "appendMountPointFromFindmnt h u mps w = (Inr mps', w')" "\<forall>t \<in> set mps. TrimSpace t = t"
  shows "\<forall>t \<in> set mps'. TrimSpace t = t"
  using assms appendIfMissing_trimmed [OF assms(2)] unfolding appendMountPointFromFindmnt_def
  by (elim bindE_eq_InrE) (auto split: if_splits)

text \<open>Removing a file system by UUID that none of its known mount points has mounted wipes
  only devices that were reported for that UUID, in that order, and on success all of them.\<close>

theorem remove_uuid_wipes_own_devices:
  assumes "collectUUIDDeviceInfo h (TrimSpace uuid) w = (Inr (ds, mps), w1)"
    and "appendMountPointFromFindmnt h (TrimSpace uuid) mps w1 = (Inr mps', w2)"
    and "\<forall>t \<in> set mps'. \<not> isMountPoint (base h) t w2"
    and "RemoveRaidUUID h uuid w = (r, w')"
  shows "\<exists>ds'. changes w w' = map wipe_cmd ds' \<and> subseq ds' ds \<and> (r = Inr () \<longrightarrow> ds' = ds)"
proof (cases "TrimSpace uuid = [] \<or> ds = []")
  case True
  then have "acts [] w w'" "r \<noteq> Inr ()"
    using assms(1,4) quiet_run [OF quiet_uuid_info assms(1)]
    by (auto simp: RemoveRaidUUID_def Let_def fail_def bindE_def split: if_splits)
  then show ?thesis by (intro exI [of _ "[]"]) (simp add: acts_changes)
next
  case False
  have trimmed: "\<forall>t \<in> set mps'. TrimSpace t = t"
    by (rule findmnt_trimmed [OF assms(2) uuid_info_trimmed [OF assms(1)]])
  have idle: "removeViaKnownMounts h mps' w2 = (Inr False, w2)"
    using known_mounts_idle trimmed assms(3) by blast
  obtain r3 w3 where ens: "ensureFilesystemNotMounted h mps' w2 = (r3, w3)" by (metis prod.collapse)
  from not_mounted_unless [OF ens] assms(3) have ok: "ensureFilesystemNotMounted h mps' w2 = (Inr (), w2)"
    using ens by simp
  from assms False idle ok have "wipeDevicesByUUID h ds w2 = (r, w')"
    by (simp add: RemoveRaidUUID_def Let_def bindE_def)
  from wipe_by_uuid_acts [OF this] obtain ds' where
    "acts (map wipe_cmd ds') w2 w'" "subseq ds' ds" "r = Inr () \<longrightarrow> ds' = ds" by blast
  moreover have "acts [] w w2"
    using acts_trans [OF quiet_run [OF quiet_uuid_info assms(1)] quiet_run [OF quiet_findmnt assms(2)]] by simp
  ultimately show ?thesis using acts_trans [of "[]"] by (metis acts_changes append_Nil)
qed

subsection \<open>Adding, removing and replacing a device\<close>

text \<open>AddDiskToRaid wipes the signatures of a disk before it looks whether the disk is
  mounted: a mounted disk is refused, after it has been wiped.\<close>

theorem add_disk_wipes_a_mounted_disk:
  assumes "doesDiskExist (base h) d w"
    and "wipeDiskSignatures (base h) d w = (Inr (), w1)" and "isMounted (base h) d w1"
  shows "AddDiskToRaid h d target w = (Inl (DiskMounted d), w1) \<and> changes w w1 = [wipe_cmd d]"
  using assms(1,3) acts_changes [OF wipeDiskSignatures_acts [OF assms(2)]] assms(2)
  by (simp add: AddDiskToRaid_def getW_def bindE_def fail_def)

lemma single_command:
  assumes "runCommand h desc args w = (r, w')" "args \<noteq> []" "\<not> query args"
  shows "changes w w' = [args]"
  using runCommand_acts(1) [OF assms(1,2)] assms(3) by (simp add: acts_changes)

text \<open>A device is removed only if it exists, its target is a mount point whose file system
  lists the device, and the file system has at least two devices; the only change is that removal.\<close>

theorem remove_disk_guarded:
  assumes "RemoveDisk h d target w = (r, w')" and "changes w w' \<noteq> []"
  shows "doesDiskExist (base h) d w \<and> isMountPoint (base h) target w \<and>
    changes w w' = [[''btrfs'', ''device'', ''remove'', d, target]] \<and>
    (\<exists>devs w1 stats w2. GetDisksFromRaid h target w = (Inr devs, w1) \<and> d \<in> set devs
       \<and> GetFileSystemStats h target w1 = (Inr stats, w2) \<and> 2 \<le> length stats)"
proof -
  let ?cmd = "[''btrfs'', ''device'', ''remove'', d, target]"
  have pre: "doesDiskExist (base h) d w" "isMountPoint (base h) target w"
    using assms by (auto simp: RemoveDisk_def getW_def bindE_def fail_def changes_def split: if_splits)
  with assms(1) have "bindE (GetDisksFromRaid h target) (\<lambda>devs.
      if d \<notin> set devs then fail (NotInFilesystem d target)
      else bindE (GetFileSystemStats h target) (\<lambda>stats. if length stats \<le> 1 then fail LastDisk
             else runCommand (base h) ''remove disk from raid'' ?cmd)) w = (r, w')"
    by (simp add: RemoveDisk_def getW_def bindE_def)
  then show ?thesis
  proof (cases rule: bindE_cases)
    case (1 e)
    with assms(2) acts_changes [OF quiet_run [OF quiet_disks 1(1)]] show ?thesis by simp
  next
    case (2 devs w1)
    note disks = 2(1) and quiet1 = quiet_run [OF quiet_disks 2(1)]
    have d: "d \<in> set devs"
      using 2(2) assms(2) acts_changes [OF quiet1] by (auto simp: fail_def split: if_splits)
    with 2(2) have "bindE (GetFileSystemStats h target) (\<lambda>stats. if length stats \<le> 1 then fail LastDisk
             else runCommand (base h) ''remove disk from raid'' ?cmd) w1 = (r, w')" by simp
    then show ?thesis
    proof (cases rule: bindE_cases)
      case (1 e)
      with assms(2) acts_changes [OF acts_trans [OF quiet1 quiet_run [OF quiet_stats 1(1)]]] show ?thesis by simp
    next
      case (2 stats w2)
      note quiet2 = acts_trans [OF quiet1 quiet_run [OF quiet_stats 2(1)]]
      have n: "2 \<le> length stats"
        using 2(2) assms(2) acts_changes [OF quiet2] by (auto simp: fail_def split: if_splits)
      with 2(2) have "runCommand (base h) ''remove disk from raid'' ?cmd w2 = (r, w')" by simp
      from acts_trans [OF quiet2 runCommand_acts(1) [OF this]]
      have "changes w w' = [?cmd]" by (simp add: acts_changes query_def numeral_3_eq_3)
      with pre disks d 2(1) n show ?thesis by blast
    qed
  qed
qed

subsection \<open>Names of profiles and devices\<close>

lemma find_raid_type:
  assumes "p \<in> {''single'', ''raid0'', ''raid1'', ''raid1c3'', ''raid1c4'', ''raid5'', ''raid6'', ''dup''}"
  shows "\<exists>t. find (\<lambda>r. sType r = p) raid_types = Some t \<and> 1 \<le> minDisks t \<and> sType t = p"
proof -
  have "p \<in> sType ` set raid_types" using assms by (simp add: raid_types_def) blast
  then obtain t where t: "find (\<lambda>r. sType r = p) raid_types = Some t"
    by (metis (mono_tags, lifting) find_None_iff imageE not_None_eq)
  moreover from t have "t \<in> set raid_types" "sType t = p" by (auto simp: find_Some_iff)
  moreover have "\<forall>t \<in> set raid_types. 1 \<le> minDisks t" by (simp add: raid_types_def)
  ultimately show ?thesis by blast
qed

lemma find_outside: "\<forall>r \<in> set xs. f r \<in> S \<Longrightarrow> p \<notin> S \<Longrightarrow> find (\<lambda>r. f r = p) xs = None"
  by (auto simp: find_None_iff)

lemma four_cases: "x = a \<or> x = b \<or> x \<in> A \<or> x \<notin> insert a (insert b A)"
  by auto

text \<open>The two places that read a RAID level agree: a non-empty level is accepted for creating
  a file system exactly when it is accepted for converting one, and then it is the data profile of
  the type that was found, up to the explicit spelling of raid1.\<close>

theorem raid_levels_agree:
  "(case convertStringToRaidType s of
      None \<Rightarrow> raidTypeToBtrfsProfile s = Inr [] \<or> raidTypeToBtrfsProfile s = Inl (UnsupportedProfile s)
    | Some rt \<Rightarrow> \<exists>p. raidTypeToBtrfsProfile s = Inr p \<and> p \<noteq> [] \<and> 1 \<le> minDisks rt
                   \<and> sType rt = (if p = ''raid1c2'' then ''raid1'' else p))"
proof -
  define rt where "rt = ToLower (TrimSpace s)"
  let ?A = "{''single'', ''raid0'', ''raid1'', ''raid1c3'', ''raid1c4'', ''raid5'', ''raid6'', ''dup''}"
  note conv = convertStringToRaidType_def [of s, unfolded Let_def, folded rt_def]
  note prof = raidTypeToBtrfsProfile_def [of s, unfolded Let_def, folded rt_def]
  from four_cases [of rt "[]" "''raid1c2''" ?A] show ?thesis
  proof (elim disjE)
    assume "rt = []"
    then show ?thesis by (simp add: conv prof)
  next
    assume "rt = ''raid1c2''"
    then show ?thesis by (simp add: conv prof raid_types_def)
  next
    assume rt: "rt \<in> ?A"
    then have rest: "rt \<noteq> []" "rt \<noteq> ''raid1c2''" "raidTypeToBtrfsProfile s = Inr rt"
      by (elim insertE emptyE; simp add: prof)+
    from rest(1,2) have "convertStringToRaidType s = find (\<lambda>r. sType r = rt) raid_types" by (simp add: conv)
    with find_raid_type [OF rt] rest show ?thesis by (elim exE conjE) simp
  next
    assume rt: "rt \<notin> insert [] (insert ''raid1c2'' ?A)"
    have "\<forall>r \<in> set raid_types. sType r \<in> insert [] (insert ''raid1c2'' ?A)" by (simp add: raid_types_def)
    from find_outside [OF this rt] have "find (\<lambda>r. sType r = rt) raid_types = None" .
    moreover from rt have "rt \<noteq> []" "rt \<noteq> ''raid1c2''" by simp_all
    ultimately have "convertStringToRaidType s = None" by (simp add: conv)
    moreover have "raidTypeToBtrfsProfile s = Inl (UnsupportedProfile s)" using rt by (simp add: prof)
    ultimately show ?thesis by simp
  qed
qed

text \<open>A device of the mount table belongs to a disk when it is the disk or one of its
  partitions: the name of the disk, an optional p, and a partition number.\<close>

theorem device_matches_iff:
  "deviceMatchesDisk device disk \<longleftrightarrow>
     device = disk \<or>
     (\<exists>n. n \<noteq> [] \<and> list_all is_digit n \<and> (device = disk @ n \<or> device = disk @ ''p'' @ n))"
proof (cases "HasPrefix device disk")
  case False
  then show ?thesis
    by (auto simp: deviceMatchesDisk_def)
next
  case True
  then obtain t where t: "device = disk @ t" by (auto simp: HasPrefix_iff)
  have p: "\<not> is_digit CHR ''p''" by (simp add: is_digit_def)
  show ?thesis
  proof (cases t)
    case Nil
    with t show ?thesis by (simp add: deviceMatchesDisk_def)
  next
    case (Cons c cs)
    with t p show ?thesis by (auto simp: deviceMatchesDisk_def Let_def)
  qed
qed

subsection \<open>Balancing\<close>

lemma optional_args:
  "a \<in> {x, y, z} \<union> set (if p then [f] else []) \<union> set (if q then [g, h] else [])
     \<union> set (if r then [i] else []) \<union> set (if t then [j] else []) \<Longrightarrow>
   a \<in> {x, y, z, f} \<or> a = g \<or> a = h \<or> a = i \<and> r \<or> a = j \<and> t"
  by (auto split: if_splits)

lemma balance_args:
  assumes "a \<in> set (butlast (balance_cmd req profile mp))"
  shows "a \<in> {''btrfs'', ''balance'', ''start'', ''-f''} \<or> a = ''-dconvert='' @ profile \<or> a = ''-mconvert='' @ profile
    \<or> a = ''-dusage='' @ Itoa (clampPercent (DataUsageMax req)) \<and> 0 < clampPercent (DataUsageMax req)
    \<or> a = ''-musage='' @ Itoa (clampPercent (MetadataUsageMax req)) \<and> 0 < clampPercent (MetadataUsageMax req)"
proof -
  have "set (butlast (balance_cmd req profile mp)) = {''btrfs'', ''balance'', ''start''}
      \<union> set (if BalForce req then [''-f''] else [])
      \<union> set (if profile \<noteq> [] then [''-dconvert='' @ profile, ''-mconvert='' @ profile] else [])
      \<union> set (if 0 < clampPercent (DataUsageMax req) then [''-dusage='' @ Itoa (clampPercent (DataUsageMax req))] else [])
      \<union> set (if 0 < clampPercent (MetadataUsageMax req) then [''-musage='' @ Itoa (clampPercent (MetadataUsageMax req))] else [])"
    unfolding balance_cmd_def Let_def append_assoc [symmetric] butlast_snoc set_append
    by (simp only: list.set)
  from assms [unfolded this] show ?thesis by (rule optional_args)
qed

text \<open>The usage filters of a balance are percentages from 1 to 100 or absent, whatever the
  request says: zero and negative values drop the filter, larger ones become 100.\<close>

theorem balance_usage_bounds:
  assumes "a \<in> set (butlast (balance_cmd req profile mp))"
    and "HasPrefix a ''-dusage='' \<or> HasPrefix a ''-musage=''"
  shows "\<exists>v. 1 \<le> v \<and> v \<le> 100 \<and>
    ((a = ''-dusage='' @ Itoa v \<and> v = min 100 (DataUsageMax req)) \<or>
     (a = ''-musage='' @ Itoa v \<and> v = min 100 (MetadataUsageMax req)))"
proof -
  have clamp: "0 < clampPercent x \<Longrightarrow> 1 \<le> clampPercent x \<and> clampPercent x \<le> 100 \<and> clampPercent x = min 100 x" for x
    by (auto simp: clampPercent_def split: if_splits)
  let ?usage = "a = ''-dusage='' @ Itoa (clampPercent (DataUsageMax req)) \<and> 0 < clampPercent (DataUsageMax req) \<or>
        a = ''-musage='' @ Itoa (clampPercent (MetadataUsageMax req)) \<and> 0 < clampPercent (MetadataUsageMax req)"
  from balance_args [OF assms(1)] consider
      "a \<in> {''btrfs'', ''balance'', ''start'', ''-f''}" | "a = ''-dconvert='' @ profile"
    | "a = ''-mconvert='' @ profile" | ?usage
    by blast
  then have ?usage
  proof cases
    case 1
    then show ?thesis using assms(2) by (elim insertE emptyE) (simp_all add: HasPrefix_def)
  qed (use assms(2) in \<open>simp_all add: HasPrefix_def\<close>)
  then show ?thesis using clamp by metis
qed

subsection \<open>Which requests wipe a disk\<close>

definition no_wipe :: "string list \<Rightarrow> bool" where
  "no_wipe argv \<longleftrightarrow> hd argv \<noteq> ''wipefs''"

lemma query_no_wipe: "query argv \<Longrightarrow> no_wipe argv"
  by (cases argv) (auto simp: query_def no_wipe_def)

lemma not_no_wipe [simp]: "\<not> no_wipe (wipe_cmd d)"
  by (simp add: no_wipe_def wipe_cmd_def)

lemma quiet_only_no_wipe: "acts [] w w' \<Longrightarrow> only_issues no_wipe w w'"
  by (auto simp: acts_def only_issues_def list_all_iff filter_empty_conv query_no_wipe)

lemma quiet_no_wipe: "steps (acts []) m \<Longrightarrow> steps (only_issues no_wipe) m"
  unfolding steps_def using quiet_only_no_wipe by blast

lemma changes_after_quiet: "acts [] w w1 \<Longrightarrow> extends w1 w' \<Longrightarrow> changes w w' = changes w1 w'"
  by (auto simp: acts_def changes_def extends_def)

lemmas keep_intro =
  steps_bindE [OF only_issues_order(2)] steps_bindR [OF only_issues_order(2)] steps_pure [OF only_issues_order(1)]
  steps_mapErr steps_if steps_case_sum steps_case_option

lemma keep_run: "no_wipe args \<Longrightarrow> steps (only_issues no_wipe) (runCommand h desc args)"
  unfolding runCommand_def by (intro keep_intro steps_only_exec)

lemma keep_valid [simp, intro]: "steps (only_issues no_wipe) (validateMountPoint h t)"
  unfolding validateMountPoint_def Let_def by (intro keep_intro) (auto split: stat_result.split intro: keep_intro)

lemma keep_devices [simp, intro]: "steps (only_issues no_wipe) (with_devices h t)"
  unfolding with_devices_def by (intro keep_intro quiet_no_wipe quiet_stats keep_valid)

lemma keep_mkdir: "steps (only_issues no_wipe) (mkdirAll h p)"
  by (auto simp: steps_def mkdirAll_def only_issues_def split: prod.split)

lemma keep_mount: "steps (only_issues no_wipe) (MountRaid h u m c)"
  unfolding MountRaid_def Let_def
  by (intro keep_intro keep_mkdir keep_run) (simp_all add: no_wipe_def mount_cmd_def)

lemma keep_umount: "steps (only_issues no_wipe) (UMountRaid h t f)"
  unfolding UMountRaid_def by (intro keep_run) (simp add: no_wipe_def umount_cmd_def)

lemma keep_remove_disk: "steps (only_issues no_wipe) (RemoveDisk h d t)"
  unfolding RemoveDisk_def
  by (intro keep_intro keep_run quiet_no_wipe quiet_disks quiet_stats) (simp add: no_wipe_def)

lemma keep_balance [simp, intro]: "steps (only_issues no_wipe) (BalanceRaid h req)"
  unfolding BalanceRaid_def case_prod_unfold
  by (intro keep_intro keep_run quiet_no_wipe [OF quiet_by_mount_point] keep_devices)
     (simp add: no_wipe_def balance_cmd_def Let_def)

lemma keep_replace: "steps (only_issues no_wipe) (ReplaceDisk h a b t)"
  unfolding ReplaceDisk_def case_prod_unfold
  by (intro keep_intro keep_run quiet_no_wipe quiet_disks keep_balance) (simp add: no_wipe_def replace_cmd_def)

lemma keep_level: "steps (only_issues no_wipe) (ChangeRaidLevel h t rt)"
  unfolding ChangeRaidLevel_def case_prod_unfold
  by (intro keep_intro keep_run keep_devices) (simp add: no_wipe_def)

lemma keep_action: "steps (only_issues no_wipe) (balance_action h v t)"
  unfolding balance_action_def by (intro keep_intro keep_run keep_valid) (simp add: no_wipe_def)

lemma keep_defrag: "steps (only_issues no_wipe) (Defragment h t r c)"
  unfolding Defragment_def Let_def by (intro keep_intro keep_run) (simp add: no_wipe_def)

lemma keep_scrub: "steps (only_issues no_wipe) (Scrub h t b)"
  unfolding Scrub_def case_prod_unfold by (intro keep_intro keep_run keep_devices) (simp add: no_wipe_def)

lemma keep_at: "(\<And>mp. steps (only_issues no_wipe) (m mp)) \<Longrightarrow> steps (only_issues no_wipe) (at_uuid h u m)"
  unfolding at_uuid_def by (intro keep_intro quiet_no_wipe [OF quiet_mount_of_uuid])

lemma keep_not_wiped:
  assumes "only_issues no_wipe w w'"
  shows "wipe_cmd d \<notin> set (changes w w')"
  using assms not_no_wipe [of d] by (fastforce simp: only_issues_def changes_def list_all_iff)

lemma add_extends: "steps extends (AddDiskToRaid h d t)"
  unfolding AddDiskToRaid_def wipeDiskSignatures_def runCommand_def
  by (intro steps_bindE [OF extends_order(2)] steps_pure [OF extends_order(1)] steps_if steps_exec)

lemma wiped_by_add:
  assumes "AddDiskToRaid h d0 t w = (r, w')" "wipe_cmd d \<in> set (changes w w')"
  shows "d = d0"
proof (cases "doesDiskExist (base h) d0 w")
  case False
  with assms show ?thesis by (auto simp: AddDiskToRaid_def getW_def bindE_def fail_def changes_def)
next
  case True
  obtain r1 w1 where wipe: "wipeDiskSignatures (base h) d0 w = (r1, w1)" by (metis prod.collapse)
  note first = wipeDiskSignatures_acts [OF wipe]
  let ?rest = "bindE (getW (isMounted (base h) d0)) (\<lambda>mounted.
              if mounted then fail (DiskMounted d0)
              else runCommand (base h) ''add disk to raid'' [''btrfs'', ''device'', ''add'', d0, t])"
  have "steps (only_issues no_wipe) ?rest" by (intro keep_intro keep_run) (simp add: no_wipe_def)
  moreover have "w' = w1 \<or> ?rest w1 = (r, w')"
    using assms(1) True wipe by (auto simp: AddDiskToRaid_def getW_def bindE_def split: sum.splits)
  ultimately have "only_issues no_wipe w1 w'"
    using stepsD only_issues_order(1) by (metis reflpE)
  then obtain new where new: "issued w' = issued w1 @ new" "\<forall>c \<in> set new. no_wipe c"
    by (auto simp: only_issues_def list_all_iff)
  from first obtain pre where pre: "issued w1 = issued w @ pre" "filter (\<lambda>c. \<not> query c) pre = [wipe_cmd d0]"
    by (auto simp: acts_def)
  have "changes w w' = wipe_cmd d0 # filter (\<lambda>c. \<not> query c) new"
    using new(1) pre by (simp add: changes_def)
  with assms(2) new(2) show ?thesis by (auto simp: wipe_cmd_def no_wipe_def)
qed

text \<open>C10: a disk is wiped only by a request to create a file system on it, to add it, or to
  remove a file system; mounting, unmounting, replacing, balancing, scrubbing and the other requests
  wipe no disk, on any host.\<close>

theorem wiped_disks_were_requested:
  assumes "handle h req w = (r, w')" and "wipe_cmd d \<in> set (changes w w')"
  shows "(\<exists>name raid disks. req = ReqCreate name raid disks \<and> d \<in> set disks) \<or>
    (\<exists>uuid. req = ReqAddDisk uuid d) \<or> (\<exists>uuid. req = ReqRemove uuid)"
proof -
  have no: "\<not> steps (only_issues no_wipe) (handle h req)"
    using assms stepsD keep_not_wiped by metis
  show ?thesis
  proof (cases req)
    case (ReqCreate name raid disks)
    with assms(1) obtain r1 where "CreateRaid h name (convertStringToRaidType raid) disks w = (r1, w')"
      by (auto simp: bindE_def ret_def split: prod.splits sum.splits)
    then have "d \<in> set disks"
    proof (cases rule: create_raid_cases)
      case (refused e)
      with assms(2) show ?thesis by (simp add: changes_def)
    next
      case (admitted rt cs)
      then have "wipe_cmd d \<in> set (map wipe_cmd disks @ [mkfs_cmd name rt disks])"
        using assms(2) set_mono_prefix by (fastforce simp: acts_changes)
      then show ?thesis by (auto simp: wipe_cmd_def mkfs_cmd_def)
    qed
    with ReqCreate show ?thesis by blast
  next
    case (ReqAddDisk uuid d0)
    with assms(1) have "bindE (GetMountPointFromUUID h uuid) (AddDiskToRaid h d0) w = (r, w')"
      by (simp add: at_uuid_def)
    then have "d = d0"
    proof (cases rule: bindE_cases)
      case (1 e)
      with assms(2) acts_changes [OF quiet_run [OF quiet_mount_of_uuid 1(1)]] show ?thesis by simp
    next
      case (2 mp w1)
      from changes_after_quiet [OF quiet_run [OF quiet_mount_of_uuid 2(1)] stepsD [OF add_extends 2(2)]]
      have "wipe_cmd d \<in> set (changes w1 w')" using assms(2) by simp
      then show ?thesis by (rule wiped_by_add [OF 2(2)])
    qed
    with ReqAddDisk show ?thesis by blast
  next
    case (ReqMount u t c)
    with no show ?thesis by (simp add: keep_intro keep_mount)
  next
    case (ReqChangeLevel u l)
    with no show ?thesis by (simp add: keep_at keep_level keep_intro split: option.split)
  qed (use no in \<open>simp_all add: keep_at keep_umount keep_remove_disk keep_replace keep_balance
         PauseBalance_def ResumeBalance_def CancelBalance_def keep_action keep_defrag keep_scrub\<close>)
qed

subsection \<open>Mounting\<close>

text \<open>A successful mount was tried plainly first; it is reported as degraded exactly when the
  plain attempt failed and the second one, with the option degraded, succeeded.  The point was free.\<close>

theorem mount_raid_outcome:
  assumes "MountRaid h uuid mp cmpr w = (Inr res, w')"
  shows "TrimSpace cmpr \<in> set validCompressions \<and>
    changes w w' = mount_cmd (TrimSpace uuid) (TrimSpace mp) (TrimSpace cmpr) [] #
      (if Degraded res then [mount_cmd (TrimSpace uuid) (TrimSpace mp) (TrimSpace cmpr) [''degraded'']] else []) \<and>
    (Degraded res \<longleftrightarrow> Problems res \<noteq> []) \<and>
    (\<exists>w0. mkdirAll (base h) (TrimSpace mp) w = (Inr (), w0) \<and> \<not> isMountPoint (base h) (TrimSpace mp) w0)"
proof -
  let ?u = "TrimSpace uuid" and ?m = "TrimSpace mp" and ?c = "TrimSpace cmpr"
  let ?cmd = "mount_cmd ?u ?m ?c"
  have ok: "?u \<noteq> []" "?m \<noteq> []" "?c \<in> set validCompressions"
    using assms by (auto simp: MountRaid_def Let_def fail_def split: if_splits)
  obtain r0 w0 where mk: "mkdirAll (base h) ?m w = (r0, w0)" by (metis prod.collapse)
  have r0: "r0 = Inr ()" and free: "\<not> isMountPoint (base h) ?m w0"
    using assms ok mk by (auto simp: MountRaid_def Let_def fail_def bindE_def getW_def split: if_splits sum.splits)
  have i0: "issued w0 = issued w" using mk by (auto simp: mkdirAll_def split: prod.splits)
  obtain r1 w1 where m1: "runCommand (base h) ''mounting raid'' (?cmd []) w0 = (r1, w1)" by (metis prod.collapse)
  obtain r2 w2 where m2: "runCommand (base h) ''mounting raid'' (?cmd [''degraded'']) w1 = (r2, w2)"
    by (metis prod.collapse)
  note a1 = runCommand_acts(1) [OF m1, simplified] and a2 = runCommand_acts(1) [OF m2, simplified]
  have a0: "acts [] w w0" using i0 by (simp add: acts_def)
  from assms ok mk r0 free m1 m2 have
    res: "(case r1 of Inr _ \<Rightarrow> res = \<lparr>Degraded = False, Problems = []\<rparr> \<and> w' = w1
           | Inl e \<Rightarrow> res = \<lparr>Degraded = True, Problems = [e]\<rparr> \<and> w' = w2)"
    by (auto simp: MountRaid_def Let_def fail_def ret_def bindE_def bindR_def getW_def split: sum.splits)
  show ?thesis
  proof (cases r1)
    case (Inl e)
    with res acts_changes [OF acts_trans [OF acts_trans [OF a0 a1] a2]] mk r0 free ok show ?thesis by simp
  next
    case (Inr u)
    with res acts_changes [OF acts_trans [OF a0 a1]] mk r0 free ok show ?thesis by simp
  qed
qed

subsection \<open>A concrete host\<close>

text \<open>
  Two disks hold a file system, mounted at \<open>/mnt/pool\<close> in the state \<open>True\<close>; \<open>/dev/sdd\<close> and
  \<open>/dev/sde\<close> are free.  A forced unmount and a \<open>findmnt\<close> behave as the tools do.
\<close>

definition demo_run :: "string list \<Rightarrow> bool \<Rightarrow> cmd_result \<times> bool" where
  "demo_run argv m =
     (let said = (\<lambda>t. \<lparr>Succeeded = True, Stdout = t, Stderr = [], Combined = t\<rparr>) in
      if argv ! 0 = ''umount'' then (said [], False)
      else if argv ! 0 = ''mount'' then (said [], True)
      else if take 2 argv = [''blkid'', ''-s''] \<and> argv ! 2 = ''UUID'' then (said ''77aa-01'', m)
      else if take 3 argv = [''btrfs'', ''filesystem'', ''show''] then
        (if length argv = 5 then \<lparr>Succeeded = False, Stdout = [], Stderr = [], Combined = []\<rparr>
         else said ''devid 1 path /dev/sdb'', m)
      else if argv ! 0 = ''findmnt'' \<and> m then (said ''/mnt/pool'', m)
      else (said [], m))"

definition demo_pool :: "bool btrfs_host" where
  "demo_pool =
     \<lparr>base = \<lparr>LookPath = \<lambda>p m. True, Geteuid = \<lambda>m. 0, RunProgram = demo_run,
              FileContent = \<lambda>p m. if p = ''/proc/mounts''
                then Some (if m then ''/dev/sdb /mnt/pool btrfs rw'' else ''/dev/sda1 / ext4 rw'') else None,
              DirEntries = \<lambda>p m. None,
              StatPath = \<lambda>p m. if p \<in> {''/dev/sdb'', ''/dev/sdc'', ''/dev/sdd'', ''/dev/sde''} then StatFile
                else if p = ''/mnt/pool'' then StatDir else StatMissing,
              MakeDirs = \<lambda>p m. (True, m)\<rparr>,
      DecodeStats = \<lambda>s. Some [\<lparr>Device = ''/dev/sdb'', DevID = 1\<rparr>, \<lparr>Device = ''/dev/sdc'', DevID = 2\<rparr>],
      DecodeDF = \<lambda>s. None,
      DecodeLsblk = \<lambda>s. Some
        [Lsblk ''sdb'' ''disk'' (Some ''btrfs'') (Some ''/dev/sdb'') None (Some ''/mnt/pool'') (Some ''77aa-01'') [],
         Lsblk ''sdc'' ''disk'' (Some ''btrfs'') (Some ''/dev/sdc'') None None (Some ''77aa-01'') []]\<rparr>"

definition demo_state :: "bool \<Rightarrow> bool world" where
  "demo_state m = \<lparr>machine = m, issued = []\<rparr>"

definition run_changes :: "('w, 'a) bact \<Rightarrow> 'w world \<Rightarrow> string list list" where
  "run_changes m w = changes w (snd (m w))"

lemma create_raid_guarded_witness:
  "\<exists>w'. CreateRaid demo_pool ''data'' (convertStringToRaidType ''RAID1'') [''/dev/sdd'', ''/dev/sde''] (demo_state True)
       = (Inr ''77aa-01'', w') \<and>
     changes (demo_state True) w' =
       [wipe_cmd ''/dev/sdd'', wipe_cmd ''/dev/sde'', mkfs_cmd ''data'' (raid_types ! 1) [''/dev/sdd'', ''/dev/sde'']]"
proof -
  have run: "fst (CreateRaid demo_pool ''data'' (convertStringToRaidType ''RAID1'') [''/dev/sdd'', ''/dev/sde''] (demo_state True))
      = Inr ''77aa-01''" by code_simp
  obtain r w' where eq: "CreateRaid demo_pool ''data'' (convertStringToRaidType ''RAID1'') [''/dev/sdd'', ''/dev/sde'']
      (demo_state True) = (r, w')" by (metis prod.collapse)
  have rt: "convertStringToRaidType ''RAID1'' = Some (raid_types ! 1)" by code_simp
  from create_raid_guarded [OF eq] eq run rt show ?thesis by auto
qed

lemma remove_raid_unmounts_first_witness:
  "\<exists>w'. RemoveRaid demo_pool ''/mnt/pool'' True (demo_state True) = (Inr (), w') \<and>
     changes (demo_state True) w' = [umount_cmd ''/mnt/pool'' True, wipe_cmd ''/dev/sdb'', wipe_cmd ''/dev/sdc'']"
proof -
  have run: "fst (RemoveRaid demo_pool ''/mnt/pool'' True (demo_state True)) = Inr ()" by code_simp
  have devs: "fst (GetDisksFromRaid demo_pool ''/mnt/pool'' (demo_state True)) = Inr [''/dev/sdb'', ''/dev/sdc'']"
    by code_simp
  obtain r w' where eq: "RemoveRaid demo_pool ''/mnt/pool'' True (demo_state True) = (r, w')" by (metis prod.collapse)
  from remove_raid_unmounts_first [OF eq] eq run devs show ?thesis by auto
qed

lemma remove_uuid_wipes_own_devices_witness:
  "\<exists>w'. RemoveRaidUUID demo_pool ''77AA-01 '' (demo_state False) = (Inr (), w') \<and>
     changes (demo_state False) w' = [wipe_cmd ''/dev/sdb'', wipe_cmd ''/dev/sdc'']"
proof -
  let ?w = "demo_state False" and ?u = "TrimSpace ''77AA-01 ''"
  have info: "fst (collectUUIDDeviceInfo demo_pool ?u ?w) = Inr ([''/dev/sdb'', ''/dev/sdc''], [''/mnt/pool''])"
    by code_simp
  obtain r1 w1 where i: "collectUUIDDeviceInfo demo_pool ?u ?w = (r1, w1)" by (metis prod.collapse)
  have mps: "fst (appendMountPointFromFindmnt demo_pool ?u [''/mnt/pool'']
      (snd (collectUUIDDeviceInfo demo_pool ?u ?w))) = Inr [''/mnt/pool'']" by code_simp
  obtain r2 w2 where m: "appendMountPointFromFindmnt demo_pool ?u [''/mnt/pool''] w1 = (r2, w2)" by (metis prod.collapse)
  have free: "\<not> isMountPoint (base demo_pool) ''/mnt/pool'' (snd (appendMountPointFromFindmnt demo_pool ?u [''/mnt/pool'']
      (snd (collectUUIDDeviceInfo demo_pool ?u ?w))))" by code_simp
  have run: "fst (RemoveRaidUUID demo_pool ''77AA-01 '' ?w) = Inr ()" by code_simp
  obtain r w' where eq: "RemoveRaidUUID demo_pool ''77AA-01 '' ?w = (r, w')" by (metis prod.collapse)
  have "collectUUIDDeviceInfo demo_pool ?u ?w = (Inr ([''/dev/sdb'', ''/dev/sdc''], [''/mnt/pool'']), w1)"
    using i info by simp
  moreover have "appendMountPointFromFindmnt demo_pool ?u [''/mnt/pool''] w1 = (Inr [''/mnt/pool''], w2)"
    using i m mps by simp
  moreover have "\<forall>t \<in> set [''/mnt/pool'']. \<not> isMountPoint (base demo_pool) t w2" using i m free by simp
  ultimately show ?thesis
    using remove_uuid_wipes_own_devices [OF _ _ _ eq] eq run by fastforce
qed

lemma add_disk_wipes_a_mounted_disk_witness:
  "\<exists>w1. AddDiskToRaid demo_pool ''/dev/sdb'' ''/mnt/pool'' (demo_state True) = (Inl (DiskMounted ''/dev/sdb''), w1)
     \<and> changes (demo_state True) w1 = [wipe_cmd ''/dev/sdb'']"
proof -
  obtain r w1 where eq: "wipeDiskSignatures (base demo_pool) ''/dev/sdb'' (demo_state True) = (r, w1)"
    by (metis prod.collapse)
  have "fst (wipeDiskSignatures (base demo_pool) ''/dev/sdb'' (demo_state True)) = Inr ()" by code_simp
  then have ok: "wipeDiskSignatures (base demo_pool) ''/dev/sdb'' (demo_state True) = (Inr (), w1)" using eq by simp
  have there: "doesDiskExist (base demo_pool) ''/dev/sdb'' (demo_state True)" by code_simp
  have "isMounted (base demo_pool) ''/dev/sdb'' (snd (wipeDiskSignatures (base demo_pool) ''/dev/sdb'' (demo_state True)))"
    by code_simp
  then have mounted: "isMounted (base demo_pool) ''/dev/sdb'' w1" using eq by simp
  from add_disk_wipes_a_mounted_disk [OF there ok mounted] show ?thesis by blast
qed

lemma remove_disk_guarded_witness:
  "\<exists>w'. RemoveDisk demo_pool ''/dev/sdc'' ''/mnt/pool'' (demo_state True) = (Inr (), w') \<and>
     changes (demo_state True) w' = [[''btrfs'', ''device'', ''remove'', ''/dev/sdc'', ''/mnt/pool'']]"
proof -
  let ?m = "RemoveDisk demo_pool ''/dev/sdc'' ''/mnt/pool''"
  have run: "fst (?m (demo_state True)) = Inr () \<and> run_changes (?m) (demo_state True) \<noteq> []" by code_simp
  obtain r w' where eq: "?m (demo_state True) = (r, w')" by (metis prod.collapse)
  from remove_disk_guarded [OF eq] eq run show ?thesis by (simp add: run_changes_def)
qed

lemma balance_usage_bounds_witness:
  "\<exists>v. 1 \<le> v \<and> v \<le> 100 \<and>
    (''-dusage=100'' = ''-dusage='' @ Itoa v \<and> v = min 100 250 \<or> ''-dusage=100'' = ''-musage='' @ Itoa v \<and> v = min 100 0)"
proof -
  let ?req = "\<lparr>BalMountPoint = ''/mnt/pool'', DataUsageMax = 250, MetadataUsageMax = 0, BalForce = False,
    ConvertToCurrentRaid = False\<rparr>"
  have "''-dusage=100'' \<in> set (butlast (balance_cmd ?req [] ''/mnt/pool''))" by code_simp
  moreover have "HasPrefix ''-dusage=100'' ''-dusage=''" by code_simp
  ultimately show ?thesis using balance_usage_bounds [of "''-dusage=100''" ?req "[]" "''/mnt/pool''"] by simp
qed

lemma wiped_disks_were_requested_witness:
  "wipe_cmd ''/dev/sdb'' \<in> set (run_changes (handle demo_pool (ReqAddDisk ''77aa-01'' ''/dev/sdb'')) (demo_state True)) \<and>
   (\<exists>uuid. ReqAddDisk ''77aa-01'' ''/dev/sdb'' = ReqAddDisk uuid ''/dev/sdb'')"
proof -
  let ?m = "handle demo_pool (ReqAddDisk ''77aa-01'' ''/dev/sdb'')"
  have wiped: "wipe_cmd ''/dev/sdb'' \<in> set (run_changes ?m (demo_state True))" by code_simp
  obtain r w' where eq: "?m (demo_state True) = (r, w')" by (metis prod.collapse)
  with wiped have "wipe_cmd ''/dev/sdb'' \<in> set (changes (demo_state True) w')" by (simp add: run_changes_def)
  from wiped_disks_were_requested [OF eq this] wiped show ?thesis by auto
qed

lemma mount_raid_outcome_witness:
  "\<exists>w'. MountRaid demo_pool ''77aa-01'' ''/mnt/new'' ''zstd:3'' (demo_state True) = (Inr \<lparr>Degraded = False, Problems = []\<rparr>, w') \<and>
     changes (demo_state True) w' =
       [[''mount'', ''-t'', ''btrfs'', ''-o'', ''compress=zstd:3'', ''-U'', ''77aa-01'', ''/mnt/new'']]"
proof -
  let ?m = "MountRaid demo_pool ''77aa-01'' ''/mnt/new'' ''zstd:3''"
  have run: "fst (?m (demo_state True)) = Inr \<lparr>Degraded = False, Problems = []\<rparr>" by code_simp
  have cmd: "mount_cmd (TrimSpace ''77aa-01'') (TrimSpace ''/mnt/new'') (TrimSpace ''zstd:3'') [] =
      [''mount'', ''-t'', ''btrfs'', ''-o'', ''compress=zstd:3'', ''-U'', ''77aa-01'', ''/mnt/new'']" by code_simp
  obtain w' where eq: "?m (demo_state True) = (Inr \<lparr>Degraded = False, Problems = []\<rparr>, w')"
    using run by (metis prod.collapse)
  from mount_raid_outcome [OF eq] eq cmd show ?thesis by simp
qed

end
