(* ===== verification/CpuFeatures.thy ===== *)
theory CpuFeatures
  imports Prelude
begin

text \<open>
  The CPU features that all hosts of a cluster share and those a VM must give up to be migrated
  between any of them: \<open>uniqueSorted\<close>, \<open>commLike\<close>, \<open>ClusterSafeFeatures\<close> and
  \<open>ClusterDisableList\<close> of \<open>master/services/virsh.go\<close>.
\<close>

subsection \<open>Definitions\<close>

text \<open>A map is filled with the trimmed, non-empty names and its keys are sorted.\<close>

definition trimmed :: "string list \<Rightarrow> string list" where
  "trimmed xs = filter (\<lambda>s. s \<noteq> []) (map TrimSpace xs)"

definition uniqueSorted :: "string list \<Rightarrow> string list" where
  "uniqueSorted xs = sort (remdups (trimmed xs))"

text \<open>The two-pointer loop over two sorted lists: only in the first, only in the second, in both.\<close>

fun commLike :: "string list \<Rightarrow> string list \<Rightarrow> string list \<times> string list \<times> string list" where
  "commLike [] ys = ([], ys, [])"
| "commLike xs [] = (xs, [], [])"
| "commLike (x # xs) (y # ys) =
     (if x = y then (case commLike xs ys of (a, b, c) \<Rightarrow> (a, b, x # c))
      else if x < y then (case commLike xs (y # ys) of (a, b, c) \<Rightarrow> (x # a, b, c))
      else (case commLike (x # xs) ys of (a, b, c) \<Rightarrow> (a, y # b, c)))"

fun safe_loop :: "string list \<Rightarrow> string list list \<Rightarrow> string list" where
  "safe_loop base [] = base"
| "safe_loop base (feats # rest) =
     (let common = snd (snd (commLike base (uniqueSorted feats)))
      in if common = [] then common else safe_loop common rest)"

definition ClusterSafeFeatures :: "string list list \<Rightarrow> string list" where
  "ClusterSafeFeatures all = (case all of [] \<Rightarrow> [] | feats # rest \<Rightarrow> safe_loop (uniqueSorted feats) rest)"

definition ClusterDisableList :: "string list list \<Rightarrow> string list" where
  "ClusterDisableList all =
     (let base = ClusterSafeFeatures all
      in sort (remdups (filter (\<lambda>f. f \<notin> set base) (concat (map trimmed all)))))"

subsection \<open>The merge\<close>

lemma uniqueSorted_sorted [simp]: "sorted_wrt (<) (uniqueSorted xs)"
  by (simp add: uniqueSorted_def strict_sorted_iff)

lemma set_uniqueSorted [simp]: "set (uniqueSorted xs) = set (trimmed xs)"
  by (simp add: uniqueSorted_def)

lemma commLike_sets:
  assumes "sorted_wrt (<) xs" "sorted_wrt (<) ys" "commLike xs ys = (a, b, c)"
  shows "set a = set xs - set ys \<and> set b = set ys - set xs \<and> set c = set xs \<inter> set ys"
  using assms
proof (induction xs ys arbitrary: a b c rule: commLike.induct)
  case (3 x xs y ys)
  consider "x = y" | "x < y" | "y < x" by (rule linorder_cases) auto
  then show ?case
  proof cases
    case 1
    obtain a' b' c' where r: "commLike xs ys = (a', b', c')" by (metis prod_cases3)
    have "x \<notin> set xs" "y \<notin> set ys" using "3.prems"(1,2) by auto
    moreover have "set a' = set xs - set ys \<and> set b' = set ys - set xs \<and> set c' = set xs \<inter> set ys"
      using "3.IH"(1) [OF 1 _ _ r] "3.prems"(1,2) by simp
    moreover have "a = a'" "b = b'" "c = x # c'" using "3.prems"(3) 1 r by auto
    ultimately show ?thesis using 1 by auto
  next
    case 2
    obtain a' b' c' where r: "commLike xs (y # ys) = (a', b', c')" by (metis prod_cases3)
    have "x \<notin> set (y # ys)" using "3.prems"(2) 2 by auto
    moreover have "x \<notin> set xs" using "3.prems"(1) by auto
    moreover have ne: "x \<noteq> y" using 2 by blast
    moreover from this have "set a' = set xs - set (y # ys) \<and> set b' = set (y # ys) - set xs \<and> set c' = set xs \<inter> set (y # ys)"
      using "3.IH"(2) [OF _ 2 _ _ r] "3.prems"(1,2) by simp
    moreover have "a = x # a'" "b = b'" "c = c'" using "3.prems"(3) 2 ne r by auto
    ultimately show ?thesis by auto
  next
    case 3
    obtain a' b' c' where r: "commLike (x # xs) ys = (a', b', c')" by (metis prod_cases3)
    have "y \<notin> set (x # xs)" using "3.prems"(1) 3 by auto
    moreover have "y \<notin> set ys" using "3.prems"(2) by auto
    moreover have ne: "x \<noteq> y" "\<not> x < y" using 3 by auto
    moreover have "set a' = set (x # xs) - set ys \<and> set b' = set ys - set (x # xs) \<and> set c' = set (x # xs) \<inter> set ys"
      using "3.IH"(3) [OF ne _ _ r] "3.prems"(1,2) by simp
    moreover have "a = a'" "b = y # b'" "c = c'" using "3.prems"(3) ne r by auto
    ultimately show ?thesis by auto
  qed
qed auto

lemma commLike_sorted:
  assumes "sorted_wrt (<) xs" "sorted_wrt (<) ys"
  shows "sorted_wrt (<) (snd (snd (commLike xs ys)))"
  using assms
proof (induction xs ys rule: commLike.induct)
  case (3 x xs y ys)
  obtain a b c where r: "commLike xs ys = (a, b, c)" by (metis prod_cases3)
  have "set c = set xs \<inter> set ys" using commLike_sets [OF _ _ r] "3.prems" by simp
  with 3 r show ?case by (auto split: prod.splits)
qed auto

lemma commLike_common:
  assumes "sorted_wrt (<) xs" "sorted_wrt (<) ys"
  shows "set (snd (snd (commLike xs ys))) = set xs \<inter> set ys"
  using commLike_sets [OF assms] by (metis prod.collapse)

lemma safe_loop_spec:
  assumes "sorted_wrt (<) base"
  shows "sorted_wrt (<) (safe_loop base rest) \<and>
    set (safe_loop base rest) = set base \<inter> (\<Inter>feats \<in> set rest. set (trimmed feats))"
  using assms
proof (induction base rest rule: safe_loop.induct)
  case (2 base feats rest)
  let ?c = "snd (snd (commLike base (uniqueSorted feats)))"
  have c: "set ?c = set base \<inter> set (trimmed feats)" "sorted_wrt (<) ?c"
    using commLike_common [OF "2.prems" uniqueSorted_sorted] commLike_sorted [OF "2.prems" uniqueSorted_sorted] by auto
  show ?case
  proof (cases "?c = []")
    case True
    with c show ?thesis by (auto simp: Let_def)
  next
    case False
    from "2.IH" [OF refl False c(2)] c(1) False show ?thesis by (auto simp: Let_def)
  qed
qed auto

subsection \<open>Properties\<close>

text \<open>The safe features are exactly those every host has, each once and in order; the features
  to disable are exactly those some host has and another has not.  So disabling them leaves every
  host with the same set.\<close>

theorem cluster_features_split:
  assumes "all \<noteq> []"
  shows "sorted_wrt (<) (ClusterSafeFeatures all) \<and> sorted_wrt (<) (ClusterDisableList all) \<and>
    set (ClusterSafeFeatures all) = (\<Inter>feats \<in> set all. set (trimmed feats)) \<and>
    (\<forall>feats \<in> set all. set (trimmed feats) - set (ClusterDisableList all) = set (ClusterSafeFeatures all)) \<and>
    set (ClusterSafeFeatures all) \<inter> set (ClusterDisableList all) = {}"
proof -
  from assms obtain f r where all: "all = f # r" by (auto simp: neq_Nil_conv)
  have safe: "sorted_wrt (<) (ClusterSafeFeatures all)"
    "set (ClusterSafeFeatures all) = (\<Inter>feats \<in> set all. set (trimmed feats))"
    using safe_loop_spec [of "uniqueSorted f" r] by (simp_all add: all ClusterSafeFeatures_def)
  have dis: "set (ClusterDisableList all) = (\<Union>feats \<in> set all. set (trimmed feats)) - set (ClusterSafeFeatures all)"
    by (auto simp: ClusterDisableList_def Let_def)
  have "sorted_wrt (<) (ClusterDisableList all)"
    by (simp add: ClusterDisableList_def Let_def strict_sorted_iff)
  with safe dis show ?thesis by auto
qed

lemma cluster_features_split_witness:
  "set (ClusterSafeFeatures [[''avx'', ''sse2''], ['' sse2 '', ''vmx'']]) = {''sse2''} \<and>
   ClusterDisableList [[''avx'', ''sse2''], ['' sse2 '', ''vmx'']] = [''avx'', ''vmx''] \<and>
   set (trimmed ['' sse2 '', ''vmx'']) - set [''avx'', ''vmx''] = {''sse2''}"
proof -
  have "ClusterSafeFeatures [[''avx'', ''sse2''], ['' sse2 '', ''vmx'']] = [''sse2'']"
    "ClusterDisableList [[''avx'', ''sse2''], ['' sse2 '', ''vmx'']] = [''avx'', ''vmx'']"
    by code_simp+
  with cluster_features_split [of "[[''avx'', ''sse2''], ['' sse2 '', ''vmx'']]"] show ?thesis by simp
qed

end
