(* ===== verification/Paths.thy ===== *)
theory Paths
  imports Prelude
begin

text \<open>
  File names: the part of Go's \<open>path/filepath\<close> that the code calls, on a system where \<open>/\<close> separates,
  and the test for one path being inside another that \<open>GetNfsByVM\<close> of
  \<open>master/services/virsh.go\<close> contains.
\<close>

subsection \<open>path/filepath\<close>

definition slash :: char where "slash = CHR ''/''"

definition clean_step :: "bool \<Rightarrow> string list \<Rightarrow> string \<Rightarrow> string list" where
  "clean_step rooted out c =
     (if c = [] \<or> c = ''.'' then out
      else if c = ''..'' then
        (if out \<noteq> [] \<and> last out \<noteq> ''..'' then butlast out else if rooted then out else out @ [''..''])
      else out @ [c])"

definition Clean :: "string \<Rightarrow> string" where
  "Clean p =
     (let rooted = (p \<noteq> [] \<and> hd p = slash);
          body = Join (foldl (clean_step rooted) [] (Split p slash)) [slash]
      in if rooted then slash # body else if body = [] then ''.'' else body)"

text \<open>Everything up to the last slash, cleaned; everything after it.\<close>

definition Dir :: "string \<Rightarrow> string" where
  "Dir p = Clean (rev (dropWhile (\<lambda>c. c \<noteq> slash) (rev p)))"

definition Base :: "string \<Rightarrow> string" where
  "Base p =
     (let q = rev (dropWhile (\<lambda>c. c = slash) (rev p)) in
      if p = [] then ''.'' else if q = [] then [slash] else last (Split q slash))"

definition isPathWithin :: "string \<Rightarrow> string \<Rightarrow> bool" where
  "isPathWithin path base =
     (if base = [] then False
      else if base = [slash] then HasPrefix path [slash]
      else if \<not> HasPrefix path base then False
      else if length path = length base then True
      else path ! length base = slash)"

subsection \<open>Plain absolute paths\<close>

text \<open>The absolute path of a list of names, and the names that need no cleaning.\<close>

definition plain_name :: "string \<Rightarrow> bool" where
  "plain_name n \<longleftrightarrow> n \<noteq> [] \<and> n \<noteq> ''.'' \<and> n \<noteq> ''..'' \<and> slash \<notin> set n"

definition abs_path :: "string list \<Rightarrow> string" where
  "abs_path ns = slash # Join ns [slash]"

lemma plain_step [simp]: "plain_name n \<Longrightarrow> clean_step rooted out n = out @ [n]"
  by (simp add: clean_step_def plain_name_def)

lemma clean_plain: "\<forall>n \<in> set ns. plain_name n \<Longrightarrow> foldl (clean_step rooted) out ns = out @ ns"
  by (induction ns arbitrary: out) auto

lemma Split_abs_path: "ns \<noteq> [] \<Longrightarrow> \<forall>n \<in> set ns. plain_name n \<Longrightarrow> Split (abs_path ns) slash = [] # ns"
  by (simp add: abs_path_def plain_name_def Split_Join)

lemma skip_empty [simp]: "clean_step rooted out [] = out"
  by (simp add: clean_step_def)

lemma Clean_abs_path:
  assumes "ns \<noteq> []" "\<forall>n \<in> set ns. plain_name n"
  shows "Clean (abs_path ns) = abs_path ns"
  using clean_plain [OF assms(2), of True "[]"] Split_abs_path [OF assms]
  by (simp add: Clean_def Let_def abs_path_def)

lemma Join_append: "xs \<noteq> [] \<Longrightarrow> ys \<noteq> [] \<Longrightarrow> Join (xs @ ys) sep = Join xs sep @ sep @ Join ys sep"
  by (induction xs sep rule: Join.induct) (auto simp: neq_Nil_conv)

lemma abs_path_snoc: "ns \<noteq> [] \<Longrightarrow> abs_path (ns @ [n]) = abs_path ns @ slash # n"
  by (simp add: abs_path_def Join_append)

lemma dropWhile_rev_no:
  "c \<notin> set n \<Longrightarrow> dropWhile (\<lambda>x. x \<noteq> c) (rev (p @ c # n)) = c # rev p"
proof -
  assume "c \<notin> set n"
  then have "dropWhile (\<lambda>x. x \<noteq> c) (rev n @ c # rev p) = c # rev p"
    by (subst dropWhile_append2) auto
  then show ?thesis by simp
qed

lemma Dir_child:
  assumes "ns \<noteq> []" "\<forall>n \<in> set ns. plain_name n" "slash \<notin> set f"
  shows "Dir (abs_path ns @ slash # f) = abs_path ns"
proof -
  have "Dir (abs_path ns @ slash # f) = Clean (abs_path ns @ [slash])"
    unfolding Dir_def dropWhile_rev_no [OF assms(3)] by simp
  moreover have "Split (abs_path ns @ [slash]) slash = [] # ns @ [[]]"
  proof -
    have "abs_path ns @ [slash] = abs_path (ns @ [[]])" using assms(1) by (simp add: abs_path_snoc)
    also have "Split \<dots> slash = [] # ns @ [[]]"
      using assms(2) by (subst abs_path_def) (simp add: Split_Join plain_name_def)
    finally show ?thesis .
  qed
  ultimately show ?thesis
    using clean_plain [OF assms(2), of True "[]"] by (simp add: Clean_def Let_def abs_path_def)
qed

lemma Base_abs_path:
  assumes "\<forall>n \<in> set ns. plain_name n" "plain_name n"
  shows "Base (abs_path (ns @ [n])) = n"
proof -
  have n: "n \<noteq> []" "slash \<notin> set n" using assms(2) by (auto simp: plain_name_def)
  have last: "abs_path (ns @ [n]) \<noteq> []" "last (abs_path (ns @ [n])) \<noteq> slash"
    using n by (cases "ns = []"; auto simp: abs_path_def Join_append; metis last_in_set)+
  then have q: "dropWhile (\<lambda>c. c = slash) (rev (abs_path (ns @ [n]))) = rev (abs_path (ns @ [n]))"
    by (intro dropWhile_hd_id) (simp add: hd_rev)
  have "Split (abs_path (ns @ [n])) slash = [] # ns @ [n]"
    using assms by (intro Split_abs_path) auto
  with last(1) q show ?thesis by (simp add: Base_def Let_def)
qed

lemma isPathWithin_iff:
  "base \<noteq> [] \<Longrightarrow> base \<noteq> [slash] \<Longrightarrow>
     isPathWithin path base \<longleftrightarrow> path = base \<or> (\<exists>rest. path = base @ slash # rest)"
proof -
  assume b: "base \<noteq> []" "base \<noteq> [slash]"
  show ?thesis
  proof (cases "HasPrefix path base")
    case False
    then have "path \<noteq> base @ t" for t by auto
    from this [of "[]"] this [of "slash # rest" for rest] False b show ?thesis by (simp add: isPathWithin_def)
  next
    case True
    then obtain t where "path = base @ t" by (auto simp: HasPrefix_iff)
    then show ?thesis using b by (cases t) (auto simp: isPathWithin_def HasPrefix_def)
  qed
qed

end
