(* ===== verification/Clock.thy ===== *)
theory Clock
  imports Numbers
begin

text \<open>
  Times of day and moments: \<open>Clock\<close> of \<open>master/db/virshBackups.go\<close>, with the window test of the
  backup loop and of its SQL query, and the time stamps that \<open>master/services/virshBackups.go\<close>
  writes and reads.
\<close>

subsection \<open>Times of day\<close>

datatype Clock = Clock (Hours: int) (Minutes: int)

text \<open>Clocks in the order of the day.\<close>

instantiation Clock :: linorder
begin

definition less_eq_Clock :: "Clock \<Rightarrow> Clock \<Rightarrow> bool" where
  "less_eq_Clock a b \<longleftrightarrow> Hours a < Hours b \<or> Hours a = Hours b \<and> Minutes a \<le> Minutes b"

definition less_Clock :: "Clock \<Rightarrow> Clock \<Rightarrow> bool" where
  "less_Clock a b \<longleftrightarrow> Hours a < Hours b \<or> Hours a = Hours b \<and> Minutes a < Minutes b"

instance
  by standard (auto simp: less_eq_Clock_def less_Clock_def Clock.expand)

end

text \<open>\<open>%02d\<close>; a sign counts for the width.\<close>

definition fmt02 :: "int \<Rightarrow> string" where
  "fmt02 i = (if i < 0 then Itoa i else pad_left 2 (Itoa i))"

definition clock_string :: "Clock \<Rightarrow> string" where
  "clock_string c = fmt02 (Hours c) @ CHR '':'' # fmt02 (Minutes c)"

datatype clock_error = InvalidHourError int | InvalidMinuteError int

definition Validate :: "Clock \<Rightarrow> clock_error option" where
  "Validate c =
     (if Hours c < 0 \<or> Hours c > 23 then Some (InvalidHourError (Hours c))
      else if Minutes c < 0 \<or> Minutes c > 59 then Some (InvalidMinuteError (Minutes c))
      else None)"

definition minute_of :: "Clock \<Rightarrow> int" where
  "minute_of c = wrap64 (wrap64 (Hours c * 60) + Minutes c)"

definition IsBetween :: "Clock \<Rightarrow> Clock \<Rightarrow> Clock \<Rightarrow> bool" where
  "IsBetween c lo hi =
     (let current = minute_of c; minMinutes = minute_of lo; maxMinutes = minute_of hi in
      if maxMinutes < minMinutes then minMinutes \<le> current \<or> current \<le> maxMinutes
      else minMinutes \<le> current \<and> current \<le> maxMinutes)"

text \<open>
  \<open>%d\<close> of \<open>fmt.Sscanf\<close>: white space up to a newline, which is an error, a sign and digits.  The
  result is the number and the rest of the text.
\<close>

fun skip_space :: "string \<Rightarrow> string option" where
  "skip_space [] = Some []"
| "skip_space (c # cs) =
     (if c = CHR 0x0D \<and> HasPrefix cs [CHR 0x0A] then skip_space (tl cs)
      else if c = CHR 0x0A then None
      else if is_space c then skip_space cs else Some (c # cs))"

definition scan_int :: "string \<Rightarrow> (int \<times> string) option" where
  "scan_int s =
     (case skip_space s of
        None \<Rightarrow> None
      | Some t \<Rightarrow>
          let sign = takeWhile (\<lambda>c. c = CHR ''-'' \<or> c = CHR ''+'') (take 1 t);
              u = drop (length sign) t;
              ds = takeWhile is_digit u
          in if ds = [] then None
             else map_option (\<lambda>i. (i, drop (length ds) u)) (Atoi (sign @ ds)))"

text \<open>\<open>ParseClock\<close>, with what it has read when the text is not a clock, as its callers use it.\<close>

definition ParseClock :: "string \<Rightarrow> Clock \<times> bool" where
  "ParseClock s =
     (case scan_int s of
        None \<Rightarrow> (Clock 0 0, False)
      | Some (h, t) \<Rightarrow>
          (case t of
             [] \<Rightarrow> (Clock h 0, False)
           | c # u \<Rightarrow>
               if c \<noteq> CHR '':'' then (Clock h 0, False)
               else case scan_int u of
                   None \<Rightarrow> (Clock h 0, False)
                 | Some (m, _) \<Rightarrow> (Clock h m, True)))"

text \<open>The condition of \<open>GetEnabledAutomaticBackupsAt\<close> on the text of the columns.\<close>

definition sql_window :: "string \<Rightarrow> string \<Rightarrow> string \<Rightarrow> bool" where
  "sql_window clock min_time max_time \<longleftrightarrow>
     (min_time \<le> max_time \<and> min_time \<le> clock \<and> clock \<le> max_time) \<or>
     (max_time < min_time \<and> (min_time \<le> clock \<or> clock \<le> max_time))"

text \<open>
  \<open>calculateWindowDuration\<close>: the distance of two clocks of today, in nanoseconds.  The moment at
  which a clock shows today in the local zone is a parameter.
\<close>

definition nanos :: int where "nanos = 1000000000"

definition day_nanos :: int where "day_nanos = 86400 * nanos"

definition calculateWindowDuration :: "(Clock \<Rightarrow> int) \<Rightarrow> Clock \<Rightarrow> Clock \<Rightarrow> int" where
  "calculateWindowDuration today lo hi =
     (let duration = today hi - today lo in if duration \<le> 0 then duration + day_nanos else duration)"

subsection \<open>Moments\<close>

text \<open>A moment as a UTC date and time; its distance from the start of year 0 in nanoseconds.\<close>

record civil =
  Year :: int
  Month :: int
  Day :: int
  Hour :: int
  Minute :: int
  Second :: int
  Nano :: int

definition leap :: "int \<Rightarrow> bool" where
  "leap y \<longleftrightarrow> y mod 4 = 0 \<and> (y mod 100 \<noteq> 0 \<or> y mod 400 = 0)"

definition days_in :: "int \<Rightarrow> int \<Rightarrow> int" where
  "days_in y m = (if m = 2 then (if leap y then 29 else 28) else if m \<in> {4, 6, 9, 11} then 30 else 31)"

fun days_before_month :: "int \<Rightarrow> nat \<Rightarrow> int" where
  "days_before_month y 0 = 0"
| "days_before_month y (Suc m) = days_before_month y m + (if m = 0 then 0 else days_in y (int m))"

definition days_of :: "int \<Rightarrow> int \<Rightarrow> int \<Rightarrow> int" where
  "days_of y m d =
     365 * y + (y + 3) div 4 - (y + 99) div 100 + (y + 399) div 400 + days_before_month y (nat m) + d - 1"

definition instant :: "civil \<Rightarrow> int" where
  "instant t =
     (((days_of (Year t) (Month t) (Day t) * 24 + Hour t) * 60 + Minute t) * 60 + Second t) * nanos + Nano t"

definition valid_civil :: "civil \<Rightarrow> bool" where
  "valid_civil t \<longleftrightarrow> 0 \<le> Year t \<and> Year t < 10000 \<and> 1 \<le> Month t \<and> Month t \<le> 12 \<and>
     1 \<le> Day t \<and> Day t \<le> days_in (Year t) (Month t) \<and> 0 \<le> Hour t \<and> Hour t < 24 \<and>
     0 \<le> Minute t \<and> Minute t < 60 \<and> 0 \<le> Second t \<and> Second t < 60 \<and> 0 \<le> Nano t \<and> Nano t < nanos"

definition fmt2 :: "int \<Rightarrow> string" where "fmt2 i = digits_fix 10 2 (nat i)"
definition fmt4 :: "int \<Rightarrow> string" where "fmt4 i = digits_fix 10 4 (nat i)"

text \<open>\<open>time.RFC3339\<close> of a UTC time; the text that \<open>CURRENT_TIMESTAMP\<close> gives in SQLite.\<close>

definition date_text :: "char \<Rightarrow> civil \<Rightarrow> string" where
  "date_text sep t =
     fmt4 (Year t) @ CHR ''-'' # fmt2 (Month t) @ CHR ''-'' # fmt2 (Day t) @ sep #
     fmt2 (Hour t) @ CHR '':'' # fmt2 (Minute t) @ CHR '':'' # fmt2 (Second t)"

definition format_rfc3339 :: "civil \<Rightarrow> string" where
  "format_rfc3339 t = date_text (CHR ''T'') t @ ''Z''"

definition sql_timestamp :: "civil \<Rightarrow> string" where
  "sql_timestamp t = date_text (CHR '' '') t"

subsection \<open>Parsing a time stamp\<close>

text \<open>The parts that \<open>time.Parse\<close> reads: a number of fixed width, a byte, an hour of one or two digits.\<close>

definition take_num :: "nat \<Rightarrow> string \<Rightarrow> (int \<times> string) option" where
  "take_num w s =
     (if length (take w s) = w \<and> list_all is_digit (take w s)
      then map_option (\<lambda>n. (int n, drop w s)) (read_base 10 0 (take w s)) else None)"

definition take_char :: "char \<Rightarrow> string \<Rightarrow> string option" where
  "take_char c s = (case s of [] \<Rightarrow> None | d # t \<Rightarrow> if d = c then Some t else None)"

definition take_hour :: "string \<Rightarrow> (int \<times> string) option" where
  "take_hour s = (case take_num 2 s of Some r \<Rightarrow> Some r | None \<Rightarrow> take_num 1 s)"

definition in_range :: "int \<Rightarrow> int \<Rightarrow> (int \<times> string) option \<Rightarrow> (int \<times> string) option" where
  "in_range lo hi r = (case r of Some (n, s) \<Rightarrow> if lo \<le> n \<and> n \<le> hi then Some (n, s) else None | None \<Rightarrow> None)"

text \<open>A fraction of a second is accepted after the seconds; digits after the ninth are dropped.\<close>

definition take_fraction :: "string \<Rightarrow> int \<times> string" where
  "take_fraction s =
     (case s of
        p # d # t \<Rightarrow>
          if (p = CHR ''.'' \<or> p = CHR '','') \<and> is_digit d then
            let ds = takeWhile is_digit (d # t); top = take 9 ds
            in (case read_base 10 0 top of Some n \<Rightarrow> int n * 10 ^ (9 - length top) | None \<Rightarrow> 0,
                drop (length ds) (d # t))
          else (0, s)
      | _ \<Rightarrow> (0, s))"

definition parse_date_text :: "char \<Rightarrow> string \<Rightarrow> (civil \<times> string) option" where
  "parse_date_text sep s =
     Option.bind (take_num 4 s) (\<lambda>(y, s).
     Option.bind (take_char (CHR ''-'') s) (\<lambda>s.
     Option.bind (in_range 1 12 (take_num 2 s)) (\<lambda>(mo, s).
     Option.bind (take_char (CHR ''-'') s) (\<lambda>s.
     Option.bind (take_num 2 s) (\<lambda>(d, s).
     Option.bind (take_char sep s) (\<lambda>s.
     Option.bind (in_range 0 23 (take_hour s)) (\<lambda>(h, s).
     Option.bind (take_char (CHR '':'') s) (\<lambda>s.
     Option.bind (in_range 0 59 (take_num 2 s)) (\<lambda>(mi, s).
     Option.bind (take_char (CHR '':'') s) (\<lambda>s.
     Option.bind (in_range 0 59 (take_num 2 s)) (\<lambda>(sec, s).
       (case take_fraction s of
          (ns, rest) \<Rightarrow>
            if 1 \<le> d \<and> d \<le> days_in y mo
            then Some (\<lparr>Year = y, Month = mo, Day = d, Hour = h, Minute = mi, Second = sec, Nano = ns\<rparr>, rest)
            else None))))))))))))"

text \<open>The offset of a zone in minutes.\<close>

definition parse_zone :: "string \<Rightarrow> int option" where
  "parse_zone s =
     (if s = ''Z'' then Some 0
      else case s of
          sg # t \<Rightarrow>
            Option.bind (in_range 0 24 (take_num 2 t)) (\<lambda>(h, t).
            Option.bind (take_char (CHR '':'') t) (\<lambda>t.
            Option.bind (in_range 0 60 (take_num 2 t)) (\<lambda>(m, t).
              if t \<noteq> [] then None
              else if sg = CHR ''+'' then Some (h * 60 + m)
              else if sg = CHR ''-'' then Some (- (h * 60 + m)) else None)))
        | [] \<Rightarrow> None)"

definition parse_rfc3339 :: "string \<Rightarrow> int option" where
  "parse_rfc3339 s =
     Option.bind (parse_date_text (CHR ''T'') s) (\<lambda>(t, rest).
       map_option (\<lambda>offset. instant t - offset * 60 * nanos) (parse_zone rest))"

definition parse_plain :: "string \<Rightarrow> int option" where
  "parse_plain s =
     Option.bind (parse_date_text (CHR '' '') s) (\<lambda>(t, rest). if rest = [] then Some (instant t) else None)"

definition parseBackupTimestamp :: "string \<Rightarrow> int option" where
  "parseBackupTimestamp value =
     (if value = [] then None
      else case parse_rfc3339 value of Some t \<Rightarrow> Some t | None \<Rightarrow> parse_plain value)"

subsection \<open>Clocks within a day\<close>

definition valid_clock :: "Clock \<Rightarrow> bool" where
  "valid_clock c \<longleftrightarrow> 0 \<le> Hours c \<and> Hours c < 24 \<and> 0 \<le> Minutes c \<and> Minutes c < 60"

lemma Validate_None [simp]: "Validate c = None \<longleftrightarrow> valid_clock c"
  by (auto simp: Validate_def valid_clock_def)

lemma wrap64_small: "- (2 ^ 62) \<le> i \<Longrightarrow> i < 2 ^ 62 \<Longrightarrow> wrap64 i = i"
  by (rule wrap64_id) (simp add: fits64_def max_int64_def min_int64_def)

lemma minute_of_valid: "valid_clock c \<Longrightarrow> minute_of c = Hours c * 60 + Minutes c"
  by (simp add: minute_of_def valid_clock_def wrap64_small)

lemma minute_of_order:
  assumes "valid_clock a" "valid_clock b"
  shows "minute_of a \<le> minute_of b \<longleftrightarrow> a \<le> b" "minute_of a < minute_of b \<longleftrightarrow> a < b"
  using assms
  by (auto simp: minute_of_valid less_eq_Clock_def less_Clock_def valid_clock_def)

text \<open>Digits of a fixed width compare as text the way the numbers compare.\<close>

lemma snoc_less:
  fixes x y :: "'a::linorder"
  shows "length xs = length ys \<Longrightarrow> xs @ [x] < ys @ [y] \<longleftrightarrow> xs < ys \<or> xs = ys \<and> x < y"
  by (induction xs ys rule: list_induct2) auto

lemma append_less:
  fixes xs ys :: "'a::linorder list"
  shows "length xs = length ys \<Longrightarrow> xs @ us < ys @ vs \<longleftrightarrow> xs < ys \<or> xs = ys \<and> us < vs"
  by (induction xs ys rule: list_induct2) auto

lemma div_mod_less: "n < m \<longleftrightarrow> n div 10 < m div 10 \<or> n div 10 = m div 10 \<and> n mod 10 < m mod 10" for n m :: nat
proof (cases "n div 10 = m div 10")
  case True
  with mult_div_mod_eq [of 10 n] mult_div_mod_eq [of 10 m] show ?thesis by linarith
next
  case False
  then show ?thesis
    using mult_div_mod_eq [of 10 n] mult_div_mod_eq [of 10 m] mod_less_divisor [of 10 n] mod_less_divisor [of 10 m]
    by linarith
qed

lemma digit_char_less: "d < 10 \<Longrightarrow> e < 10 \<Longrightarrow> digit_char d < digit_char e \<longleftrightarrow> d < e"
proof -
  have "\<forall>a \<in> set [0..<10]. \<forall>b \<in> set [0..<10]. digit_char a < digit_char b \<longleftrightarrow> a < b" by code_simp
  then show "d < 10 \<Longrightarrow> e < 10 \<Longrightarrow> ?thesis" by simp
qed

lemma digits_less:
  "n < 10 ^ w \<Longrightarrow> m < 10 ^ w \<Longrightarrow> digits_fix 10 w n < digits_fix 10 w m \<longleftrightarrow> n < m"
proof (induction w arbitrary: n m)
  case (Suc w)
  have less: "n div 10 < 10 ^ w" "m div 10 < 10 ^ w"
    using Suc.prems by (simp_all add: less_mult_imp_div_less mult.commute)
  have eq: "digits_fix 10 w (n div 10) = digits_fix 10 w (m div 10) \<longleftrightarrow> n div 10 = m div 10"
    using Suc.IH [OF less] Suc.IH [OF less(2,1)] by (metis less_irrefl not_less_iff_gr_or_eq)
  show ?case
    by (subst div_mod_less) (simp add: snoc_less Suc.IH [OF less] eq digit_char_less)
qed simp

lemma fmt02_digits: "0 \<le> i \<Longrightarrow> i < 100 \<Longrightarrow> fmt02 i = digits_fix 10 2 (nat i)"
  using pad_left_show_base [of 10 "nat i" 2] by (simp add: fmt02_def Itoa_def)

lemma digits_two_inj: "n < 100 \<Longrightarrow> m < 100 \<Longrightarrow> digits_fix 10 2 n = digits_fix 10 2 m \<longleftrightarrow> n = m"
  using digits_less [of n 2 m] digits_less [of m 2 n] by (auto simp: not_less_iff_gr_or_eq)

lemma clock_string_less:
  assumes "valid_clock a" "valid_clock b"
  shows "clock_string a < clock_string b \<longleftrightarrow> a < b"
proof -
  from assms have r: "0 \<le> Hours a" "Hours a < 100" "0 \<le> Minutes a" "Minutes a < 100"
    "0 \<le> Hours b" "Hours b < 100" "0 \<le> Minutes b" "Minutes b < 100" by (auto simp: valid_clock_def)
  then have "nat (Hours a) < 100" "nat (Hours b) < 100" "nat (Minutes a) < 100" "nat (Minutes b) < 100" by auto
  with r show ?thesis
    unfolding clock_string_def fmt02_digits [OF r(1,2)] fmt02_digits [OF r(3,4)]
      fmt02_digits [OF r(5,6)] fmt02_digits [OF r(7,8)]
    by (subst append_less, simp) (auto simp: digits_less digits_two_inj less_Clock_def simp del: digits_fix.simps)
qed

lemma clock_string_le:
  "valid_clock a \<Longrightarrow> valid_clock b \<Longrightarrow> clock_string a \<le> clock_string b \<longleftrightarrow> a \<le> b"
  using clock_string_less [of b a] by (auto simp: not_less [symmetric])

lemma digits_fix_digit: "\<forall>c \<in> set (digits_fix 10 w n). is_digit c"
  by (induction w arbitrary: n) auto

text \<open>What \<open>String\<close> prints is read back by \<open>ParseClock\<close>.\<close>

lemma skip_space_plain: "s = [] \<or> \<not> is_space (hd s) \<Longrightarrow> skip_space s = Some s"
  by (cases s) (auto simp: is_space_def)

lemma is_digit_plain: "is_digit c \<Longrightarrow> \<not> is_space c \<and> c \<noteq> CHR ''-'' \<and> c \<noteq> CHR ''+''"
  by (auto simp: is_digit_def is_space_def)

lemma Atoi_digits: "n < 10 ^ w \<Longrightarrow> 0 < w \<Longrightarrow> w \<le> 18 \<Longrightarrow> Atoi (digits_fix 10 w n) = Some (int n)"
proof -
  assume a: "n < 10 ^ w" "0 < w" "w \<le> 18"
  then obtain c cs where s: "digits_fix 10 w n = c # cs"
    by (metis length_digits_fix length_0_conv list.exhaust less_irrefl)
  then have "is_digit c" using digits_fix_digit [of w n] by simp
  then have "c \<noteq> CHR ''-'' \<and> c \<noteq> CHR ''+''" using is_digit_plain by blast
  moreover have "dec_val (c # cs) = Some n"
    using read_digits_fix [of 10 n w] a(1) s by (simp add: dec_val_def)
  moreover have "fits64 (int n)"
  proof -
    have "n < 10 ^ 18" using a by (meson le_less_trans less_le_trans not_le power_increasing one_le_numeral)
    then show ?thesis by (simp add: fits64_def min_int64_def max_int64_def)
  qed
  ultimately show ?thesis unfolding s by (simp add: Atoi_def)
qed

lemma takeWhile_digits:
  "s = [] \<or> \<not> is_digit (hd s) \<Longrightarrow> takeWhile is_digit (digits_fix 10 w n @ s) = digits_fix 10 w n"
  using digits_fix_digit [of w n] by (cases s) (auto simp: takeWhile_append)

lemma scan_int_digits:
  assumes "n < 100" "s = [] \<or> \<not> is_digit (hd s)"
  shows "scan_int (digits_fix 10 2 n @ s) = Some (int n, s)"
proof -
  obtain c cs where d: "digits_fix 10 2 n = c # cs"
    by (metis length_digits_fix length_0_conv list.exhaust zero_neq_numeral)
  then have c: "is_digit c" using digits_fix_digit [of 2 n] by simp
  have skip: "skip_space (digits_fix 10 2 n @ s) = Some (digits_fix 10 2 n @ s)"
    using is_digit_plain [OF c] by (intro skip_space_plain) (simp add: d)
  have sign: "takeWhile (\<lambda>c. c = CHR ''-'' \<or> c = CHR ''+'') (take 1 (digits_fix 10 2 n @ s)) = []"
    using is_digit_plain [OF c] by (simp add: d)
  show ?thesis
    unfolding scan_int_def skip option.case Let_def sign
    using takeWhile_digits [OF assms(2), of 2 n] Atoi_digits [of n 2] assms(1) d
    by (simp del: digits_fix.simps)
qed

lemma ParseClock_string: "valid_clock c \<Longrightarrow> ParseClock (clock_string c) = (c, True)"
proof -
  assume v: "valid_clock c"
  then have r: "0 \<le> Hours c" "Hours c < 100" "0 \<le> Minutes c" "Minutes c < 100" by (auto simp: valid_clock_def)
  have colon: "\<not> is_digit (CHR '':'')" by code_simp
  have "scan_int (fmt02 (Hours c) @ CHR '':'' # fmt02 (Minutes c)) = Some (Hours c, CHR '':'' # fmt02 (Minutes c))"
    using scan_int_digits [of "nat (Hours c)" "CHR '':'' # fmt02 (Minutes c)"] r colon
    by (simp add: fmt02_digits del: digits_fix.simps)
  moreover have "scan_int (fmt02 (Minutes c)) = Some (Minutes c, [])"
    using scan_int_digits [of "nat (Minutes c)" "[]"] r by (simp add: fmt02_digits del: digits_fix.simps)
  ultimately show ?thesis by (simp add: ParseClock_def clock_string_def)
qed

text \<open>C12: for clocks within a day, the SQL query selects a schedule exactly when the test that the loop
  repeats in Go holds, windows over midnight included.\<close>

theorem sql_window_is_IsBetween:
  assumes "valid_clock cur" "valid_clock lo" "valid_clock hi"
  shows "sql_window (clock_string cur) (clock_string lo) (clock_string hi) \<longleftrightarrow> IsBetween cur lo hi"
  unfolding sql_window_def IsBetween_def Let_def
  using assms by (auto simp: clock_string_le clock_string_less minute_of_order)

theorem sql_window_is_IsBetween_witness:
  "sql_window (clock_string (Clock 1 30)) (clock_string (Clock 22 0)) (clock_string (Clock 2 5)) \<and>
   IsBetween (Clock 1 30) (Clock 22 0) (Clock 2 5)"
  using sql_window_is_IsBetween [of "Clock 1 30" "Clock 22 0" "Clock 2 5"]
  by (simp add: valid_clock_def IsBetween_def minute_of_valid)

subsection \<open>Reading back what was written\<close>

lemma take_num_digits [simp]:
  assumes "n < 10 ^ w" "0 < w"
  shows "take_num w (digits_fix 10 w n @ s) = Some (int n, s)"
  using assms read_digits_fix [of 10 n w] by (simp add: take_num_def list_all_iff digits_fix_digit)

lemma take_fmt:
  "0 \<le> i \<Longrightarrow> i < 100 \<Longrightarrow> take_num 2 (fmt2 i @ s) = Some (i, s)"
  "0 \<le> i \<Longrightarrow> i < 10000 \<Longrightarrow> take_num 4 (fmt4 i @ s) = Some (i, s)"
  using take_num_digits [of "nat i" 2 s] take_num_digits [of "nat i" 4 s]
  by (simp_all add: fmt2_def fmt4_def del: take_num_digits digits_fix.simps)

lemma take_char_same [simp]: "take_char c (c # s) = Some s"
  by (simp add: take_char_def)

lemma parse_date_text_format:
  assumes "valid_civil t" "take_fraction s = (0, s)"
  shows "parse_date_text sep (date_text sep t @ s) = Some (t\<lparr>Nano := 0\<rparr>, s)"
proof -
  from assms(1) have r: "0 \<le> Year t" "Year t < 10000" "1 \<le> Month t" "Month t \<le> 12" "1 \<le> Day t"
    "Day t \<le> days_in (Year t) (Month t)" "0 \<le> Hour t" "Hour t < 24" "0 \<le> Minute t" "Minute t < 60"
    "0 \<le> Second t" "Second t < 60" unfolding valid_civil_def by auto
  then have "Day t < 100" by (auto simp: days_in_def split: if_splits)
  with r show ?thesis
    by (simp add: parse_date_text_def date_text_def take_fmt in_range_def take_hour_def assms(2))
qed

lemma parse_date_text_other:
  assumes "valid_civil t" "sep \<noteq> sep'"
  shows "parse_date_text sep (date_text sep' t @ s) = None"
proof -
  from assms(1) have r: "0 \<le> Year t" "Year t < 10000" "1 \<le> Month t" "Month t \<le> 12" "1 \<le> Day t"
    "Day t \<le> days_in (Year t) (Month t)" unfolding valid_civil_def by auto
  then have "Day t < 100" by (auto simp: days_in_def split: if_splits)
  with r assms(2) show ?thesis
    by (simp add: parse_date_text_def date_text_def take_fmt in_range_def take_char_def)
qed

lemma parse_zone_Z [simp]: "parse_zone ''Z'' = Some 0"
  by (simp add: parse_zone_def)

lemma take_fraction_end: "take_fraction [] = (0, [])" "take_fraction ''Z'' = (0, ''Z'')"
  by (simp_all add: take_fraction_def)

lemma date_text_nonempty [simp]: "date_text sep t \<noteq> []"
  by (simp add: date_text_def)

lemma drop_nano: "instant (t\<lparr>Nano := 0\<rparr>) = instant t - Nano t"
  by (simp add: instant_def)

lemma parse_written:
  "valid_civil t \<Longrightarrow> parseBackupTimestamp (format_rfc3339 t) = Some (instant t - Nano t)"
  using parse_date_text_format [OF _ take_fraction_end(2), of t "CHR ''T''"]
  by (simp add: parseBackupTimestamp_def format_rfc3339_def parse_rfc3339_def drop_nano)

text \<open>C13: the time stamp that a finished automatic backup is given reads back as the same second, and so
  does the one SQLite gives a backup's row.\<close>

theorem timestamp_roundtrip:
  assumes "valid_civil t"
  shows "parseBackupTimestamp (format_rfc3339 t) = Some (instant t - Nano t) \<and>
         parseBackupTimestamp (sql_timestamp t) = Some (instant t - Nano t)"
proof
  show "parseBackupTimestamp (format_rfc3339 t) = Some (instant t - Nano t)" by (rule parse_written [OF assms])
  have "parse_rfc3339 (date_text (CHR '' '') t) = None"
    using parse_date_text_other [OF assms, of "CHR ''T''" "CHR '' ''" "[]"] by (simp add: parse_rfc3339_def)
  then show "parseBackupTimestamp (sql_timestamp t) = Some (instant t - Nano t)"
    using parse_date_text_format [OF assms take_fraction_end(1), of "CHR '' ''"]
    by (simp add: parseBackupTimestamp_def sql_timestamp_def parse_plain_def drop_nano)
qed

theorem timestamp_roundtrip_witness:
  "parseBackupTimestamp (format_rfc3339 \<lparr>Year = 2024, Month = 2, Day = 29, Hour = 7, Minute = 5, Second = 59, Nano = 12\<rparr>) =
   Some (instant \<lparr>Year = 2024, Month = 2, Day = 29, Hour = 7, Minute = 5, Second = 59, Nano = 0\<rparr>)"
  using timestamp_roundtrip [of "\<lparr>Year = 2024, Month = 2, Day = 29, Hour = 7, Minute = 5, Second = 59, Nano = 12\<rparr>"]
  by (simp add: valid_civil_def days_in_def leap_def nanos_def instant_def)

end
