(* ===== verification/VmTemplates.thy ===== *)
theory VmTemplates
  imports Prelude
begin

text \<open>
  Templates for the definition of a VM: \<open>master/services/virsh_xml_templates.go\<close>.  A template is the
  XML text of a domain with the placeholders \<open>$qcow2\<close> and \<open>$name\<close>.  Go's \<open>encoding/xml\<close> is a
  parameter: it turns a text into tokens, tokens into a text, and reads the fields of a domain that
  the validation looks at.  The loop over the tokens is the code's.
\<close>

subsection \<open>Tokens\<close>

record xml_name =
  Space :: string
  LocalName :: string

datatype xml_token =
    StartElement xml_name "(xml_name \<times> string) list"
  | EndElement xml_name
  | CharData string
  | OtherToken string  \<comment> \<open>comments, processing instructions and directives\<close>

record domain_disk =
  TemplateDevice :: string
  TemplateDriver :: "string option"
  TemplateSource :: "string option"

record domain =
  RootName :: string
  DomainName :: string
  DomainDisks :: "domain_disk list"

record xml_lib =
  Unmarshal :: "string \<Rightarrow> domain option"
  Tokens :: "string \<Rightarrow> xml_token list option"
  Encode :: "xml_token list \<Rightarrow> string option"

datatype template_error =
    TemplateEmpty
  | InvalidDomain
  | NotADomain
  | NameMissing
  | DriverNotQcow2
  | NoPlaceholderDisk
  | TemplateVmName
  | TemplatePath
  | XmlParse
  | XmlEncode
  | NoWritableName
  | PlaceholderLeft

definition placeholder_qcow2 :: string where "placeholder_qcow2 = ''$qcow2''"
definition placeholder_name :: string where "placeholder_name = ''$name''"

subsection \<open>Validation\<close>

text \<open>The loop over the disks stops at the first one that has the placeholder.\<close>

fun check_disks :: "domain_disk list \<Rightarrow> template_error + unit" where
  "check_disks [] = Inl NoPlaceholderDisk"
| "check_disks (d # ds) =
     (let device = ToLower (TrimSpace (TemplateDevice d)) in
      if device \<noteq> [] \<and> device \<noteq> ''disk'' then check_disks ds
      else case TemplateSource d of
          None \<Rightarrow> check_disks ds
        | Some file \<Rightarrow>
            if \<not> Contains (TrimSpace file) placeholder_qcow2 then check_disks ds
            else
              let driverType = (case TemplateDriver d of None \<Rightarrow> [] | Some t \<Rightarrow> ToLower (TrimSpace t))
              in if driverType \<noteq> ''qcow2'' then Inl DriverNotQcow2 else Inr ())"

definition ValidateVMXMLTemplate :: "xml_lib \<Rightarrow> string \<Rightarrow> template_error + unit" where
  "ValidateVMXMLTemplate x content0 =
     (let content = TrimSpace content0 in
      if content = [] then Inl TemplateEmpty
      else case Unmarshal x content of
          None \<Rightarrow> Inl InvalidDomain
        | Some d \<Rightarrow>
            if \<not> EqualFold (RootName d) ''domain'' then Inl NotADomain
            else if TrimSpace (DomainName d) = [] then Inl NameMissing
            else check_disks (DomainDisks d))"

subsection \<open>Rendering\<close>

text \<open>
  \<open>strings.NewReplacer\<close> with the two placeholders: one pass from the left, replacements are not
  scanned again.  The first argument counts the characters of a placeholder still to be skipped.
\<close>

fun replace_from :: "nat \<Rightarrow> string \<Rightarrow> string \<Rightarrow> string \<Rightarrow> string" where
  "replace_from k path name [] = []"
| "replace_from (Suc k) path name (x # xs) = replace_from k path name xs"
| "replace_from 0 path name (x # xs) =
     (if HasPrefix (x # xs) placeholder_qcow2 then path @ replace_from 5 path name xs
      else if HasPrefix (x # xs) placeholder_name then name @ replace_from 4 path name xs
      else x # replace_from 0 path name xs)"

definition replaceVMXMLTemplatePlaceholders :: "string \<Rightarrow> string \<Rightarrow> string \<Rightarrow> string" where
  "replaceVMXMLTemplatePlaceholders path name s = replace_from 0 path name s"

record render_state =
  Depth :: nat
  SkipDepth :: nat
  InRootName :: bool
  WroteRootName :: bool
  WroteCurrent :: bool
  Out :: "xml_token list"

definition emit :: "xml_token \<Rightarrow> render_state \<Rightarrow> render_state" where
  "emit t r = r\<lparr>Out := Out r @ [t]\<rparr>"

definition render_step :: "string \<Rightarrow> string \<Rightarrow> render_state \<Rightarrow> xml_token \<Rightarrow> render_state" where
  "render_step path name r tok =
     (if 0 < SkipDepth r then
        (case tok of
           StartElement _ _ \<Rightarrow> r\<lparr>SkipDepth := SkipDepth r + 1\<rparr>
         | EndElement _ \<Rightarrow> r\<lparr>SkipDepth := SkipDepth r - 1\<rparr>
         | _ \<Rightarrow> r)
      else
        (case tok of
           StartElement n attrs \<Rightarrow>
             if Depth r = 1 \<and> EqualFold (LocalName n) ''uuid'' then r\<lparr>SkipDepth := 1\<rparr>
             else
               let attrs' = map (\<lambda>(a, v). (a, replaceVMXMLTemplatePlaceholders path name v)) attrs;
                   r1 = (if Depth r = 1 \<and> EqualFold (LocalName n) ''name''
                         then r\<lparr>InRootName := True, WroteCurrent := False\<rparr> else r)
               in (emit (StartElement n attrs') r1)\<lparr>Depth := Depth r + 1\<rparr>
         | EndElement n \<Rightarrow>
             let r1 = (if InRootName r \<and> Depth r = 2 \<and> EqualFold (LocalName n) ''name''
                       then r\<lparr>InRootName := False\<rparr> else r)
             in (emit (EndElement n) r1)\<lparr>Depth := Depth r - 1\<rparr>
         | CharData s \<Rightarrow>
             if InRootName r then
               (if WroteCurrent r then r
                else (emit (CharData name) r)\<lparr>WroteRootName := True, WroteCurrent := True\<rparr>)
             else emit (CharData (replaceVMXMLTemplatePlaceholders path name s)) r
         | OtherToken s \<Rightarrow> emit (OtherToken s) r))"

definition render_start :: render_state where
  "render_start = \<lparr>Depth = 0, SkipDepth = 0, InRootName = False, WroteRootName = False,
     WroteCurrent = False, Out = []\<rparr>"

definition render_tokens :: "string \<Rightarrow> string \<Rightarrow> xml_token list \<Rightarrow> render_state" where
  "render_tokens path name toks = foldl (render_step path name) render_start toks"

definition RenderVMXMLTemplate :: "xml_lib \<Rightarrow> string \<Rightarrow> string \<Rightarrow> string \<Rightarrow> template_error + string" where
  "RenderVMXMLTemplate x content vmName0 path0 =
     (case ValidateVMXMLTemplate x content of
        Inl e \<Rightarrow> Inl e
      | Inr _ \<Rightarrow>
          let vmName = TrimSpace vmName0; path = TrimSpace path0 in
          if vmName = [] then Inl TemplateVmName
          else if path = [] then Inl TemplatePath
          else case Tokens x content of
              None \<Rightarrow> Inl XmlParse
            | Some toks \<Rightarrow>
                let r = render_tokens path vmName toks in
                case Encode x (Out r) of
                    None \<Rightarrow> Inl XmlEncode
                  | Some out \<Rightarrow>
                      if \<not> WroteRootName r then Inl NoWritableName
                      else if Contains out placeholder_qcow2 then Inl PlaceholderLeft
                      else Inr out)"

subsection \<open>What is under the root element\<close>

text \<open>The start tags at depth one of a list of tokens that begins at a given depth.\<close>

fun at_depth_one :: "nat \<Rightarrow> xml_token list \<Rightarrow> xml_name list" where
  "at_depth_one d [] = []"
| "at_depth_one d (StartElement n attrs # ts) = (if d = 1 then n # at_depth_one 2 ts else at_depth_one (d + 1) ts)"
| "at_depth_one d (EndElement n # ts) = at_depth_one (d - 1) ts"
| "at_depth_one d (CharData s # ts) = at_depth_one d ts"
| "at_depth_one d (OtherToken s # ts) = at_depth_one d ts"

fun end_depth :: "nat \<Rightarrow> xml_token list \<Rightarrow> nat" where
  "end_depth d [] = d"
| "end_depth d (StartElement n attrs # ts) = end_depth (d + 1) ts"
| "end_depth d (EndElement n # ts) = end_depth (d - 1) ts"
| "end_depth d (CharData s # ts) = end_depth d ts"
| "end_depth d (OtherToken s # ts) = end_depth d ts"

lemma end_depth_append: "end_depth d (xs @ ys) = end_depth (end_depth d xs) ys"
  by (induction d xs rule: end_depth.induct) auto

lemma at_depth_one_append:
  "at_depth_one d (xs @ ys) = at_depth_one d xs @ at_depth_one (end_depth d xs) ys"
  by (induction d xs rule: end_depth.induct) (auto simp: numeral_2_eq_2)

text \<open>The invariant of the loop: the depth is that of what was written, which has no \<open>uuid\<close> under the root.\<close>

definition render_ok :: "render_state \<Rightarrow> bool" where
  "render_ok r \<longleftrightarrow> end_depth 0 (Out r) = Depth r \<and>
     (\<forall>n \<in> set (at_depth_one 0 (Out r)). \<not> EqualFold (LocalName n) ''uuid'')"

lemma render_step_ok: "render_ok r \<Longrightarrow> render_ok (render_step path name r tok)"
  unfolding render_ok_def render_step_def emit_def Let_def
  by (cases tok) (auto simp: end_depth_append at_depth_one_append split: if_split)

lemma render_tokens_ok: "render_ok (render_tokens path name toks)"
proof -
  have "render_ok r \<Longrightarrow> render_ok (foldl (render_step path name) r toks)" for r
    by (induction toks arbitrary: r) (auto intro: render_step_ok)
  moreover have "render_ok render_start" by (simp add: render_ok_def render_start_def)
  ultimately show ?thesis unfolding render_tokens_def .
qed

text \<open>Every text written under the name of the root is the name of the VM.\<close>

fun root_names :: "nat \<Rightarrow> bool \<Rightarrow> xml_token list \<Rightarrow> string list" where
  "root_names d inside [] = []"
| "root_names d inside (StartElement n attrs # ts) =
     root_names (d + 1) (inside \<or> (d = 1 \<and> EqualFold (LocalName n) ''name'')) ts"
| "root_names d inside (EndElement n # ts) =
     root_names (d - 1) (inside \<and> \<not> (d = 2 \<and> EqualFold (LocalName n) ''name'')) ts"
| "root_names d inside (CharData s # ts) =
     (if inside then s # root_names d inside ts else root_names d inside ts)"
| "root_names d inside (OtherToken s # ts) = root_names d inside ts"

fun end_inside :: "nat \<Rightarrow> bool \<Rightarrow> xml_token list \<Rightarrow> bool" where
  "end_inside d inside [] = inside"
| "end_inside d inside (StartElement n attrs # ts) =
     end_inside (d + 1) (inside \<or> (d = 1 \<and> EqualFold (LocalName n) ''name'')) ts"
| "end_inside d inside (EndElement n # ts) =
     end_inside (d - 1) (inside \<and> \<not> (d = 2 \<and> EqualFold (LocalName n) ''name'')) ts"
| "end_inside d inside (CharData s # ts) = end_inside d inside ts"
| "end_inside d inside (OtherToken s # ts) = end_inside d inside ts"

lemma end_inside_append: "end_inside d i (xs @ ys) = end_inside (end_depth d xs) (end_inside d i xs) ys"
  by (induction d i xs rule: end_inside.induct) auto

lemma root_names_append:
  "root_names d i (xs @ ys) = root_names d i xs @ root_names (end_depth d xs) (end_inside d i xs) ys"
  by (induction d i xs rule: end_inside.induct) auto

definition render_named :: "string \<Rightarrow> render_state \<Rightarrow> bool" where
  "render_named name r \<longleftrightarrow> end_depth 0 (Out r) = Depth r \<and> end_inside 0 False (Out r) = InRootName r \<and>
     set (root_names 0 False (Out r)) \<subseteq> {name} \<and> (WroteRootName r \<longrightarrow> root_names 0 False (Out r) \<noteq> [])"

lemma render_step_named: "render_named name r \<Longrightarrow> render_named name (render_step path name r tok)"
  unfolding render_named_def render_step_def emit_def Let_def
  by (cases tok) (auto simp: end_depth_append end_inside_append root_names_append split: if_split)

lemma render_tokens_named: "render_named name (render_tokens path name toks)"
proof -
  have "render_named name r \<Longrightarrow> render_named name (foldl (render_step path name) r toks)" for r
    by (induction toks arbitrary: r) (auto intro: render_step_named)
  moreover have "render_named name render_start" by (simp add: render_named_def render_start_def)
  ultimately show ?thesis unfolding render_tokens_def .
qed

text \<open>C11: a rendered template is the encoding of tokens that have no \<open>uuid\<close> element directly under the
  root, so that a VM never takes over the identity of the template, and whose text under the root's
  \<open>name\<close> is present and is always the name of the new VM; the text has no disk placeholder left.\<close>

theorem rendered_template_is_fresh:
  assumes "RenderVMXMLTemplate x content vmName path = Inr out"
  shows "\<exists>toks. Encode x toks = Some out \<and>
    (\<forall>n \<in> set (at_depth_one 0 toks). \<not> EqualFold (LocalName n) ''uuid'') \<and>
    root_names 0 False toks \<noteq> [] \<and> set (root_names 0 False toks) = {TrimSpace vmName} \<and>
    \<not> Contains out placeholder_qcow2"
proof -
  from assms obtain toks where "Encode x (Out (render_tokens (TrimSpace path) (TrimSpace vmName) toks)) = Some out"
    "WroteRootName (render_tokens (TrimSpace path) (TrimSpace vmName) toks)" "\<not> Contains out placeholder_qcow2"
    unfolding RenderVMXMLTemplate_def Let_def by (auto split: sum.splits option.splits if_split_asm)
  moreover note render_tokens_ok [of "TrimSpace path" "TrimSpace vmName" toks]
    render_tokens_named [of "TrimSpace vmName" "TrimSpace path" toks]
  ultimately show ?thesis
    unfolding render_ok_def render_named_def
    by (intro exI [of _ "Out (render_tokens (TrimSpace path) (TrimSpace vmName) toks)"])
      (auto simp: subset_singleton_iff)
qed

text \<open>A small XML library: start tags with their attributes, end tags and texts, written one after another.\<close>

definition demo_token :: "xml_token \<Rightarrow> string" where
  "demo_token t =
     (case t of
        StartElement n attrs \<Rightarrow>
          ''<'' @ LocalName n @ concat (map (\<lambda>(a, v). '' '' @ LocalName a @ ''='' @ v) attrs) @ ''>''
      | EndElement n \<Rightarrow> ''</'' @ LocalName n @ ''>''
      | CharData s \<Rightarrow> s
      | OtherToken s \<Rightarrow> s)"

definition demo_name :: "string \<Rightarrow> xml_name" where
  "demo_name n = \<lparr>Space = [], LocalName = n\<rparr>"

definition demo_template :: "xml_token list" where
  "demo_template =
     [StartElement (demo_name ''domain'') [],
      StartElement (demo_name ''name'') [], CharData ''old'', EndElement (demo_name ''name''),
      StartElement (demo_name ''uuid'') [], CharData ''1-2-3'', EndElement (demo_name ''uuid''),
      StartElement (demo_name ''disk'') [(demo_name ''file'', ''$qcow2'')], EndElement (demo_name ''disk''),
      EndElement (demo_name ''domain'')]"

definition demo_xml :: xml_lib where
  "demo_xml =
     \<lparr>Unmarshal = (\<lambda>_. Some \<lparr>RootName = ''domain'', DomainName = ''old'',
        DomainDisks = [\<lparr>TemplateDevice = ''disk'', TemplateDriver = Some ''qcow2'', TemplateSource = Some ''$qcow2''\<rparr>]\<rparr>),
      Tokens = (\<lambda>_. Some demo_template),
      Encode = (\<lambda>ts. Some (concat (map demo_token ts)))\<rparr>"

theorem rendered_template_is_fresh_witness:
  "\<exists>toks. concat (map demo_token toks) = ''<domain><name>web</name><disk file=/d/web.qcow2></disk></domain>'' \<and>
    filter (\<lambda>n. EqualFold (LocalName n) ''uuid'') (at_depth_one 0 toks) = [] \<and>
    set (root_names 0 False toks) = {''web''}"
proof -
  have "RenderVMXMLTemplate demo_xml ''<domain/>'' ''web'' ''/d/web.qcow2'' =
      Inr ''<domain><name>web</name><disk file=/d/web.qcow2></disk></domain>''"
    by code_simp
  from rendered_template_is_fresh [OF this] obtain toks where
    "Encode demo_xml toks = Some ''<domain><name>web</name><disk file=/d/web.qcow2></disk></domain>''"
    "\<forall>n \<in> set (at_depth_one 0 toks). \<not> EqualFold (LocalName n) ''uuid''"
    "set (root_names 0 False toks) = {TrimSpace ''web''}" by blast
  moreover have "TrimSpace ''web'' = ''web''" by code_simp
  ultimately show ?thesis by (intro exI [of _ toks]) (simp add: demo_xml_def filter_empty_conv)
qed

end
