(* ===== verification/MasterDB.thy ===== *)
theory MasterDB
  imports Registry Paths Clock VmTemplates
begin

text \<open>
  What the services of the master act on: the tables of \<open>master/db\<close>, the connected slaves
  (\<open>Registry\<close>), the calls they answer (\<open>master/nfs\<close>, \<open>master/virsh\<close>, \<open>master/vm_disk\<close>), and the file
  system of the master.  A table is the list of its rows in the order of insertion; a statement
  either fails, which changes nothing, or does what its SQL text says.
\<close>

subsection \<open>Rows\<close>

record NFSShare =
  ShareId :: int
  ShareMachine :: string
  ShareFolder :: string
  ShareSource :: string
  ShareTarget :: string
  ShareName :: string
  ShareHostMount :: bool

record VirshBackup =
  BakId :: int
  BakName :: string
  BakPath :: string
  BakNfsId :: int
  BakCreatedAt :: string
  BakAutomatic :: bool

text \<open>A row of \<open>automatic_backup\<close>; the times are text.\<close>

record auto_row =
  RowId :: int
  RowVm :: string
  RowFrequency :: int
  RowMin :: string
  RowMax :: string
  RowNfs :: int
  RowRetain :: int
  RowEnabled :: bool
  RowLast :: "string option"

record ISO =
  IsoId :: int
  IsoMachine :: string
  IsoPath :: string
  IsoName :: string

record AutoStartRow =
  StartId :: int
  StartVm :: string

record VMDisk =
  DiskId :: int
  DiskName :: string
  DiskNfs :: int
  DiskFile :: string
  DiskFolder :: string
  DiskFormat :: string
  DiskSizeGB :: int
  AttachedVm :: string
  AttachedMachine :: string

record VMXMLTemplate =
  TemplateId :: int
  TemplateName :: string
  TemplateXml :: string

record tables =
  nfs_shares :: "NFSShare list"
  virsh_backups :: "VirshBackup list"
  automatic_backup :: "auto_row list"
  isos :: "ISO list"
  vm_live :: "string list"
  auto_start :: "AutoStartRow list"
  vm_disks :: "VMDisk list"
  vm_xml_templates :: "VMXMLTemplate list"
  last_id :: int  \<comment> \<open>above every id handed out so far\<close>

definition no_tables :: tables where
  "no_tables = \<lparr>nfs_shares = [], virsh_backups = [], automatic_backup = [], isos = [], vm_live = [],
     auto_start = [], vm_disks = [], vm_xml_templates = [], last_id = 0\<rparr>"

subsection \<open>Slaves\<close>

datatype vm_state = VmRunning | VmShutoff | VmOther

record vm =
  VmName :: string
  VmMachine :: string
  VmState :: vm_state
  VmDiskPath :: string
  DefinedRam :: int
  DefinedCPUS :: int
  VmNetwork :: string
  VNCPassword :: string
  CPUXML :: string

text \<open>The request messages of \<open>CreateVm\<close> and \<open>ColdMigrateVm\<close>.\<close>

record CreateVmRequest =
  CreateName :: string
  CreateMemory :: int
  CreateVcpu :: int
  CreateFolder :: string
  CreateDisk :: string
  CreateSizeGB :: int
  CreateIso :: string
  CreateNetwork :: string
  CreateVnc :: string
  CreateCpuXml :: string
  CreateWindows :: bool

record ColdMigrationRequest =
  ReqName :: string
  ReqDisk :: string
  ReqMemory :: int
  ReqVCpus :: int
  ReqNetwork :: string
  ReqVnc :: string
  ReqCpuXml :: string
  ReqLive :: bool

record FolderMount =
  MountMachine :: string
  MountFolder :: string
  MountSource :: string
  MountTarget :: string
  MountHost :: bool

definition mount_of :: "NFSShare \<Rightarrow> FolderMount" where
  "mount_of s = \<lparr>MountMachine = ShareMachine s, MountFolder = ShareFolder s, MountSource = ShareSource s,
     MountTarget = ShareTarget s, MountHost = ShareHostMount s\<rparr>"

datatype rpc =
    GetVm string
  | GetVms
  | RemoveVm vm
  | Start vm
  | VmAction string vm
  | CreateShared FolderMount
  | RemoveShared FolderMount
  | MountShared FolderMount
  | UnmountShared FolderMount
  | SyncShared "FolderMount list"
  | SharedStatus FolderMount
  | SyncDisks
  | CanFind string
  | CheckRW string
  | CheckReadable string
  | Freeze vm
  | Unfreeze vm
  | AttachDisk string string string
  | DetachDisk string string string
  | CreateVmCall CreateVmRequest
  | ColdMigrateCall ColdMigrationRequest
  | UndefineVm vm
  | MigrateCall string string bool int
  | ForceShutdown vm
  | UpdateXml string string
  | CreateDiskCall string string int string
  | DeleteDiskCall string string
  | GrowDiskCall string string int
  | DownloadIso string string FolderMount

record VMDiskResponse =
  ResOk :: bool
  ResPath :: string
  ResFolder :: string
  ResFormat :: string
  ResSizeGB :: int

text \<open>
  What a call returns when it does not fail.  A call is answered by the constructor that belongs to
  its request; the calls read no other.
\<close>

datatype reply =
    Done
  | VmReply "vm option"
  | VmsReply "vm list"
  | Working bool
  | Found bool
  | Checked bool string
  | DiskReply VMDiskResponse

datatype fs_op =
    MadeDirs string
  | RemovedFile string
  | RemovedAll string
  | Copied string string
  | Chowned string int int
  | Chmodded string

text \<open>Work that a handler leaves to a goroutine before it returns.\<close>

datatype task =
    BackupTask vm VirshBackup
  | RestoreTask string string string ColdMigrationRequest int
  | MoveTask vm string string ColdMigrationRequest int bool
  | ColdTask grpc_conn vm string ColdMigrationRequest int
  | CloneTask vm string ColdMigrationRequest int
  | MigrateTask grpc_conn string string bool int
  | IsoTask grpc_conn string string string FolderMount

datatype remove_result = RemoveOk | RemoveMissing | RemoveFailed

subsection \<open>State and environment\<close>

text \<open>Errors, by what they are about; the payload is what the message names.\<close>

datatype vm_error =
    VmMissing string
  | VmNowhere string
  | VmExists string
  | VmNameRequired
  | SameName
  | NotShutoff string
  | NotOnMachine string string
  | LiveExists string
  | NotLive string
  | NoDiskPath string
  | ShareUnresolved string

datatype share_error =
    ShareMissing int
  | ShareUnknown string string
  | ShareNotMounted int
  | ShareNotWritable int string
  | HostMountShare
  | SameShare
  | SystemPath string
  | UsedByVms "string list"
  | UsedByIso string
  | UsedByBackups "string list"
  | UsedByAutoBackups "string list"

datatype sync_error =
    NoSlaves
  | NothingMountable "string list"
  | SomeMountsFailed "string list"
  | SyncFailed "string list" "string list"
  | NotWorking "string list"
  | NotReady
  | NoShortId

datatype backup_error =
    BackupMissing int
  | UnsafeDirectory string
  | NotABackupDirectory string
  | ClockError clock_error
  | WindowTooShort
  | FrequencyTooSmall
  | RetainTooSmall
  | AutoBackupMissing int
  | AlreadyEnabled
  | AlreadyDisabled

datatype disk_error =
    DiskMissing int
  | DiskAttached int string
  | DiskNotAttached int
  | DiskAttachedTo int string
  | DiskNameExists string
  | DiskCallFailed

datatype file_error =
    FileRemoveFailed string
  | DirRemoveFailed string
  | FolderExists string
  | MkdirFailed string
  | EmptyTarget int
  | TargetMissing string
  | TargetStatFailed string
  | TargetNotDir string
  | CopyFailed string
  | ChownFailed string
  | ChmodFailed string
  | BadQemuId

datatype lookup_error =
    NoMachine string
  | MachineRequired
  | SameMachine
  | IsoMissing int
  | TemplateMissing int
  | TemplateFailed template_error
  | BadNfsId

datatype svc_error =
    DbError string
  | RpcErr string
  | NilPanic
  | IndexPanic
  | NotConnected string
  | NotHealthy
  | Cancelled
  | VmErr vm_error
  | ShareErr share_error
  | SyncErr sync_error
  | BackupErr backup_error
  | DiskErr disk_error
  | FileErr file_error
  | LookupErr lookup_error
  | Both svc_error svc_error

record 'w menv =
  DbFails :: "'w \<Rightarrow> bool \<times> 'w"
  RpcCall :: "grpc_conn \<Rightarrow> rpc \<Rightarrow> 'w \<Rightarrow> (string + reply) \<times> 'w"
  ConnState :: "grpc_conn \<Rightarrow> 'w \<Rightarrow> conn_state"
  Pause :: "nat \<Rightarrow> ConnectionsStruct list \<Rightarrow> 'w \<Rightarrow> ConnectionsStruct list \<times> 'w"
  CtxDone :: "'w \<Rightarrow> bool"
  StartupTimeOverLoad :: nat
  StatM :: "string \<Rightarrow> 'w \<Rightarrow> stat_result"
  MkdirAllM :: "string \<Rightarrow> 'w \<Rightarrow> bool \<times> 'w"
  RemoveM :: "string \<Rightarrow> 'w \<Rightarrow> remove_result \<times> 'w"
  RemoveAllM :: "string \<Rightarrow> 'w \<Rightarrow> bool \<times> 'w"
  CopyM :: "string \<Rightarrow> string \<Rightarrow> 'w \<Rightarrow> bool \<times> 'w"
  RandomM :: "nat \<Rightarrow> 'w \<Rightarrow> nat option \<times> 'w"  \<comment> \<open>a number below the given one\<close>
  StateChanges :: "grpc_conn \<Rightarrow> nat \<Rightarrow> 'w \<Rightarrow> conn_state list \<times> 'w"  \<comment> \<open>within some seconds\<close>
  UUIDM :: "'w \<Rightarrow> string \<times> 'w"
  ChownM :: "string \<Rightarrow> int \<Rightarrow> int \<Rightarrow> 'w \<Rightarrow> bool \<times> 'w"
  ChmodM :: "string \<Rightarrow> 'w \<Rightarrow> bool \<times> 'w"
  NowM :: "'w \<Rightarrow> civil"
  LocalClock :: "'w \<Rightarrow> Clock"
  TodayM :: "'w \<Rightarrow> Clock \<Rightarrow> int"
  Xml :: xml_lib
  Qemu_UID :: string
  Qemu_GID :: string

record 'w mstate =
  tabs :: tables
  conns :: "ConnectionsStruct list"
  ext :: 'w
  sent :: "(grpc_conn \<times> rpc) list"
  fsops :: "fs_op list"
  tasks :: "task list"

type_synonym ('w, 'a) sact = "('w mstate, svc_error, 'a) act"

subsection \<open>Primitive actions\<close>

text \<open>A statement: it fails with its name, or changes the tables and returns a value.\<close>

definition dbdo :: "'w menv \<Rightarrow> string \<Rightarrow> (tables \<Rightarrow> 'a \<times> tables) \<Rightarrow> ('w, 'a) sact" where
  "dbdo e name stmt s =
     (case DbFails e (ext s) of
        (True, x) \<Rightarrow> (Inl (DbError name), s\<lparr>ext := x\<rparr>)
      | (False, x) \<Rightarrow> (case stmt (tabs s) of (v, t) \<Rightarrow> (Inr v, s\<lparr>ext := x, tabs := t\<rparr>)))"

definition dbget :: "'w menv \<Rightarrow> string \<Rightarrow> (tables \<Rightarrow> 'a) \<Rightarrow> ('w, 'a) sact" where
  "dbget e name q = dbdo e name (\<lambda>t. (q t, t))"

definition dbset :: "'w menv \<Rightarrow> string \<Rightarrow> (tables \<Rightarrow> tables) \<Rightarrow> ('w, unit) sact" where
  "dbset e name u = dbdo e name (\<lambda>t. ((), u t))"

text \<open>A call to a slave; its error is a text that the callers inspect.\<close>

definition call :: "'w menv \<Rightarrow> grpc_conn \<Rightarrow> rpc \<Rightarrow> ('w mstate, string, reply) act" where
  "call e c r s =
     (case RpcCall e c r (ext s) of (res, x) \<Rightarrow> (res, s\<lparr>ext := x, sent := sent s @ [(c, r)]\<rparr>))"

text \<open>A sleep; other goroutines may change the table of connections meanwhile.\<close>

definition pause :: "'w menv \<Rightarrow> nat \<Rightarrow> ('w mstate, 'e, unit) act" where
  "pause e n s = (case Pause e n (conns s) (ext s) of (cs, x) \<Rightarrow> (Inr (), s\<lparr>conns := cs, ext := x\<rparr>))"

text \<open>
  \<open>withRetry\<close> of \<open>master/nfs/nfs.go\<close>: up to three attempts, as long as the error is about a closing
  connection, after pauses of two and four seconds in which the connection may become ready.
\<close>

definition isConnectionClosingError :: "string \<Rightarrow> bool" where
  "isConnectionClosingError errStr \<longleftrightarrow>
     Contains errStr ''connection is closing'' \<or> Contains errStr ''client connection is closing'' \<or>
     Contains errStr ''transport is closing'' \<or> Contains errStr ''code = Canceled''"

fun retry_calls :: "nat \<Rightarrow> nat \<Rightarrow> string \<Rightarrow> 'w menv \<Rightarrow> grpc_conn \<Rightarrow> rpc \<Rightarrow> ('w mstate, string, reply) act" where
  "retry_calls 0 attempt lastErr e c r = fail (''operation failed after 3 retries: '' @ lastErr)"
| "retry_calls (Suc n) attempt lastErr e c r =
     bindE (if 0 < attempt then pause e (2 * attempt) else ret ()) (\<lambda>_.
     bindR (call e c r) (\<lambda>res. case res of
         Inr v \<Rightarrow> ret v
       | Inl m \<Rightarrow> if isConnectionClosingError m then retry_calls n (attempt + 1) m e c r else fail m))"

definition withRetry :: "'w menv \<Rightarrow> grpc_conn \<Rightarrow> rpc \<Rightarrow> ('w mstate, string, reply) act" where
  "withRetry e c r = retry_calls 3 0 [] e c r"

definition svc :: "('w mstate, string, 'a) act \<Rightarrow> ('w, 'a) sact" where
  "svc m = mapErr RpcErr m"

text \<open>\<open>CheckReadWrite\<close> and \<open>CheckFileReadable\<close>: an answer that is not ok is an error.\<close>

definition checked :: "'w menv \<Rightarrow> grpc_conn \<Rightarrow> rpc \<Rightarrow> string \<Rightarrow> ('w mstate, string, unit) act" where
  "checked e c r fallback =
     bindE (call e c r) (\<lambda>v. case v of
         Checked ok msg \<Rightarrow> if ok then ret () else fail (if msg \<noteq> [] then msg else fallback)
       | _ \<Rightarrow> fail fallback)"

definition CheckReadWrite :: "'w menv \<Rightarrow> grpc_conn \<Rightarrow> string \<Rightarrow> ('w mstate, string, unit) act" where
  "CheckReadWrite e c path = checked e c (CheckRW path) ''read/write check failed''"

definition CheckFileReadable :: "'w menv \<Rightarrow> grpc_conn \<Rightarrow> string \<Rightarrow> ('w mstate, string, unit) act" where
  "CheckFileReadable e c path = checked e c (CheckReadable path) ''file readable check failed''"

definition CanFindFileOrDir :: "'w menv \<Rightarrow> grpc_conn \<Rightarrow> string \<Rightarrow> ('w mstate, string, bool) act" where
  "CanFindFileOrDir e c path = bindE (call e c (CanFind path)) (\<lambda>v. ret (v = Found True))"

definition SyncSlave :: "'w menv \<Rightarrow> grpc_conn \<Rightarrow> ('w mstate, string, reply) act" where
  "SyncSlave e c = withRetry e c SyncDisks"

definition fsdo :: "fs_op \<Rightarrow> ('w mstate \<Rightarrow> 'a \<times> 'w) \<Rightarrow> ('w, 'a) sact" where
  "fsdo ev f s = (case f s of (v, x) \<Rightarrow> (Inr v, s\<lparr>ext := x, fsops := fsops s @ [ev]\<rparr>))"

definition mkdir_all :: "'w menv \<Rightarrow> string \<Rightarrow> ('w, bool) sact" where
  "mkdir_all e p = fsdo (MadeDirs p) (\<lambda>s. MkdirAllM e p (ext s))"

definition remove_file :: "'w menv \<Rightarrow> string \<Rightarrow> ('w, remove_result) sact" where
  "remove_file e p = fsdo (RemovedFile p) (\<lambda>s. RemoveM e p (ext s))"

definition remove_all :: "'w menv \<Rightarrow> string \<Rightarrow> ('w, bool) sact" where
  "remove_all e p = fsdo (RemovedAll p) (\<lambda>s. RemoveAllM e p (ext s))"

definition copy_file :: "'w menv \<Rightarrow> string \<Rightarrow> string \<Rightarrow> ('w, bool) sact" where
  "copy_file e src dst = fsdo (Copied src dst) (\<lambda>s. CopyM e src dst (ext s))"

definition chown_file :: "'w menv \<Rightarrow> string \<Rightarrow> int \<Rightarrow> int \<Rightarrow> ('w, bool) sact" where
  "chown_file e p u g = fsdo (Chowned p u g) (\<lambda>s. ChownM e p u g (ext s))"

definition chmod_file :: "'w menv \<Rightarrow> string \<Rightarrow> ('w, bool) sact" where
  "chmod_file e p = fsdo (Chmodded p) (\<lambda>s. ChmodM e p (ext s))"

definition stat :: "'w menv \<Rightarrow> string \<Rightarrow> ('w, stat_result) sact" where
  "stat e p = getW (\<lambda>s. StatM e p (ext s))"

text \<open>\<open>go func() { ... }()\<close>\<close>

definition spawn :: "task \<Rightarrow> ('w, unit) sact" where
  "spawn t = modW (\<lambda>s. s\<lparr>tasks := tasks s @ [t]\<rparr>)"

definition outside_value :: "('w \<Rightarrow> 'a \<times> 'w) \<Rightarrow> ('w, 'a) sact" where
  "outside_value f s = (case f (ext s) of (v, x) \<Rightarrow> (Inr v, s\<lparr>ext := x\<rparr>))"

subsection \<open>Statements\<close>

definition GetNFSShareByID :: "'w menv \<Rightarrow> int \<Rightarrow> ('w, NFSShare option) sact" where
  "GetNFSShareByID e i = dbget e ''GetNFSShareByID'' (\<lambda>t. find (\<lambda>s. ShareId s = i) (nfs_shares t))"

definition share_at :: "string \<Rightarrow> string \<Rightarrow> tables \<Rightarrow> NFSShare option" where
  "share_at m f t = find (\<lambda>s. ShareMachine s = m \<and> ShareFolder s = f) (nfs_shares t)"

text \<open>The table is unique in machine and folder: a second insertion fails.\<close>

definition AddNFSShare :: "'w menv \<Rightarrow> FolderMount \<Rightarrow> string \<Rightarrow> ('w, unit) sact" where
  "AddNFSShare e m name =
     bindE (dbdo e ''AddNFSShare'' (\<lambda>t.
       if share_at (MountMachine m) (MountFolder m) t \<noteq> None then (False, t)
       else (True, t\<lparr>last_id := last_id t + 1,
               nfs_shares := nfs_shares t @ [\<lparr>ShareId = last_id t + 1, ShareMachine = MountMachine m,
                 ShareFolder = MountFolder m, ShareSource = MountSource m, ShareTarget = MountTarget m,
                 ShareName = name, ShareHostMount = MountHost m\<rparr>]\<rparr>)))
       (\<lambda>ok. guardE ok (DbError ''AddNFSShare''))"

definition RemoveNFSShare :: "'w menv \<Rightarrow> string \<Rightarrow> string \<Rightarrow> ('w, unit) sact" where
  "RemoveNFSShare e m f = dbset e ''RemoveNFSShare''
     (\<lambda>t. t\<lparr>nfs_shares := filter (\<lambda>s. \<not> (ShareMachine s = m \<and> ShareFolder s = f)) (nfs_shares t)\<rparr>)"

definition DoesExistNFSShare :: "'w menv \<Rightarrow> string \<Rightarrow> string \<Rightarrow> ('w, bool) sact" where
  "DoesExistNFSShare e m f = dbget e ''DoesExistNFSShare'' (\<lambda>t. share_at m f t \<noteq> None)"

definition GetNFSShareByMachineAndFolder :: "'w menv \<Rightarrow> string \<Rightarrow> string \<Rightarrow> ('w, NFSShare option) sact" where
  "GetNFSShareByMachineAndFolder e m f = dbget e ''GetNFSShareByMachineAndFolder'' (share_at m f)"

text \<open>The identifiers of the table are never used twice.\<close>

definition InsertVirshBackup :: "'w menv \<Rightarrow> VirshBackup \<Rightarrow> ('w, unit) sact" where
  "InsertVirshBackup e b =
     bindE (getW (\<lambda>s. sql_timestamp (NowM e (ext s)))) (\<lambda>created.
       dbset e ''InsertVirshBackup'' (\<lambda>t. t\<lparr>last_id := last_id t + 1,
         virsh_backups := virsh_backups t @ [b\<lparr>BakId := last_id t + 1, BakCreatedAt := created\<rparr>]\<rparr>))"

definition GetVirshBackupsByNfsMountID :: "'w menv \<Rightarrow> int \<Rightarrow> ('w, VirshBackup list) sact" where
  "GetVirshBackupsByNfsMountID e i =
     dbget e ''GetVirshBackupsByNfsMountID'' (\<lambda>t. filter (\<lambda>b. BakNfsId b = i) (virsh_backups t))"

definition GetVirshBackupById :: "'w menv \<Rightarrow> int \<Rightarrow> ('w, VirshBackup option) sact" where
  "GetVirshBackupById e i = dbget e ''GetVirshBackupById'' (\<lambda>t. find (\<lambda>b. BakId b = i) (virsh_backups t))"

definition DeleteVirshBackupById :: "'w menv \<Rightarrow> int \<Rightarrow> ('w, unit) sact" where
  "DeleteVirshBackupById e i =
     dbset e ''DeleteVirshBackupById'' (\<lambda>t. t\<lparr>virsh_backups := filter (\<lambda>b. BakId b \<noteq> i) (virsh_backups t)\<rparr>)"

definition GetAutomaticBackupById :: "'w menv \<Rightarrow> int \<Rightarrow> ('w, auto_row option) sact" where
  "GetAutomaticBackupById e i =
     dbget e ''GetAutomaticBackupById'' (\<lambda>t. find (\<lambda>r. RowId r = i) (automatic_backup t))"

definition RemoveAutomaticBackupById :: "'w menv \<Rightarrow> int \<Rightarrow> ('w, unit) sact" where
  "RemoveAutomaticBackupById e i =
     dbset e ''RemoveAutomaticBackupById''
       (\<lambda>t. t\<lparr>automatic_backup := filter (\<lambda>r. RowId r \<noteq> i) (automatic_backup t)\<rparr>)"

definition update_auto :: "(auto_row \<Rightarrow> bool) \<Rightarrow> (auto_row \<Rightarrow> auto_row) \<Rightarrow> tables \<Rightarrow> tables" where
  "update_auto P f t = t\<lparr>automatic_backup := map (\<lambda>r. if P r then f r else r) (automatic_backup t)\<rparr>"

definition EnableAutomaticBackupById :: "'w menv \<Rightarrow> int \<Rightarrow> ('w, unit) sact" where
  "EnableAutomaticBackupById e i =
     dbset e ''EnableAutomaticBackupById'' (update_auto (\<lambda>r. RowId r = i) (\<lambda>r. r\<lparr>RowEnabled := True\<rparr>))"

definition DisableAutomaticBackupById :: "'w menv \<Rightarrow> int \<Rightarrow> ('w, unit) sact" where
  "DisableAutomaticBackupById e i =
     dbset e ''DisableAutomaticBackupById'' (update_auto (\<lambda>r. RowId r = i) (\<lambda>r. r\<lparr>RowEnabled := False\<rparr>))"

definition DoesVmLiveExist :: "'w menv \<Rightarrow> string \<Rightarrow> ('w, bool) sact" where
  "DoesVmLiveExist e n = dbget e ''DoesVmLiveExist'' (\<lambda>t. n \<in> set (vm_live t))"

text \<open>\<open>INSERT OR IGNORE\<close> into a table whose name is its key.\<close>

definition AddVmLive :: "'w menv \<Rightarrow> string \<Rightarrow> ('w, unit) sact" where
  "AddVmLive e n = dbset e ''AddVmLive'' (\<lambda>t. t\<lparr>vm_live := app_new (vm_live t) n\<rparr>)"

definition RemoveVmLive :: "'w menv \<Rightarrow> string \<Rightarrow> ('w, unit) sact" where
  "RemoveVmLive e n = dbset e ''RemoveVmLive'' (\<lambda>t. t\<lparr>vm_live := filter (\<lambda>m. m \<noteq> n) (vm_live t)\<rparr>)"

definition DoesAutoStartExist :: "'w menv \<Rightarrow> string \<Rightarrow> ('w, bool) sact" where
  "DoesAutoStartExist e n = dbget e ''DoesAutoStartExist'' (\<lambda>t. n \<in> StartVm ` set (auto_start t))"

text \<open>The name is unique: a second insertion fails.\<close>

definition AddAutoStart :: "'w menv \<Rightarrow> string \<Rightarrow> ('w, unit) sact" where
  "AddAutoStart e n =
     bindE (dbdo e ''AddAutoStart'' (\<lambda>t.
       if n \<in> StartVm ` set (auto_start t) then (False, t)
       else (True, t\<lparr>last_id := last_id t + 1,
               auto_start := auto_start t @ [\<lparr>StartId = last_id t + 1, StartVm = n\<rparr>]\<rparr>)))
       (\<lambda>ok. guardE ok (DbError ''AddAutoStart''))"

definition RemoveAutoStart :: "'w menv \<Rightarrow> string \<Rightarrow> ('w, unit) sact" where
  "RemoveAutoStart e n =
     dbset e ''RemoveAutoStart'' (\<lambda>t. t\<lparr>auto_start := filter (\<lambda>a. StartVm a \<noteq> n) (auto_start t)\<rparr>)"

definition RemoveAutomaticBackup :: "'w menv \<Rightarrow> string \<Rightarrow> ('w, unit) sact" where
  "RemoveAutomaticBackup e n =
     dbset e ''RemoveAutomaticBackup'' (\<lambda>t. t\<lparr>automatic_backup := filter (\<lambda>r. RowVm r \<noteq> n) (automatic_backup t)\<rparr>)"

definition update_disk :: "(VMDisk \<Rightarrow> bool) \<Rightarrow> (VMDisk \<Rightarrow> VMDisk) \<Rightarrow> tables \<Rightarrow> tables" where
  "update_disk P f t = t\<lparr>vm_disks := map (\<lambda>d. if P d then f d else d) (vm_disks t)\<rparr>"

definition detached :: "VMDisk \<Rightarrow> VMDisk" where
  "detached d = d\<lparr>AttachedVm := [], AttachedMachine := []\<rparr>"

definition GetVMDiskByID :: "'w menv \<Rightarrow> int \<Rightarrow> ('w, VMDisk option) sact" where
  "GetVMDiskByID e i = dbget e ''GetVMDiskByID'' (\<lambda>t. find (\<lambda>d. DiskId d = i) (vm_disks t))"

definition ClearVMDiskAttachmentsByVM :: "'w menv \<Rightarrow> string \<Rightarrow> ('w, unit) sact" where
  "ClearVMDiskAttachmentsByVM e n =
     dbset e ''ClearVMDiskAttachmentsByVM'' (update_disk (\<lambda>d. AttachedVm d = n) detached)"

definition ClearVMDiskAttachment :: "'w menv \<Rightarrow> int \<Rightarrow> ('w, unit) sact" where
  "ClearVMDiskAttachment e i = dbset e ''ClearVMDiskAttachment'' (update_disk (\<lambda>d. DiskId d = i) detached)"

text \<open>One conditional \<open>UPDATE\<close>: it takes a free disk and reports whether it did.\<close>

definition reserve :: "int \<Rightarrow> string \<Rightarrow> string \<Rightarrow> tables \<Rightarrow> bool \<times> tables" where
  "reserve i vmName machineName t =
     (let P = (\<lambda>d. DiskId d = i \<and> AttachedVm d = []) in
      (length (filter P (vm_disks t)) = 1,
       update_disk P (\<lambda>d. d\<lparr>AttachedVm := vmName, AttachedMachine := machineName\<rparr>) t))"

definition ReserveVMDiskAttachment :: "'w menv \<Rightarrow> int \<Rightarrow> string \<Rightarrow> string \<Rightarrow> ('w, bool) sact" where
  "ReserveVMDiskAttachment e i vmName machineName = dbdo e ''ReserveVMDiskAttachment'' (reserve i vmName machineName)"

definition GetVMDiskByAttachedVM :: "'w menv \<Rightarrow> string \<Rightarrow> ('w, VMDisk list) sact" where
  "GetVMDiskByAttachedVM e n =
     dbget e ''GetVMDiskByAttachedVM'' (\<lambda>t. rev (sort_key DiskId (filter (\<lambda>d. AttachedVm d = n) (vm_disks t))))"

definition DoesVMDiskNameExist :: "'w menv \<Rightarrow> string \<Rightarrow> ('w, bool) sact" where
  "DoesVMDiskNameExist e n = dbget e ''DoesVMDiskNameExist'' (\<lambda>t. n \<in> DiskName ` set (vm_disks t))"

text \<open>The name and the file are unique: a second insertion fails.\<close>

definition InsertVMDisk ::
  "'w menv \<Rightarrow> string \<Rightarrow> int \<Rightarrow> string \<Rightarrow> string \<Rightarrow> string \<Rightarrow> int \<Rightarrow> ('w, int) sact" where
  "InsertVMDisk e name nfs file folder fmt sizeGB =
     bindE (dbdo e ''AddVMDisk'' (\<lambda>t.
       if name \<in> DiskName ` set (vm_disks t) \<or> file \<in> DiskFile ` set (vm_disks t) then (None, t)
       else (Some (last_id t + 1), t\<lparr>last_id := last_id t + 1,
               vm_disks := vm_disks t @ [\<lparr>DiskId = last_id t + 1, DiskName = name, DiskNfs = nfs,
                 DiskFile = file, DiskFolder = folder, DiskFormat = fmt, DiskSizeGB = sizeGB,
                 AttachedVm = [], AttachedMachine = []\<rparr>]\<rparr>)))
       (\<lambda>r. case r of None \<Rightarrow> fail (DbError ''AddVMDisk'') | Some i \<Rightarrow> ret i)"

definition UpdateVMDiskSize :: "'w menv \<Rightarrow> int \<Rightarrow> int \<Rightarrow> ('w, unit) sact" where
  "UpdateVMDiskSize e i sizeGB = dbset e ''UpdateVMDiskSize'' (update_disk (\<lambda>d. DiskId d = i) (\<lambda>d. d\<lparr>DiskSizeGB := sizeGB\<rparr>))"

definition RemoveVMDiskByID :: "'w menv \<Rightarrow> int \<Rightarrow> ('w, unit) sact" where
  "RemoveVMDiskByID e i =
     dbset e ''RemoveVMDiskByID'' (\<lambda>t. t\<lparr>vm_disks := filter (\<lambda>d. DiskId d \<noteq> i) (vm_disks t)\<rparr>)"

definition GetVMXMLTemplateByID :: "'w menv \<Rightarrow> int \<Rightarrow> ('w, VMXMLTemplate option) sact" where
  "GetVMXMLTemplateByID e i =
     dbget e ''GetVMXMLTemplateByID'' (\<lambda>t. find (\<lambda>x. TemplateId x = i) (vm_xml_templates t))"

definition GetIsoByID :: "'w menv \<Rightarrow> int \<Rightarrow> ('w, ISO option) sact" where
  "GetIsoByID e i = dbget e ''GetIsoByID'' (\<lambda>t. find (\<lambda>x. IsoId x = i) (isos t))"

definition AddISO :: "'w menv \<Rightarrow> string \<Rightarrow> string \<Rightarrow> string \<Rightarrow> ('w, unit) sact" where
  "AddISO e machineName filePath name =
     dbset e ''AddISO'' (\<lambda>t. t\<lparr>last_id := last_id t + 1,
       isos := isos t @ [\<lparr>IsoId = last_id t + 1, IsoMachine = machineName, IsoPath = filePath, IsoName = name\<rparr>]\<rparr>)"

definition GetAllISOs :: "'w menv \<Rightarrow> ('w, ISO list) sact" where
  "GetAllISOs e = dbget e ''GetAllISOs'' isos"

definition RemoveISOByID :: "'w menv \<Rightarrow> int \<Rightarrow> ('w, unit) sact" where
  "RemoveISOByID e i = dbset e ''RemoveISOByID'' (\<lambda>t. t\<lparr>isos := filter (\<lambda>x. IsoId x \<noteq> i) (isos t)\<rparr>)"

subsection \<open>Finding a VM\<close>

definition grpc_conns :: "('w, grpc_conn list) sact" where
  "grpc_conns = getW (\<lambda>s. GetAllGRPCConnections (conns s))"

text \<open>\<open>DoesVMExist\<close>: some connected slave answers; a slave that does not answer counts as not having it.\<close>

fun any_answers :: "'w menv \<Rightarrow> string \<Rightarrow> grpc_conn list \<Rightarrow> ('w, bool) sact" where
  "any_answers e name [] = ret False"
| "any_answers e name (c # cs) =
     bindR (call e c (GetVm name)) (\<lambda>r. case r of Inr _ \<Rightarrow> ret True | Inl _ \<Rightarrow> any_answers e name cs)"

definition DoesVMExist :: "'w menv \<Rightarrow> string \<Rightarrow> ('w, bool) sact" where
  "DoesVMExist e name = bindE grpc_conns (any_answers e name)"

text \<open>The first slave that returns the VM, with its connection.\<close>

fun locate :: "'w menv \<Rightarrow> string \<Rightarrow> grpc_conn list \<Rightarrow> ('w, (grpc_conn \<times> vm) option) sact" where
  "locate e name [] = ret None"
| "locate e name (c # cs) =
     bindR (call e c (GetVm name)) (\<lambda>r. case r of
         Inr (VmReply (Some v)) \<Rightarrow> ret (Some (c, v))
       | _ \<Rightarrow> locate e name cs)"

definition GetVmByName :: "'w menv \<Rightarrow> string \<Rightarrow> ('w, vm option) sact" where
  "GetVmByName e name =
     bindE (DoesVMExist e name) (\<lambda>exists.
       if \<not> exists then ret None
       else bindE grpc_conns (\<lambda>cs. bindE (locate e name cs) (\<lambda>r.
              case r of None \<Rightarrow> fail (VmErr (VmNowhere name)) | Some (_, v) \<Rightarrow> ret (Some v))))"

text \<open>The connection of a machine, \<open>nil\<close> connections excluded.\<close>

definition conn_of :: "string \<Rightarrow> ('w, (ConnectionsStruct \<times> grpc_conn) option) sact" where
  "conn_of machineName = getW (\<lambda>s. case GetConnectionByMachineName (conns s) machineName of
       None \<Rightarrow> None
     | Some c \<Rightarrow> (case Connection c of None \<Rightarrow> None | Some g \<Rightarrow> Some (c, g)))"

text \<open>The entry of a machine whose connection the code then uses without looking at it.\<close>

definition entry_of :: "string \<Rightarrow> ('w, ConnectionsStruct) sact" where
  "entry_of machineName =
     bindE (getW (\<lambda>s. GetConnectionByMachineName (conns s) machineName)) (\<lambda>c. case c of
         None \<Rightarrow> fail (LookupErr (NoMachine machineName))
       | Some entry \<Rightarrow> ret entry)"

definition use_conn :: "ConnectionsStruct \<Rightarrow> ('w, grpc_conn) sact" where
  "use_conn entry = (case Connection entry of None \<Rightarrow> fail NilPanic | Some g \<Rightarrow> ret g)"

definition connected :: "string \<Rightarrow> ('w, ConnectionsStruct \<times> grpc_conn) sact" where
  "connected machineName =
     bindE (conn_of machineName) (\<lambda>c. case c of
         None \<Rightarrow> fail (NotConnected machineName)
       | Some r \<Rightarrow> ret r)"

definition healthy :: "'w menv \<Rightarrow> grpc_conn \<Rightarrow> ('w, bool) sact" where
  "healthy e g = getW (\<lambda>s. IsConnectionHealthy (Some (ConnState e g (ext s))))"

subsection \<open>What a step keeps\<close>

text \<open>A relation on states that calls, sleeps and reads respect.\<close>

definition same_tabs :: "'w mstate \<Rightarrow> 'w mstate \<Rightarrow> bool" where
  "same_tabs s s' \<longleftrightarrow> tabs s' = tabs s"

lemma same_tabs_order: "reflp same_tabs" "transp same_tabs"
  by (auto simp: same_tabs_def reflp_def transp_def)

lemmas tabs_intro =
  steps_bindE [OF same_tabs_order(2)] steps_bindR [OF same_tabs_order(2)] steps_pure [OF same_tabs_order(1)]
  steps_mapErr steps_if steps_case_sum steps_case_option

lemma tabs_call [simp, intro]: "steps same_tabs (call e c r)"
  by (simp add: steps_def call_def same_tabs_def split: prod.split)

lemma tabs_pause [simp, intro]: "steps same_tabs (pause e n)"
  by (simp add: steps_def pause_def same_tabs_def split: prod.split)

lemma tabs_fsdo [simp, intro]: "steps same_tabs (fsdo ev f)"
  by (simp add: steps_def fsdo_def same_tabs_def split: prod.split)

lemma tabs_spawn [simp, intro]: "steps same_tabs (spawn t)"
  by (simp add: steps_def spawn_def modW_def same_tabs_def)

lemma tabs_svc: "steps same_tabs m \<Longrightarrow> steps same_tabs (svc m)"
  unfolding svc_def by (rule steps_mapErr)

lemma tabs_conns [simp, intro]: "steps same_tabs grpc_conns" "steps same_tabs (conn_of m)" "steps same_tabs (healthy e g)"
  unfolding grpc_conns_def conn_of_def healthy_def by (intro tabs_intro)+

lemma tabs_any [simp, intro]: "steps same_tabs (any_answers e n cs)"
  by (induction cs) (auto intro!: tabs_intro)

lemma tabs_exists [simp, intro]: "steps same_tabs (DoesVMExist e n)"
  unfolding DoesVMExist_def by (intro tabs_intro tabs_conns tabs_any)

lemma tabs_locate [simp, intro]: "steps same_tabs (locate e n cs)"
  by (induction cs) (auto intro!: tabs_intro split: reply.split option.split)

lemma tabs_retry [simp, intro]: "steps same_tabs (retry_calls k a l e c r)"
  by (induction k arbitrary: a l) (auto intro!: tabs_intro)

text \<open>The calls a program adds to the record satisfy a predicate.\<close>

definition adds :: "(grpc_conn \<times> rpc \<Rightarrow> bool) \<Rightarrow> 'w mstate \<Rightarrow> 'w mstate \<Rightarrow> bool" where
  "adds P s s' \<longleftrightarrow> (\<exists>xs. sent s' = sent s @ xs \<and> list_all P xs)"

lemma adds_refl [simp]: "adds P s s"
  by (simp add: adds_def)

lemma adds_trans: "adds P a b \<Longrightarrow> adds P b c \<Longrightarrow> adds P a c"
  unfolding adds_def by (metis append_assoc list_all_append)

lemma adds_same [simp]: "sent s' = sent s \<Longrightarrow> adds P s s'"
  by (simp add: adds_def)

lemma adds_order: "reflp (adds P)" "transp (adds P)"
  by (auto intro!: reflpI transpI intro: adds_trans)

lemmas adds_intro =
  steps_bindE [OF adds_order(2)] steps_bindR [OF adds_order(2)]
  steps_pure [OF adds_order(1)] steps_mapErr steps_if steps_case_sum steps_case_option

lemma adds_call: "P (c, r) \<Longrightarrow> steps (adds P) (call e c r)"
  by (simp add: steps_def call_def adds_def split: prod.split)

lemma adds_other [intro]:
  "steps (adds P) (pause e n)" "steps (adds P) (fsdo ev f)" "steps (adds P) (spawn t)"
  "steps (adds P) (dbdo e name stmt)" "steps (adds P) (dbget e name q)" "steps (adds P) (dbset e name u)"
  by (simp_all add: steps_def pause_def fsdo_def spawn_def modW_def dbget_def dbset_def dbdo_def
      split: prod.split bool.split)

lemma adds_svc: "steps (adds P) m \<Longrightarrow> steps (adds P) (svc m)"
  unfolding svc_def by (rule steps_mapErr)

lemma adds_conns [intro]: "steps (adds P) grpc_conns" "steps (adds P) (conn_of m)"
  unfolding grpc_conns_def conn_of_def by (intro adds_intro)+

lemma adds_connected [intro]: "steps (adds P) (connected m)"
  unfolding connected_def by (auto intro!: adds_intro)

lemma adds_checked [intro]:
  "P (c, CheckRW p) \<Longrightarrow> steps (adds P) (CheckReadWrite e c p)"
  "P (c, CheckReadable p) \<Longrightarrow> steps (adds P) (CheckFileReadable e c p)"
  "P (c, CanFind p) \<Longrightarrow> steps (adds P) (CanFindFileOrDir e c p)"
  unfolding CheckReadWrite_def CheckFileReadable_def CanFindFileOrDir_def checked_def
  by (auto intro!: adds_intro adds_call split: reply.split)

lemma adds_retry: "P (c, r) \<Longrightarrow> steps (adds P) (retry_calls k a l e c r)"
  by (induction k arbitrary: a l) (auto intro!: adds_intro adds_call)

lemma adds_sync [intro]: "(\<And>c. P (c, SyncDisks)) \<Longrightarrow> steps (adds P) (SyncSlave e c)"
  unfolding SyncSlave_def withRetry_def by (rule adds_retry)

lemma adds_find [intro]:
  assumes "\<And>c. P (c, GetVm name)"
  shows "steps (adds P) (any_answers e name cs)" "steps (adds P) (locate e name cs)"
    "steps (adds P) (DoesVMExist e name)" "steps (adds P) (GetVmByName e name)"
proof -
  have any: "steps (adds P) (any_answers e name cs)" for cs :: "grpc_conn list"
    using assms by (induction cs) (auto intro!: adds_intro adds_call)
  moreover have loc: "steps (adds P) (locate e name cs)" for cs :: "grpc_conn list"
    using assms by (induction cs) (auto intro!: adds_intro adds_call split: reply.split option.split)
  ultimately show "steps (adds P) (any_answers e name cs)" "steps (adds P) (locate e name cs)"
    "steps (adds P) (DoesVMExist e name)" "steps (adds P) (GetVmByName e name)"
    unfolding GetVmByName_def DoesVMExist_def by (auto intro!: adds_intro)
qed

lemma addsD: "steps (adds P) m \<Longrightarrow> m s = (r, s') \<Longrightarrow> adds P s s'"
  by (rule stepsD)

lemma dbdo_ok:
  assumes "dbdo e name stmt s = (Inr v, s')"
  shows "v = fst (stmt (tabs s))" "tabs s' = snd (stmt (tabs s))" "conns s' = conns s" "sent s' = sent s"
    "fsops s' = fsops s" "tasks s' = tasks s"
  using assms by (auto simp: dbdo_def split: prod.splits bool.splits)

lemma dbdo_fail:
  assumes "dbdo e name stmt s = (Inl x, s')"
  shows "tabs s' = tabs s" "x = DbError name"
  using assms by (auto simp: dbdo_def split: prod.splits bool.splits)

lemma dbset_ok: "dbset e name u s = (Inr v, s') \<Longrightarrow> tabs s' = u (tabs s)"
  unfolding dbset_def by (drule dbdo_ok(2)) simp

lemma dbget_ok: "dbget e name q s = (Inr v, s') \<Longrightarrow> tabs s' = tabs s \<and> v = q (tabs s)"
  unfolding dbget_def using dbdo_ok(1,2) by fastforce

lemma tabs_dbget [simp, intro]: "steps same_tabs (dbget e name q)"
  by (simp add: steps_def dbget_def dbdo_def same_tabs_def split: prod.split bool.split)

text \<open>On success, the tables are the given function of what they were.\<close>

definition gives :: "('w, 'a) sact \<Rightarrow> (tables \<Rightarrow> tables) \<Rightarrow> bool" where
  "gives m f \<longleftrightarrow> (\<forall>s y s'. m s = (Inr y, s') \<longrightarrow> tabs s' = f (tabs s))"

lemma gives_same: "steps same_tabs m \<Longrightarrow> gives m (\<lambda>t. t)"
  unfolding gives_def same_tabs_def steps_def by (metis snd_conv)

lemma gives_set: "gives (dbset e name u) u"
  by (auto simp: gives_def dest: dbset_ok)

lemma gives_bind:
  assumes "gives m f" "\<And>y. gives (k y) g"
  shows "gives (bindE m k) (\<lambda>t. g (f t))"
  unfolding gives_def
proof (intro allI impI)
  fix s y s'
  assume "bindE m k s = (Inr y, s')"
  then obtain x s1 where "m s = (Inr x, s1)" "k x s1 = (Inr y, s')" by (rule bindE_eq_InrE)
  with assms show "tabs s' = g (f (tabs s))" by (simp add: gives_def)
qed

lemma gives_same_bind: "steps same_tabs m \<Longrightarrow> (\<And>y. gives (k y) g) \<Longrightarrow> gives (bindE m k) g"
  using gives_bind [OF gives_same] .

lemma gives_bind_same: "gives m f \<Longrightarrow> (\<And>y. steps same_tabs (k y)) \<Longrightarrow> gives (bindE m k) f"
  using gives_bind [OF _ gives_same] .

lemma gives_fail: "gives (fail x) f"
  by (simp add: gives_def)

lemma gives_if: "(b \<Longrightarrow> gives m f) \<Longrightarrow> (\<not> b \<Longrightarrow> gives n f) \<Longrightarrow> gives (if b then m else n) f"
  by simp

lemma givesD: "gives m f \<Longrightarrow> m s = (Inr y, s') \<Longrightarrow> tabs s' = f (tabs s)"
  by (simp add: gives_def)

lemma tabs_checks [simp, intro]:
  "steps same_tabs (connected m)" "steps same_tabs (entry_of m)" "steps same_tabs (use_conn entry)" "steps same_tabs (stat e p)"
  "steps same_tabs (SyncSlave e c)" "steps same_tabs (CheckReadWrite e c p)" "steps same_tabs (CanFindFileOrDir e c p)"
  "steps same_tabs (withRetry e c r)"
  unfolding connected_def entry_of_def use_conn_def stat_def SyncSlave_def withRetry_def CheckReadWrite_def
    CanFindFileOrDir_def checked_def
  by (auto intro!: tabs_intro split: prod.split option.split reply.split)

lemma tabs_outside [simp, intro]: "steps same_tabs (outside_value w)"
  by (simp add: outside_value_def steps_def same_tabs_def split: prod.split)

text \<open>A program that succeeds has sent a call that satisfies a predicate.\<close>

definition must_send :: "(grpc_conn \<times> rpc \<Rightarrow> bool) \<Rightarrow> ('w, 'a) sact \<Rightarrow> bool" where
  "must_send A m \<longleftrightarrow> (\<forall>s y s'. m s = (Inr y, s') \<longrightarrow> (\<exists>xs. sent s' = sent s @ xs \<and> list_ex A xs))"

abbreviation any_calls :: "'w mstate \<Rightarrow> 'w mstate \<Rightarrow> bool" where
  "any_calls \<equiv> adds (\<lambda>_. True)"

lemma must_send_first:
  "must_send A m \<Longrightarrow> (\<And>y. steps any_calls (f y)) \<Longrightarrow> must_send A (bindE m f)"
  unfolding must_send_def
proof (intro allI impI)
  fix s y s'
  assume m: "\<forall>s y s'. m s = (Inr y, s') \<longrightarrow> (\<exists>xs. sent s' = sent s @ xs \<and> list_ex A xs)"
    and f: "\<And>y. steps any_calls (f y)" and run: "bindE m f s = (Inr y, s')"
  from run obtain x s1 where "m s = (Inr x, s1)" "f x s1 = (Inr y, s')" by (rule bindE_eq_InrE)
  moreover from this(2) f obtain ys where "sent s' = sent s1 @ ys" using addsD unfolding adds_def by blast
  ultimately show "\<exists>xs. sent s' = sent s @ xs \<and> list_ex A xs" using m by fastforce
qed

lemma must_send_then:
  "steps any_calls m \<Longrightarrow> (\<And>y. must_send A (f y)) \<Longrightarrow> must_send A (bindE m f)"
  unfolding must_send_def
proof (intro allI impI)
  fix s y s'
  assume m: "steps any_calls m" and run: "bindE m f s = (Inr y, s')"
    and f: "\<And>z. \<forall>s y s'. f z s = (Inr y, s') \<longrightarrow> (\<exists>xs. sent s' = sent s @ xs \<and> list_ex A xs)"
  from run obtain x s1 where "m s = (Inr x, s1)" "f x s1 = (Inr y, s')" by (rule bindE_eq_InrE)
  moreover from this(1) m obtain ys where "sent s1 = sent s @ ys" using addsD unfolding adds_def by blast
  ultimately show "\<exists>xs. sent s' = sent s @ xs \<and> list_ex A xs" using f by fastforce
qed

lemma must_send_fail: "must_send A (fail x)"
  by (simp add: must_send_def)

lemma must_send_if: "(b \<Longrightarrow> must_send A m) \<Longrightarrow> (\<not> b \<Longrightarrow> must_send A n) \<Longrightarrow> must_send A (if b then m else n)"
  by simp

lemma must_send_call: "A (c, r) \<Longrightarrow> must_send A (svc (call e c r))"
  by (auto simp: must_send_def svc_def mapErr_def call_def split: prod.splits)

lemma must_send_mono: "must_send A m \<Longrightarrow> (\<And>x. A x \<Longrightarrow> B x) \<Longrightarrow> must_send B m"
  unfolding must_send_def list_ex_iff by meson

lemma must_sendD: "must_send A m \<Longrightarrow> m s = (Inr y, s') \<Longrightarrow> \<exists>x \<in> set (sent s'). A x"
  unfolding must_send_def list_ex_iff by fastforce

lemma locate_sent:
  "locate e n cs s = (Inr (Some (c, v)), s') \<Longrightarrow> c \<in> set cs \<and> (c, GetVm n) \<in> set (sent s')"
proof (induction cs arbitrary: s)
  case (Cons d cs)
  obtain res s1 where call: "call e d (GetVm n) s = (res, s1)" by (metis prod.collapse)
  have "(d, GetVm n) \<in> set (sent s1)"
    using call by (auto simp: call_def split: prod.splits)
  with Cons call show ?case
    by (auto simp: bindR_def ret_def split: sum.splits reply.splits option.splits)
qed (simp add: ret_def)

subsection \<open>A small installation\<close>

text \<open>One slave that has every VM and answers every call; statements do not fail.\<close>

definition lab_vm :: "string \<Rightarrow> vm" where
  "lab_vm n = \<lparr>VmName = n, VmMachine = ''node1'', VmState = VmShutoff, VmDiskPath = ''/mnt/a/web/web.qcow2'',
     DefinedRam = 1024, DefinedCPUS = 2, VmNetwork = ''default'', VNCPassword = [], CPUXML = []\<rparr>"

definition lab_answer :: "rpc \<Rightarrow> reply" where
  "lab_answer r =
     (case r of
        GetVm n \<Rightarrow> VmReply (Some (lab_vm n))
      | GetVms \<Rightarrow> VmsReply [lab_vm ''web'']
      | SharedStatus _ \<Rightarrow> Working True
      | CanFind _ \<Rightarrow> Found True
      | CheckRW _ \<Rightarrow> Checked True []
      | CheckReadable _ \<Rightarrow> Checked True []
      | CreateDiskCall b n g f \<Rightarrow> DiskReply \<lparr>ResOk = True, ResPath = b @ n, ResFolder = b, ResFormat = f, ResSizeGB = g\<rparr>
      | DeleteDiskCall b n \<Rightarrow> DiskReply \<lparr>ResOk = True, ResPath = b @ n, ResFolder = b, ResFormat = [], ResSizeGB = 0\<rparr>
      | GrowDiskCall b n g \<Rightarrow> DiskReply \<lparr>ResOk = True, ResPath = b @ n, ResFolder = b, ResFormat = [], ResSizeGB = g\<rparr>
      | _ \<Rightarrow> Done)"

definition lab :: "nat menv" where
  "lab = \<lparr>DbFails = (\<lambda>w. (False, w)), RpcCall = (\<lambda>c r w. (Inr (lab_answer r), w)), ConnState = (\<lambda>c w. Ready),
     Pause = (\<lambda>n cs w. (cs, w)), CtxDone = (\<lambda>w. False), StartupTimeOverLoad = 300, StatM = (\<lambda>p w. StatMissing),
     MkdirAllM = (\<lambda>p w. (True, w)), RemoveM = (\<lambda>p w. (RemoveOk, w)), RemoveAllM = (\<lambda>p w. (True, w)),
     CopyM = (\<lambda>a b w. (True, w)), RandomM = (\<lambda>n w. (Some 0, w)), StateChanges = (\<lambda>g n w. ([], w)), UUIDM = (\<lambda>w. (''u1'', w)),
     ChownM = (\<lambda>p u g w. (True, w)), ChmodM = (\<lambda>p w. (True, w)),
     NowM = (\<lambda>w. \<lparr>Year = 2024, Month = 5, Day = 17, Hour = 1, Minute = 30, Second = 0, Nano = 0\<rparr>),
     LocalClock = (\<lambda>w. Clock 1 30), TodayM = (\<lambda>w c. (Hours c * 60 + Minutes c) * 60 * nanos),
     Xml = \<lparr>Unmarshal = (\<lambda>x. None), Tokens = (\<lambda>x. None), Encode = (\<lambda>x. None)\<rparr>,
     Qemu_UID = ''107'', Qemu_GID = ''107''\<rparr>"

definition node1 :: ConnectionsStruct where
  "node1 = \<lparr>Addr = ''10.0.0.1'', MachineName = ''node1'', Connection = Some 1, LastSeen = 5, EntryTime = 1\<rparr>"

definition share_a :: NFSShare where
  "share_a = \<lparr>ShareId = 1, ShareMachine = ''node1'', ShareFolder = ''/srv/a'', ShareSource = ''10.0.0.1:/srv/a'',
     ShareTarget = ''/mnt/a'', ShareName = ''a'', ShareHostMount = False\<rparr>"

definition disk_7 :: VMDisk where
  "disk_7 = \<lparr>DiskId = 7, DiskName = ''data'', DiskNfs = 1, DiskFile = ''/mnt/a/data.qcow2'', DiskFolder = ''/mnt/a'',
     DiskFormat = ''qcow2'', DiskSizeGB = 10, AttachedVm = ''web'', AttachedMachine = ''node1''\<rparr>"

definition lab_tables :: tables where
  "lab_tables = no_tables\<lparr>nfs_shares := [share_a], vm_live := [''web''], auto_start := [\<lparr>StartId = 2, StartVm = ''web''\<rparr>],
     vm_disks := [disk_7], last_id := 7\<rparr>"

definition lab_state :: "nat mstate" where
  "lab_state = \<lparr>tabs = lab_tables, conns = [node1], ext = 0, sent = [], fsops = [], tasks = []\<rparr>"

lemmas lab_defs =
  lab_vm_def lab_answer_def lab_def node1_def share_a_def disk_7_def no_tables_def lab_tables_def lab_state_def

end
