(* ===== verification/VmService.thy ===== *)
theory VmService
  imports MasterDB
begin

text \<open>
  Virtual machines as the master sees them: \<open>master/services/virsh.go\<close>.  Which slave has a VM, which
  share its disk is on, deleting, starting and stopping it, its marks for live migration and
  automatic start, attaching disks, and starting the marked VMs after a slave has connected.
\<close>

subsection \<open>Acting on the slave that has the VM\<close>

text \<open>
  The loops of \<open>DeleteVM\<close>, \<open>ShutdownVM\<close> and their like: the first slave that returns the VM is asked
  to act on it.  The continuation gets that slave and the VM.
\<close>

definition with_vm :: "'w menv \<Rightarrow> string \<Rightarrow> (grpc_conn \<Rightarrow> vm \<Rightarrow> ('w, 'a) sact) \<Rightarrow> ('w, 'a) sact" where
  "with_vm e name act =
     bindE (DoesVMExist e name) (\<lambda>exists.
       if \<not> exists then fail (VmErr (VmMissing name))
       else bindE grpc_conns (\<lambda>cs. bindE (locate e name cs) (\<lambda>r.
              case r of None \<Rightarrow> fail (VmErr (VmNowhere name)) | Some (c, v) \<Rightarrow> act c v)))"

definition DeleteVM :: "'w menv \<Rightarrow> string \<Rightarrow> ('w, unit) sact" where
  "DeleteVM e name =
     with_vm e name (\<lambda>c v.
       bindE (svc (call e c (RemoveVm v))) (\<lambda>_.
       bindE (DoesVmLiveExist e name) (\<lambda>live.
       bindE (if live then RemoveVmLive e name else ret ()) (\<lambda>_.
       bindE (RemoveAutomaticBackup e name) (\<lambda>_.
       bindE (RemoveAutoStart e name) (\<lambda>_.
         ClearVMDiskAttachmentsByVM e name))))))"

text \<open>Shutting down, forcing off, restarting, pausing, resuming: one call.\<close>

definition vm_action :: "'w menv \<Rightarrow> string \<Rightarrow> string \<Rightarrow> ('w, unit) sact" where
  "vm_action e what name = with_vm e name (\<lambda>c v. bindE (svc (call e c (VmAction what v))) (\<lambda>_. ret ()))"

definition ShutdownVM :: "'w menv \<Rightarrow> string \<Rightarrow> ('w, unit) sact" where "ShutdownVM e = vm_action e ''shutdown''"
definition ForceShutdownVM :: "'w menv \<Rightarrow> string \<Rightarrow> ('w, unit) sact" where "ForceShutdownVM e = vm_action e ''force''"
definition RestartVM :: "'w menv \<Rightarrow> string \<Rightarrow> ('w, unit) sact" where "RestartVM e = vm_action e ''restart''"
definition PauseVM :: "'w menv \<Rightarrow> string \<Rightarrow> ('w, unit) sact" where "PauseVM e = vm_action e ''pause''"
definition ResumeVM :: "'w menv \<Rightarrow> string \<Rightarrow> ('w, unit) sact" where "ResumeVM e = vm_action e ''resume''"

text \<open>\<open>StartVM\<close> goes on to the next slave when the start fails.\<close>

definition context_ok :: "'w menv \<Rightarrow> ('w, unit) sact" where
  "context_ok e = bindE (getW (\<lambda>s. CtxDone e (ext s))) (\<lambda>d. guardE (\<not> d) Cancelled)"

fun start_somewhere :: "'w menv \<Rightarrow> string \<Rightarrow> grpc_conn list \<Rightarrow> ('w, unit) sact" where
  "start_somewhere e name [] = fail (VmErr (VmNowhere name))"
| "start_somewhere e name (c # cs) =
     bindE (context_ok e) (\<lambda>_.
     bindR (call e c (GetVm name)) (\<lambda>r. case r of
         Inr (VmReply (Some v)) \<Rightarrow>
           bindR (call e c (Start v)) (\<lambda>q. case q of Inr _ \<Rightarrow> ret () | Inl _ \<Rightarrow> start_somewhere e name cs)
       | _ \<Rightarrow> start_somewhere e name cs))"

definition StartVM :: "'w menv \<Rightarrow> string \<Rightarrow> ('w, unit) sact" where
  "StartVM e name =
     bindE (context_ok e) (\<lambda>_.
     bindE (DoesVMExist e name) (\<lambda>exists.
       if \<not> exists then fail (VmErr (VmMissing name)) else bindE grpc_conns (start_somewhere e name)))"

subsection \<open>Listing\<close>

text \<open>
  \<open>GetAllVms\<close> asks all slaves at once and appends in the order of their answers; here in the order
  of the table.  The result is the VMs, and whether some slave failed to answer.
\<close>

fun all_vms :: "'w menv \<Rightarrow> grpc_conn list \<Rightarrow> ('w, vm list \<times> bool) sact" where
  "all_vms e [] = ret ([], False)"
| "all_vms e (c # cs) =
     bindR (call e c GetVms) (\<lambda>r.
     bindE (all_vms e cs) (\<lambda>(vs, failed).
       ret (case r of Inr (VmsReply ws) \<Rightarrow> (ws @ vs, failed) | _ \<Rightarrow> (vs, True))))"

definition GetAllVms :: "'w menv \<Rightarrow> ('w, (vm \<times> bool) list) sact" where
  "GetAllVms e =
     bindE (dbget e ''GetAllVmLiveNames'' vm_live) (\<lambda>live.
     bindE grpc_conns (\<lambda>cs. bindE (all_vms e cs) (\<lambda>(vs, failed).
       if failed then fail (RpcErr ''GetAllVms'') else ret (map (\<lambda>v. (v, VmName v \<in> set live)) vs))))"

definition GetAllVmsByOnNfsShare :: "'w menv \<Rightarrow> string \<Rightarrow> ('w, vm list) sact" where
  "GetAllVmsByOnNfsShare e target =
     bindE (GetAllVms e) (\<lambda>vs. ret (filter (\<lambda>v. Contains (VmDiskPath v) target) (map fst vs)))"

subsection \<open>The share of a VM\<close>

definition cleanPath :: "string \<Rightarrow> string" where
  "cleanPath p = (let q = TrimSpace p in if q = [] then [] else Clean q)"

text \<open>The length of the longer of the two names of a share that the disk is within.\<close>

definition share_match :: "string \<Rightarrow> NFSShare \<Rightarrow> nat option" where
  "share_match diskPath share =
     (let target = cleanPath (ShareTarget share); folder = cleanPath (ShareFolder share);
          inTarget = isPathWithin diskPath target;
          best = (if inTarget then length target else 0)
      in if isPathWithin diskPath folder \<and> best < length folder then Some (length folder)
         else if inTarget then Some best else None)"

definition best_step :: "string \<Rightarrow> (int \<times> nat) option \<Rightarrow> NFSShare \<Rightarrow> (int \<times> nat) option" where
  "best_step diskPath acc share =
     (case share_match diskPath share of
        None \<Rightarrow> acc
      | Some n \<Rightarrow> (case acc of
            None \<Rightarrow> Some (ShareId share, n)
          | Some (i, longest) \<Rightarrow> if longest < n then Some (ShareId share, n) else acc))"

definition best_share :: "string \<Rightarrow> NFSShare list \<Rightarrow> (int \<times> nat) option" where
  "best_share diskPath shares = foldl (best_step diskPath) None shares"

definition GetNfsByVM :: "'w menv \<Rightarrow> vm \<Rightarrow> ('w, int) sact" where
  "GetNfsByVM e v =
     (let diskPath = TrimSpace (VmDiskPath v) in
      if diskPath = [] then fail (VmErr (NoDiskPath (VmName v)))
      else bindE (dbget e ''GetAllNFShares'' nfs_shares) (\<lambda>shares.
             case best_share (Clean diskPath) shares of
               None \<Rightarrow> fail (VmErr (ShareUnresolved (VmName v)))
             | Some (i, _) \<Rightarrow> ret i))"

subsection \<open>Marks\<close>

definition vm_required :: "'w menv \<Rightarrow> string \<Rightarrow> ('w, vm) sact" where
  "vm_required e name =
     bindE (GetVmByName e name) (\<lambda>v. case v of None \<Rightarrow> fail (VmErr (VmMissing name)) | Some x \<Rightarrow> ret x)"

definition AutoStart :: "'w menv \<Rightarrow> string \<Rightarrow> bool \<Rightarrow> ('w, unit) sact" where
  "AutoStart e name on =
     bindE (vm_required e name) (\<lambda>_.
     bindE (DoesAutoStartExist e name) (\<lambda>exists.
       if on then (if \<not> exists then AddAutoStart e name else ret ())
       else (if exists then RemoveAutoStart e name else ret ())))"

definition SetVmLive :: "'w menv \<Rightarrow> string \<Rightarrow> bool \<Rightarrow> ('w, unit) sact" where
  "SetVmLive e name enable =
     bindE (vm_required e name) (\<lambda>_.
     bindE (DoesVmLiveExist e name) (\<lambda>exists.
       if enable then (if \<not> exists then AddVmLive e name else ret ())
       else (if exists then RemoveVmLive e name else ret ())))"

subsection \<open>Deleting a VM\<close>

text \<open>The tables without a VM: its marks and schedules are gone and its disks are free.\<close>

definition forget_vm :: "string \<Rightarrow> tables \<Rightarrow> tables" where
  "forget_vm n t =
     t\<lparr>vm_live := filter (\<lambda>m. m \<noteq> n) (vm_live t),
       automatic_backup := filter (\<lambda>r. RowVm r \<noteq> n) (automatic_backup t),
       auto_start := filter (\<lambda>a. StartVm a \<noteq> n) (auto_start t),
       vm_disks := map (\<lambda>d. if AttachedVm d = n then detached d else d) (vm_disks t)\<rparr>"

lemma must_send_with_vm: "(\<And>c v. must_send A (act c v)) \<Longrightarrow> must_send A (with_vm e n act)"
  unfolding with_vm_def
  by (intro must_send_then must_send_if must_send_fail) (auto intro!: adds_intro must_send_fail split: option.split)

lemma gives_with_vm: "(\<And>c v. gives (act c v) f) \<Longrightarrow> gives (with_vm e n act) f"
  unfolding with_vm_def by (intro gives_same_bind gives_if gives_fail) (auto intro: gives_fail split: option.split)

lemma gives_unlive:
  "gives (bindE (DoesVmLiveExist e n) (\<lambda>live. if live then RemoveVmLive e n else ret ()))
     (\<lambda>t. t\<lparr>vm_live := filter (\<lambda>m. m \<noteq> n) (vm_live t)\<rparr>)"
  unfolding gives_def
proof (intro allI impI)
  fix s y s'
  assume "bindE (DoesVmLiveExist e n) (\<lambda>live. if live then RemoveVmLive e n else ret ()) s = (Inr y, s')"
  then obtain live s1 where lv: "DoesVmLiveExist e n s = (Inr live, s1)"
    and run: "(if live then RemoveVmLive e n else ret ()) s1 = (Inr y, s')" by (rule bindE_eq_InrE)
  have t1: "tabs s1 = tabs s" "live \<longleftrightarrow> n \<in> set (vm_live (tabs s))"
    using dbget_ok [OF lv [unfolded DoesVmLiveExist_def]] by auto
  show "tabs s' = (tabs s)\<lparr>vm_live := filter (\<lambda>m. m \<noteq> n) (vm_live (tabs s))\<rparr>"
  proof (cases live)
    case True
    with run t1(1) show ?thesis using dbset_ok [of e _ _ s1 y s'] by (simp add: RemoveVmLive_def)
  next
    case False
    with t1 have "filter (\<lambda>m. m \<noteq> n) (vm_live (tabs s)) = vm_live (tabs s)" by (auto intro: filter_True)
    with False run t1 show ?thesis by simp
  qed
qed

lemma gives_delete: "gives (DeleteVM e n) (forget_vm n)"
proof -
  have "gives (bindE (bindE (DoesVmLiveExist e n) (\<lambda>live. if live then RemoveVmLive e n else ret ())) (\<lambda>_.
      bindE (RemoveAutomaticBackup e n) (\<lambda>_. bindE (RemoveAutoStart e n) (\<lambda>_. ClearVMDiskAttachmentsByVM e n)))) (forget_vm n)"
    unfolding forget_vm_def RemoveAutomaticBackup_def RemoveAutoStart_def ClearVMDiskAttachmentsByVM_def
    by (rule back_subst [where P = "gives _", OF gives_bind [OF gives_unlive gives_bind [OF gives_set gives_bind [OF gives_set gives_set]]]])
      (simp add: update_disk_def fun_eq_iff)
  then show ?thesis
    unfolding DeleteVM_def bindE_assoc
    by (intro gives_with_vm gives_same_bind [OF tabs_svc [OF tabs_call]])
qed

lemma adds_marks [intro]:
  "steps (adds P) (DoesVmLiveExist e n)" "steps (adds P) (RemoveVmLive e n)" "steps (adds P) (RemoveAutomaticBackup e n)"
  "steps (adds P) (RemoveAutoStart e n)" "steps (adds P) (ClearVMDiskAttachmentsByVM e n)"
  unfolding DoesVmLiveExist_def RemoveVmLive_def RemoveAutomaticBackup_def RemoveAutoStart_def ClearVMDiskAttachmentsByVM_def
  by auto

lemma delete_sends: "must_send (\<lambda>x. \<exists>v. snd x = RemoveVm v) (DeleteVM e n)"
  unfolding DeleteVM_def
  by (intro must_send_with_vm must_send_first must_send_call) (auto intro!: adds_intro)



subsection \<open>Resolving the share\<close>

text \<open>What the loop has found so far is at least as long as any name it has seen.\<close>

definition longest_of :: "string \<Rightarrow> NFSShare set \<Rightarrow> (int \<times> nat) option \<Rightarrow> bool" where
  "longest_of p seen r \<longleftrightarrow>
     (case r of
        None \<Rightarrow> \<forall>x \<in> seen. share_match p x = None
      | Some (i, n) \<Rightarrow>
          (\<exists>x \<in> seen. ShareId x = i \<and> share_match p x = Some n) \<and>
          (\<forall>x \<in> seen. \<forall>m. share_match p x = Some m \<longrightarrow> m \<le> n))"

lemma best_step_keeps:
  assumes "longest_of p seen acc"
  shows "longest_of p (insert x seen) (best_step p acc x)"
proof (cases "share_match p x")
  case None
  with assms show ?thesis by (cases acc) (auto simp: best_step_def longest_of_def)
next
  case (Some n)
  show ?thesis
  proof (cases acc)
    case None
    with assms Some show ?thesis by (auto simp: best_step_def longest_of_def)
  next
    case (Some a)
    obtain i m where a: "a = (i, m)" by (cases a)
    show ?thesis
    proof (cases "m < n")
      case True
      with assms Some a \<open>share_match p x = _\<close> show ?thesis
        by (force simp: best_step_def longest_of_def)
    next
      case False
      with assms Some a \<open>share_match p x = _\<close> show ?thesis
        by (auto simp: best_step_def longest_of_def)
    qed
  qed
qed

lemma best_loop: "longest_of p seen acc \<Longrightarrow> longest_of p (seen \<union> set shares) (foldl (best_step p) acc shares)"
proof (induction shares arbitrary: acc seen)
  case (Cons x xs)
  from Cons.IH [OF best_step_keeps [OF Cons.prems, of x]] show ?case by simp
qed simp

lemma best_share_longest: "longest_of p (set shares) (best_share p shares)"
  using best_loop [of p "{}" None shares] by (simp add: best_share_def longest_of_def)

lemma share_match_some:
  assumes "share_match p x = Some n"
  shows "\<exists>name \<in> {cleanPath (ShareTarget x), cleanPath (ShareFolder x)}. isPathWithin p name \<and> length name = n"
  using assms unfolding share_match_def Let_def by (auto split: if_split_asm)

lemma share_match_most:
  assumes "isPathWithin p name" "name \<in> {cleanPath (ShareTarget x), cleanPath (ShareFolder x)}" "name \<noteq> []"
  shows "\<exists>m. share_match p x = Some m \<and> length name \<le> m"
  using assms unfolding share_match_def Let_def by (auto split: if_split)

text \<open>A VM is assigned to a share that its disk is within, and no share has a longer name that
  the disk is within; when no share has a name that the disk is within, it is assigned to none.\<close>

theorem longest_share_wins:
  "case best_share p shares of
     None \<Rightarrow> \<forall>x \<in> set shares. \<forall>name \<in> {cleanPath (ShareTarget x), cleanPath (ShareFolder x)}.
               name \<noteq> [] \<longrightarrow> \<not> isPathWithin p name
   | Some (i, n) \<Rightarrow>
       (\<exists>x \<in> set shares. ShareId x = i \<and>
          (\<exists>name \<in> {cleanPath (ShareTarget x), cleanPath (ShareFolder x)}. isPathWithin p name \<and> length name = n)) \<and>
       (\<forall>x \<in> set shares. \<forall>name \<in> {cleanPath (ShareTarget x), cleanPath (ShareFolder x)}.
          isPathWithin p name \<longrightarrow> length name \<le> n)"
proof (cases "best_share p shares")
  case None
  then have "\<forall>x \<in> set shares. share_match p x = None"
    using best_share_longest [of p shares] by (simp add: longest_of_def)
  with None share_match_most show ?thesis by fastforce
next
  case (Some a)
  obtain i n where a: "a = (i, n)" by (cases a)
  from best_share_longest [of p shares] Some a have
    ex: "\<exists>x \<in> set shares. ShareId x = i \<and> share_match p x = Some n" and
    le: "\<forall>x \<in> set shares. \<forall>m. share_match p x = Some m \<longrightarrow> m \<le> n" by (simp_all add: longest_of_def)
  from ex obtain x where "x \<in> set shares" "ShareId x = i" "share_match p x = Some n" by blast
  with share_match_some have "\<exists>x \<in> set shares. ShareId x = i \<and>
        (\<exists>name \<in> {cleanPath (ShareTarget x), cleanPath (ShareFolder x)}. isPathWithin p name \<and> length name = n)"
    by blast
  moreover have "length name \<le> n" if "x \<in> set shares" "name \<in> {cleanPath (ShareTarget x), cleanPath (ShareFolder x)}"
    "isPathWithin p name" for x name
  proof (cases "name = []")
    case False
    from share_match_most [OF that(3,2) this] le that(1) show ?thesis by (meson le_trans)
  qed simp
  ultimately show ?thesis using Some a by simp
qed

theorem longest_share_wins_witness:
  "best_share ''/mnt/a/web/web.qcow2'' [share_a] = Some (1, 6) \<and>
   (\<exists>x. x \<in> set [share_a] \<and> ShareId x = 1 \<and>
      (\<exists>name. name \<in> {cleanPath (ShareTarget x), cleanPath (ShareFolder x)} \<and>
         isPathWithin ''/mnt/a/web/web.qcow2'' name \<and> length name = 6))"
proof -
  have "best_share ''/mnt/a/web/web.qcow2'' [share_a] = Some (1, 6)" by code_simp
  with longest_share_wins [where p = "''/mnt/a/web/web.qcow2''" and shares = "[share_a]"] show ?thesis by auto
qed

end
