(* ===== verification/VmStart.thy ===== *)
theory VmStart
  imports VmService
begin

text \<open>
  Starting the VMs that are marked for it after a slave has connected: the end of
  \<open>master/services/virsh.go\<close>.  The loop for one VM has no bound of its own; it is modelled with fuel,
  one unit for each round, and the result \<open>None\<close> says that it is still running.
\<close>

subsection \<open>Whether the disk can be used\<close>

definition nfsMountPrefix :: string where "nfsMountPrefix = ''/mnt/512SvMan/shared/''"

fun checkNFSReadWrite :: "nat \<Rightarrow> 'w menv \<Rightarrow> grpc_conn \<Rightarrow> string \<Rightarrow> ('w, bool) sact" where
  "checkNFSReadWrite 0 e g path = ret False"
| "checkNFSReadWrite (Suc n) e g path =
     bindR (CheckReadWrite e g path) (\<lambda>r. case r of
         Inr _ \<Rightarrow> ret True
       | Inl _ \<Rightarrow> if 0 < n then bindE (pause e 2) (\<lambda>_. checkNFSReadWrite n e g path) else ret False)"

definition disk_image :: "string \<Rightarrow> bool" where
  "disk_image p \<longleftrightarrow> HasSuffix (ToLower p) ''.qcow2'' \<or> HasSuffix (ToLower p) ''.raw''"

text \<open>The three checks of a disk on a share; a disk elsewhere is taken to be ready.\<close>

definition disk_ready :: "'w menv \<Rightarrow> grpc_conn \<Rightarrow> vm \<Rightarrow> ('w, bool) sact" where
  "disk_ready e g v =
     (let diskPath = TrimSpace (VmDiskPath v) in
      if diskPath = [] \<or> \<not> HasPrefix diskPath nfsMountPrefix then ret True
      else bindR (CanFindFileOrDir e g diskPath) (\<lambda>r.
             if r \<noteq> Inr True then ret False
             else bindE (if disk_image diskPath
                         then bindR (CheckFileReadable e g diskPath) (\<lambda>q. ret (q = Inr ()))
                         else ret True) (\<lambda>readable.
                  if \<not> readable then ret False else checkNFSReadWrite 10 e g (Dir diskPath))))"

text \<open>\<open>runVm\<close>: start it, wait, and look whether it runs.\<close>

definition run_vm :: "'w menv \<Rightarrow> grpc_conn \<Rightarrow> vm \<Rightarrow> string \<Rightarrow> ('w, bool) sact" where
  "run_vm e g v name =
     bindR (call e g (Start v)) (\<lambda>r. case r of
         Inl x \<Rightarrow>
           if Contains x ''domain is already running'' then bindE (pause e (StartupTimeOverLoad e)) (\<lambda>_. ret True)
           else ret False
       | Inr _ \<Rightarrow>
           bindE (pause e 60) (\<lambda>_.
           bindR (GetVmByName e name) (\<lambda>q. case q of
               Inr (Some w) \<Rightarrow> if VmState w = VmRunning then bindE (pause e (StartupTimeOverLoad e)) (\<lambda>_. ret True) else ret False
             | _ \<Rightarrow> ret False)))"

text \<open>
  The endless loop for one VM.  The result is \<open>None\<close> when the fuel is used up; a round without a
  connection does not count as a try.
\<close>

fun try_start :: "nat \<Rightarrow> 'w menv \<Rightarrow> vm \<Rightarrow> string \<Rightarrow> nat \<Rightarrow> ('w, bool option) sact" where
  "try_start 0 e v name tries = ret None"
| "try_start (Suc fuel) e v name tries =
     bindE (context_ok e) (\<lambda>_.
     bindE (conn_of (VmMachine v)) (\<lambda>c. case c of
         None \<Rightarrow> bindE (pause e 60) (\<lambda>_. try_start fuel e v name tries)
       | Some (_, g) \<Rightarrow>
           if tries + 1 = 180 then ret (Some False)
           else bindE (disk_ready e g v) (\<lambda>ready.
                  if \<not> ready then bindE (pause e 60) (\<lambda>_. try_start fuel e v name (tries + 1))
                  else bindE (run_vm e g v name) (\<lambda>worked.
                         if worked then ret (Some True) else try_start fuel e v name (tries + 1)))))"

fun start_marked :: "nat \<Rightarrow> 'w menv \<Rightarrow> string \<Rightarrow> string list \<Rightarrow> ('w, unit option) sact" where
  "start_marked fuel e machineFilter [] = ret (Some ())"
| "start_marked fuel e machineFilter (name # names) =
     bindE (context_ok e) (\<lambda>_.
     bindR (GetVmByName e name) (\<lambda>r. case r of
         Inr (Some v) \<Rightarrow>
           if VmState v = VmRunning \<or> (machineFilter \<noteq> [] \<and> VmMachine v \<noteq> machineFilter)
           then start_marked fuel e machineFilter names
           else bindE (try_start fuel e v name 0) (\<lambda>q. case q of
                    None \<Rightarrow> ret None
                  | Some _ \<Rightarrow> start_marked fuel e machineFilter names)
       | _ \<Rightarrow> start_marked fuel e machineFilter names))"

definition startAutoStartVms :: "nat \<Rightarrow> 'w menv \<Rightarrow> string \<Rightarrow> ('w, unit option) sact" where
  "startAutoStartVms fuel e machineFilter =
     bindE (dbget e ''GetAllAutoStart'' (\<lambda>t. map StartVm (auto_start t))) (start_marked fuel e machineFilter)"

definition StartAutoStartVmsForMachine :: "nat \<Rightarrow> 'w menv \<Rightarrow> string \<Rightarrow> ('w, unit option) sact" where
  "StartAutoStartVmsForMachine fuel e machineName0 =
     (let machineName = TrimSpace machineName0 in
      if machineName = [] then fail (LookupErr MachineRequired) else startAutoStartVms fuel e machineName)"



subsection \<open>The loop ends while the slave stays connected\<close>

definition usable :: "string \<Rightarrow> ConnectionsStruct list \<Rightarrow> bool" where
  "usable m cs \<longleftrightarrow> (\<exists>c g. GetConnectionByMachineName cs m = Some c \<and> Connection c = Some g)"

text \<open>No pause drops the connection of the machine.\<close>

definition stays_connected :: "'w menv \<Rightarrow> string \<Rightarrow> bool" where
  "stays_connected e m \<longleftrightarrow> (\<forall>n cs x. usable m cs \<longrightarrow> usable m (fst (Pause e n cs x)))"

definition keeps_usable :: "string \<Rightarrow> 'w mstate \<Rightarrow> 'w mstate \<Rightarrow> bool" where
  "keeps_usable m s s' \<longleftrightarrow> (usable m (conns s) \<longrightarrow> usable m (conns s'))"

lemma keeps_usable_order: "reflp (keeps_usable m)" "transp (keeps_usable m)"
  by (auto simp: keeps_usable_def reflp_def transp_def)

lemmas usable_intro =
  steps_bindE [OF keeps_usable_order(2)] steps_bindR [OF keeps_usable_order(2)]
  steps_pure [OF keeps_usable_order(1)] steps_mapErr steps_if steps_case_sum steps_case_option

lemma usable_call [intro]: "steps (keeps_usable m) (call e c r)"
  by (simp add: steps_def call_def keeps_usable_def split: prod.split)

lemma usable_pause: "stays_connected e m \<Longrightarrow> steps (keeps_usable m) (pause e n)"
  unfolding steps_def pause_def keeps_usable_def stays_connected_def
  by (auto split: prod.split) (metis fst_conv)

lemma usable_checked [intro]: "steps (keeps_usable m) (checked e c r d)"
  unfolding checked_def by (auto intro!: usable_intro split: reply.split)

lemma usable_nfs [intro]:
  "steps (keeps_usable m) (CheckReadWrite e c p)" "steps (keeps_usable m) (CheckFileReadable e c p)"
  "steps (keeps_usable m) (CanFindFileOrDir e c p)"
  unfolding CheckReadWrite_def CheckFileReadable_def CanFindFileOrDir_def by (auto intro!: usable_intro)

lemma usable_rw: "stays_connected e m \<Longrightarrow> steps (keeps_usable m) (checkNFSReadWrite n e g p)"
  by (induction n) (auto intro!: usable_intro usable_pause)

lemma usable_ready: "stays_connected e m \<Longrightarrow> steps (keeps_usable m) (disk_ready e g v)"
  unfolding disk_ready_def Let_def by (auto intro!: usable_intro usable_rw)

lemma usable_find [intro]: "steps (keeps_usable m) (GetVmByName e name)"
proof -
  have "steps (keeps_usable m) (any_answers e name cs)" for cs :: "grpc_conn list"
    by (induction cs) (auto intro!: usable_intro)
  moreover have "steps (keeps_usable m) (locate e name cs)" for cs :: "grpc_conn list"
    by (induction cs) (auto intro!: usable_intro split: reply.split option.split)
  ultimately show ?thesis
    unfolding GetVmByName_def DoesVMExist_def grpc_conns_def by (auto intro!: usable_intro)
qed

lemma usable_run: "stays_connected e m \<Longrightarrow> steps (keeps_usable m) (run_vm e g v name)"
  unfolding run_vm_def by (auto intro!: usable_intro usable_pause)

lemma keeps_usableD: "steps (keeps_usable m) a \<Longrightarrow> a s = (r, s') \<Longrightarrow> usable m (conns s) \<Longrightarrow> usable m (conns s')"
  using stepsD [of "keeps_usable m" a s r s'] by (simp add: keeps_usable_def)

lemma try_start_decided:
  assumes "stays_connected e (VmMachine v)"
  shows "tries < 180 \<Longrightarrow> 180 \<le> fuel + tries \<Longrightarrow> usable (VmMachine v) (conns s) \<Longrightarrow>
    fst (try_start fuel e v name tries s) \<noteq> Inr None"
proof (induction fuel arbitrary: tries s)
  case (Suc fuel)
  obtain c g where c: "GetConnectionByMachineName (conns s) (VmMachine v) = Some c" "Connection c = Some g"
    using Suc.prems(3) by (auto simp: usable_def)
  have conn: "conn_of (VmMachine v) s = (Inr (Some (c, g)), s)"
    by (simp add: conn_of_def getW_def c)
  show ?case
  proof (cases "CtxDone e (ext s)")
    case True
    then show ?thesis by (simp add: context_ok_def bindE_def getW_def guardE_def)
  next
    case False
    then have ctx: "context_ok e s = (Inr (), s)" by (simp add: context_ok_def bindE_def getW_def guardE_def)
    show ?thesis
    proof (cases "tries + 1 = 180")
      case True
      then show ?thesis by (simp add: bindE_def ctx conn ret_def)
    next
      case more: False
      with Suc.prems have next_tries: "tries + 1 < 180" "180 \<le> fuel + (tries + 1)" by auto
      obtain r1 s1 where d: "disk_ready e g v s = (r1, s1)" by (metis prod.collapse)
      note u1 = keeps_usableD [OF usable_ready [OF assms] d Suc.prems(3)]
      show ?thesis
      proof (cases r1)
        case (Inl x)
        with d more show ?thesis by (simp add: bindE_def ctx conn)
      next
        case (Inr ready)
        note d = d [unfolded Inr]
        show ?thesis
        proof (cases ready)
          case False
          obtain r2 s2 where p: "pause e 60 s1 = (r2 :: svc_error + unit, s2)" by (metis prod.collapse)
          then obtain u where r2: "r2 = Inr u" by (auto simp: pause_def split: prod.splits)
          note u2 = keeps_usableD [OF usable_pause [OF assms] p u1]
          from Suc.IH [OF next_tries u2] False more show ?thesis
            by (simp add: bindE_def ctx conn d p [unfolded r2])
        next
          case True
          obtain r2 s2 where w: "run_vm e g v name s1 = (r2, s2)" by (metis prod.collapse)
          note u2 = keeps_usableD [OF usable_run [OF assms] w u1]
          show ?thesis
          proof (cases r2)
            case (Inl x)
            with w True more show ?thesis by (simp add: bindE_def ctx conn d)
          next
            case (Inr worked)
            from Suc.IH [OF next_tries u2] True more show ?thesis
              by (simp add: bindE_def ctx conn d w [unfolded Inr]) (simp add: ret_def)
          qed
        qed
      qed
    qed
  qed
qed simp

text \<open>C15: while the connection of its machine lasts, the loop that starts a marked VM ends after at most
  180 rounds: with fuel 180 it has returned.\<close>

theorem try_start_ends:
  assumes "stays_connected e (VmMachine v)" "usable (VmMachine v) (conns s)"
  shows "fst (try_start 180 e v name 0 s) \<noteq> Inr None"
  using try_start_decided [OF assms(1), of 0 180 s name] assms(2) by simp

theorem try_start_ends_witness: "fst (try_start 180 lab (lab_vm ''web'') ''web'' 0 lab_state) \<noteq> Inr None"
proof (rule try_start_ends)
  show "stays_connected lab (VmMachine (lab_vm ''web''))" by (simp add: stays_connected_def lab_def)
  show "usable (VmMachine (lab_vm ''web'')) (conns lab_state)"
    by (simp add: usable_def lab_defs)
qed

text \<open>When the machine has no connection and none comes up, the loop never ends: it has not returned
  after any number of rounds, and has called no slave.\<close>

theorem try_start_never_gives_up:
  assumes "\<not> usable (VmMachine v) (conns s)"
    and "\<forall>n cs x. \<not> usable (VmMachine v) cs \<longrightarrow> \<not> usable (VmMachine v) (fst (Pause e n cs x))"
    and "\<forall>x. \<not> CtxDone e x"
  shows "fst (try_start fuel e v name tries s) = Inr None \<and> sent (snd (try_start fuel e v name tries s)) = sent s"
  using assms(1)
proof (induction fuel arbitrary: s)
  case (Suc fuel)
  have ctx: "context_ok e s = (Inr (), s)" using assms(3) by (simp add: context_ok_def bindE_def getW_def guardE_def)
  have conn: "conn_of (VmMachine v) s = (Inr None, s)"
    using Suc.prems by (auto simp: conn_of_def getW_def usable_def split: option.split)
  obtain cs x where p: "Pause e 60 (conns s) (ext s) = (cs, x)" by (metis prod.collapse)
  have "\<not> usable (VmMachine v) cs" using assms(2) Suc.prems p by (metis fst_conv)
  with Suc.IH [of "s\<lparr>conns := cs, ext := x\<rparr>"] show ?case
    by (simp add: bindE_def ctx conn pause_def p)
qed (simp add: ret_def)

theorem try_start_never_gives_up_witness:
  "fst (try_start 1000 lab (lab_vm ''web'') ''web'' 0 (lab_state\<lparr>conns := []\<rparr>)) = Inr None"
proof -
  show ?thesis
    using try_start_never_gives_up [of "lab_vm ''web''" "lab_state\<lparr>conns := []\<rparr>" lab 1000 "''web''" 0]
    by (simp add: lab_def usable_def)
qed

subsection \<open>A VM on a share is started only after its folder was checked\<close>

text \<open>In the calls that a program adds, every start comes directly after a check of the folder.\<close>

definition checked_starts :: "string \<Rightarrow> (grpc_conn \<times> rpc) list \<Rightarrow> bool" where
  "checked_starts p xs \<longleftrightarrow>
     (\<forall>i < length xs. \<forall>g v. xs ! i = (g, Start v) \<longrightarrow> 0 < i \<and> xs ! (i - 1) = (g, CheckRW p))"

definition no_start :: "grpc_conn \<times> rpc \<Rightarrow> bool" where
  "no_start x \<longleftrightarrow> (\<forall>v. snd x \<noteq> Start v)"

lemma no_start_simps [simp]:
  "no_start (c, CheckRW p)" "no_start (c, CheckReadable p)" "no_start (c, CanFind p)" "no_start (c, GetVm n)"
  by (simp_all add: no_start_def)

lemma sends_rw [intro]: "steps (adds no_start) (checkNFSReadWrite n e g p)"
  by (induction n) (auto intro!: adds_intro)

lemma sends_ready [intro]: "steps (adds no_start) (disk_ready e g v)"
  unfolding disk_ready_def Let_def by (auto intro!: adds_intro)

text \<open>The last call of a successful check is the check of the folder.\<close>

lemma CheckReadWrite_sent: "CheckReadWrite e g p s = (r, s') \<Longrightarrow> sent s' = sent s @ [(g, CheckRW p)]"
  unfolding CheckReadWrite_def checked_def
  by (auto simp: bindE_def call_def ret_def fail_def split: prod.splits sum.splits reply.splits if_splits)

lemma checkNFS_last:
  "checkNFSReadWrite n e g p s = (Inr True, s') \<Longrightarrow> \<exists>xs. sent s' = sent s @ xs @ [(g, CheckRW p)] \<and> list_all no_start xs"
proof (induction n arbitrary: s)
  case (Suc n)
  obtain r s1 where c: "CheckReadWrite e g p s = (r, s1)" by (metis prod.collapse)
  note s1 = CheckReadWrite_sent [OF c]
  show ?case
  proof (cases r)
    case (Inr u)
    with Suc.prems c s1 show ?thesis by (intro exI [of _ "[]"]) (simp add: bindR_def ret_def no_start_def)
  next
    case (Inl x)
    with Suc.prems c have n: "0 < n" "bindE (pause e 2) (\<lambda>_. checkNFSReadWrite n e g p) s1 = (Inr True, s')"
      by (auto simp: bindR_def ret_def split: if_splits)
    from n(2) obtain u s2 where p: "pause e 2 s1 = (Inr u :: svc_error + unit, s2)" "checkNFSReadWrite n e g p s2 = (Inr True, s')"
      by (rule bindE_eq_InrE)
    have "sent s2 = sent s1" using p(1) by (auto simp: pause_def split: prod.splits)
    with Suc.IH [OF p(2)] s1 show ?thesis by force
  qed
qed (simp add: ret_def)

lemma ready_last:
  fixes e :: "'a menv"
  assumes "disk_ready e g v s = (Inr True, s')"
    and "TrimSpace (VmDiskPath v) \<noteq> []" "HasPrefix (TrimSpace (VmDiskPath v)) nfsMountPrefix"
  shows "\<exists>xs. sent s' = sent s @ xs @ [(g, CheckRW (Dir (TrimSpace (VmDiskPath v))))] \<and> list_all no_start xs"
proof -
  define p where "p = TrimSpace (VmDiskPath v)"
  define rest :: "bool \<Rightarrow> ('a, bool) sact" where "rest = (\<lambda>readable. if \<not> readable then ret False else checkNFSReadWrite 10 e g (Dir p))"
  define chk :: "('a, bool) sact" where "chk = (if disk_image p
      then bindR (CheckFileReadable e g p) (\<lambda>q. ret (q = Inr ())) else ret True)"
  have "disk_ready e g v = bindR (CanFindFileOrDir e g p) (\<lambda>r. if r \<noteq> Inr True then ret False else bindE chk rest)"
    using assms(2,3) unfolding disk_ready_def Let_def p_def rest_def chk_def by simp
  with assms(1) obtain r s1 where f: "CanFindFileOrDir e g p s = (r, s1)" and
    k: "(if r \<noteq> Inr True then ret False else bindE chk rest) s1 = (Inr True, s')"
    by (auto simp: bindR_def split: prod.splits)
  from k have "bindE chk rest s1 = (Inr True, s')" by (auto split: if_splits)
  then obtain b s2 where c: "chk s1 = (Inr b, s2)" "rest b s2 = (Inr True, s')" by (rule bindE_eq_InrE)
  have chk: "steps (adds no_start) chk" unfolding chk_def by (auto intro!: adds_intro)
  have "adds no_start s s1"
    using stepsD [OF adds_checked(3) f, of no_start] by simp
  from adds_trans [OF this stepsD [OF chk c(1)]] have "adds no_start s s2" .
  then obtain xs where xs: "sent s2 = sent s @ xs" "list_all no_start xs" by (auto simp: adds_def)
  from c(2) have "checkNFSReadWrite 10 e g (Dir p) s2 = (Inr True, s')" by (auto simp: rest_def split: if_splits)
  from checkNFS_last [OF this] obtain ys where "sent s' = sent s2 @ ys @ [(g, CheckRW (Dir p))]" "list_all no_start ys" by blast
  with xs show ?thesis unfolding p_def by (intro exI [of _ "xs @ ys"]) auto
qed

lemma run_sent:
  assumes "run_vm e g v name s = (r, s')"
  shows "\<exists>ys. sent s' = sent s @ (g, Start v) # ys \<and> list_all no_start ys"
proof -
  obtain q s1 where c: "call e g (Start v) s = (q, s1)" by (metis prod.collapse)
  then have s1: "sent s1 = sent s @ [(g, Start v)]" by (auto simp: call_def split: prod.splits)
  have "\<exists>k. run_vm e g v name = bindR (call e g (Start v)) k \<and> (\<forall>q. steps (adds no_start) (k q))"
    unfolding run_vm_def by (intro exI conjI, rule refl) (auto intro!: adds_intro)
  then obtain k where "run_vm e g v name = bindR (call e g (Start v)) k" "\<And>q. steps (adds no_start) (k q)" by blast
  with assms c have "adds no_start s1 s'" by (metis (no_types, lifting) bindR_def case_prod_conv stepsD)
  with s1 show ?thesis by (auto simp: adds_def)
qed

lemma checked_starts_append: "checked_starts p xs \<Longrightarrow> checked_starts p ys \<Longrightarrow> checked_starts p (xs @ ys)"
  unfolding checked_starts_def
proof (intro allI impI)
  fix i g v
  assume xs: "\<forall>i<length xs. \<forall>g v. xs ! i = (g, Start v) \<longrightarrow> 0 < i \<and> xs ! (i - 1) = (g, CheckRW p)"
    and ys: "\<forall>i<length ys. \<forall>g v. ys ! i = (g, Start v) \<longrightarrow> 0 < i \<and> ys ! (i - 1) = (g, CheckRW p)"
    and i: "i < length (xs @ ys)" "(xs @ ys) ! i = (g, Start v)"
  show "0 < i \<and> (xs @ ys) ! (i - 1) = (g, CheckRW p)"
  proof (cases "i < length xs")
    case True
    with xs i show ?thesis by (auto simp: nth_append)
  next
    case False
    with i have "i - length xs < length ys" "ys ! (i - length xs) = (g, Start v)" by (auto simp: nth_append)
    with ys have y: "0 < i - length xs" "ys ! (i - length xs - 1) = (g, CheckRW p)" by auto
    then have "i - 1 - length xs = i - length xs - 1" "\<not> i - 1 < length xs" by auto
    with y show ?thesis by (simp add: nth_append)
  qed
qed

lemma no_start_checked: "list_all no_start xs \<Longrightarrow> checked_starts p xs"
  unfolding checked_starts_def list_all_length by (metis no_start_def snd_conv)

lemma checked_start_pair: "checked_starts p [(g, CheckRW p), (g, Start v)]"
  by (auto simp: checked_starts_def less_Suc_eq)

definition starts_checked :: "string \<Rightarrow> 'w mstate \<Rightarrow> 'w mstate \<Rightarrow> bool" where
  "starts_checked p s s' \<longleftrightarrow> (\<exists>xs. sent s' = sent s @ xs \<and> checked_starts p xs)"

lemma starts_checked_trans: "starts_checked p a b \<Longrightarrow> starts_checked p b c \<Longrightarrow> starts_checked p a c"
  unfolding starts_checked_def using checked_starts_append by (metis append_assoc)

lemma starts_checked_none: "adds no_start a b \<Longrightarrow> starts_checked p a b"
  unfolding starts_checked_def adds_def using no_start_checked by blast

lemma starts_checked_round:
  assumes "disk_ready e g v s = (Inr True, s1)" "run_vm e g v name s1 = (r, s2)"
    and "TrimSpace (VmDiskPath v) \<noteq> []" "HasPrefix (TrimSpace (VmDiskPath v)) nfsMountPrefix"
  shows "starts_checked (Dir (TrimSpace (VmDiskPath v))) s s2"
proof -
  let ?p = "Dir (TrimSpace (VmDiskPath v))"
  from ready_last [OF assms(1,3,4)] obtain xs where xs: "sent s1 = sent s @ xs @ [(g, CheckRW ?p)]" "list_all no_start xs" by blast
  from run_sent [OF assms(2)] obtain ys where ys: "sent s2 = sent s1 @ (g, Start v) # ys" "list_all no_start ys" by blast
  have "checked_starts ?p (xs @ [(g, CheckRW ?p), (g, Start v)] @ ys)"
    by (intro checked_starts_append checked_start_pair no_start_checked xs ys)
  with xs ys show ?thesis unfolding starts_checked_def by (intro exI) (auto simp: append.assoc)
qed

lemma pause_returns:
  obtains u s' where "pause e n s = (Inr u, s')"
  by (cases "Pause e n (conns s) (ext s)") (simp add: pause_def)

lemma try_start_checked:
  assumes "TrimSpace (VmDiskPath v) \<noteq> []" "HasPrefix (TrimSpace (VmDiskPath v)) nfsMountPrefix"
  shows "starts_checked (Dir (TrimSpace (VmDiskPath v))) s (snd (try_start fuel e v name tries s))"
proof (induction fuel arbitrary: tries s)
  case (Suc fuel)
  let ?p = "Dir (TrimSpace (VmDiskPath v))"
  have refl: "starts_checked ?p s s" for s :: "'a mstate" by (rule starts_checked_none) (simp add: adds_def)
  have pause: "starts_checked ?p s s'" if "pause e n s = (r :: svc_error + unit, s')" for n s s' r
    by (intro starts_checked_none stepsD [OF adds_other(1) that])
  have ctx: "\<exists>r. context_ok e s = (r, s)"
    by (simp add: context_ok_def bindE_def getW_def guardE_def)
  then obtain r where ctx: "context_ok e s = (r, s)" ..
  obtain q where conn: "conn_of (VmMachine v) s = (Inr q, s)" by (simp add: conn_of_def getW_def)
  show ?case
  proof (cases r)
    case (Inl x)
    with ctx refl show ?thesis by (simp add: bindE_def)
  next
    case (Inr u)
    note ctx = ctx [unfolded Inr]
    show ?thesis
    proof (cases q)
      case None
      obtain z s1 where p: "pause e 60 s = (Inr z :: svc_error + unit, s1)"
        by (rule pause_returns)
      have "starts_checked ?p s1 (snd (try_start fuel e v name tries s1))" by (rule Suc.IH)
      from starts_checked_trans [OF pause [OF p] this] None show ?thesis by (simp add: bindE_def ctx conn p)
    next
      case (Some cg)
      obtain c g where cg: "cg = (c, g)" by (cases cg)
      obtain r1 s1 where d: "disk_ready e g v s = (r1, s1)" by (metis prod.collapse)
      have d1: "starts_checked ?p s s1" by (intro starts_checked_none stepsD [OF sends_ready d])
      consider (last) "tries + 1 = 180" | (err) x where "tries + 1 \<noteq> 180" "r1 = Inl x"
        | (wait) "tries + 1 \<noteq> 180" "r1 = Inr False" | (go) "tries + 1 \<noteq> 180" "r1 = Inr True"
        by (cases r1) auto
      then show ?thesis
      proof cases
        case last
        with refl Some cg show ?thesis by (simp add: bindE_def ctx conn ret_def)
      next
        case err
        with d1 d Some cg show ?thesis by (simp add: bindE_def ctx conn)
      next
        case wait
        obtain z s2 where p: "pause e 60 s1 = (Inr z :: svc_error + unit, s2)"
          by (rule pause_returns)
        have "starts_checked ?p s2 (snd (try_start fuel e v name (tries + 1) s2))" by (rule Suc.IH)
        from starts_checked_trans [OF d1 starts_checked_trans [OF pause [OF p] this]] wait d Some cg show ?thesis
          by (simp add: bindE_def ctx conn p)
      next
        case go
        obtain r2 s2 where w: "run_vm e g v name s1 = (r2, s2)" by (metis prod.collapse)
        note round = starts_checked_round [OF d [unfolded go(2)] w assms]
        have "starts_checked ?p s2 (snd (try_start fuel e v name (tries + 1) s2))" by (rule Suc.IH)
        from starts_checked_trans [OF round this] round go d w Some cg show ?thesis
          by (cases r2) (auto simp: bindE_def ctx conn ret_def)
      qed
    qed
  qed
qed (simp add: starts_checked_none adds_def ret_def)


definition shared_vm :: vm where
  "shared_vm = (lab_vm ''web'')\<lparr>VmDiskPath := ''/mnt/512SvMan/shared/a/web.qcow2''\<rparr>"


end
