(* ===== verification/VmDisks.thy ===== *)
theory VmDisks
  imports VmService
begin

text \<open>
  Data disks: the service of \<open>master/services/vm_disk.go\<close> and attaching a disk to a VM or taking it away
  in \<open>master/services/virsh.go\<close>.  The table says to which VM a disk is attached; a conditional update of
  the row decides between requests that run at the same time.
\<close>

subsection \<open>Disks of a VM\<close>

text \<open>Once the VM and its connection are known: check the file, take the row, tell the slave.\<close>

definition attach_disk :: "'w menv \<Rightarrow> grpc_conn \<Rightarrow> string \<Rightarrow> string \<Rightarrow> VMDisk \<Rightarrow> ('w, VMDisk option) sact" where
  "attach_disk e g vmName machineName disk =
     bindE (svc (CheckFileReadable e g (DiskFile disk))) (\<lambda>_.
     bindE (ReserveVMDiskAttachment e (DiskId disk) vmName machineName) (\<lambda>reserved.
       if \<not> reserved then fail (DiskErr (DiskAttached (DiskId disk) []))
       else bindR (svc (call e g (AttachDisk vmName (DiskFile disk) (DiskFormat disk)))) (\<lambda>r.
              case r of
                Inl x \<Rightarrow> bindR (ClearVMDiskAttachment e (DiskId disk)) (\<lambda>_. fail x)
              | Inr _ \<Rightarrow> GetVMDiskByID e (DiskId disk))))"

definition AddVMDisk :: "'w menv \<Rightarrow> string \<Rightarrow> int \<Rightarrow> ('w, VMDisk option) sact" where
  "AddVMDisk e vmName0 i =
     (let vmName = TrimSpace vmName0 in
      if vmName = [] then fail (VmErr VmNameRequired)
      else bindE (GetVMDiskByID e i) (\<lambda>d. case d of
          None \<Rightarrow> fail (DiskErr (DiskMissing i))
        | Some disk \<Rightarrow>
            if TrimSpace (AttachedVm disk) \<noteq> [] then fail (DiskErr (DiskAttached i (AttachedVm disk)))
            else bindE (vm_required e vmName) (\<lambda>v.
                 bindE (connected (VmMachine v)) (\<lambda>(_, g). attach_disk e g vmName (VmMachine v) disk))))"

definition RemoveVMDisk :: "'w menv \<Rightarrow> string \<Rightarrow> int \<Rightarrow> ('w, VMDisk) sact" where
  "RemoveVMDisk e vmName0 i =
     (let vmName = TrimSpace vmName0 in
      if vmName = [] then fail (VmErr VmNameRequired)
      else bindE (GetVMDiskByID e i) (\<lambda>d. case d of
          None \<Rightarrow> fail (DiskErr (DiskMissing i))
        | Some disk \<Rightarrow>
            if TrimSpace (AttachedVm disk) = [] then fail (DiskErr (DiskNotAttached i))
            else if AttachedVm disk \<noteq> vmName then fail (DiskErr (DiskAttachedTo i (AttachedVm disk)))
            else bindE (vm_required e vmName) (\<lambda>v.
                 bindE (conn_of (VmMachine v)) (\<lambda>c. case c of
                     None \<Rightarrow> fail (NotConnected (VmMachine v))
                   | Some (_, g) \<Rightarrow>
                       bindE (svc (call e g (DetachDisk vmName (DiskFile disk) (DiskFormat disk)))) (\<lambda>_.
                       bindE (ClearVMDiskAttachment e (DiskId disk)) (\<lambda>_. ret (detached disk)))))))"

definition ListVMDisk :: "'w menv \<Rightarrow> string \<Rightarrow> ('w, VMDisk list) sact" where
  "ListVMDisk e vmName0 =
     (let vmName = TrimSpace vmName0 in
      if vmName = [] then fail (VmErr VmNameRequired) else GetVMDiskByAttachedVM e vmName)"

subsection \<open>The disks of the shares\<close>

text \<open>The connection of the machine that has the share, and the share's folder, when it can be written.\<close>

definition readyNFSConnection :: "'w menv \<Rightarrow> int \<Rightarrow> ('w, grpc_conn \<times> string) sact" where
  "readyNFSConnection e nfsID =
     (if nfsID \<le> 0 then fail (LookupErr BadNfsId)
      else bindE (GetNFSShareByID e nfsID) (\<lambda>s. case s of
          None \<Rightarrow> fail (ShareErr (ShareMissing nfsID))
        | Some share \<Rightarrow>
            bindE (connected (ShareMachine share)) (\<lambda>(_, g).
            (let target = TrimSuffix (ShareTarget share) ''/'' in
             bindE (svc (call e g (SharedStatus ((mount_of share)\<lparr>MountTarget := target\<rparr>)))) (\<lambda>status.
               if status \<noteq> Working True then fail (ShareErr (ShareNotMounted nfsID))
               else bindR (CheckReadWrite e g target) (\<lambda>r. case r of
                   Inl m \<Rightarrow> fail (ShareErr (ShareNotWritable nfsID m))
                 | Inr _ \<Rightarrow> ret (g, target)))))))"

definition disk_call :: "'w menv \<Rightarrow> grpc_conn \<Rightarrow> rpc \<Rightarrow> ('w, VMDiskResponse) sact" where
  "disk_call e g r =
     bindE (svc (call e g r)) (\<lambda>v. case v of
         DiskReply res \<Rightarrow> if ResOk res then ret res else fail (DiskErr DiskCallFailed)
       | _ \<Rightarrow> fail (DiskErr DiskCallFailed))"

definition CreateDisk :: "'w menv \<Rightarrow> string \<Rightarrow> int \<Rightarrow> int \<Rightarrow> string \<Rightarrow> ('w, int) sact" where
  "CreateDisk e name nfsID sizeGB fmt =
     bindE (DoesVMDiskNameExist e name) (\<lambda>exists.
       if exists then fail (DiskErr (DiskNameExists name))
       else bindE (readyNFSConnection e nfsID) (\<lambda>(g, target).
            bindE (disk_call e g (CreateDiskCall target name sizeGB fmt)) (\<lambda>res.
            bindE (svc (SyncSlave e g)) (\<lambda>_.
            bindR (InsertVMDisk e name nfsID (ResPath res) (ResFolder res) (ResFormat res) (ResSizeGB res)) (\<lambda>r.
              case r of
                Inr i \<Rightarrow> ret i
              | Inl x \<Rightarrow> bindR (call e g (DeleteDiskCall target name)) (\<lambda>_. fail x))))))"

definition detachAttachedVMDisk :: "'w menv \<Rightarrow> grpc_conn \<Rightarrow> VMDisk \<Rightarrow> ('w, unit) sact" where
  "detachAttachedVMDisk e g disk =
     (if TrimSpace (AttachedVm disk) = [] then ret ()
      else bindE (svc (call e g (DetachDisk (AttachedVm disk) (DiskFile disk) (DiskFormat disk)))) (\<lambda>_. ret ()))"

definition DeleteDisk :: "'w menv \<Rightarrow> int \<Rightarrow> ('w, unit) sact" where
  "DeleteDisk e i =
     bindE (GetVMDiskByID e i) (\<lambda>d. case d of
         None \<Rightarrow> fail (DiskErr (DiskMissing i))
       | Some disk \<Rightarrow>
           bindE (readyNFSConnection e (DiskNfs disk)) (\<lambda>(g, target).
           bindE (if TrimSpace (AttachedVm disk) = [] then ret ()
                  else (let machineName = TrimSpace (AttachedMachine disk) in
                        bindE (if machineName = [] then ret g
                               else bindE (connected machineName) (\<lambda>(_, h). ret h)) (\<lambda>h.
                        bindE (detachAttachedVMDisk e h disk) (\<lambda>_. ClearVMDiskAttachment e (DiskId disk))))) (\<lambda>_.
           bindE (disk_call e g (DeleteDiskCall target (DiskName disk))) (\<lambda>_.
           bindE (svc (SyncSlave e g)) (\<lambda>_. RemoveVMDiskByID e (DiskId disk))))))"

definition GrowDisk :: "'w menv \<Rightarrow> int \<Rightarrow> int \<Rightarrow> ('w, int) sact" where
  "GrowDisk e i sizeGB =
     bindE (GetVMDiskByID e i) (\<lambda>d. case d of
         None \<Rightarrow> fail (DiskErr (DiskMissing i))
       | Some disk \<Rightarrow>
           bindE (readyNFSConnection e (DiskNfs disk)) (\<lambda>(g, target).
           bindE (disk_call e g (GrowDiskCall target (DiskName disk) sizeGB)) (\<lambda>res.
           bindE (svc (SyncSlave e g)) (\<lambda>_.
           bindE (UpdateVMDiskSize e (DiskId disk) (ResSizeGB res)) (\<lambda>_. ret (ResSizeGB res))))))"

subsection \<open>The rows of a table\<close>

text \<open>
  A table of disks: identifiers, names and files are unique, no identifier is new, and a disk that
  is attached to no VM is on no machine.
\<close>

definition disk_table :: "tables \<Rightarrow> bool" where
  "disk_table t \<longleftrightarrow> distinct (map DiskId (vm_disks t)) \<and> distinct (map DiskName (vm_disks t)) \<and>
     distinct (map DiskFile (vm_disks t)) \<and> (\<forall>d \<in> set (vm_disks t). DiskId d \<le> last_id t) \<and>
     (\<forall>d \<in> set (vm_disks t). AttachedVm d = [] \<longrightarrow> AttachedMachine d = [])"

definition keeps_disks :: "'w mstate \<Rightarrow> 'w mstate \<Rightarrow> bool" where
  "keeps_disks s s' \<longleftrightarrow> (disk_table (tabs s) \<longrightarrow> disk_table (tabs s'))"

lemma keeps_disks_order: "reflp keeps_disks" "transp keeps_disks"
  by (auto simp: keeps_disks_def reflp_def transp_def)

lemmas disks_intro =
  steps_bindE [OF keeps_disks_order(2)] steps_bindR [OF keeps_disks_order(2)]
  steps_pure [OF keeps_disks_order(1)] steps_mapErr steps_if steps_case_sum steps_case_option

lemma disks_same: "steps same_tabs m \<Longrightarrow> steps keeps_disks m"
  by (simp add: steps_def same_tabs_def keeps_disks_def)

lemma disks_dbdo:
  "(\<And>t. disk_table t \<Longrightarrow> disk_table (snd (stmt t))) \<Longrightarrow> steps keeps_disks (dbdo e name stmt)"
  by (auto simp: steps_def dbdo_def keeps_disks_def split: prod.split bool.split) (metis snd_conv)

text \<open>Rows keep their keys under an update that only changes an attachment or a size.\<close>

definition row_update :: "(VMDisk \<Rightarrow> VMDisk) \<Rightarrow> bool" where
  "row_update f \<longleftrightarrow> (\<forall>d. DiskId (f d) = DiskId d \<and> DiskName (f d) = DiskName d \<and> DiskFile (f d) = DiskFile d \<and>
     ((AttachedVm d = [] \<longrightarrow> AttachedMachine d = []) \<longrightarrow> AttachedVm (f d) = [] \<longrightarrow> AttachedMachine (f d) = []))"

lemma disk_table_update: "row_update f \<Longrightarrow> disk_table t \<Longrightarrow> disk_table (update_disk P f t)"
proof -
  assume f: "row_update f" and t: "disk_table t"
  have keys: "map g (map (\<lambda>d. if P d then f d else d) xs) = map g xs" if "\<And>d. g (f d) = g d" for g :: "VMDisk \<Rightarrow> 'a" and xs
    using that by simp
  have "map DiskId (vm_disks (update_disk P f t)) = map DiskId (vm_disks t)"
    "map DiskName (vm_disks (update_disk P f t)) = map DiskName (vm_disks t)"
    "map DiskFile (vm_disks (update_disk P f t)) = map DiskFile (vm_disks t)"
    using f by (simp_all add: update_disk_def row_update_def)
  moreover have "\<forall>d \<in> set (vm_disks (update_disk P f t)). DiskId d \<le> last_id (update_disk P f t)"
    using f t by (auto simp: update_disk_def row_update_def disk_table_def)
  moreover have "\<forall>d \<in> set (vm_disks (update_disk P f t)). AttachedVm d = [] \<longrightarrow> AttachedMachine d = []"
    using f t by (auto simp: update_disk_def row_update_def disk_table_def)
  ultimately show ?thesis using t unfolding disk_table_def by simp
qed

lemma row_update_simps [simp]:
  "row_update detached" "row_update (\<lambda>d. d\<lparr>DiskSizeGB := n\<rparr>)"
  "v \<noteq> [] \<Longrightarrow> row_update (\<lambda>d. d\<lparr>AttachedVm := v, AttachedMachine := m\<rparr>)"
  by (simp_all add: row_update_def detached_def)

lemma disk_table_insert:
  assumes "disk_table t" "DiskName d \<notin> DiskName ` set (vm_disks t)" "DiskFile d \<notin> DiskFile ` set (vm_disks t)"
    and "DiskId d = last_id t + 1" "AttachedVm d = []" "AttachedMachine d = []"
  shows "disk_table (t\<lparr>last_id := last_id t + 1, vm_disks := vm_disks t @ [d]\<rparr>)"
  using assms by (force simp: disk_table_def)

lemma disk_table_remove: "disk_table t \<Longrightarrow> disk_table (t\<lparr>vm_disks := filter P (vm_disks t)\<rparr>)"
  by (auto simp: disk_table_def distinct_map_filter)

lemma disks_statements [intro]:
  "steps keeps_disks (ClearVMDiskAttachment e i)" "steps keeps_disks (UpdateVMDiskSize e i n)"
  "steps keeps_disks (RemoveVMDiskByID e i)" "v \<noteq> [] \<Longrightarrow> steps keeps_disks (ReserveVMDiskAttachment e i v m)"
  "steps keeps_disks (InsertVMDisk e name nfs file folder fmt n)"
  unfolding ClearVMDiskAttachment_def UpdateVMDiskSize_def RemoveVMDiskByID_def ReserveVMDiskAttachment_def
    InsertVMDisk_def dbset_def reserve_def
  by (auto intro!: disks_intro disks_dbdo disk_table_update disk_table_remove disk_table_insert
      simp: Let_def split: if_split)

lemma disks_reads [intro]:
  "steps keeps_disks (dbget e name q)" "steps keeps_disks (call e c r)" "steps keeps_disks (pause e n)"
  "steps keeps_disks (conn_of m)" "steps keeps_disks (grpc_conns :: ('w, _) sact)"
  "steps keeps_disks (any_answers e name cs)" "steps keeps_disks (locate e name cs)"
  by (auto intro: disks_same)

lemma tabs_required: "steps same_tabs (vm_required e name)"
  unfolding vm_required_def GetVmByName_def by (auto intro!: tabs_intro split: prod.split)

lemma tabs_connected: "steps same_tabs (connected m)"
  unfolding connected_def by (auto intro!: tabs_intro)

lemma tabs_readable: "steps same_tabs (CheckFileReadable e c p)"
  unfolding CheckFileReadable_def checked_def by (auto intro!: tabs_intro split: reply.split)

lemma disks_find [intro]: "steps keeps_disks (vm_required e name)"
  unfolding vm_required_def GetVmByName_def DoesVMExist_def
  by (auto intro!: disks_intro)

lemma disks_nfs [intro]:
  "steps keeps_disks (CheckFileReadable e c p)" "steps keeps_disks (CheckReadWrite e c p)" "steps keeps_disks (SyncSlave e c)"
  unfolding CheckFileReadable_def CheckReadWrite_def SyncSlave_def withRetry_def checked_def
  by (auto intro!: disks_intro disks_same [OF tabs_retry] split: reply.split)

lemma disks_connected [intro]: "steps keeps_disks (connected m)"
  unfolding connected_def by (auto intro!: disks_intro)

lemma disks_ready [intro]: "steps keeps_disks (readyNFSConnection e i)"
  unfolding readyNFSConnection_def GetNFSShareByID_def svc_def Let_def
  by (auto intro!: disks_intro split: prod.split)

lemma disks_disk_call [intro]: "steps keeps_disks (disk_call e g r)"
  unfolding disk_call_def svc_def by (auto intro!: disks_intro split: reply.split)

text \<open>C17: no operation on disks, whether it succeeds or fails, breaks the table: identifiers, names and
  files stay unique, and a disk without a VM is on no machine.\<close>

theorem disk_operations_keep_table:
  assumes "disk_table (tabs s)"
  shows "disk_table (tabs (snd (AddVMDisk e name i s))) \<and>
    disk_table (tabs (snd (RemoveVMDisk e name i s))) \<and>
    disk_table (tabs (snd (CreateDisk e name nfs n fmt s))) \<and>
    disk_table (tabs (snd (DeleteDisk e i s))) \<and>
    disk_table (tabs (snd (GrowDisk e i n s)))"
proof -
  have "steps keeps_disks (AddVMDisk e name i)"
    unfolding AddVMDisk_def attach_disk_def Let_def svc_def GetVMDiskByID_def by (auto intro!: disks_intro split: prod.split)
  moreover have "steps keeps_disks (RemoveVMDisk e name i)"
    unfolding RemoveVMDisk_def Let_def svc_def GetVMDiskByID_def by (auto intro!: disks_intro split: prod.split)
  moreover have "steps keeps_disks (CreateDisk e name nfs n fmt)"
    unfolding CreateDisk_def svc_def DoesVMDiskNameExist_def by (auto intro!: disks_intro split: prod.split)
  moreover have "steps keeps_disks (DeleteDisk e i)"
    unfolding DeleteDisk_def Let_def svc_def GetVMDiskByID_def detachAttachedVMDisk_def
    by (auto intro!: disks_intro split: prod.split)
  moreover have "steps keeps_disks (GrowDisk e i n)"
    unfolding GrowDisk_def svc_def GetVMDiskByID_def by (auto intro!: disks_intro split: prod.split)
  ultimately show ?thesis
    using assms by (simp_all add: steps_def keeps_disks_def)
qed

theorem disk_operations_keep_table_witness:
  "disk_table (tabs (snd (DeleteDisk lab 7 lab_state))) \<and> disk_table (tabs (snd (CreateDisk lab ''logs'' 1 20 ''raw'' lab_state)))"
proof -
  have "disk_table (tabs lab_state)" by (simp add: disk_table_def lab_defs)
  from disk_operations_keep_table [OF this, where e = lab and name = "''logs''" and i = 7 and nfs = 1 and n = 20 and fmt = "''raw''"]
  show ?thesis by simp
qed

subsection \<open>Attaching\<close>

lemma find_SomeD: "find P xs = Some x \<Longrightarrow> x \<in> set xs \<and> P x"
  by (induction xs) (auto split: if_splits)

definition attach_row :: "int \<Rightarrow> string \<Rightarrow> string \<Rightarrow> tables \<Rightarrow> tables" where
  "attach_row i v m t = update_disk (\<lambda>d. DiskId d = i) (\<lambda>d. d\<lparr>AttachedVm := v, AttachedMachine := m\<rparr>) t"

lemma reserve_true:
  assumes "disk_table t" "fst (reserve i v m t)"
  shows "snd (reserve i v m t) = attach_row i v m t \<and> (\<exists>d \<in> set (vm_disks t). DiskId d = i \<and> AttachedVm d = [])"
proof -
  let ?P = "\<lambda>d. DiskId d = i \<and> AttachedVm d = []"
  from assms(2) have "length (filter ?P (vm_disks t)) = 1" by (simp add: reserve_def Let_def)
  then have "filter ?P (vm_disks t) \<noteq> []" by fastforce
  then obtain d where d: "d \<in> set (vm_disks t)" "DiskId d = i" "AttachedVm d = []"
    by (auto simp: filter_empty_conv)
  moreover have "DiskId x = i \<Longrightarrow> x \<in> set (vm_disks t) \<Longrightarrow> AttachedVm x = []" for x
    using assms(1) d by (metis disk_table_def distinct_map inj_onD)
  ultimately show ?thesis by (auto simp: reserve_def Let_def update_disk_def attach_row_def)
qed

lemma attach_disk_ok:
  assumes "disk_table (tabs s)" "attach_disk e g n m disk s = (Inr r, s')"
  shows "tabs s' = attach_row (DiskId disk) n m (tabs s) \<and>
    (\<exists>d \<in> set (vm_disks (tabs s)). DiskId d = DiskId disk \<and> AttachedVm d = []) \<and>
    (g, AttachDisk n (DiskFile disk) (DiskFormat disk)) \<in> set (sent s')"
proof -
  from assms(2) [unfolded attach_disk_def] obtain u s4 where c: "svc (CheckFileReadable e g (DiskFile disk)) s = (Inr u, s4)" and
    k: "bindE (ReserveVMDiskAttachment e (DiskId disk) n m) (\<lambda>reserved.
       if \<not> reserved then fail (DiskErr (DiskAttached (DiskId disk) []))
       else bindR (svc (call e g (AttachDisk n (DiskFile disk) (DiskFormat disk)))) (\<lambda>r.
              case r of Inl x \<Rightarrow> bindR (ClearVMDiskAttachment e (DiskId disk)) (\<lambda>_. fail x)
              | Inr _ \<Rightarrow> GetVMDiskByID e (DiskId disk))) s4 = (Inr r, s')"
    by (rule bindE_eq_InrE)
  have t4: "tabs s4 = tabs s" using stepsD [OF tabs_svc [OF tabs_readable] c] by (simp add: same_tabs_def)
  from k obtain b s5 where res: "ReserveVMDiskAttachment e (DiskId disk) n m s4 = (Inr b, s5)" and
    k: "(if \<not> b then fail (DiskErr (DiskAttached (DiskId disk) []))
       else bindR (svc (call e g (AttachDisk n (DiskFile disk) (DiskFormat disk)))) (\<lambda>r.
              case r of Inl x \<Rightarrow> bindR (ClearVMDiskAttachment e (DiskId disk)) (\<lambda>_. fail x)
              | Inr _ \<Rightarrow> GetVMDiskByID e (DiskId disk))) s5 = (Inr r, s')"
    by (rule bindE_eq_InrE)
  from k have b: b by (auto split: if_splits)
  have r5: "b = fst (reserve (DiskId disk) n m (tabs s4))" "tabs s5 = snd (reserve (DiskId disk) n m (tabs s4))"
    using dbdo_ok(1,2) [OF res [unfolded ReserveVMDiskAttachment_def]] by auto
  obtain z s6 where a: "svc (call e g (AttachDisk n (DiskFile disk) (DiskFormat disk))) s5 = (z, s6)" by (metis prod.collapse)
  with k b have last: "GetVMDiskByID e (DiskId disk) s6 = (Inr r, s')"
    by (cases z) (auto simp: bindR_def fail_def split: prod.splits)
  have "tabs s' = tabs s6" "sent s' = sent s6"
    using dbdo_ok(2,4) [OF last [unfolded GetVMDiskByID_def dbget_def]] by auto
  moreover have "tabs s6 = tabs s5" using stepsD [OF tabs_svc [OF tabs_call] a] by (simp add: same_tabs_def)
  moreover have "(g, AttachDisk n (DiskFile disk) (DiskFormat disk)) \<in> set (sent s6)"
    using a by (auto simp: svc_def mapErr_def call_def split: prod.splits)
  ultimately show ?thesis using reserve_true [of "tabs s" "DiskId disk" n m] assms(1) b r5 t4 by auto
qed

text \<open>C18: a request to attach a disk that succeeds has found the disk free, has taken it for the VM in the
  table, and has told a slave to attach it; nothing else in the tables has changed.\<close>

theorem attach_takes_free_disk:
  assumes "disk_table (tabs s)" "AddVMDisk e name i s = (Inr r, s')"
  shows "(\<exists>d \<in> set (vm_disks (tabs s)). DiskId d = i \<and> AttachedVm d = []) \<and>
    (\<exists>m g file fmt. tabs s' = attach_row i (TrimSpace name) m (tabs s) \<and>
       (g, AttachDisk (TrimSpace name) file fmt) \<in> set (sent s'))"
proof -
  let ?k = "\<lambda>disk v. bindE (connected (VmMachine v)) (\<lambda>(_, g). attach_disk e g (TrimSpace name) (VmMachine v) disk)"
  from assms(2) have "bindE (GetVMDiskByID e i) (\<lambda>d. case d of None \<Rightarrow> fail (DiskErr (DiskMissing i))
        | Some disk \<Rightarrow> if TrimSpace (AttachedVm disk) \<noteq> [] then fail (DiskErr (DiskAttached i (AttachedVm disk)))
            else bindE (vm_required e (TrimSpace name)) (?k disk)) s = (Inr r, s')"
    unfolding AddVMDisk_def Let_def by (simp split: if_splits)
  then obtain q s1 where g: "GetVMDiskByID e i s = (Inr q, s1)" and
    k: "(case q of None \<Rightarrow> fail (DiskErr (DiskMissing i))
        | Some disk \<Rightarrow> if TrimSpace (AttachedVm disk) \<noteq> [] then fail (DiskErr (DiskAttached i (AttachedVm disk)))
            else bindE (vm_required e (TrimSpace name)) (?k disk)) s1 = (Inr r, s')" by (rule bindE_eq_InrE)
  have t1: "tabs s1 = tabs s" and q: "q = find (\<lambda>d. DiskId d = i) (vm_disks (tabs s))"
    using dbget_ok [OF g [unfolded GetVMDiskByID_def]] by auto
  from k obtain disk where disk: "q = Some disk" "bindE (vm_required e (TrimSpace name)) (?k disk) s1 = (Inr r, s')"
    by (auto split: option.splits if_splits)
  then have i: "DiskId disk = i" using find_SomeD [of "\<lambda>d. DiskId d = i" "vm_disks (tabs s)" disk] disk(1) q by simp
  from disk(2) obtain v s2 where v: "vm_required e (TrimSpace name) s1 = (Inr v, s2)" "?k disk v s2 = (Inr r, s')"
    by (rule bindE_eq_InrE)
  from v(2) obtain cg s3 where c: "connected (VmMachine v) s2 = (Inr cg, s3)" and
    k: "(case cg of (_, g) \<Rightarrow> attach_disk e g (TrimSpace name) (VmMachine v) disk) s3 = (Inr r, s')"
    by (rule bindE_eq_InrE)
  obtain entry g where "cg = (entry, g)" by (cases cg)
  with k have k: "attach_disk e g (TrimSpace name) (VmMachine v) disk s3 = (Inr r, s')" by simp
  have t3: "tabs s3 = tabs s"
    using stepsD [OF tabs_required v(1)] stepsD [OF tabs_connected c] t1 by (simp add: same_tabs_def)
  from attach_disk_ok [OF _ k] assms(1) show ?thesis unfolding t3 i by blast
qed

theorem attach_takes_free_disk_witness:
  "tabs (snd (AddVMDisk lab '' web '' 7 (lab_state\<lparr>tabs := attach_row 7 [] [] lab_tables\<rparr>))) =
     attach_row 7 ''web'' ''node1'' (attach_row 7 [] [] lab_tables)"
proof -
  let ?s = "lab_state\<lparr>tabs := attach_row 7 [] [] lab_tables\<rparr>"
  have t: "disk_table (tabs ?s)" by (simp add: disk_table_def attach_row_def update_disk_def lab_defs)
  have "\<not> isl (fst (AddVMDisk lab '' web '' 7 ?s))" by code_simp
  then obtain r where "fst (AddVMDisk lab '' web '' 7 ?s) = Inr r" by (metis sum.collapse(2))
  then have run: "AddVMDisk lab '' web '' 7 ?s = (Inr r, snd (AddVMDisk lab '' web '' 7 ?s))"
    by (simp add: prod_eq_iff)
  have name: "TrimSpace '' web '' = ''web''" by code_simp
  from attach_takes_free_disk [OF t run] obtain m where
    m: "tabs (snd (AddVMDisk lab '' web '' 7 ?s)) = attach_row 7 ''web'' m (tabs ?s)" unfolding name by blast
  have "map AttachedMachine (vm_disks (tabs (snd (AddVMDisk lab '' web '' 7 ?s)))) = [''node1'']" by code_simp
  with m have "m = ''node1''" by (simp add: attach_row_def update_disk_def lab_defs)
  with m show ?thesis by simp
qed

subsection \<open>Requests that run at the same time\<close>

text \<open>
  The statements that change an attachment, as they may follow one another when several requests run
  at once: taking a disk, with whether it was taken, and giving it back.
\<close>

datatype disk_stmt = Take int string string bool | GiveBack int | GiveBackAll string

inductive disk_run :: "tables \<Rightarrow> disk_stmt list \<Rightarrow> tables \<Rightarrow> bool" where
  Done: "disk_run t [] t"
| Take: "reserve i v m t = (b, t1) \<Longrightarrow> disk_run t1 ops t2 \<Longrightarrow> disk_run t (Take i v m b # ops) t2"
| GiveBack: "disk_run (update_disk (\<lambda>d. DiskId d = i) detached t) ops t2 \<Longrightarrow> disk_run t (GiveBack i # ops) t2"
| GiveBackAll: "disk_run (update_disk (\<lambda>d. AttachedVm d = v) detached t) ops t2 \<Longrightarrow> disk_run t (GiveBackAll v # ops) t2"

inductive_cases disk_run_append: "disk_run t (a # ops) t2"

text \<open>The VM that has a disk; a VM has its disk until the disk or all its disks are given back.\<close>

definition holds :: "tables \<Rightarrow> int \<Rightarrow> string \<Rightarrow> bool" where
  "holds t i v \<longleftrightarrow> (\<forall>d \<in> set (vm_disks t). DiskId d = i \<longrightarrow> AttachedVm d = v)"

definition releases :: "int \<Rightarrow> string \<Rightarrow> disk_stmt \<Rightarrow> bool" where
  "releases i v op \<longleftrightarrow> op = GiveBack i \<or> op = GiveBackAll v"

lemma reserve_holds: "holds t i v \<Longrightarrow> v \<noteq> [] \<Longrightarrow> reserve j w m t = (b, t1) \<Longrightarrow> holds t1 i v \<and> (j = i \<longrightarrow> \<not> b)"
proof -
  assume h: "holds t i v" "v \<noteq> []" and r: "reserve j w m t = (b, t1)"
  have "holds t1 i v" using h r by (auto simp: reserve_def Let_def holds_def update_disk_def)
  moreover have "filter (\<lambda>d. DiskId d = i \<and> AttachedVm d = []) (vm_disks t) = []"
    using h by (auto simp: holds_def filter_empty_conv)
  then have "j = i \<Longrightarrow> \<not> b" using r by (auto simp: reserve_def Let_def)
  ultimately show ?thesis by blast
qed

lemma reserve_taken: "reserve i v m t = (True, t1) \<Longrightarrow> disk_table t \<Longrightarrow> holds t1 i v \<and> disk_table t1" if "v \<noteq> []"
proof -
  assume r: "reserve i v m t = (True, t1)" and t: "disk_table t"
  then have t1: "t1 = attach_row i v m t" using reserve_true [of t i v m] by simp
  have "disk_table t1"
    unfolding t1 attach_row_def by (rule disk_table_update [OF row_update_simps(3) [OF that] t])
  moreover have "holds (attach_row i v m t) i v" by (simp add: holds_def attach_row_def update_disk_def ball_Un)
  then have "holds t1 i v" by (simp only: t1)
  ultimately show ?thesis by blast
qed

lemma held_not_taken:
  "disk_run t ops t2 \<Longrightarrow> holds t i v \<Longrightarrow> v \<noteq> [] \<Longrightarrow> ops = mid @ Take i w m True # post \<Longrightarrow>
    \<exists>op \<in> set mid. releases i v op"
proof (induction arbitrary: mid rule: disk_run.induct)
  case (Take j u k t b t1 ops t2)
  from reserve_holds [OF Take.prems(1,2) Take.hyps(1)] have h: "holds t1 i v" "j = i \<longrightarrow> \<not> b" by auto
  with Take.prems(3) obtain mid' where "mid = Take j u k b # mid'" "ops = mid' @ Take i w m True # post"
    by (cases mid) auto
  with Take.IH [OF h(1) Take.prems(2), of mid'] show ?case by auto
next
  case (GiveBack j t ops t2)
  then obtain mid' where m: "mid = GiveBack j # mid'" "ops = mid' @ Take i w m True # post" by (cases mid) auto
  show ?case
  proof (cases "j = i")
    case True
    with m show ?thesis by (simp add: releases_def)
  next
    case False
    with GiveBack.prems(1) have "holds (update_disk (\<lambda>d. DiskId d = j) detached t) i v"
      by (auto simp: holds_def update_disk_def detached_def)
    from GiveBack.IH [OF this GiveBack.prems(2) m(2)] m show ?thesis by auto
  qed
next
  case (GiveBackAll u t ops t2)
  then obtain mid' where m: "mid = GiveBackAll u # mid'" "ops = mid' @ Take i w m True # post" by (cases mid) auto
  show ?case
  proof (cases "u = v")
    case True
    with m show ?thesis by (simp add: releases_def)
  next
    case False
    with GiveBackAll.prems(1) have "holds (update_disk (\<lambda>d. AttachedVm d = u) detached t) i v"
      by (auto simp: holds_def update_disk_def detached_def)
    from GiveBackAll.IH [OF this GiveBackAll.prems(2) m(2)] m show ?thesis by auto
  qed
qed simp

lemma disk_run_split: "disk_run t (pre @ ops) t2 \<Longrightarrow> \<exists>t1. disk_run t pre t1 \<and> disk_run t1 ops t2"
proof (induction pre arbitrary: t)
  case (Cons a pre)
  from Cons.prems have "disk_run t (a # pre @ ops) t2" by simp
  then show ?case by (rule disk_run_append) (auto dest!: Cons.IH intro: disk_run.intros)
qed (auto intro: disk_run.Done)

lemma disk_run_table:
  "disk_run t ops t2 \<Longrightarrow> disk_table t \<Longrightarrow> (\<forall>i m b. Take i [] m b \<notin> set ops) \<Longrightarrow> disk_table t2"
proof (induction rule: disk_run.induct)
  case (Take i v m t b t1 ops t2)
  then have "v \<noteq> []" by auto
  then have "disk_table t1"
    using Take.hyps(1) Take.prems(1) disk_table_update [OF row_update_simps(3), of v t]
    by (auto simp: reserve_def Let_def)
  with Take show ?case by auto
qed (simp_all add: disk_table_update)

text \<open>C19: however requests are interleaved, a disk is never taken twice without having been given back in
  between: between two statements that take it there is one that gives back this disk, or all disks
  of the VM that had it.\<close>

theorem disk_taken_once:
  assumes "disk_run t (pre @ Take i v m True # mid @ Take i w k True # post) t'"
    and "disk_table t" "\<forall>j n b. Take j [] n b \<notin> set (pre @ [Take i v m True])"
  shows "\<exists>op \<in> set mid. op = GiveBack i \<or> op = GiveBackAll v"
proof -
  from disk_run_split [OF assms(1)] obtain t1 where p: "disk_run t pre t1"
    "disk_run t1 (Take i v m True # mid @ Take i w k True # post) t'" by blast
  have t1: "disk_table t1" using disk_run_table [OF p(1) assms(2)] assms(3) by auto
  from p(2) obtain t2 where t2: "reserve i v m t1 = (True, t2)" "disk_run t2 (mid @ Take i w k True # post) t'"
    by (auto elim: disk_run_append)
  have v: "v \<noteq> []" using assms(3) by auto
  from held_not_taken [OF t2(2)] reserve_taken [OF v t2(1) t1] v show ?thesis by (auto simp: releases_def)
qed

theorem disk_taken_once_witness:
  "\<exists>op \<in> set [GiveBackAll ''a'']. op = GiveBack 7 \<or> op = GiveBackAll ''a''"
proof -
  let ?t = "attach_row 7 [] [] lab_tables"
  have free: "disk_table ?t" by (simp add: disk_table_def attach_row_def update_disk_def lab_defs)
  have "disk_run ?t ([] @ Take 7 ''a'' ''node1'' True # [GiveBackAll ''a''] @ Take 7 ''b'' ''node1'' True # [])
    (attach_row 7 ''b'' ''node1'' ?t)"
    unfolding append.simps
    by (rule disk_run.Take disk_run.GiveBackAll disk_run.Done |
        simp add: reserve_def Let_def attach_row_def update_disk_def detached_def lab_defs)+
  from disk_taken_once [OF this free] show ?thesis by simp
qed

end
