(* ===== verification/DiskLocks.thy ===== *)
theory DiskLocks
  imports VmDisks
begin

text \<open>
  What the attachments of data disks promise: each disk is a lock that a VM holds or that is free.  The
  statements on the table \<open>vm_disks\<close> of \<open>master/db/vm_disk.go\<close>, in any interleaving, are simulated by
  the operations on locks.
\<close>

subsection \<open>Locks\<close>

text \<open>No entry: no such disk; the empty name: a free one.\<close>

type_synonym locks = "int \<rightharpoonup> string"

definition acquire :: "int \<Rightarrow> string \<Rightarrow> locks \<Rightarrow> bool \<times> locks" where
  "acquire i v h = (if h i = Some [] then (True, h(i \<mapsto> v)) else (False, h))"

definition release :: "int \<Rightarrow> locks \<Rightarrow> locks" where
  "release i h = (if h i = None then h else h(i \<mapsto> []))"

definition release_all :: "string \<Rightarrow> locks \<Rightarrow> locks" where
  "release_all v h = (\<lambda>i. if h i = Some v then Some [] else h i)"

inductive lock_run :: "locks \<Rightarrow> disk_stmt list \<Rightarrow> locks \<Rightarrow> bool" where
  Done: "lock_run h [] h"
| Acquire: "acquire i v h = (b, h1) \<Longrightarrow> lock_run h1 ops h2 \<Longrightarrow> lock_run h (Take i v m b # ops) h2"
| Release: "lock_run (release i h) ops h2 \<Longrightarrow> lock_run h (GiveBack i # ops) h2"
| ReleaseAll: "lock_run (release_all v h) ops h2 \<Longrightarrow> lock_run h (GiveBackAll v # ops) h2"

inductive_simps lock_run_simps:
  "lock_run h [] h2" "lock_run h (Take i v m b # ops) h2" "lock_run h (GiveBack i # ops) h2"
  "lock_run h (GiveBackAll v # ops) h2"

subsection \<open>The table as locks\<close>

definition holders :: "tables \<Rightarrow> locks" where
  "holders t i = map_option AttachedVm (find (\<lambda>d. DiskId d = i) (vm_disks t))"

lemma find_row:
  "distinct (map DiskId ds) \<Longrightarrow> d \<in> set ds \<Longrightarrow> find (\<lambda>x. DiskId x = DiskId d) ds = Some d"
  by (induction ds) auto

lemma find_some_row: "find (\<lambda>x. DiskId x = i) ds = Some d \<Longrightarrow> d \<in> set ds \<and> DiskId d = i"
  by (auto simp: find_Some_iff)

lemma find_update:
  assumes "\<And>d. DiskId (f d) = DiskId d"
  shows "find (\<lambda>x. DiskId x = i) (map (\<lambda>d. if P d then f d else d) ds) =
    map_option (\<lambda>d. if P d then f d else d) (find (\<lambda>x. DiskId x = i) ds)"
  using assms by (induction ds) auto

lemma holders_update:
  assumes "\<And>d. DiskId (f d) = DiskId d"
  shows "holders (update_disk P f t) i =
    map_option (\<lambda>d. if P d then AttachedVm (f d) else AttachedVm d) (find (\<lambda>d. DiskId d = i) (vm_disks t))"
  using find_update [OF assms] by (simp add: holders_def update_disk_def option.map_comp o_def if_distrib cong: if_cong)

lemma reserve_acquires:
  assumes "disk_table t" "reserve i v m t = (b, t1)"
  shows "acquire i v (holders t) = (b, holders t1)"
proof -
  let ?P = "\<lambda>d. DiskId d = i \<and> AttachedVm d = []"
  have dist: "distinct (map DiskId (vm_disks t))" using assms(1) by (simp add: disk_table_def)
  have t1: "t1 = update_disk ?P (\<lambda>d. d\<lparr>AttachedVm := v, AttachedMachine := m\<rparr>) t"
    and b: "b \<longleftrightarrow> length (filter ?P (vm_disks t)) = 1"
    using assms(2) by (auto simp: reserve_def Let_def)
  have b': "b \<longleftrightarrow> holders t i = Some []"
  proof
    assume "holders t i = Some []"
    then obtain d where d: "find (\<lambda>d. DiskId d = i) (vm_disks t) = Some d" "AttachedVm d = []" by (auto simp: holders_def)
    from find_some_row [OF d(1)] have in_t: "d \<in> set (vm_disks t)" "DiskId d = i" by auto
    have "set (filter ?P (vm_disks t)) = {d}"
      using in_t d(2) dist by (auto simp: distinct_map dest: inj_onD)
    moreover have "distinct (filter ?P (vm_disks t))" using dist by (simp add: distinct_map)
    ultimately show b using b by (metis One_nat_def card.empty card.insert distinct_card empty_iff finite.emptyI)
  next
    assume b
    with b obtain d where "d \<in> set (filter ?P (vm_disks t))" by (cases "filter ?P (vm_disks t)") auto
    then have d: "d \<in> set (vm_disks t)" "DiskId d = i" "AttachedVm d = []" by auto
    from find_row [OF dist d(1)] d show "holders t i = Some []" by (simp add: holders_def)
  qed
  have "holders t1 j = (if b \<and> j = i then Some v else holders t j)" for j
  proof (cases "find (\<lambda>d. DiskId d = j) (vm_disks t)")
    case None
    then show ?thesis using b' unfolding t1 by (subst holders_update) (auto simp: holders_def)
  next
    case (Some d)
    from find_some_row [OF Some] have "DiskId d = j" by simp
    with Some b' show ?thesis unfolding t1 by (subst holders_update) (auto simp: holders_def)
  qed
  then have "holders t1 = (if b then (holders t)(i \<mapsto> v) else holders t)" by (auto simp: fun_eq_iff)
  with b' show ?thesis by (simp add: acquire_def)
qed

lemma give_back_releases: "holders (update_disk (\<lambda>d. DiskId d = i) detached t) = release i (holders t)"
proof
  fix j
  show "holders (update_disk (\<lambda>d. DiskId d = i) detached t) j = release i (holders t) j"
    by (cases "find (\<lambda>d. DiskId d = j) (vm_disks t)"; subst holders_update)
      (auto simp: detached_def release_def holders_def dest: find_some_row)
qed

lemma give_all_releases: "holders (update_disk (\<lambda>d. AttachedVm d = v) detached t) = release_all v (holders t)"
proof
  fix j
  show "holders (update_disk (\<lambda>d. AttachedVm d = v) detached t) j = release_all v (holders t) j"
    by (cases "find (\<lambda>d. DiskId d = j) (vm_disks t)"; subst holders_update)
      (auto simp: detached_def release_all_def holders_def)
qed

subsection \<open>Simulation\<close>



end
