(* ===== verification/VmMigrate.thy ===== *)
theory VmMigrate
  imports VmService
begin

text \<open>
  Making VMs and moving them: creating one from an ISO or a template, defining one on another machine
  (\<open>ColdMigrateVm\<close>), and the handlers of \<open>master/services/virsh.go\<close> that copy a disk and then define a
  VM on it, which check the request, leave the work to a goroutine, and return.  The goroutine is a
  \<open>task\<close> that the handler records and \<open>run_task\<close> runs.  \<open>UseBackup\<close>, \<open>ImportVmHelper\<close> and \<open>copyFile\<close>
  are from \<open>master/services/virshBackups.go\<close>.
\<close>

subsection \<open>Templates\<close>

definition prepareVMXMLTemplateForCreate :: "'w menv \<Rightarrow> int \<Rightarrow> string \<Rightarrow> string \<Rightarrow> ('w, string) sact" where
  "prepareVMXMLTemplateForCreate e templateID vmName path =
     (if templateID \<le> 0 then ret []
      else bindE (GetVMXMLTemplateByID e templateID) (\<lambda>t. case t of
          None \<Rightarrow> fail (LookupErr (TemplateMissing templateID))
        | Some tmpl \<Rightarrow>
            (case RenderVMXMLTemplate (Xml e) (TemplateXml tmpl) vmName path of
               Inl x \<Rightarrow> fail (LookupErr (TemplateFailed x))
             | Inr out \<Rightarrow> ret out)))"

definition applyRenderedVMXMLTemplateAfterCreate :: "'w menv \<Rightarrow> grpc_conn \<Rightarrow> string \<Rightarrow> string \<Rightarrow> ('w, unit) sact" where
  "applyRenderedVMXMLTemplateAfterCreate e g vmName rendered =
     (if TrimSpace rendered = [] then ret ()
      else bindE (svc (call e g (GetVm vmName))) (\<lambda>r. case r of
          VmReply (Some v) \<Rightarrow>
            bindE (svc (call e g (ForceShutdown v))) (\<lambda>_.
            bindE (svc (call e g (UpdateXml vmName rendered))) (\<lambda>_.
            bindE (svc (call e g (Start v))) (\<lambda>_. ret ())))
        | _ \<Rightarrow> fail (VmErr (VmMissing vmName))))"

subsection \<open>Creating\<close>

text \<open>A name under the target of a share; reading the last byte of an empty target panics.\<close>

definition under_target :: "string \<Rightarrow> string \<Rightarrow> ('w, string) sact" where
  "under_target target name =
     (if target = [] then fail IndexPanic
      else ret (if last target \<noteq> CHR ''/'' then target @ ''/'' @ name else target @ name))"

definition share_required :: "'w menv \<Rightarrow> int \<Rightarrow> ('w, NFSShare) sact" where
  "share_required e i =
     bindE (GetNFSShareByID e i) (\<lambda>s. case s of
         None \<Rightarrow> fail (ShareErr (ShareMissing i))
       | Some share \<Rightarrow> ret share)"

record create_args =
  ArgMachine :: string
  ArgName :: string
  ArgMemory :: int
  ArgVcpu :: int
  ArgShare :: int
  ArgSizeGB :: int
  ArgIso :: int
  ArgNetwork :: string
  ArgVnc :: string
  ArgCpuXml :: string
  ArgAutoStart :: bool
  ArgWindows :: bool
  ArgTemplate :: int

definition iso_path :: "'w menv \<Rightarrow> int \<Rightarrow> int \<Rightarrow> ('w, string) sact" where
  "iso_path e isoID templateID =
     (if 0 < isoID then
        bindE (GetIsoByID e isoID) (\<lambda>i. case i of
            None \<Rightarrow> fail (LookupErr (IsoMissing isoID))
          | Some disc \<Rightarrow> ret (IsoPath disc))
      else if templateID \<le> 0 then fail (LookupErr (IsoMissing isoID))
      else ret [])"

text \<open>The request for the slave; a template supplies what the caller leaves out.\<close>

definition create_request :: "create_args \<Rightarrow> string \<Rightarrow> string \<Rightarrow> string \<Rightarrow> CreateVmRequest" where
  "create_request a folder file disc =
     (let templ = 0 < ArgTemplate a; network = TrimSpace (ArgNetwork a) in
      \<lparr>CreateName = ArgName a,
       CreateMemory = (if templ \<and> ArgMemory a \<le> 0 then 1024 else ArgMemory a),
       CreateVcpu = (if templ \<and> ArgVcpu a \<le> 0 then 1 else ArgVcpu a),
       CreateFolder = folder, CreateDisk = file, CreateSizeGB = ArgSizeGB a, CreateIso = disc,
       CreateNetwork = (if templ \<and> network = [] then ''default'' else network),
       CreateVnc = ArgVnc a, CreateCpuXml = ArgCpuXml a, CreateWindows = ArgWindows a\<rparr>)"

definition CreateVM :: "'w menv \<Rightarrow> create_args \<Rightarrow> ('w, unit) sact" where
  "CreateVM e a =
     bindE (DoesVMExist e (ArgName a)) (\<lambda>exists.
       if exists then fail (VmErr (VmExists (ArgName a)))
       else bindE (entry_of (ArgMachine a)) (\<lambda>slave.
            bindE (share_required e (ArgShare a)) (\<lambda>share.
            bindE (iso_path e (ArgIso a) (ArgTemplate a)) (\<lambda>disc.
            bindE (under_target (ShareTarget share) (ArgName a)) (\<lambda>folder.
            (let file = folder @ ''/'' @ ArgName a @ ''.qcow2'' in
             bindE (prepareVMXMLTemplateForCreate e (ArgTemplate a) (ArgName a) file) (\<lambda>rendered.
             bindE (use_conn slave) (\<lambda>g.
             bindE (svc (call e g (CreateVmCall (create_request a folder file disc)))) (\<lambda>_.
             bindE (applyRenderedVMXMLTemplateAfterCreate e g (ArgName a) rendered) (\<lambda>_.
               AutoStart e (ArgName a) (ArgAutoStart a)))))))))))"

definition CreateLiveVM :: "'w menv \<Rightarrow> create_args \<Rightarrow> ('w, unit) sact" where
  "CreateLiveVM e a =
     bindE (DoesVmLiveExist e (ArgName a)) (\<lambda>exists.
       if exists then fail (VmErr (LiveExists (ArgName a)))
       else bindE (share_required e (ArgShare a)) (\<lambda>share.
            if ShareHostMount share then fail (ShareErr HostMountShare)
            else bindE (CreateVM e a) (\<lambda>_. AddVmLive e (ArgName a))))"

subsection \<open>Defining a VM on a copied disk\<close>

definition atoi :: "string \<Rightarrow> ('w, int) sact" where
  "atoi t = (case Atoi t of None \<Rightarrow> fail (FileErr BadQemuId) | Some i \<Rightarrow> ret i)"

definition ColdMigrateVm :: "'w menv \<Rightarrow> string \<Rightarrow> ColdMigrationRequest \<Rightarrow> int \<Rightarrow> ('w, unit) sact" where
  "ColdMigrateVm e slaveName req templateID =
     bindE (connected slaveName) (\<lambda>(_, g).
     bindE (prepareVMXMLTemplateForCreate e templateID (ReqName req) (ReqDisk req)) (\<lambda>rendered.
     bindE (atoi (Qemu_UID e)) (\<lambda>uid.
     bindE (atoi (Qemu_GID e)) (\<lambda>gid.
     bindE (chown_file e (ReqDisk req) uid gid) (\<lambda>ok.
       if \<not> ok then fail (FileErr (ChownFailed (ReqDisk req)))
       else bindE (chmod_file e (ReqDisk req)) (\<lambda>ok.
       if \<not> ok then fail (FileErr (ChmodFailed (ReqDisk req)))
       else bindE (svc (SyncSlave e g)) (\<lambda>_.
            bindE (svc (call e g (ColdMigrateCall req))) (\<lambda>_.
            bindE (applyRenderedVMXMLTemplateAfterCreate e g (ReqName req) rendered) (\<lambda>_.
            bindE (if ReqLive req then AddVmLive e (ReqName req) else ret ()) (\<lambda>_.
            bindE (svc (SyncSlave e g)) (\<lambda>_. ret ())))))))))))"

text \<open>Reading one file and writing the other, to the flush, is one operation of the file system of the master;
  then the copy is handed to qemu.\<close>

definition copyFile :: "'w menv \<Rightarrow> string \<Rightarrow> string \<Rightarrow> ('w, unit) sact" where
  "copyFile e origin dest =
     bindE (copy_file e origin dest) (\<lambda>ok.
       if \<not> ok then fail (FileErr (CopyFailed origin))
       else bindE (atoi (Qemu_UID e)) (\<lambda>uid.
            bindE (atoi (Qemu_GID e)) (\<lambda>gid.
            bindE (chown_file e dest uid gid) (\<lambda>ok.
              if \<not> ok then fail (FileErr (ChownFailed dest))
              else bindE (chmod_file e dest) (\<lambda>ok.
                     if ok then ret () else fail (FileErr (ChmodFailed dest)))))))"

text \<open>A new folder for a disk on a share; the path of the disk in it.\<close>

definition ImportVmHelper :: "'w menv \<Rightarrow> int \<Rightarrow> string \<Rightarrow> ('w, string) sact" where
  "ImportVmHelper e nfsId filename =
     bindE (share_required e nfsId) (\<lambda>share.
     bindE (under_target (ShareTarget share) filename) (\<lambda>folder.
     bindE (stat e folder) (\<lambda>st.
       if st = StatDir then fail (FileErr (FolderExists folder))
       else bindE (mkdir_all e folder) (\<lambda>ok.
              if ok then ret (folder @ ''/'' @ filename @ ''.qcow2'')
              else fail (FileErr (MkdirFailed folder))))))"

definition isVmLive :: "'w menv \<Rightarrow> string \<Rightarrow> ('w, bool) sact" where
  "isVmLive e n = dbget e ''GetVmLiveByName'' (\<lambda>t. n \<in> set (vm_live t))"

definition GetAutoStartByName :: "'w menv \<Rightarrow> string \<Rightarrow> ('w, AutoStartRow option) sact" where
  "GetAutoStartByName e n = dbget e ''GetAutoStartByName'' (\<lambda>t. find (\<lambda>a. StartVm a = n) (auto_start t))"

definition request_of :: "vm \<Rightarrow> string \<Rightarrow> string \<Rightarrow> bool \<Rightarrow> ColdMigrationRequest" where
  "request_of v name disk live =
     \<lparr>ReqName = name, ReqDisk = disk, ReqMemory = DefinedRam v, ReqVCpus = DefinedCPUS v,
      ReqNetwork = VmNetwork v, ReqVnc = VNCPassword v, ReqCpuXml = CPUXML v, ReqLive = live\<rparr>"

subsection \<open>Requests\<close>

text \<open>The checks on a new name that \<open>MoveDisk\<close> and \<open>CloneVM\<close> share.\<close>

definition new_name :: "'w menv \<Rightarrow> string \<Rightarrow> string \<Rightarrow> ('w, string) sact" where
  "new_name e vmName newName0 =
     (let newName = TrimSpace newName0 in
      if newName = [] then fail (VmErr VmNameRequired)
      else if newName = vmName then fail (VmErr SameName)
      else bindE (DoesVMExist e newName) (\<lambda>exists.
             if exists then fail (VmErr (VmExists newName)) else ret newName))"

definition MoveDisk :: "'w menv \<Rightarrow> string \<Rightarrow> int \<Rightarrow> string \<Rightarrow> int \<Rightarrow> ('w, unit) sact" where
  "MoveDisk e vmName nfsId newName0 templateID =
     bindE (vm_required e vmName) (\<lambda>v.
     bindE (new_name e vmName newName0) (\<lambda>newName.
       if VmState v \<noteq> VmShutoff then fail (VmErr (NotShutoff vmName))
       else bindE (GetNfsByVM e v) (\<lambda>vmNfs.
       if vmNfs = nfsId then fail (ShareErr SameShare)
       else bindE (isVmLive e vmName) (\<lambda>live.
            bindE (GetAutoStartByName e vmName) (\<lambda>auto.
            bindE (ImportVmHelper e nfsId newName) (\<lambda>finalFile.
            (let req = request_of v newName finalFile live in
             bindE (prepareVMXMLTemplateForCreate e templateID newName finalFile) (\<lambda>_.
               spawn (MoveTask v vmName newName req templateID (auto \<noteq> None))))))))))"

definition ColdMigrate :: "'w menv \<Rightarrow> string \<Rightarrow> string \<Rightarrow> int \<Rightarrow> ('w, unit) sact" where
  "ColdMigrate e vmName destinationMachine templateID =
     bindE (vm_required e vmName) (\<lambda>v.
       if VmState v \<noteq> VmShutoff then fail (VmErr (NotShutoff vmName))
       else bindE (isVmLive e vmName) (\<lambda>live.
            bindE (connected (VmMachine v)) (\<lambda>(_, g).
              if VmMachine v = destinationMachine then fail (LookupErr SameMachine)
              else (let req = request_of v vmName (VmDiskPath v) live in
                    bindE (prepareVMXMLTemplateForCreate e templateID vmName (VmDiskPath v)) (\<lambda>_.
                      spawn (ColdTask g v destinationMachine req templateID))))))"

definition CloneVM :: "'w menv \<Rightarrow> string \<Rightarrow> string \<Rightarrow> string \<Rightarrow> int \<Rightarrow> int \<Rightarrow> ('w, unit) sact" where
  "CloneVM e vmName newName0 destinationMachine nfsId templateID =
     bindE (vm_required e vmName) (\<lambda>v.
     bindE (new_name e vmName newName0) (\<lambda>newName.
     bindE (isVmLive e vmName) (\<lambda>live.
     bindE (ImportVmHelper e nfsId newName) (\<lambda>finalFile.
     (let req = request_of v newName finalFile live in
      bindE (prepareVMXMLTemplateForCreate e templateID newName finalFile) (\<lambda>_.
        spawn (CloneTask v destinationMachine req templateID)))))))"

definition MigrateVm :: "'w menv \<Rightarrow> string \<Rightarrow> string \<Rightarrow> string \<Rightarrow> bool \<Rightarrow> int \<Rightarrow> ('w, unit) sact" where
  "MigrateVm e originMachine destMachine vmName live timeoutSeconds =
     bindE (DoesVmLiveExist e vmName) (\<lambda>exists.
       if \<not> exists then fail (VmErr (NotLive vmName))
       else if originMachine = destMachine then fail (LookupErr SameMachine)
       else bindE (entry_of originMachine) (\<lambda>origin.
            bindE (entry_of destMachine) (\<lambda>dest.
            bindE (DoesVMExist e vmName) (\<lambda>exists.
              if \<not> exists then fail (VmErr (VmMissing vmName))
              else bindE (use_conn origin) (\<lambda>g.
                   bindR (call e g (GetVm vmName)) (\<lambda>r. case r of
                       Inr (VmReply (Some v)) \<Rightarrow>
                         if VmMachine v \<noteq> originMachine then fail (VmErr (NotOnMachine vmName originMachine))
                         else spawn (MigrateTask g vmName (Addr dest) live timeoutSeconds)
                     | _ \<Rightarrow> fail (VmErr (NotOnMachine vmName originMachine))))))))"

definition UseBackup :: "'w menv \<Rightarrow> int \<Rightarrow> string \<Rightarrow> int \<Rightarrow> ColdMigrationRequest \<Rightarrow> int \<Rightarrow> ('w, unit) sact" where
  "UseBackup e bakID slaveName nfsId coldReq templateID =
     bindE (entry_of slaveName) (\<lambda>_.
     bindE (GetVirshBackupById e bakID) (\<lambda>b. case b of
         None \<Rightarrow> fail (BackupErr (BackupMissing bakID))
       | Some backup \<Rightarrow>
           bindE (DoesVMExist e (ReqName coldReq)) (\<lambda>exists.
             if exists then fail (VmErr (VmExists (ReqName coldReq)))
             else bindE (share_required e nfsId) (\<lambda>share.
                  bindE (under_target (ShareTarget share) (ReqName coldReq)) (\<lambda>newFolder.
                  bindE (stat e newFolder) (\<lambda>st.
                    if st = StatDir \<or> st = StatFile then fail (FileErr (FolderExists newFolder))
                    else bindE (mkdir_all e newFolder) (\<lambda>ok.
                      if \<not> ok then fail (FileErr (MkdirFailed newFolder))
                      else (let file = newFolder @ ''/'' @ ReqName coldReq @ ''.qcow2'';
                                req = coldReq\<lparr>ReqDisk := file\<rparr> in
                            bindE (prepareVMXMLTemplateForCreate e templateID (ReqName req) file) (\<lambda>_.
                              spawn (RestoreTask (BakPath backup) newFolder slaveName req templateID))))))))))"

subsection \<open>What the goroutines do\<close>

text \<open>\<open>defer\<close>: the cleanup runs whatever the result, which it does not change.\<close>

definition deferring :: "('w, 'a) sact \<Rightarrow> ('w, 'b) sact \<Rightarrow> ('w, 'a) sact" where
  "deferring m cleanup = bindR m (\<lambda>r. bindR cleanup (\<lambda>_. liftE r))"

text \<open>A running VM is frozen while its disk is copied; what follows the copy runs before it is released.\<close>

definition frozen :: "'w menv \<Rightarrow> vm \<Rightarrow> ('w, unit) sact \<Rightarrow> ('w, unit) sact" where
  "frozen e v work =
     (if VmState v = VmShutoff then work
      else bindE (connected (VmMachine v)) (\<lambda>(_, g).
           bindE (svc (call e g (Freeze v))) (\<lambda>_. deferring work (svc (call e g (Unfreeze v))))))"

definition backup_work :: "'w menv \<Rightarrow> vm \<Rightarrow> VirshBackup \<Rightarrow> ('w, unit) sact" where
  "backup_work e v backup =
     frozen e v (bindE (copyFile e (VmDiskPath v) (BakPath backup)) (\<lambda>_. InsertVirshBackup e backup))"

definition restore_work :: "'w menv \<Rightarrow> string \<Rightarrow> string \<Rightarrow> string \<Rightarrow> ColdMigrationRequest \<Rightarrow> int \<Rightarrow> ('w, unit) sact" where
  "restore_work e path folder slaveName req templateID =
     bindR (copyFile e path (ReqDisk req)) (\<lambda>r. case r of
         Inl x \<Rightarrow> bindE (remove_all e folder) (\<lambda>_. fail x)
       | Inr _ \<Rightarrow> ColdMigrateVm e slaveName req templateID)"

definition move_work :: "'w menv \<Rightarrow> vm \<Rightarrow> string \<Rightarrow> string \<Rightarrow> ColdMigrationRequest \<Rightarrow> int \<Rightarrow> bool \<Rightarrow> ('w, unit) sact" where
  "move_work e v vmName newName req templateID auto =
     bindE (copyFile e (VmDiskPath v) (ReqDisk req)) (\<lambda>_.
     bindE (ColdMigrateVm e (VmMachine v) req templateID) (\<lambda>_.
     bindE (DeleteVM e vmName) (\<lambda>_.
       if auto then AddAutoStart e newName else ret ())))"

definition cold_work :: "'w menv \<Rightarrow> grpc_conn \<Rightarrow> vm \<Rightarrow> string \<Rightarrow> ColdMigrationRequest \<Rightarrow> int \<Rightarrow> ('w, unit) sact" where
  "cold_work e g v destinationMachine req templateID =
     bindE (ColdMigrateVm e destinationMachine req templateID) (\<lambda>_.
     bindE (svc (call e g (UndefineVm v))) (\<lambda>_. ret ()))"

definition clone_work :: "'w menv \<Rightarrow> vm \<Rightarrow> string \<Rightarrow> ColdMigrationRequest \<Rightarrow> int \<Rightarrow> ('w, unit) sact" where
  "clone_work e v destinationMachine req templateID =
     frozen e v (bindE (copyFile e (VmDiskPath v) (ReqDisk req)) (\<lambda>_.
       ColdMigrateVm e destinationMachine req templateID))"

definition iso_work :: "'w menv \<Rightarrow> grpc_conn \<Rightarrow> string \<Rightarrow> string \<Rightarrow> string \<Rightarrow> FolderMount \<Rightarrow> ('w, unit) sact" where
  "iso_work e g url isoPath isoName mount =
     bindE (svc (call e g (DownloadIso url isoName mount))) (\<lambda>_.
     bindE (svc (SyncSlave e g)) (\<lambda>_. AddISO e (MountMachine mount) isoPath isoName))"

definition run_task :: "'w menv \<Rightarrow> task \<Rightarrow> ('w, unit) sact" where
  "run_task e t =
     (case t of
        BackupTask v backup \<Rightarrow> backup_work e v backup
      | RestoreTask path folder slaveName req templateID \<Rightarrow> restore_work e path folder slaveName req templateID
      | MoveTask v vmName newName req templateID auto \<Rightarrow> move_work e v vmName newName req templateID auto
      | ColdTask g v destinationMachine req templateID \<Rightarrow> cold_work e g v destinationMachine req templateID
      | CloneTask v destinationMachine req templateID \<Rightarrow> clone_work e v destinationMachine req templateID
      | MigrateTask g vmName addr live timeoutSeconds \<Rightarrow>
          bindE (svc (call e g (MigrateCall vmName addr live timeoutSeconds))) (\<lambda>_. ret ())
      | IsoTask g url isoPath isoName mount \<Rightarrow> iso_work e g url isoPath isoName mount)"

subsection \<open>Calls that a success requires\<close>

lemma adds_template [intro]: "steps (adds P) (prepareVMXMLTemplateForCreate e i n p)"
  unfolding prepareVMXMLTemplateForCreate_def GetVMXMLTemplateByID_def by (auto intro!: adds_intro)

lemma adds_apply [intro]:
  "(\<And>x. P (g, x)) \<Longrightarrow> steps (adds P) (applyRenderedVMXMLTemplateAfterCreate e g n t)"
  unfolding applyRenderedVMXMLTemplateAfterCreate_def
  by (auto intro!: adds_intro adds_svc adds_call split: reply.split option.split)

lemma adds_atoi [intro]: "steps (adds P) (atoi t)"
  unfolding atoi_def by (auto intro!: adds_intro)

lemma adds_files [intro]:
  "steps (adds P) (chown_file e p u g)" "steps (adds P) (chmod_file e p)" "steps (adds P) (copyFile e a b)"
  "steps (adds P) (mkdir_all e p)" "steps (adds P) (remove_all e p)"
  unfolding chown_file_def chmod_file_def copyFile_def copy_file_def mkdir_all_def remove_all_def
  by (auto intro!: adds_intro)

lemma cold_migrate_sends: "must_send (\<lambda>x. snd x = ColdMigrateCall req) (ColdMigrateVm e m req t)"
  unfolding ColdMigrateVm_def split_beta
  by (intro must_send_then must_send_if must_send_fail must_send_first must_send_call)
    (auto intro!: adds_intro adds_svc simp: AddVmLive_def split: prod.split)

lemma adds_cold:
  "(\<And>c. P (c, SyncDisks)) \<Longrightarrow> (\<And>c. P (c, ColdMigrateCall req)) \<Longrightarrow> (\<And>c n. P (c, GetVm n)) \<Longrightarrow>
   (\<And>c v. P (c, ForceShutdown v)) \<Longrightarrow> (\<And>c n x. P (c, UpdateXml n x)) \<Longrightarrow> (\<And>c v. P (c, Start v)) \<Longrightarrow>
   steps (adds P) (ColdMigrateVm e m req t)"
  unfolding ColdMigrateVm_def applyRenderedVMXMLTemplateAfterCreate_def AddVmLive_def
  by (auto intro!: adds_intro adds_svc adds_call split: prod.split reply.split option.split)

subsection \<open>The old VM goes last\<close>

text \<open>In a list of calls, one of the first kind comes before each of the second kind.\<close>

definition after :: "(grpc_conn \<times> rpc \<Rightarrow> bool) \<Rightarrow> (grpc_conn \<times> rpc \<Rightarrow> bool) \<Rightarrow> (grpc_conn \<times> rpc) list \<Rightarrow> bool" where
  "after A B xs \<longleftrightarrow> (\<forall>i < length xs. B (xs ! i) \<longrightarrow> (\<exists>j < i. A (xs ! j)))"

lemma after_none: "list_all (\<lambda>x. \<not> B x) xs \<Longrightarrow> after A B xs"
  by (auto simp: after_def list_all_length)

lemma after_first: "list_all (\<lambda>x. \<not> B x) xs \<Longrightarrow> list_ex A xs \<Longrightarrow> after A B (xs @ ys)"
proof -
  assume none: "list_all (\<lambda>x. \<not> B x) xs" and "list_ex A xs"
  then obtain j where j: "j < length xs" "A (xs ! j)" by (auto simp: list_ex_length)
  show ?thesis unfolding after_def
  proof (intro allI impI)
    fix i
    assume "i < length (xs @ ys)" "B ((xs @ ys) ! i)"
    have "length xs \<le> i"
    proof (rule ccontr)
      assume "\<not> length xs \<le> i"
      with none \<open>B ((xs @ ys) ! i)\<close> show False by (simp add: nth_append list_all_length)
    qed
    with j show "\<exists>j<i. A ((xs @ ys) ! j)" by (auto intro!: exI [of _ j] simp: nth_append)
  qed
qed

text \<open>A program whose first half must send \<open>A\<close> and sends no \<open>B\<close> sends \<open>B\<close> only after \<open>A\<close>.\<close>

lemma after_bind:
  assumes "must_send A m" "steps (adds (\<lambda>x. \<not> B x)) m" "\<And>y. steps any_calls (f y)"
    and run: "bindE m f s = (r, s')"
  shows "\<exists>xs. sent s' = sent s @ xs \<and> after A B xs"
proof -
  obtain q s1 where m: "m s = (q, s1)" by (metis prod.collapse)
  from addsD [OF assms(2) m] obtain xs where xs: "sent s1 = sent s @ xs" "list_all (\<lambda>x. \<not> B x) xs"
    by (auto simp: adds_def)
  show ?thesis
  proof (cases q)
    case (Inl x)
    with run m have "s' = s1" by (simp add: bindE_def)
    with xs after_none show ?thesis by blast
  next
    case (Inr y)
    with assms(1) m xs have "list_ex A xs" by (fastforce simp: must_send_def)
    from run m Inr have "f y s1 = (r, s')" by (simp add: bindE_def)
    from addsD [OF assms(3) this] obtain ys where "sent s' = sent s1 @ ys" by (auto simp: adds_def)
    with xs after_first [OF xs(2) \<open>list_ex A xs\<close>] show ?thesis by auto
  qed
qed

lemma adds_delete [intro]: "(\<And>c n. P (c, GetVm n)) \<Longrightarrow> (\<And>c v. P (c, RemoveVm v)) \<Longrightarrow> steps (adds P) (DeleteVM e n)"
  unfolding DeleteVM_def with_vm_def DoesVmLiveExist_def RemoveVmLive_def RemoveAutomaticBackup_def
    RemoveAutoStart_def ClearVMDiskAttachmentsByVM_def
  by (auto intro!: adds_intro adds_svc adds_call split: prod.split)

lemma adds_auto [intro]: "steps (adds P) (AddAutoStart e n)"
  unfolding AddAutoStart_def by (auto intro!: adds_intro)

text \<open>C20: moving a disk, or a VM to another machine, removes the old VM only after a slave has been told to
  define the new one: among the calls the goroutine sends, each removal or undefinition comes after the
  request to define the VM on its disk.\<close>

theorem old_vm_goes_last:
  assumes "t = MoveTask v vmName newName req templateID auto \<or> t = ColdTask g v machineName req templateID"
    and "run_task e t s = (r, s')"
  shows "\<exists>xs. sent s' = sent s @ xs \<and>
    after (\<lambda>x. snd x = ColdMigrateCall req) (\<lambda>x. \<exists>w. snd x = RemoveVm w \<or> snd x = UndefineVm w) xs"
  using assms(1)
proof
  let ?B = "\<lambda>x. \<exists>w. snd x = RemoveVm w \<or> snd x = UndefineVm w"
  have cold: "steps (adds (\<lambda>x. \<not> ?B x)) (ColdMigrateVm e m req templateID)" for m by (rule adds_cold) auto
  {
    assume t: "t = MoveTask v vmName newName req templateID auto"
    let ?m = "bindE (copyFile e (VmDiskPath v) (ReqDisk req)) (\<lambda>_. ColdMigrateVm e (VmMachine v) req templateID)"
    have must: "must_send (\<lambda>x. snd x = ColdMigrateCall req) ?m" by (intro must_send_then cold_migrate_sends) auto
    have none: "steps (adds (\<lambda>x. \<not> ?B x)) ?m" using cold by (auto intro!: adds_intro)
    have "bindE ?m (\<lambda>_. bindE (DeleteVM e vmName) (\<lambda>_. if auto then AddAutoStart e newName else ret ())) s = (r, s')"
      using assms(2) by (simp add: t run_task_def move_work_def bindE_assoc)
    then show ?thesis
      by (rule after_bind [OF must none, rotated]) (auto intro!: adds_intro adds_delete)
  next
    assume t: "t = ColdTask g v machineName req templateID"
    have "bindE (ColdMigrateVm e machineName req templateID) (\<lambda>_. bindE (svc (call e g (UndefineVm v))) (\<lambda>_. ret ())) s = (r, s')"
      using assms(2) by (simp add: t run_task_def cold_work_def)
    then show ?thesis
      by (rule after_bind [OF cold_migrate_sends cold, rotated]) (auto intro!: adds_intro adds_svc adds_call)
  }
qed

definition web2_request :: ColdMigrationRequest where
  "web2_request = request_of (lab_vm ''web'') ''web2'' ''/mnt/b/web2/web2.qcow2'' True"

theorem old_vm_goes_last_witness:
  "\<exists>xs. sent (snd (run_task lab (MoveTask (lab_vm ''web'') ''web'' ''web2'' web2_request 0 True) lab_state)) = xs \<and>
    after (\<lambda>x. snd x = ColdMigrateCall web2_request) (\<lambda>x. \<exists>w. snd x = RemoveVm w \<or> snd x = UndefineVm w) xs \<and>
    (1, RemoveVm (lab_vm ''web'')) \<in> set xs"
proof -
  have "(1, RemoveVm (lab_vm ''web'')) \<in>
      set (sent (snd (run_task lab (MoveTask (lab_vm ''web'') ''web'' ''web2'' web2_request 0 True) lab_state)))"
    by code_simp
  with old_vm_goes_last [OF disjI1 [OF refl] prod.collapse [symmetric],
      of lab "lab_vm ''web''" "''web''" "''web2''" web2_request 0 True lab_state]
  show ?thesis by (simp add: lab_state_def)
qed

subsection \<open>Frozen while copied\<close>

abbreviation freezing :: "grpc_conn \<times> rpc \<Rightarrow> bool" where
  "freezing x \<equiv> \<exists>w. snd x = Freeze w \<or> snd x = Unfreeze w"

lemma call_sent: "call e c r s = (q, s') \<Longrightarrow> sent s' = sent s @ [(c, r)]"
  by (auto simp: call_def split: prod.splits)

lemma svc_call_sent: "svc (call e c r) s = (q, s') \<Longrightarrow> sent s' = sent s @ [(c, r)]"
  by (auto simp: svc_def mapErr_def call_def split: prod.splits)

text \<open>The calls of \<open>frozen\<close>: none, a failed freeze, or everything between a freeze and its release.\<close>

definition bracketed :: "vm \<Rightarrow> (grpc_conn \<times> rpc) list \<Rightarrow> bool" where
  "bracketed v xs \<longleftrightarrow>
     xs = [] \<or> (\<exists>g. xs = [(g, Freeze v)]) \<or>
     (\<exists>g ys. xs = (g, Freeze v) # ys @ [(g, Unfreeze v)] \<and> list_all (\<lambda>x. \<not> freezing x) ys)"

lemma deferring_sent:
  assumes "steps (adds P) m" "deferring m (svc (call e g q)) s = (r, s')"
  shows "\<exists>ys. sent s' = sent s @ ys @ [(g, q)] \<and> list_all P ys"
proof -
  obtain r1 s1 where m: "m s = (r1, s1)" by (metis prod.collapse)
  obtain r2 s2 where c: "svc (call e g q) s1 = (r2, s2)" by (metis prod.collapse)
  from assms(2) m c have "s' = s2" by (simp add: deferring_def bindR_def liftE_def)
  with addsD [OF assms(1) m] svc_call_sent [OF c] show ?thesis by (auto simp: adds_def)
qed

lemma connected_same: "connected m s = (r, s') \<Longrightarrow> s' = s"
  by (auto simp: connected_def conn_of_def bindE_def getW_def fail_def ret_def split: option.splits)

lemma frozen_brackets:
  assumes "steps (adds (\<lambda>x. \<not> freezing x)) work" "VmState v \<noteq> VmShutoff" "frozen e v work s = (r, s')"
  shows "\<exists>xs. sent s' = sent s @ xs \<and> bracketed v xs"
proof -
  obtain q s1 where q: "connected (VmMachine v) s = (q, s1)" by (metis prod.collapse)
  have s1: "s1 = s" by (rule connected_same [OF q])
  show ?thesis
  proof (cases q)
    case (Inl x)
    with assms(2,3) q s1 show ?thesis by (auto simp: frozen_def bindE_def bracketed_def)
  next
    case (Inr cg)
    obtain c g where cg: "cg = (c, g)" by (cases cg)
    obtain q2 s2 where f: "svc (call e g (Freeze v)) s = (q2, s2)" by (metis prod.collapse)
    note f2 = svc_call_sent [OF f]
    from assms(2,3) q s1 Inr cg
    have run: "bindE (svc (call e g (Freeze v))) (\<lambda>_. deferring work (svc (call e g (Unfreeze v)))) s = (r, s')"
      by (simp add: frozen_def bindE_def)
    show ?thesis
    proof (cases q2)
      case (Inl x)
      with run f have "s' = s2" by (simp add: bindE_def)
      with f2 show ?thesis by (auto simp: bracketed_def)
    next
      case (Inr y)
      with run f have "deferring work (svc (call e g (Unfreeze v))) s2 = (r, s')" by (simp add: bindE_def)
      from deferring_sent [OF assms(1) this] f2 show ?thesis by (auto simp: bracketed_def)
    qed
  qed
qed


definition running_web :: vm where
  "running_web = (lab_vm ''web'')\<lparr>VmState := VmRunning\<rparr>"


subsection \<open>What a moved VM keeps\<close>

lemma tabs_moves [simp, intro]:
  "steps same_tabs (prepareVMXMLTemplateForCreate e i n p)" "steps same_tabs (applyRenderedVMXMLTemplateAfterCreate e g n t)"
  "steps same_tabs (atoi x)" "steps same_tabs (chown_file e p u w)" "steps same_tabs (chmod_file e p)"
  "steps same_tabs (copyFile e a b)"
  unfolding prepareVMXMLTemplateForCreate_def applyRenderedVMXMLTemplateAfterCreate_def GetVMXMLTemplateByID_def
    atoi_def chown_file_def chmod_file_def copyFile_def copy_file_def
  by (auto intro!: tabs_intro tabs_svc split: sum.split option.split reply.split)

definition with_live :: "string \<Rightarrow> tables \<Rightarrow> tables" where
  "with_live n t = t\<lparr>vm_live := app_new (vm_live t) n\<rparr>"

definition with_start :: "string \<Rightarrow> tables \<Rightarrow> tables" where
  "with_start n t = t\<lparr>last_id := last_id t + 1, auto_start := auto_start t @ [\<lparr>StartId = last_id t + 1, StartVm = n\<rparr>]\<rparr>"

lemma gives_cold: "gives (ColdMigrateVm e m req i) (if ReqLive req then with_live (ReqName req) else (\<lambda>t. t))"
proof -
  have "gives (if ReqLive req then AddVmLive e (ReqName req) else ret ()) (if ReqLive req then with_live (ReqName req) else (\<lambda>t. t))"
    unfolding AddVmLive_def with_live_def by (auto intro: gives_set gives_same tabs_intro)
  then show ?thesis
    unfolding ColdMigrateVm_def split_beta
    by (intro gives_same_bind [OF tabs_checks(1)] gives_same_bind [OF tabs_moves(1)] gives_same_bind [OF tabs_moves(2)]
        gives_same_bind [OF tabs_moves(3)] gives_same_bind [OF tabs_moves(4)] gives_same_bind [OF tabs_moves(5)]
        gives_same_bind [OF tabs_svc] gives_if gives_fail tabs_call tabs_checks gives_bind_same) (auto intro!: tabs_intro tabs_svc)
qed

lemma gives_start: "gives (AddAutoStart e n) (with_start n)"
proof -
  {
    fix s y s'
    assume "AddAutoStart e n s = (Inr y, s')"
    then obtain ok s1 where "dbdo e ''AddAutoStart'' (\<lambda>t.
        if n \<in> StartVm ` set (auto_start t) then (False, t) else (True, with_start n t)) s = (Inr ok, s1)"
      "guardE ok (DbError ''AddAutoStart'') s1 = (Inr y, s')"
      unfolding AddAutoStart_def with_start_def by (rule bindE_eq_InrE)
    from dbdo_ok(1,2) [OF this(1)] this(2) have "tabs s' = with_start n (tabs s)" by (simp split: if_split_asm)
  }
  then show ?thesis by (auto simp: gives_def)
qed



end
