(* ===== verification/Backups.thy ===== *)
theory Backups
  imports VmMigrate "HOL-Library.Multiset"
begin

text \<open>
  Backups of VMs and the schedules that make them: \<open>master/services/virshBackups.go\<close> on the tables of
  \<open>master/db/virshBackups.go\<close>.  A backup is a copy of a disk in a folder of its own on a share.  The copy
  is made by a goroutine (\<open>BackupTask\<close>, run by \<open>run_task\<close>); the handlers and the loop over the schedules
  are here.
\<close>

subsection \<open>Directories of backups\<close>

definition validateBackupDirectory :: "string \<Rightarrow> ('w, unit) sact" where
  "validateBackupDirectory dir =
     (if dir = [] \<or> dir = ''/'' \<or> dir = ''.'' then fail (BackupErr (UnsafeDirectory dir))
      else if \<not> HasPrefix (Base dir) ''backup-'' then fail (BackupErr (NotABackupDirectory dir))
      else ret ())"

definition removeBackupDirectory :: "'w menv \<Rightarrow> string \<Rightarrow> ('w, unit) sact" where
  "removeBackupDirectory e dir =
     bindE (validateBackupDirectory dir) (\<lambda>_.
     bindE (remove_all e dir) (\<lambda>ok. if ok then ret () else fail (FileErr (DirRemoveFailed dir))))"

definition DeleteBackup :: "'w menv \<Rightarrow> int \<Rightarrow> ('w, unit) sact" where
  "DeleteBackup e bakId =
     bindE (GetVirshBackupById e bakId) (\<lambda>b. case b of
         None \<Rightarrow> fail (BackupErr (BackupMissing bakId))
       | Some bakup \<Rightarrow>
           (let dir = Dir (BakPath bakup) in
            bindE (validateBackupDirectory dir) (\<lambda>_.
            bindE (DeleteVirshBackupById e bakId) (\<lambda>_.
            bindE (remove_file e (BakPath bakup)) (\<lambda>fileErr.
            bindE (removeBackupDirectory e dir) (\<lambda>_.
              if fileErr = RemoveFailed then fail (FileErr (FileRemoveFailed (BakPath bakup))) else ret ()))))))"

subsection \<open>Making a backup\<close>

definition target_of :: "'w menv \<Rightarrow> int \<Rightarrow> ('w, string) sact" where
  "target_of e nfsID =
     bindE (share_required e nfsID) (\<lambda>share.
       if ShareTarget share = [] then fail (FileErr (EmptyTarget nfsID))
       else bindE (stat e (ShareTarget share)) (\<lambda>st. case st of
           StatMissing \<Rightarrow> fail (FileErr (TargetMissing (ShareTarget share)))
         | StatError \<Rightarrow> fail (FileErr (TargetStatFailed (ShareTarget share)))
         | StatFile \<Rightarrow> fail (FileErr (TargetNotDir (ShareTarget share)))
         | StatDir \<Rightarrow> ret (ShareTarget share)))"

definition backup_folder :: "string \<Rightarrow> string \<Rightarrow> string" where
  "backup_folder target uuid =
     (if last target = CHR ''/'' then butlast target else target) @ ''/'' @ ''backup-'' @ uuid"

definition BackupVM :: "'w menv \<Rightarrow> string \<Rightarrow> int \<Rightarrow> bool \<Rightarrow> ('w, unit) sact" where
  "BackupVM e vmName nfsID automatic =
     bindE (vm_required e vmName) (\<lambda>v.
     bindE (target_of e nfsID) (\<lambda>target.
     bindE (outside_value (UUIDM e)) (\<lambda>uuid.
     (let folder = backup_folder target uuid in
      bindE (mkdir_all e folder) (\<lambda>ok.
        if \<not> ok then fail (FileErr (MkdirFailed folder))
        else spawn (BackupTask v \<lparr>BakId = 0, BakName = vmName, BakPath = folder @ ''/'' @ vmName @ ''.qcow2'',
               BakNfsId = nfsID, BakCreatedAt = [], BakAutomatic = automatic\<rparr>))))))"

subsection \<open>Schedules\<close>

record AutomaticBackup =
  BkId :: int
  BkVm :: string
  BkFrequency :: int
  BkMin :: Clock
  BkMax :: Clock
  BkNfs :: int
  BkRetain :: int
  BkEnabled :: bool
  BkLast :: "string option"

text \<open>A row as the queries scan it; what is not a clock is read as far as it goes.\<close>

definition scan_auto :: "auto_row \<Rightarrow> AutomaticBackup" where
  "scan_auto r =
     \<lparr>BkId = RowId r, BkVm = RowVm r, BkFrequency = RowFrequency r, BkMin = fst (ParseClock (RowMin r)),
      BkMax = fst (ParseClock (RowMax r)), BkNfs = RowNfs r, BkRetain = RowRetain r, BkEnabled = RowEnabled r,
      BkLast = RowLast r\<rparr>"

definition AddAutomaticBackup :: "'w menv \<Rightarrow> AutomaticBackup \<Rightarrow> ('w, unit) sact" where
  "AddAutomaticBackup e ab =
     dbset e ''AddAutomaticBackup'' (\<lambda>t. t\<lparr>last_id := last_id t + 1,
       automatic_backup := automatic_backup t @ [\<lparr>RowId = last_id t + 1, RowVm = BkVm ab,
         RowFrequency = BkFrequency ab, RowMin = clock_string (BkMin ab), RowMax = clock_string (BkMax ab),
         RowNfs = BkNfs ab, RowRetain = BkRetain ab, RowEnabled = BkEnabled ab, RowLast = None\<rparr>]\<rparr>)"

text \<open>The statement does not set the name of the VM.\<close>

definition UpdateAutomaticBackup :: "'w menv \<Rightarrow> AutomaticBackup \<Rightarrow> ('w, unit) sact" where
  "UpdateAutomaticBackup e ab =
     dbset e ''UpdateAutomaticBackup'' (update_auto (\<lambda>r. RowId r = BkId ab) (\<lambda>r.
       r\<lparr>RowFrequency := BkFrequency ab, RowMin := clock_string (BkMin ab), RowMax := clock_string (BkMax ab),
         RowNfs := BkNfs ab, RowRetain := BkRetain ab, RowEnabled := BkEnabled ab\<rparr>))"

definition UpdateAutomaticBackupTimes :: "'w menv \<Rightarrow> int \<Rightarrow> string option \<Rightarrow> ('w, unit) sact" where
  "UpdateAutomaticBackupTimes e i lastBackup =
     dbset e ''UpdateAutomaticBackupTimes'' (update_auto (\<lambda>r. RowId r = i) (\<lambda>r. r\<lparr>RowLast := lastBackup\<rparr>))"

definition GetAutomaticBackups :: "'w menv \<Rightarrow> string \<Rightarrow> ('w, VirshBackup list) sact" where
  "GetAutomaticBackups e vmName =
     dbget e ''GetAutomaticBackups'' (\<lambda>t.
       rev (sort_key BakCreatedAt (rev (filter (\<lambda>b. BakName b = vmName \<and> BakAutomatic b) (virsh_backups t)))))"

definition GetEnabledAutomaticBackupsAt :: "'w menv \<Rightarrow> Clock \<Rightarrow> ('w, AutomaticBackup list) sact" where
  "GetEnabledAutomaticBackupsAt e clock =
     dbget e ''GetEnabledAutomaticBackupsAt'' (\<lambda>t.
       map scan_auto (filter (\<lambda>r. RowEnabled r \<and> sql_window (clock_string clock) (RowMin r) (RowMax r)) (automatic_backup t)))"

text \<open>The checks that creating and changing a schedule share.\<close>

definition min_window :: int where "min_window = 45 * 60 * nanos"

definition validate_clock :: "Clock \<Rightarrow> ('w, unit) sact" where
  "validate_clock k = (case Validate k of None \<Rightarrow> ret () | Some x \<Rightarrow> fail (BackupErr (ClockError x)))"

definition check_schedule :: "'w menv \<Rightarrow> AutomaticBackup \<Rightarrow> ('w, unit) sact" where
  "check_schedule e bak =
     bindE (DoesVMExist e (BkVm bak)) (\<lambda>exists.
       if \<not> exists then fail (VmErr (VmMissing (BkVm bak)))
       else bindE (validate_clock (BkMax bak)) (\<lambda>_.
            bindE (validate_clock (BkMin bak)) (\<lambda>_.
            bindE (getW (\<lambda>s. calculateWindowDuration (TodayM e (ext s)) (BkMin bak) (BkMax bak))) (\<lambda>window.
              if window < min_window then fail (BackupErr WindowTooShort)
              else bindE (share_required e (BkNfs bak)) (\<lambda>_.
                   if BkFrequency bak < 1 then fail (BackupErr FrequencyTooSmall)
                   else if BkRetain bak < 1 then fail (BackupErr RetainTooSmall)
                   else ret ())))))"

definition CreateAutoBak :: "'w menv \<Rightarrow> AutomaticBackup \<Rightarrow> ('w, unit) sact" where
  "CreateAutoBak e bak = bindE (check_schedule e bak) (\<lambda>_. AddAutomaticBackup e bak)"

definition auto_required :: "'w menv \<Rightarrow> int \<Rightarrow> ('w, auto_row) sact" where
  "auto_required e i =
     bindE (GetAutomaticBackupById e i) (\<lambda>r. case r of
         None \<Rightarrow> fail (BackupErr (AutoBackupMissing i))
       | Some row \<Rightarrow> ret row)"

definition UpdateAutoBak :: "'w menv \<Rightarrow> int \<Rightarrow> AutomaticBackup \<Rightarrow> ('w, unit) sact" where
  "UpdateAutoBak e i bak =
     bindE (auto_required e i) (\<lambda>_.
     bindE (check_schedule e bak) (\<lambda>_. UpdateAutomaticBackup e (bak\<lparr>BkId := i\<rparr>)))"

definition DeleteAutoBak :: "'w menv \<Rightarrow> int \<Rightarrow> ('w, unit) sact" where
  "DeleteAutoBak e i = bindE (auto_required e i) (\<lambda>_. RemoveAutomaticBackupById e i)"

definition EnableAutoBak :: "'w menv \<Rightarrow> int \<Rightarrow> ('w, unit) sact" where
  "EnableAutoBak e i =
     bindE (auto_required e i) (\<lambda>row.
       if RowEnabled row then fail (BackupErr AlreadyEnabled) else EnableAutomaticBackupById e i)"

definition DisableAutoBak :: "'w menv \<Rightarrow> int \<Rightarrow> ('w, unit) sact" where
  "DisableAutoBak e i =
     bindE (auto_required e i) (\<lambda>row.
       if \<not> RowEnabled row then fail (BackupErr AlreadyDisabled) else DisableAutomaticBackupById e i)"

subsection \<open>Keeping the newest\<close>

definition newer :: "VirshBackup \<Rightarrow> VirshBackup \<Rightarrow> bool" where
  "newer a b =
     (case (parseBackupTimestamp (BakCreatedAt a), parseBackupTimestamp (BakCreatedAt b)) of
        (Some t, Some u) \<Rightarrow> u < t
      | (Some _, None) \<Rightarrow> True
      | (None, Some _) \<Rightarrow> False
      | (None, None) \<Rightarrow> BakCreatedAt b < BakCreatedAt a)"

text \<open>\<open>sort.SliceStable\<close> with this order.\<close>

fun insert_backup :: "VirshBackup \<Rightarrow> VirshBackup list \<Rightarrow> VirshBackup list" where
  "insert_backup x [] = [x]"
| "insert_backup x (y # ys) = (if newer y x then y # insert_backup x ys else x # y # ys)"

definition sort_newest :: "VirshBackup list \<Rightarrow> VirshBackup list" where
  "sort_newest xs = foldr insert_backup xs []"

fun delete_backups :: "'w menv \<Rightarrow> VirshBackup list \<Rightarrow> ('w, unit) sact" where
  "delete_backups e [] = ret ()"
| "delete_backups e (b # bs) = bindR (DeleteBackup e (BakId b)) (\<lambda>_. delete_backups e bs)"

definition createAutoBak :: "'w menv \<Rightarrow> AutomaticBackup \<Rightarrow> ('w, unit) sact" where
  "createAutoBak e bak =
     bindE (BackupVM e (BkVm bak) (BkNfs bak) True) (\<lambda>_.
     bindE (getW (\<lambda>s. format_rfc3339 (NowM e (ext s)))) (\<lambda>completedAt.
     bindE (UpdateAutomaticBackupTimes e (BkId bak) (Some completedAt)) (\<lambda>_.
     bindE (GetAutomaticBackups e (BkVm bak)) (\<lambda>baks.
       if int (length baks) \<le> BkRetain bak then ret ()
       else if BkRetain bak < 0 then fail IndexPanic
       else delete_backups e (drop (nat (BkRetain bak)) (sort_newest baks))))))"

subsection \<open>The loop\<close>

text \<open>A backup is due when the last one is older than the frequency; an unreadable time stamp is never due.\<close>

definition minimal_last :: "int \<Rightarrow> int \<Rightarrow> int" where
  "minimal_last moment freq = moment + wrap64 (- freq * day_nanos)"

definition due :: "int \<Rightarrow> AutomaticBackup \<Rightarrow> bool" where
  "due moment bak =
     (case BkLast bak of
        None \<Rightarrow> True
      | Some text \<Rightarrow> (case parseBackupTimestamp text of
            None \<Rightarrow> False
          | Some t \<Rightarrow> t < minimal_last moment (BkFrequency bak)))"

text \<open>An error is logged and the loop goes on; a panic leaves it.\<close>

definition logged :: "('w, unit) sact \<Rightarrow> ('w, unit) sact" where
  "logged m = bindR m (\<lambda>r. case r of Inl x \<Rightarrow> if x \<in> {NilPanic, IndexPanic} then fail x else ret () | Inr _ \<Rightarrow> ret ())"

definition scheduled_backup :: "'w menv \<Rightarrow> Clock \<Rightarrow> int \<Rightarrow> AutomaticBackup \<Rightarrow> ('w, unit) sact" where
  "scheduled_backup e clock moment bak =
     bindR (GetVmByName e (BkVm bak)) (\<lambda>r. case r of
         Inr (Some v) \<Rightarrow>
           bindE (conn_of (VmMachine v)) (\<lambda>c.
             if c = None \<or> \<not> IsBetween clock (BkMin bak) (BkMax bak) \<or> \<not> due moment bak then ret ()
             else logged (createAutoBak e bak))
       | _ \<Rightarrow> ret ())"

definition auto_round :: "'w menv \<Rightarrow> ('w, unit) sact" where
  "auto_round e =
     bindE (getW (\<lambda>s. (LocalClock e (ext s), instant (NowM e (ext s))))) (\<lambda>(clock, moment).
     bindR (GetEnabledAutomaticBackupsAt e clock) (\<lambda>r. case r of
         Inl _ \<Rightarrow> ret ()
       | Inr baks \<Rightarrow> forE baks (scheduled_backup e clock moment)))"

text \<open>A number of rounds of the endless loop.\<close>

fun LoopAutomaticBaks :: "nat \<Rightarrow> 'w menv \<Rightarrow> ('w, unit) sact" where
  "LoopAutomaticBaks 0 e = ret ()"
| "LoopAutomaticBaks (Suc n) e = bindE (auto_round e) (\<lambda>_. bindE (pause e (20 * 60)) (\<lambda>_. LoopAutomaticBaks n e))"

subsection \<open>Windows\<close>

text \<open>The clock of a minute counted from some midnight, on days without a change of the local zone.\<close>

definition clock_at :: "int \<Rightarrow> Clock" where
  "clock_at m = Clock (m mod 1440 div 60) (m mod 60)"

definition plain_day :: "(Clock \<Rightarrow> int) \<Rightarrow> bool" where
  "plain_day today \<longleftrightarrow> (\<forall>c d. today c - today d = (Hours c * 60 + Minutes c - (Hours d * 60 + Minutes d)) * 60 * nanos)"

lemma clock_at_valid [simp]: "valid_clock (clock_at m)"
proof -
  have "0 \<le> m mod 1440" "m mod 1440 < 1440" by simp_all
  moreover have "60 * (m mod 1440 div 60) + m mod 1440 mod 60 = m mod 1440" "0 \<le> m mod 1440 mod 60" "m mod 1440 mod 60 < 60"
    by simp_all
  ultimately have "0 \<le> m mod 1440 div 60" "m mod 1440 div 60 < 24" by linarith+
  then show ?thesis by (simp add: clock_at_def valid_clock_def)
qed

lemma minute_of_clock_at: "minute_of (clock_at m) = m mod 1440"
proof -
  have "m mod 1440 mod 60 = m mod 60" by (rule mod_mod_cancel) simp
  moreover have "m mod 1440 div 60 * 60 + m mod 1440 mod 60 = m mod 1440" by simp
  ultimately show ?thesis by (simp add: minute_of_valid) (simp add: clock_at_def)
qed

definition minutes_of :: "Clock \<Rightarrow> int" where "minutes_of c = Hours c * 60 + Minutes c"

lemma wrap_day: "0 \<le> x \<Longrightarrow> x < 2880 \<Longrightarrow> x mod 1440 = (if x < 1440 then x else x - 1440)" for x :: int
  using mod_pos_geq [of 1440 x] mod_pos_pos_trivial [of x 1440] mod_pos_pos_trivial [of "x - 1440" 1440] by auto

lemma window_contains:
  assumes v: "valid_clock lo" "valid_clock hi" and ne: "lo \<noteq> hi" and today: "plain_day today"
    and long: "min_window \<le> calculateWindowDuration today lo hi"
    and k: "(t - minutes_of lo) mod 1440 \<le> 45"
  shows "IsBetween (clock_at t) lo hi"
proof -
  let ?l = "minutes_of lo" and ?h = "minutes_of hi"
  have r: "0 \<le> ?l" "?l < 1440" "0 \<le> ?h" "?h < 1440" using v by (auto simp: minutes_of_def valid_clock_def)
  have lh: "?l \<noteq> ?h"
  proof
    assume eq: "?l = ?h"
    with v have "Hours lo = Hours hi" unfolding minutes_of_def valid_clock_def by linarith
    with eq have "Minutes lo = Minutes hi" by (simp add: minutes_of_def)
    with \<open>Hours lo = _\<close> ne show False by (cases lo; cases hi) simp
  qed
  have today': "today hi - today lo = (?h - ?l) * 60 * nanos" using today by (simp add: plain_day_def minutes_of_def)
  have "45 \<le> (if ?h - ?l \<le> 0 then ?h - ?l + 1440 else ?h - ?l)"
    using long lh by (auto simp: calculateWindowDuration_def Let_def today' min_window_def day_nanos_def nanos_def split: if_split_asm)
  moreover have "minute_of lo = ?l" "minute_of hi = ?h" using v by (simp_all add: minute_of_valid minutes_of_def)
  moreover have "t mod 1440 = (if ?l + (t - ?l) mod 1440 < 1440 then ?l + (t - ?l) mod 1440 else ?l + (t - ?l) mod 1440 - 1440)"
  proof -
    have "t mod 1440 = (?l + (t - ?l) mod 1440) mod 1440" by (subst mod_add_right_eq) simp
    also have "\<dots> = (if ?l + (t - ?l) mod 1440 < 1440 then ?l + (t - ?l) mod 1440 else ?l + (t - ?l) mod 1440 - 1440)"
      using k r by (intro wrap_day) auto
    finally show ?thesis .
  qed
  moreover have "0 \<le> (t - ?l) mod 1440" by simp
  ultimately show ?thesis
    using k r lh unfolding IsBetween_def Let_def minute_of_clock_at by (auto split: if_split_asm)
qed

lemma reaches:
  fixes t :: "nat \<Rightarrow> int"
  assumes "\<forall>n. 1 \<le> t (Suc n) - t n \<and> t (Suc n) - t n \<le> 45" "t 0 \<le> T"
  shows "\<exists>n. T \<le> t n \<and> t n \<le> T + 45"
proof -
  have up: "t 0 + int n \<le> t n" for n
  proof (induction n)
    case (Suc n)
    with assms(1) [rule_format, of n] show ?case by simp
  qed simp
  let ?n = "LEAST n. T \<le> t n"
  have "T \<le> t (nat (T - t 0))" using up [of "nat (T - t 0)"] assms(2) by simp
  then have n: "T \<le> t ?n" by (rule LeastI)
  show ?thesis
  proof (cases ?n)
    case 0
    with n assms(2) show ?thesis by (intro exI [of _ 0]) simp
  next
    case (Suc k)
    then have "t k < T" using not_less_Least [of k "\<lambda>n. T \<le> t n"] by (simp add: not_le)
    with assms(1) [rule_format, of k] n Suc show ?thesis by (intro exI [of _ "Suc k"]) simp
  qed
qed

text \<open>A schedule whose window was accepted and whose two ends differ is never missed: whenever the rounds of the
  loop start, if no more than 45 minutes lie between two of them, some round starts within the window.\<close>

theorem window_never_missed:
  assumes "valid_clock lo" "valid_clock hi" "lo \<noteq> hi" "plain_day today"
    and "min_window \<le> calculateWindowDuration today lo hi"
    and "\<forall>n. 1 \<le> t (Suc n) - t n \<and> t (Suc n) - t n \<le> 45"
  shows "\<exists>n. IsBetween (clock_at (t n)) lo hi"
proof -
  define T where "T = t 0 + (minutes_of lo - t 0) mod 1440"
  have "t 0 \<le> T" by (simp add: T_def)
  from reaches [OF assms(6) this] obtain n where n: "T \<le> t n" "t n \<le> T + 45" by blast
  have "(t 0 + (minutes_of lo - t 0) mod 1440) mod 1440 = minutes_of lo mod 1440"
    by (subst mod_add_right_eq) simp
  then have "(T - minutes_of lo) mod 1440 = 0" by (simp add: T_def mod_eq_dvd_iff)
  then have "(T - minutes_of lo + (t n - T)) mod 1440 = (t n - T) mod 1440" by (subst mod_add_eq [symmetric]) simp
  with n have "(t n - minutes_of lo) mod 1440 \<le> 45" by simp
  from window_contains [OF assms(1-5) this] show ?thesis ..
qed

text \<open>A window whose two ends are equal counts as a whole day when the schedule is accepted, but the loop finds
  it open for a single minute of the day.\<close>

theorem equal_ends_open_one_minute:
  assumes "valid_clock k"
  shows "calculateWindowDuration today k k = day_nanos \<and> min_window \<le> day_nanos \<and>
    (\<forall>m. IsBetween (clock_at m) k k = (m mod 1440 = minutes_of k))"
  using assms
  by (auto simp: calculateWindowDuration_def min_window_def day_nanos_def nanos_def IsBetween_def Let_def minute_of_clock_at
      minute_of_valid minutes_of_def)

subsection \<open>What is removed from the file system\<close>

definition backup_dir :: "string \<Rightarrow> bool" where
  "backup_dir d \<longleftrightarrow> d \<notin> {[], ''/'', ''.''} \<and> HasPrefix (Base d) ''backup-''"

definition ok_removal :: "fs_op \<Rightarrow> bool" where
  "ok_removal op = (case op of RemovedAll d \<Rightarrow> backup_dir d | RemovedFile p \<Rightarrow> backup_dir (Dir p) | _ \<Rightarrow> True)"

definition fs_adds :: "(fs_op \<Rightarrow> bool) \<Rightarrow> 'w mstate \<Rightarrow> 'w mstate \<Rightarrow> bool" where
  "fs_adds Q s s' \<longleftrightarrow> (\<exists>ops. fsops s' = fsops s @ ops \<and> list_all Q ops)"

lemma fs_adds_trans: "fs_adds Q a b \<Longrightarrow> fs_adds Q b c \<Longrightarrow> fs_adds Q a c"
  unfolding fs_adds_def by (metis append_assoc list_all_append)

lemma fs_order: "reflp (fs_adds Q)" "transp (fs_adds Q)"
  by (auto intro!: reflpI transpI intro: fs_adds_trans simp: fs_adds_def)

lemmas fs_intro =
  steps_bindE [OF fs_order(2)] steps_bindR [OF fs_order(2)] steps_pure [OF fs_order(1)] steps_mapErr
  steps_if steps_case_sum steps_case_option steps_forE [OF fs_order]

lemma fs_other [intro]:
  "steps (fs_adds Q) (call e c r)" "steps (fs_adds Q) (pause e n)" "steps (fs_adds Q) (dbdo e name stmt)"
  "steps (fs_adds Q) (spawn t)" "steps (fs_adds Q) (outside_value w)" "Q ev \<Longrightarrow> steps (fs_adds Q) (fsdo ev f)"
  by (simp_all add: steps_def call_def pause_def dbdo_def spawn_def modW_def outside_value_def fsdo_def fs_adds_def
      split: prod.split bool.split)

lemma fs_find [intro]:
  "steps (fs_adds Q) (any_answers e n cs)" "steps (fs_adds Q) (locate e n cs)" "steps (fs_adds Q) (conn_of m)"
  "steps (fs_adds Q) (GetVmByName e n)" "steps (fs_adds Q) (vm_required e n)"
proof -
  have 1: "steps (fs_adds Q) (any_answers e n cs)" for cs
    by (induction cs) (auto intro!: fs_intro)
  have 2: "steps (fs_adds Q) (locate e n cs)" for cs
    by (induction cs) (auto intro!: fs_intro split: reply.split option.split)
  have 3: "steps (fs_adds Q) (GetVmByName e n)"
    unfolding GetVmByName_def DoesVMExist_def grpc_conns_def using 1 2 by (auto intro!: fs_intro)
  then show "steps (fs_adds Q) (vm_required e n)"
    unfolding vm_required_def by (auto intro!: fs_intro)
  show "steps (fs_adds Q) (conn_of m)" unfolding conn_of_def by (intro fs_intro)
  show "steps (fs_adds Q) (any_answers e n cs)" "steps (fs_adds Q) (locate e n cs)" "steps (fs_adds Q) (GetVmByName e n)"
    by (fact 1 2 3)+
qed

lemma validate_bind:
  "bindE (validateBackupDirectory dir) f =
     (if backup_dir dir then f ()
      else fail (BackupErr (if dir \<in> {[], ''/'', ''.''} then UnsafeDirectory dir else NotABackupDirectory dir)))"
  by (simp add: validateBackupDirectory_def backup_dir_def)

lemma fs_delete [intro]: "steps (fs_adds ok_removal) (DeleteBackup e i)"
  unfolding DeleteBackup_def removeBackupDirectory_def validate_bind Let_def GetVirshBackupById_def dbget_def
    DeleteVirshBackupById_def dbset_def remove_file_def remove_all_def
  by (auto intro!: fs_intro simp: ok_removal_def)

lemma fs_backup [intro]: "steps (fs_adds ok_removal) (BackupVM e v n a)"
  unfolding BackupVM_def target_of_def share_required_def GetNFSShareByID_def dbget_def stat_def mkdir_all_def Let_def
  by (auto intro!: fs_intro split: stat_result.split simp: ok_removal_def)

lemma fs_delete_backups [intro]: "steps (fs_adds ok_removal) (delete_backups e bs)"
  by (induction bs) (auto intro!: fs_intro)

lemma fs_round: "steps (fs_adds ok_removal) (auto_round e)"
  unfolding auto_round_def scheduled_backup_def logged_def createAutoBak_def UpdateAutomaticBackupTimes_def
    GetAutomaticBackups_def GetEnabledAutomaticBackupsAt_def dbget_def dbset_def
  by (auto intro!: fs_intro split: prod.split option.split)

lemma fs_loop: "steps (fs_adds ok_removal) (LoopAutomaticBaks n e)"
  by (induction n) (auto intro!: fs_intro fs_round)

text \<open>C23: whatever the tables hold, deleting a backup and the loop over the schedules remove from the file system only
  directories whose name starts with \<open>backup-\<close> and files in such a directory.\<close>

theorem only_backups_removed:
  "(\<exists>ops. fsops (snd (DeleteBackup e i s)) = fsops s @ ops \<and> list_all ok_removal ops) \<and>
   (\<exists>ops. fsops (snd (LoopAutomaticBaks n e s)) = fsops s @ ops \<and> list_all ok_removal ops)"
  using fs_delete [of e i] fs_loop [of n e] unfolding steps_def fs_adds_def by blast

subsection \<open>The newest are kept\<close>

text \<open>\<open>newer\<close> is a strict order in which incomparability is transitive.\<close>

lemma newer_irrefl: "\<not> newer a a"
  by (simp add: newer_def split: option.split)

lemma newer_asym: "newer a b \<Longrightarrow> \<not> newer b a"
  by (auto simp: newer_def split: option.splits)

lemma newer_neg_trans: "\<not> newer b a \<Longrightarrow> \<not> newer c b \<Longrightarrow> \<not> newer c a"
  by (auto simp: newer_def split: option.splits)

lemma mset_insert_backup [simp]: "mset (insert_backup x ys) = add_mset x (mset ys)"
  by (induction ys) auto

lemma mset_sort_newest [simp]: "mset (sort_newest xs) = mset xs"
  by (induction xs) (auto simp: sort_newest_def)

lemma set_insert_backup [simp]: "set (insert_backup x ys) = insert x (set ys)"
  by (metis mset_insert_backup set_mset_add_mset_insert set_mset_mset)

lemma insert_backup_sorted:
  "sorted_wrt (\<lambda>a b. \<not> newer b a) ys \<Longrightarrow> sorted_wrt (\<lambda>a b. \<not> newer b a) (insert_backup x ys)"
proof (induction ys)
  case (Cons y ys)
  show ?case
  proof (cases "newer y x")
    case True
    with Cons show ?thesis by (auto dest: newer_asym)
  next
    case False
    with Cons.prems newer_neg_trans [OF False] show ?thesis by auto
  qed
qed simp

lemma sort_newest_sorted: "sorted_wrt (\<lambda>a b. \<not> newer b a) (sort_newest xs)"
  by (induction xs) (auto simp: sort_newest_def intro: insert_backup_sorted)

definition automatic_of :: "string \<Rightarrow> tables \<Rightarrow> VirshBackup list" where
  "automatic_of n t = filter (\<lambda>b. BakName b = n \<and> BakAutomatic b) (virsh_backups t)"

definition db_works :: "'w menv \<Rightarrow> bool" where
  "db_works e \<longleftrightarrow> (\<forall>x. fst (DbFails e x) = False)"

lemma dbdo_works: "db_works e \<Longrightarrow> \<exists>x. dbdo e name stmt s = (Inr (fst (stmt (tabs s))), s\<lparr>ext := x, tabs := snd (stmt (tabs s))\<rparr>)"
  unfolding db_works_def dbdo_def by (auto split: prod.split bool.split) (metis fst_conv)

definition drop_rows :: "int set \<Rightarrow> tables \<Rightarrow> tables" where
  "drop_rows I t = t\<lparr>virsh_backups := filter (\<lambda>b. BakId b \<notin> I) (virsh_backups t)\<rparr>"

lemma delete_backup_row:
  assumes "db_works e" "find (\<lambda>b. BakId b = i) (virsh_backups (tabs s)) = Some b" "backup_dir (Dir (BakPath b))"
  shows "tabs (snd (DeleteBackup e i s)) = drop_rows {i} (tabs s)"
proof -
  obtain x where g: "GetVirshBackupById e i s = (Inr (Some b), s\<lparr>ext := x\<rparr>)"
    using dbdo_works [OF assms(1), of "''GetVirshBackupById''"
        "\<lambda>t. (find (\<lambda>b. BakId b = i) (virsh_backups t), t)" s] assms(2)
    by (auto simp: GetVirshBackupById_def dbget_def)
  obtain y where d: "DeleteVirshBackupById e i (s\<lparr>ext := x\<rparr>) = (Inr (), s\<lparr>ext := y, tabs := drop_rows {i} (tabs s)\<rparr>)"
    using dbdo_works [OF assms(1), of "''DeleteVirshBackupById''"
        "\<lambda>t. ((), t\<lparr>virsh_backups := filter (\<lambda>b. BakId b \<noteq> i) (virsh_backups t)\<rparr>)" "s\<lparr>ext := x\<rparr>"]
    by (auto simp: DeleteVirshBackupById_def dbset_def drop_rows_def)
  let ?rest = "bindE (remove_file e (BakPath b)) (\<lambda>fileErr. bindE (removeBackupDirectory e (Dir (BakPath b)))
      (\<lambda>_. if fileErr = RemoveFailed then fail (FileErr (FileRemoveFailed (BakPath b))) else ret ()))"
  have "DeleteBackup e i s = ?rest (s\<lparr>ext := y, tabs := drop_rows {i} (tabs s)\<rparr>)"
    unfolding DeleteBackup_def Let_def validate_bind using assms(3) g d by (simp add: bindE_def)
  moreover have "steps same_tabs ?rest"
    unfolding removeBackupDirectory_def validate_bind remove_file_def remove_all_def
    by (auto intro!: tabs_intro)
  ultimately show ?thesis by (simp add: steps_def same_tabs_def)
qed

lemma drop_rows_twice: "drop_rows J (drop_rows I t) = drop_rows (I \<union> J) t"
  by (simp add: drop_rows_def)

lemma find_id:
  "distinct (map BakId bs) \<Longrightarrow> b \<in> set bs \<Longrightarrow> find (\<lambda>c. BakId c = BakId b) bs = Some b"
  by (induction bs) auto

lemma delete_backups_rows:
  assumes "db_works e"
  shows "\<lbrakk>distinct (map BakId (virsh_backups (tabs s))); distinct (map BakId bs);
     set bs \<subseteq> set (virsh_backups (tabs s)); \<forall>b \<in> set bs. backup_dir (Dir (BakPath b))\<rbrakk> \<Longrightarrow>
     tabs (snd (delete_backups e bs s)) = drop_rows (BakId ` set bs) (tabs s)"
proof (induction bs arbitrary: s)
  case (Cons b bs)
  obtain r s1 where d: "DeleteBackup e (BakId b) s = (r, s1)" by (metis prod.collapse)
  have "find (\<lambda>c. BakId c = BakId b) (virsh_backups (tabs s)) = Some b" using Cons.prems by (auto intro: find_id)
  from delete_backup_row [OF assms this] Cons.prems d have t1: "tabs s1 = drop_rows {BakId b} (tabs s)" by simp
  have "tabs (snd (delete_backups e bs s1)) = drop_rows (BakId ` set bs) (tabs s1)"
    using Cons.prems by (intro Cons.IH) (auto simp: t1 drop_rows_def distinct_map_filter image_iff)
  with t1 d show ?case by (simp add: bindR_def drop_rows_twice)
qed (simp add: drop_rows_def ret_def)

lemma kept_after:
  assumes "distinct (map BakId old)" "mset baks = mset old" "k \<le> length old"
  defines "kept \<equiv> filter (\<lambda>b. BakId b \<notin> BakId ` set (drop k (sort_newest baks))) old"
  shows "length kept = k" "\<forall>b \<in> set kept. \<forall>d \<in> set old - set kept. \<not> newer d b"
proof -
  let ?t = "take k (sort_newest baks)" and ?d = "drop k (sort_newest baks)"
  have split: "sort_newest baks = ?t @ ?d" by simp
  have m: "mset (sort_newest baks) = mset old" using assms(2) by simp
  have dist: "distinct old" "distinct (sort_newest baks)"
    using assms(1) mset_eq_imp_distinct_iff [OF m] by (simp_all add: distinct_map)
  have sets: "set ?t \<union> set ?d = set old" "set ?t \<inter> set ?d = {}"
    using mset_eq_setD [OF m] split dist(2) by (metis set_append, metis distinct_append)
  have "BakId b \<notin> BakId ` set ?d \<longleftrightarrow> b \<notin> set ?d" if "b \<in> set old" for b
    using assms(1) sets that by (auto simp: distinct_map inj_on_def)
  then have kept: "set kept = set ?t" using sets by (auto simp: kept_def)
  have "length (sort_newest baks) = length old" using m mset_eq_length by blast
  then have "card (set ?t) = k" using dist(2) assms(3) by (simp add: distinct_card)
  then show "length kept = k" using kept dist(1) by (metis distinct_card distinct_filter kept_def)
  have "sorted_wrt (\<lambda>a b. \<not> newer b a) (?t @ ?d)" using sort_newest_sorted [of baks] by simp
  then have "\<forall>b \<in> set ?t. \<forall>d \<in> set ?d. \<not> newer d b" unfolding sorted_wrt_append by blast
  with kept sets show "\<forall>b \<in> set kept. \<forall>d \<in> set old - set kept. \<not> newer d b" by auto
qed

text \<open>A backup is not older than another when its time is known and no earlier.\<close>

definition not_older :: "VirshBackup \<Rightarrow> VirshBackup \<Rightarrow> bool" where
  "not_older b d \<longleftrightarrow>
     (case parseBackupTimestamp (BakCreatedAt d) of
        None \<Rightarrow> True
      | Some u \<Rightarrow> (case parseBackupTimestamp (BakCreatedAt b) of None \<Rightarrow> False | Some t \<Rightarrow> u \<le> t))"

lemma not_newer_old: "\<not> newer d b \<Longrightarrow> not_older b d"
  by (auto simp: newer_def not_older_def split: option.splits)

lemma tabs_backup: "steps same_tabs (BackupVM e n i a)"
  unfolding BackupVM_def vm_required_def GetVmByName_def target_of_def share_required_def GetNFSShareByID_def mkdir_all_def Let_def
  by (auto intro!: tabs_intro split: stat_result.split option.split)

text \<open>C24: a scheduled backup that succeeds leaves, of the automatic backups of the VM that were there, as many as the
  schedule retains, none of them older than one that is gone, and touches no other row.  The backup that it
  has just started is not among them: its row is written when the copy is done.\<close>

theorem newest_backups_kept:
  assumes "createAutoBak e bak s = (Inr (), s')" "db_works e" "distinct (map BakId (virsh_backups (tabs s)))"
    and "\<forall>b \<in> set (automatic_of (BkVm bak) (tabs s)). backup_dir (Dir (BakPath b))"
  shows "set (automatic_of (BkVm bak) (tabs s')) \<subseteq> set (automatic_of (BkVm bak) (tabs s)) \<and>
    int (length (automatic_of (BkVm bak) (tabs s'))) = min (BkRetain bak) (int (length (automatic_of (BkVm bak) (tabs s)))) \<and>
    (\<forall>b \<in> set (automatic_of (BkVm bak) (tabs s')).
       \<forall>d \<in> set (automatic_of (BkVm bak) (tabs s)) - set (automatic_of (BkVm bak) (tabs s')). not_older b d) \<and>
    filter (\<lambda>b. \<not> (BakName b = BkVm bak \<and> BakAutomatic b)) (virsh_backups (tabs s')) =
    filter (\<lambda>b. \<not> (BakName b = BkVm bak \<and> BakAutomatic b)) (virsh_backups (tabs s))"
proof -
  let ?n = "BkVm bak" and ?k = "nat (BkRetain bak)"
  define old where "old = automatic_of ?n (tabs s)"
  from assms(1) obtain u1 s1 where b: "BackupVM e ?n (BkNfs bak) True s = (Inr u1, s1)" and
    run: "bindE (getW (\<lambda>s. format_rfc3339 (NowM e (ext s)))) (\<lambda>completedAt.
     bindE (UpdateAutomaticBackupTimes e (BkId bak) (Some completedAt)) (\<lambda>_.
     bindE (GetAutomaticBackups e (BkVm bak)) (\<lambda>baks.
       if int (length baks) \<le> BkRetain bak then ret ()
       else if BkRetain bak < 0 then fail IndexPanic
       else delete_backups e (drop (nat (BkRetain bak)) (sort_newest baks))))) s1 = (Inr (), s')"
    unfolding createAutoBak_def by (rule bindE_eq_InrE)
  from run obtain c s0 where c: "getW (\<lambda>s. format_rfc3339 (NowM e (ext s))) s1 = (Inr c :: svc_error + string, s0)" and
    run: "bindE (UpdateAutomaticBackupTimes e (BkId bak) (Some c)) (\<lambda>_.
     bindE (GetAutomaticBackups e (BkVm bak)) (\<lambda>baks.
       if int (length baks) \<le> BkRetain bak then ret ()
       else if BkRetain bak < 0 then fail IndexPanic
       else delete_backups e (drop (nat (BkRetain bak)) (sort_newest baks)))) s0 = (Inr (), s')" by (rule bindE_eq_InrE)
  have s0: "s0 = s1" using c by simp
  from run obtain u2 s2 where u: "UpdateAutomaticBackupTimes e (BkId bak) (Some c) s0 = (Inr u2, s2)" and
    run: "bindE (GetAutomaticBackups e (BkVm bak)) (\<lambda>baks.
       if int (length baks) \<le> BkRetain bak then ret ()
       else if BkRetain bak < 0 then fail IndexPanic
       else delete_backups e (drop (nat (BkRetain bak)) (sort_newest baks))) s2 = (Inr (), s')" by (rule bindE_eq_InrE)
  from run obtain baks s3 where g: "GetAutomaticBackups e ?n s2 = (Inr baks, s3)" and
    run: "(if int (length baks) \<le> BkRetain bak then ret () else if BkRetain bak < 0 then fail IndexPanic
       else delete_backups e (drop ?k (sort_newest baks))) s3 = (Inr (), s')" by (rule bindE_eq_InrE)
  have rows: "virsh_backups (tabs s3) = virsh_backups (tabs s)" and baks: "mset baks = mset old"
    using stepsD [OF tabs_backup b] dbset_ok [OF u [unfolded UpdateAutomaticBackupTimes_def]]
      dbget_ok [OF g [unfolded GetAutomaticBackups_def]]
    by (simp_all add: s0 same_tabs_def update_auto_def old_def automatic_of_def)
  have dist: "distinct (map BakId old)"
    unfolding old_def automatic_of_def using assms(3) by (rule distinct_map_filter)
  show ?thesis
  proof (cases "int (length baks) \<le> BkRetain bak")
    case True
    with run have "s' = s3" by simp
    moreover have "length old = length baks" using baks mset_eq_length by metis
    ultimately show ?thesis using True rows by (simp add: old_def automatic_of_def)
  next
    case False
    with run have k: "0 \<le> BkRetain bak" "delete_backups e (drop ?k (sort_newest baks)) s3 = (Inr (), s')"
      by (auto split: if_split_asm)
    have len: "length old = length baks" using baks mset_eq_length by metis
    have sub: "set (drop ?k (sort_newest baks)) \<subseteq> set old"
      using set_drop_subset [of ?k "sort_newest baks"] mset_eq_setD [OF baks] mset_eq_setD [OF mset_sort_newest [of baks]] by auto
    have "distinct (map BakId (sort_newest baks))"
      using dist baks mset_sort_newest [of baks] by (metis mset_map mset_eq_imp_distinct_iff)
    then have "distinct (map BakId (drop ?k (sort_newest baks)))" by (simp add: drop_map [symmetric])
    then have t: "tabs (snd (delete_backups e (drop ?k (sort_newest baks)) s3)) =
        drop_rows (BakId ` set (drop ?k (sort_newest baks))) (tabs s3)"
      using sub assms(3,4) by (intro delete_backups_rows [OF assms(2)]) (auto simp: rows old_def automatic_of_def)
    have new: "automatic_of ?n (tabs s') = filter (\<lambda>b. BakId b \<notin> BakId ` set (drop ?k (sort_newest baks))) old"
      using t k(2) by (simp add: automatic_of_def drop_rows_def rows old_def conj_commute)
    have "virsh_backups (tabs s') = filter (\<lambda>b. BakId b \<notin> BakId ` set (drop ?k (sort_newest baks))) (virsh_backups (tabs s))"
      using t k(2) by (simp add: drop_rows_def rows)
    moreover have "BakName b = ?n \<and> BakAutomatic b" if "b \<in> set (virsh_backups (tabs s))"
      "BakId b \<in> BakId ` set (drop ?k (sort_newest baks))" for b
    proof -
      from that(2) sub obtain d where "d \<in> set old" "BakId d = BakId b" by auto
      with that(1) assms(3) have "d = b" by (auto simp: old_def automatic_of_def distinct_map dest: inj_onD)
      with \<open>d \<in> set old\<close> show ?thesis by (simp add: old_def automatic_of_def)
    qed
    ultimately have rest: "filter (\<lambda>b. \<not> (BakName b = ?n \<and> BakAutomatic b)) (virsh_backups (tabs s')) =
        filter (\<lambda>b. \<not> (BakName b = ?n \<and> BakAutomatic b)) (virsh_backups (tabs s))"
      by (auto intro!: filter_cong)
    have "?k \<le> length old" using False k(1) len by simp
    from kept_after [OF dist baks this] rest new k(1) False len not_newer_old show ?thesis
      by (auto simp: old_def [symmetric] set_take_subset)
  qed
qed


text \<open>An installation with two backups of one VM and a schedule that keeps one.\<close>

definition lab_dirs :: "nat menv" where
  "lab_dirs = lab\<lparr>StatM := (\<lambda>p w. StatDir)\<rparr>"

definition old_backup :: "int \<Rightarrow> string \<Rightarrow> VirshBackup" where
  "old_backup i created = \<lparr>BakId = i, BakName = ''web'', BakPath = ''/mnt/a/backup-1/web.qcow2'', BakNfsId = 1,
     BakCreatedAt = created, BakAutomatic = True\<rparr>"

definition web_schedule :: AutomaticBackup where
  "web_schedule = \<lparr>BkId = 6, BkVm = ''web'', BkFrequency = 1, BkMin = Clock 1 0, BkMax = Clock 2 0, BkNfs = 1,
     BkRetain = 1, BkEnabled = True, BkLast = None\<rparr>"

definition web_row :: auto_row where
  "web_row = \<lparr>RowId = 6, RowVm = ''web'', RowFrequency = 1, RowMin = ''01:00'', RowMax = ''02:00'', RowNfs = 1,
     RowRetain = 1, RowEnabled = True, RowLast = None\<rparr>"

definition backup_state :: "nat mstate" where
  "backup_state = lab_state\<lparr>tabs := lab_tables\<lparr>automatic_backup := [web_row],
     virsh_backups := [old_backup 3 ''2024-05-01 01:00:00'', old_backup 4 ''2024-05-02 01:00:00'']\<rparr>\<rparr>"

theorem newest_backups_kept_witness:
  "length (automatic_of ''web'' (tabs (snd (createAutoBak lab_dirs web_schedule backup_state)))) = 1"
proof -
  have ok: "fst (createAutoBak lab_dirs web_schedule backup_state) = Inr ()" by code_simp
  have dist: "distinct (map BakId (virsh_backups (tabs backup_state)))" by code_simp
  have dirs: "list_all (\<lambda>b. backup_dir (Dir (BakPath b))) (automatic_of (BkVm web_schedule) (tabs backup_state))" by code_simp
  have len: "length (automatic_of (BkVm web_schedule) (tabs backup_state)) = 2" by code_simp
  have db: "db_works lab_dirs" by (simp add: db_works_def lab_dirs_def lab_def)
  have "createAutoBak lab_dirs web_schedule backup_state = (Inr (), snd (createAutoBak lab_dirs web_schedule backup_state))"
    using ok by (simp add: prod_eq_iff)
  from newest_backups_kept [OF this db dist] dirs len show ?thesis by (simp add: list_all_iff web_schedule_def)
qed

subsection \<open>Schedules stay valid\<close>

definition valid_schedule :: "auto_row \<Rightarrow> bool" where
  "valid_schedule r \<longleftrightarrow> 1 \<le> RowFrequency r \<and> 1 \<le> RowRetain r \<and>
     (\<exists>lo hi. valid_clock lo \<and> valid_clock hi \<and> RowMin r = clock_string lo \<and> RowMax r = clock_string hi)"

definition schedules_valid :: "tables \<Rightarrow> bool" where
  "schedules_valid t \<longleftrightarrow> (\<forall>r \<in> set (automatic_backup t). valid_schedule r)"

definition keeps_valid :: "'w mstate \<Rightarrow> 'w mstate \<Rightarrow> bool" where
  "keeps_valid s s' \<longleftrightarrow> (schedules_valid (tabs s) \<longrightarrow> schedules_valid (tabs s'))"

lemma valid_order: "reflp keeps_valid" "transp keeps_valid"
  by (auto simp: keeps_valid_def reflp_def transp_def)

lemmas valid_intro =
  steps_bindE [OF valid_order(2)] steps_bindR [OF valid_order(2)] steps_pure [OF valid_order(1)] steps_mapErr
  steps_if steps_case_sum steps_case_option steps_forE [OF valid_order]

lemma valid_same: "steps same_tabs m \<Longrightarrow> steps keeps_valid m"
  by (simp add: steps_def same_tabs_def keeps_valid_def)

lemma valid_set:
  "(\<And>t. schedules_valid t \<Longrightarrow> schedules_valid (u t)) \<Longrightarrow> steps keeps_valid (dbset e name u)"
  by (simp add: steps_def keeps_valid_def dbset_def dbdo_def split: prod.split bool.split)

lemma valid_update:
  "(\<And>r. valid_schedule r \<Longrightarrow> P r \<Longrightarrow> valid_schedule (f r)) \<Longrightarrow> schedules_valid t \<Longrightarrow> schedules_valid (update_auto P f t)"
  by (auto simp: schedules_valid_def update_auto_def)

lemma valid_statements [intro]:
  "steps keeps_valid (UpdateAutomaticBackupTimes e i x)" "steps keeps_valid (RemoveAutomaticBackupById e i)"
  "steps keeps_valid (EnableAutomaticBackupById e i)" "steps keeps_valid (DisableAutomaticBackupById e i)"
  "steps keeps_valid (DeleteVirshBackupById e i)"
  unfolding UpdateAutomaticBackupTimes_def RemoveAutomaticBackupById_def EnableAutomaticBackupById_def
    DisableAutomaticBackupById_def DeleteVirshBackupById_def
  by (auto intro!: valid_set valid_update simp: valid_schedule_def) (auto simp: schedules_valid_def)

lemma tabs_auto_required: "steps same_tabs (auto_required e i)"
  unfolding auto_required_def GetAutomaticBackupById_def by (auto intro!: tabs_intro)

lemma check_schedule_ok:
  assumes "check_schedule e bak s = (Inr u, s')"
  shows "valid_clock (BkMin bak) \<and> valid_clock (BkMax bak) \<and> 1 \<le> BkFrequency bak \<and> 1 \<le> BkRetain bak"
  using assms unfolding check_schedule_def validate_clock_def
  by (auto elim!: bindE_eq_InrE split: if_split_asm option.split_asm simp: Validate_None [symmetric] simp del: Validate_None)

lemma tabs_check_schedule: "steps same_tabs (check_schedule e bak)"
  unfolding check_schedule_def validate_clock_def share_required_def GetNFSShareByID_def by (auto intro!: tabs_intro)

lemma valid_write:
  assumes "valid_clock (BkMin bak) \<and> valid_clock (BkMax bak) \<and> 1 \<le> BkFrequency bak \<and> 1 \<le> BkRetain bak"
  shows "steps keeps_valid (AddAutomaticBackup e bak)" "steps keeps_valid (UpdateAutomaticBackup e bak)"
  unfolding AddAutomaticBackup_def UpdateAutomaticBackup_def using assms
  by (auto intro!: valid_set valid_update simp: valid_schedule_def) (auto simp: schedules_valid_def valid_schedule_def)

lemma valid_checked:
  assumes "\<And>u. valid_clock (BkMin bak) \<and> valid_clock (BkMax bak) \<and> 1 \<le> BkFrequency bak \<and> 1 \<le> BkRetain bak \<Longrightarrow>
    steps keeps_valid (f u)"
  shows "steps keeps_valid (bindE (check_schedule e bak) f)"
  unfolding steps_def
proof
  fix s
  obtain r s1 where c: "check_schedule e bak s = (r, s1)" by (metis prod.collapse)
  have same: "keeps_valid s s1" using stepsD [OF valid_same [OF tabs_check_schedule] c] .
  show "keeps_valid s (snd (bindE (check_schedule e bak) f s))"
  proof (cases r)
    case (Inl x)
    with c same show ?thesis by (simp add: bindE_def)
  next
    case (Inr u)
    from assms [OF check_schedule_ok [OF c [unfolded Inr]]] have "keeps_valid s1 (snd (f u s1))" by (simp add: steps_def)
    with c same Inr valid_order(2) show ?thesis by (auto simp: bindE_def dest: transpD)
  qed
qed

lemma valid_round: "steps keeps_valid (auto_round e)"
proof -
  have d: "steps keeps_valid (DeleteBackup e i)" for i
    unfolding DeleteBackup_def removeBackupDirectory_def validate_bind Let_def GetVirshBackupById_def remove_file_def remove_all_def
    by (auto intro!: valid_intro intro: valid_same)
  have "steps keeps_valid (delete_backups e bs)" for bs
    by (induction bs) (auto intro!: valid_intro d)
  then have "steps keeps_valid (createAutoBak e bak)" for bak
    unfolding createAutoBak_def GetAutomaticBackups_def
    by (auto intro!: valid_intro valid_same [OF tabs_backup] intro: valid_same)
  then show ?thesis
    unfolding auto_round_def scheduled_backup_def logged_def GetVmByName_def GetEnabledAutomaticBackupsAt_def
    by (auto intro!: valid_intro intro: valid_same split: prod.split option.split)
qed

lemma valid_loop: "steps keeps_valid (LoopAutomaticBaks n e)"
  by (induction n) (auto intro!: valid_intro valid_round intro: valid_same)


lemma web_row_valid: "valid_schedule web_row"
proof -
  have "valid_clock (Clock 1 0)" "valid_clock (Clock 2 0)" "RowMin web_row = clock_string (Clock 1 0)"
    "RowMax web_row = clock_string (Clock 2 0)" "1 \<le> RowFrequency web_row" "1 \<le> RowRetain web_row" by code_simp+
  then show ?thesis unfolding valid_schedule_def by blast
qed


subsection \<open>The loop goes on\<close>

text \<open>A program that never panics.\<close>

definition calm :: "('w, 'a) sact \<Rightarrow> bool" where
  "calm m \<longleftrightarrow> (\<forall>s. fst (m s) \<noteq> Inl NilPanic \<and> fst (m s) \<noteq> Inl IndexPanic)"

lemma calm_basic [intro]:
  "calm (ret y)" "x \<noteq> NilPanic \<Longrightarrow> x \<noteq> IndexPanic \<Longrightarrow> calm (fail x)" "calm (getW g)" "calm (dbdo e name stmt)"
  "calm (svc m)" "calm (fsdo ev f)" "calm (spawn t)" "calm (outside_value w)" "calm (pause e n)"
  by (auto simp: calm_def ret_def fail_def getW_def dbdo_def svc_def mapErr_def fsdo_def spawn_def modW_def
      outside_value_def pause_def map_sum_def split: prod.split bool.split sum.split)

lemma calm_bindE: "calm m \<Longrightarrow> (\<And>x. calm (f x)) \<Longrightarrow> calm (bindE m f)"
  by (simp add: calm_def bindE_def split: prod.split sum.split) (metis fst_conv)

lemma calm_bindR: "(\<And>x. calm (f x)) \<Longrightarrow> calm (bindR m f)"
  by (simp add: calm_def bindR_def split: prod.split)

lemma calm_cases:
  "(b \<Longrightarrow> calm m) \<Longrightarrow> (\<not> b \<Longrightarrow> calm n) \<Longrightarrow> calm (if b then m else n)"
  "(r = None \<Longrightarrow> calm m) \<Longrightarrow> (\<And>x. r = Some x \<Longrightarrow> calm (g x)) \<Longrightarrow> calm (case_option m g r)"
  by (auto split: option.split)

lemmas calm_intro = calm_bindE calm_bindR calm_cases calm_basic

lemma calm_find [intro]: "calm (any_answers e n cs)" "calm (locate e n cs)"
proof -
  show "calm (any_answers e n cs)" by (induction cs) (auto intro!: calm_intro split: sum.split)
  show "calm (locate e n cs)" by (induction cs) (auto intro!: calm_intro split: sum.split reply.split option.split)
qed

lemma calm_backup: "calm (BackupVM e v n a)"
  unfolding BackupVM_def vm_required_def GetVmByName_def DoesVMExist_def grpc_conns_def target_of_def share_required_def
    GetNFSShareByID_def dbget_def stat_def mkdir_all_def Let_def
  by (auto intro!: calm_intro split: stat_result.split)

lemma delete_backups_returns: "fst (delete_backups e bs s) = Inr ()"
  by (induction bs arbitrary: s) (simp_all add: ret_def bindR_def split: prod.split)

lemma calm_auto:
  assumes "0 \<le> BkRetain bak"
  shows "calm (createAutoBak e bak)"
proof -
  have "calm (delete_backups e bs)" for bs by (simp add: calm_def delete_backups_returns)
  with assms calm_backup show ?thesis
    unfolding createAutoBak_def UpdateAutomaticBackupTimes_def GetAutomaticBackups_def dbset_def dbget_def
    by (auto intro!: calm_intro)
qed

lemma logged_returns: "calm m \<Longrightarrow> fst (logged m s) = Inr ()"
  by (auto simp: logged_def bindR_def calm_def ret_def split: prod.split sum.split) (metis fst_conv)+

lemma scheduled_returns:
  assumes "0 \<le> BkRetain bak"
  shows "fst (scheduled_backup e clock moment bak s) = Inr ()"
  using logged_returns [OF calm_auto [OF assms]]
  by (auto simp: scheduled_backup_def bindR_def bindE_def conn_of_def getW_def ret_def split: prod.split sum.split option.split)

lemma forE_returns: "(\<And>x s. x \<in> set xs \<Longrightarrow> fst (f x s) = Inr ()) \<Longrightarrow> fst (forE xs f s) = Inr ()"
proof (induction xs arbitrary: s)
  case (Cons x xs)
  from Cons.prems have "fst (f x s) = Inr ()" by simp
  then obtain s1 where "f x s = (Inr (), s1)" by (metis prod.collapse)
  with Cons show ?case by (simp add: bindE_def)
qed (simp add: ret_def)

lemma round_returns:
  assumes "schedules_valid (tabs s)"
  shows "fst (auto_round e s) = Inr ()"
proof -
  obtain clock moment where now: "(LocalClock e (ext s), instant (NowM e (ext s))) = (clock, moment)" by (metis prod.collapse)
  obtain r s1 where q: "GetEnabledAutomaticBackupsAt e clock s = (r, s1)" by (metis prod.collapse)
  show ?thesis
  proof (cases r)
    case (Inl x)
    with now q show ?thesis by (simp add: auto_round_def bindE_def bindR_def getW_def ret_def)
  next
    case (Inr baks)
    with dbget_ok [OF q [unfolded GetEnabledAutomaticBackupsAt_def Inr]] assms
    have "\<forall>bak \<in> set baks. 0 \<le> BkRetain bak" by (force simp: schedules_valid_def valid_schedule_def scan_auto_def)
    then have "fst (forE baks (scheduled_backup e clock moment) s1) = Inr ()" by (intro forE_returns scheduled_returns) auto
    with now q Inr show ?thesis by (simp add: auto_round_def bindE_def bindR_def getW_def)
  qed
qed

text \<open>C26: with valid schedules in the table the loop never stops: no error and no panic ends it, so any number of
  rounds complete.\<close>

theorem backup_loop_goes_on:
  assumes "schedules_valid (tabs s)"
  shows "fst (LoopAutomaticBaks n e s) = Inr ()"
  using assms
proof (induction n arbitrary: s)
  case (Suc n)
  obtain r s1 where a: "auto_round e s = (r, s1)" by (metis prod.collapse)
  obtain q s2 where p: "(pause e (20 * 60) :: ('a, unit) sact) s1 = (q, s2)" by (metis prod.collapse)
  have r: "r = Inr ()" using round_returns [OF Suc.prems, of e] a by simp
  have q: "q = Inr ()" using p by (auto simp: pause_def split: prod.splits)
  have "schedules_valid (tabs s1)" using stepsD [OF valid_round a] Suc.prems by (simp add: keeps_valid_def)
  then have "schedules_valid (tabs s2)" using stepsD [OF tabs_pause p] by (simp add: same_tabs_def)
  from Suc.IH [OF this] a p r q show ?case by (simp add: bindE_def)
qed (simp add: ret_def)

theorem backup_loop_goes_on_witness:
  "fst (LoopAutomaticBaks 3 lab_dirs backup_state) = Inr ()"
  by (rule backup_loop_goes_on) (use web_row_valid in \<open>simp add: schedules_valid_def backup_state_def\<close>)

subsection \<open>When a backup is due\<close>

text \<open>After a scheduled backup at some second, the next one is due exactly when more than the frequency in days
  has passed since; with a frequency of 106752 days or more the distance no longer fits an \<open>int64\<close> of
  nanoseconds, which the bound excludes.\<close>

theorem due_after_frequency:
  assumes "BkLast bak = Some (format_rfc3339 t)" "valid_civil t" "0 \<le> BkFrequency bak" "BkFrequency bak \<le> 106751"
  shows "due moment bak \<longleftrightarrow> instant t - Nano t + BkFrequency bak * day_nanos < moment"
proof -
  have "fits64 (- BkFrequency bak * day_nanos)"
    using assms(3,4) by (simp add: fits64_def max_int64_def min_int64_def day_nanos_def nanos_def)
  then have "minimal_last moment (BkFrequency bak) = moment - BkFrequency bak * day_nanos"
    by (simp add: minimal_last_def wrap64_id)
  then show ?thesis using assms(1) parse_written [OF assms(2)] by (auto simp: due_def)
qed

theorem due_after_frequency_witness:
  "due (instant (NowM lab 0)) (web_schedule\<lparr>BkLast := Some (format_rfc3339 (NowM lab 0))\<rparr>) = False"
proof -
  have "valid_civil (NowM lab 0)" by code_simp
  from due_after_frequency [of "web_schedule\<lparr>BkLast := Some (format_rfc3339 (NowM lab 0))\<rparr>", OF _ this,
      of "instant (NowM lab 0)"]
  show ?thesis by (simp add: web_schedule_def day_nanos_def nanos_def lab_def)
qed

theorem window_never_missed_witness:
  "\<exists>n. IsBetween (clock_at (int n * 20)) (Clock 22 30) (Clock 0 10)"
proof (rule window_never_missed [where today = "\<lambda>c. (Hours c * 60 + Minutes c) * 60 * nanos" and t = "\<lambda>n. int n * 20"])
  show "plain_day (\<lambda>c. (Hours c * 60 + Minutes c) * 60 * nanos)" by (simp add: plain_day_def algebra_simps)
qed (simp_all add: valid_clock_def calculateWindowDuration_def min_window_def day_nanos_def nanos_def)

theorem equal_ends_open_one_minute_witness:
  "IsBetween (clock_at 61) (Clock 1 0) (Clock 1 0) = False"
  using equal_ends_open_one_minute [of "Clock 1 0" "\<lambda>c. 0"] by (simp add: valid_clock_def minutes_of_def)

end
