(* ===== verification/NfsService.thy ===== *)
theory NfsService
  imports Backups VmStart
begin

text \<open>
  Shared folders: \<open>master/services/nfs.go\<close> on the table of \<open>master/db/nfs.go\<close>.  A share is a folder of
  one slave that every slave mounts.  Here are creating and deleting one, handing the slaves their
  lists, mounting, the checks before a machine counts as ready, and the loop that repairs mounts.
\<close>

subsection \<open>Names\<close>

definition trim_slash :: "string \<Rightarrow> string" where
  "trim_slash path = (if path \<noteq> [] \<and> last path = CHR ''/'' then butlast path else path)"

definition getFolderName :: "string \<Rightarrow> string" where
  "getFolderName path = rev (takeWhile (\<lambda>ch. ch \<noteq> CHR ''/'') (rev (trim_slash path)))"

definition ConvertNSFShareToGRPCFolderMount :: "NFSShare list \<Rightarrow> FolderMount list" where
  "ConvertNSFShareToGRPCFolderMount shares = map mount_of shares"

definition alphabet :: string where
  "alphabet = ''0123456789abcdefghijklmnopqrstuvwxyzABCDEFGHIJKLMNOPQRSTUVWXYZ''"

fun ShortID :: "nat \<Rightarrow> 'w menv \<Rightarrow> ('w, string) sact" where
  "ShortID 0 e = ret []"
| "ShortID (Suc n) e =
     bindE (outside_value (RandomM e (length alphabet))) (\<lambda>x. case x of
         None \<Rightarrow> fail (SyncErr NoShortId)
       | Some i \<Rightarrow>
           if length alphabet \<le> i then fail IndexPanic
           else bindE (ShortID n e) (\<lambda>rest. ret (alphabet ! i # rest)))"

definition ascii_alnum :: "char \<Rightarrow> bool" where
  "ascii_alnum ch \<longleftrightarrow>
     (CHR ''a'' \<le> ch \<and> ch \<le> CHR ''z'') \<or> (CHR ''A'' \<le> ch \<and> ch \<le> CHR ''Z'') \<or> (CHR ''0'' \<le> ch \<and> ch \<le> CHR ''9'')"

definition blockedPaths :: "string list" where
  "blockedPaths = [''/root'', ''/boot'', ''/etc'', ''/bin'', ''/sbin'', ''/usr'', ''/lib'', ''/lib64'', ''/sys'', ''/proc'', ''/dev'']"

definition blocked :: "string \<Rightarrow> string option" where
  "blocked path = find (HasPrefix path) blockedPaths"

definition shared_target :: "string \<Rightarrow> string \<Rightarrow> string" where
  "shared_target machineName folder = ''/mnt/512SvMan/shared/'' @ machineName @ ''_'' @ getFolderName folder"

subsection \<open>Statements\<close>

definition GetAllNFShares :: "'w menv \<Rightarrow> ('w, NFSShare list) sact" where
  "GetAllNFShares e = dbget e ''GetAllNFShares'' nfs_shares"

definition GetAllMachineNamesWithShares :: "'w menv \<Rightarrow> ('w, string list) sact" where
  "GetAllMachineNamesWithShares e =
     dbget e ''GetAllMachineNamesWithShares'' (\<lambda>t. foldl app_new [] (map ShareMachine (nfs_shares t)))"

definition GetNFSharesByMachineName :: "'w menv \<Rightarrow> string \<Rightarrow> ('w, NFSShare list) sact" where
  "GetNFSharesByMachineName e m =
     dbget e ''GetNFSharesByMachineName'' (\<lambda>t. filter (\<lambda>x. ShareMachine x = m) (nfs_shares t))"

definition GetAutomaticBackupsByNfsMountID :: "'w menv \<Rightarrow> int \<Rightarrow> ('w, AutomaticBackup list) sact" where
  "GetAutomaticBackupsByNfsMountID e i =
     dbget e ''GetAutomaticBackupsByNfsMountID'' (\<lambda>t. map scan_auto (filter (\<lambda>r. RowNfs r = i) (automatic_backup t)))"

definition GetAllAutoStart :: "'w menv \<Rightarrow> ('w, AutoStartRow list) sact" where
  "GetAllAutoStart e = dbget e ''GetAllAutoStart'' auto_start"

subsection \<open>Mounting\<close>

text \<open>The connected slaves that are healthy when the mounting starts.\<close>

fun healthy_entries :: "'w menv \<Rightarrow> ConnectionsStruct list \<Rightarrow> ('w, (ConnectionsStruct \<times> grpc_conn) list) sact" where
  "healthy_entries e [] = ret []"
| "healthy_entries e (entry # entries) =
     (case Connection entry of
        None \<Rightarrow> healthy_entries e entries
      | Some g \<Rightarrow>
          bindE (healthy e g) (\<lambda>ok.
          bindE (healthy_entries e entries) (\<lambda>rest. ret (if ok then (entry, g) # rest else rest))))"

text \<open>Each share is created on its own machine; the result is what can be mounted and the targets that failed.\<close>

definition create_folder :: "'w menv \<Rightarrow> (ConnectionsStruct \<times> grpc_conn) list \<Rightarrow> FolderMount \<Rightarrow> ('w, bool) sact" where
  "create_folder e ready m =
     (case find (\<lambda>x. MachineName (fst x) = MountMachine m) ready of
        None \<Rightarrow> ret False
      | Some (_, g) \<Rightarrow>
          bindE (healthy e g) (\<lambda>ok.
            if \<not> ok then ret False else bindR (withRetry e g (CreateShared m)) (\<lambda>r. ret (\<not> isl r))))"

fun create_folders ::
  "'w menv \<Rightarrow> (ConnectionsStruct \<times> grpc_conn) list \<Rightarrow> FolderMount list \<Rightarrow> ('w, FolderMount list \<times> string list) sact" where
  "create_folders e ready [] = ret ([], [])"
| "create_folders e ready (m # ms) =
     bindE (create_folder e ready m) (\<lambda>ok.
     bindE (create_folders e ready ms) (\<lambda>(mountable, errs).
       ret (if ok then (m # mountable, errs) else (mountable, MountTarget m # errs))))"

fun mount_folders :: "'w menv \<Rightarrow> grpc_conn \<Rightarrow> FolderMount list \<Rightarrow> ('w, string list) sact" where
  "mount_folders e g [] = ret []"
| "mount_folders e g (m # ms) =
     bindR (withRetry e g (MountShared m)) (\<lambda>r.
     bindE (mount_folders e g ms) (\<lambda>errs. ret (case r of Inr _ \<Rightarrow> errs | Inl _ \<Rightarrow> MountTarget m # errs)))"

fun mount_everywhere ::
  "'w menv \<Rightarrow> (ConnectionsStruct \<times> grpc_conn) list \<Rightarrow> FolderMount list \<Rightarrow> ('w, string list) sact" where
  "mount_everywhere e [] ms = ret []"
| "mount_everywhere e ((entry, g) # rest) ms =
     bindE (healthy e g) (\<lambda>ok.
     bindE (if ok then mount_folders e g ms else ret []) (\<lambda>errs.
     bindE (mount_everywhere e rest ms) (\<lambda>more. ret (errs @ more))))"

text \<open>Without an argument all shares of the table are mounted.\<close>

definition MountAllSharedFolders :: "'w menv \<Rightarrow> NFSShare list \<Rightarrow> ('w, unit) sact" where
  "MountAllSharedFolders e folders =
     bindE (getW (\<lambda>s. GetConnectionsSnapshot (conns s))) (\<lambda>snapshot.
     bindE (healthy_entries e snapshot) (\<lambda>ready.
       if ready = [] then fail (SyncErr NoSlaves)
       else bindE (if folders = [] then GetAllNFShares e else ret folders) (\<lambda>shares.
            bindE (create_folders e ready (map mount_of shares)) (\<lambda>(mountable, errs).
              if mountable = [] then (if errs = [] then ret () else fail (SyncErr (NothingMountable errs)))
              else bindE (mount_everywhere e ready mountable) (\<lambda>more.
                     if errs @ more = [] then ret () else fail (SyncErr (SomeMountsFailed (errs @ more))))))))"

text \<open>Each machine with shares gets the list of them; the result is who was not connected and who failed.\<close>

fun sync_machines :: "'w menv \<Rightarrow> string list \<Rightarrow> ('w, string list \<times> string list) sact" where
  "sync_machines e [] = ret ([], [])"
| "sync_machines e (m # ms) =
     bindE (conn_of m) (\<lambda>c.
     bindE (case c of
         None \<Rightarrow> ret ([m], [])
       | Some (_, g) \<Rightarrow>
           bindE (healthy e g) (\<lambda>ok.
             if \<not> ok then ret ([m], [])
             else bindR (GetNFSharesByMachineName e m) (\<lambda>r. case r of
                 Inl _ \<Rightarrow> ret ([], [])
               | Inr shares \<Rightarrow>
                   bindR (withRetry e g (SyncShared (ConvertNSFShareToGRPCFolderMount shares))) (\<lambda>q.
                     ret ([], (case q of Inr _ \<Rightarrow> [] | Inl _ \<Rightarrow> [m])))))) (\<lambda>(away, failed).
     bindE (sync_machines e ms) (\<lambda>(more_away, more_failed). ret (away @ more_away, failed @ more_failed))))"

definition SyncSharedFolder :: "'w menv \<Rightarrow> ('w, unit) sact" where
  "SyncSharedFolder e =
     bindE (GetAllMachineNamesWithShares e) (\<lambda>ms.
     bindE (sync_machines e ms) (\<lambda>(away, failed).
       if away = [] \<and> failed = [] then ret () else fail (SyncErr (SyncFailed away failed))))"

definition UpdateNFSShit :: "'w menv \<Rightarrow> ('w, unit) sact" where
  "UpdateNFSShit e =
     bindR (SyncSharedFolder e) (\<lambda>r.
     bindR (MountAllSharedFolders e []) (\<lambda>q. case (r, q) of
         (Inr _, Inr _) \<Rightarrow> ret ()
       | (Inl x, Inr _) \<Rightarrow> fail x
       | (Inr _, Inl y) \<Rightarrow> fail y
       | (Inl x, Inl y) \<Rightarrow> fail (Both x y)))"

subsection \<open>Creating and deleting a share\<close>

record SharePoint =
  SpMachine :: string
  SpFolder :: string
  SpName :: string
  SpHost :: bool

text \<open>The folder with the sanitized name of the share and a short identifier; the last byte of an empty path panics.\<close>

definition named_folder :: "'w menv \<Rightarrow> SharePoint \<Rightarrow> ('w, string) sact" where
  "named_folder e sp =
     (let name = filter ascii_alnum (SpName sp) in
      if name = [] then ret (SpFolder sp)
      else bindE (ShortID 6 e) (\<lambda>i. under_target (SpFolder sp) (name @ i)))"

definition CreateSharePoint :: "'w menv \<Rightarrow> SharePoint \<Rightarrow> ('w, unit) sact" where
  "CreateSharePoint e sp =
     bindE (connected (SpMachine sp)) (\<lambda>(entry, g).
     bindE (healthy e g) (\<lambda>ok.
       if \<not> ok then fail NotHealthy
       else bindE (named_folder e sp) (\<lambda>folder. case blocked folder of
              Some b \<Rightarrow> fail (ShareErr (SystemPath b))
            | None \<Rightarrow>
                (let m = \<lparr>MountMachine = SpMachine sp, MountFolder = folder, MountSource = Addr entry @ '':'' @ folder,
                          MountTarget = shared_target (SpMachine sp) folder, MountHost = SpHost sp\<rparr> in
                 bindE (svc (withRetry e g (CreateShared m))) (\<lambda>_.
                 bindE (AddNFSShare e m (SpName sp)) (\<lambda>_.
                 bindE (SyncSharedFolder e) (\<lambda>_. MountAllSharedFolders e [])))))))"

text \<open>Every slave is asked to unmount; failures are logged.\<close>

fun unmount_everywhere :: "'w menv \<Rightarrow> FolderMount \<Rightarrow> grpc_conn list \<Rightarrow> ('w, unit) sact" where
  "unmount_everywhere e m [] = ret ()"
| "unmount_everywhere e m (g # gs) = bindR (withRetry e g (UnmountShared m)) (\<lambda>_. unmount_everywhere e m gs)"

text \<open>The share a request names, checked in the order of the code.\<close>

definition share_exists :: "'w menv \<Rightarrow> SharePoint \<Rightarrow> ('w, unit) sact" where
  "share_exists e sp =
     bindE (DoesExistNFSShare e (SpMachine sp) (SpFolder sp)) (\<lambda>exists.
       if exists then ret () else fail (ShareErr (ShareUnknown (SpMachine sp) (SpFolder sp))))"

definition share_resolved :: "'w menv \<Rightarrow> SharePoint \<Rightarrow> ('w, NFSShare) sact" where
  "share_resolved e sp =
     bindE (GetNFSShareByMachineAndFolder e (SpMachine sp) (SpFolder sp)) (\<lambda>s. case s of
         None \<Rightarrow> fail (ShareErr (ShareUnknown (SpMachine sp) (SpFolder sp)))
       | Some share \<Rightarrow> ret share)"

definition remove_iso :: "'w menv \<Rightarrow> string \<Rightarrow> ISO \<Rightarrow> ('w, unit) sact" where
  "remove_iso e target disc =
     (if HasPrefix (IsoPath disc) target then
        bindE (remove_file e (IsoPath disc)) (\<lambda>r.
          if r = RemoveFailed then fail (FileErr (FileRemoveFailed (IsoPath disc))) else RemoveISOByID e (IsoId disc))
      else ret ())"

definition forcedelete :: "'w menv \<Rightarrow> SharePoint \<Rightarrow> ('w, unit) sact" where
  "forcedelete e sp =
     bindE (share_exists e sp) (\<lambda>_.
     bindE (share_resolved e sp) (\<lambda>share.
     (let m = mount_of share in
      bindE (GetAllVmsByOnNfsShare e (MountTarget m)) (\<lambda>vms.
      bindE (forE vms (\<lambda>v. DeleteVM e (VmName v))) (\<lambda>_.
      bindE (GetVirshBackupsByNfsMountID e (ShareId share)) (\<lambda>backups.
      bindE (forE backups (\<lambda>b. DeleteBackup e (BakId b))) (\<lambda>_.
      bindE (GetAutomaticBackupsByNfsMountID e (ShareId share)) (\<lambda>autos.
      bindE (forE autos (\<lambda>b. DeleteAutoBak e (BkId b))) (\<lambda>_.
      bindE (GetAllISOs e) (\<lambda>discs.
      bindE (forE discs (remove_iso e (MountTarget m))) (\<lambda>_.
      bindE grpc_conns (\<lambda>gs.
      bindE (unmount_everywhere e m gs) (\<lambda>_.
      bindE (conn_of (MountMachine m)) (\<lambda>c.
      bindE (case c of None \<Rightarrow> ret () | Some (_, g) \<Rightarrow> bindR (withRetry e g (RemoveShared m)) (\<lambda>_. ret ())) (\<lambda>_.
        RemoveNFSShare e (MountMachine m) (MountFolder m))))))))))))))))"

definition no_vms_on :: "'w menv \<Rightarrow> string \<Rightarrow> ('w, unit) sact" where
  "no_vms_on e target =
     bindE (GetAllVmsByOnNfsShare e target) (\<lambda>vms.
       if vms \<noteq> [] then fail (ShareErr (UsedByVms (map VmName vms))) else ret ())"

definition no_isos_on :: "'w menv \<Rightarrow> string \<Rightarrow> ('w, unit) sact" where
  "no_isos_on e target =
     bindE (GetAllISOs e) (\<lambda>discs. case find (\<lambda>i. HasPrefix (IsoPath i) target) discs of
         Some i \<Rightarrow> fail (ShareErr (UsedByIso (IsoName i)))
       | None \<Rightarrow> ret ())"

definition no_backups_on :: "'w menv \<Rightarrow> NFSShare \<Rightarrow> ('w, unit) sact" where
  "no_backups_on e share =
     bindE (GetVirshBackupsByNfsMountID e (ShareId share)) (\<lambda>backups.
       if backups \<noteq> [] then fail (ShareErr (UsedByBackups (map BakName backups)))
       else bindE (GetAutomaticBackupsByNfsMountID e (ShareId share)) (\<lambda>autos.
              if autos \<noteq> [] then fail (ShareErr (UsedByAutoBackups (map BkVm autos))) else ret ()))"

definition DeleteSharePoint :: "'w menv \<Rightarrow> SharePoint \<Rightarrow> bool \<Rightarrow> ('w, unit) sact" where
  "DeleteSharePoint e sp force =
     (if force then forcedelete e sp
      else bindE (connected (SpMachine sp)) (\<lambda>(entry, g).
           bindE (share_exists e sp) (\<lambda>_.
           (let m = \<lparr>MountMachine = SpMachine sp, MountFolder = SpFolder sp, MountSource = Addr entry @ '':'' @ SpFolder sp,
                     MountTarget = shared_target (SpMachine sp) (SpFolder sp), MountHost = SpHost sp\<rparr> in
            bindE (no_vms_on e (MountTarget m)) (\<lambda>_.
            bindE (no_isos_on e (MountTarget m)) (\<lambda>_.
            bindE (share_resolved e sp) (\<lambda>share.
            bindE (no_backups_on e share) (\<lambda>_.
            bindE (svc (withRetry e g (RemoveShared m))) (\<lambda>_.
            bindE grpc_conns (\<lambda>gs.
            bindE (unmount_everywhere e m gs) (\<lambda>_.
              RemoveNFSShare e (MountMachine m) (MountFolder m))))))))))))"

subsection \<open>Readiness of a machine\<close>

definition GetSharedFolderStatus :: "'w menv \<Rightarrow> grpc_conn \<Rightarrow> FolderMount \<Rightarrow> ('w mstate, string, bool) act" where
  "GetSharedFolderStatus e g m = bindE (call e g (SharedStatus m)) (\<lambda>v. ret (v = Working True))"

text \<open>The shares that do not work on a machine, and the marked VMs whose disks it cannot use.\<close>

fun share_issues :: "'w menv \<Rightarrow> grpc_conn \<Rightarrow> NFSShare list \<Rightarrow> ('w, string list) sact" where
  "share_issues e g [] = ret []"
| "share_issues e g (x # xs) =
     bindE (context_ok e) (\<lambda>_.
     bindR (GetSharedFolderStatus e g (mount_of x)) (\<lambda>st.
     bindE (if st \<noteq> Inr True then ret False
            else bindR (CheckReadWrite e g (ShareTarget x)) (\<lambda>r. ret (\<not> isl r))) (\<lambda>ok.
     bindE (share_issues e g xs) (\<lambda>issues. ret (if ok then issues else ShareTarget x # issues)))))"

definition disk_usable :: "'w menv \<Rightarrow> grpc_conn \<Rightarrow> string \<Rightarrow> string \<Rightarrow> ('w, bool) sact" where
  "disk_usable e g machineName name =
     bindR (GetVmByName e name) (\<lambda>r. case r of
         Inr (Some v) \<Rightarrow>
           (let diskPath = TrimSpace (VmDiskPath v) in
            if VmMachine v \<noteq> machineName \<or> diskPath = [] \<or> \<not> HasPrefix diskPath nfsMountPrefix then ret True
            else bindR (CheckFileReadable e g diskPath) (\<lambda>q.
                   if isl q then ret False
                   else bindR (CheckReadWrite e g (Dir diskPath)) (\<lambda>q. ret (\<not> isl q))))
       | _ \<Rightarrow> ret True)"

fun disk_issues :: "'w menv \<Rightarrow> grpc_conn \<Rightarrow> string \<Rightarrow> string list \<Rightarrow> ('w, string list) sact" where
  "disk_issues e g machineName [] = ret []"
| "disk_issues e g machineName (n # ns) =
     bindE (context_ok e) (\<lambda>_.
     bindE (disk_usable e g machineName n) (\<lambda>ok.
     bindE (disk_issues e g machineName ns) (\<lambda>issues. ret (if ok then issues else n # issues))))"

definition conn_ready :: "'w menv \<Rightarrow> grpc_conn \<Rightarrow> ('w, unit) sact" where
  "conn_ready e g =
     bindE (getW (\<lambda>s. ConnState e g (ext s))) (\<lambda>st.
     bindE (outside_value (StateChanges e g 15)) (\<lambda>changes.
       if snd (EnsureConnectionReady (Some st) changes) = None then ret () else fail (SyncErr NotReady)))"

definition ensureNFSWorkingOnMachine :: "'w menv \<Rightarrow> string \<Rightarrow> ('w, unit) sact" where
  "ensureNFSWorkingOnMachine e name =
     (let machineName = TrimSpace name in
      if machineName = [] then fail (LookupErr MachineRequired)
      else bindE (connected machineName) (\<lambda>(_, g).
           bindE (conn_ready e g) (\<lambda>_.
           bindE (GetAllNFShares e) (\<lambda>shares.
             if shares = [] then ret ()
             else bindE (share_issues e g shares) (\<lambda>issues.
                  bindE (GetAllAutoStart e) (\<lambda>starts.
                  bindE (disk_issues e g machineName (map StartVm starts)) (\<lambda>more.
                    if issues @ more = [] then ret () else fail (SyncErr (NotWorking (issues @ more))))))))))"

text \<open>
  The endless loop: a round repairs and checks; it ends when both succeed or the context is done.  \<open>None\<close>
  means that the fuel is used up.
\<close>

fun ready_loop :: "nat \<Rightarrow> 'w menv \<Rightarrow> string \<Rightarrow> nat \<Rightarrow> ('w, unit option) sact" where
  "ready_loop 0 e machineName delay = ret None"
| "ready_loop (Suc fuel) e machineName delay =
     bindE (context_ok e) (\<lambda>_.
     bindR (UpdateNFSShit e) (\<lambda>r.
     bindR (ensureNFSWorkingOnMachine e machineName) (\<lambda>q.
       if \<not> isl r \<and> \<not> isl q then ret (Some ())
       else bindE (pause e delay) (\<lambda>_.
            bindE (context_ok e) (\<lambda>_. ready_loop fuel e machineName delay)))))"

definition EnsureNFSReadyForMachine :: "nat \<Rightarrow> 'w menv \<Rightarrow> string \<Rightarrow> int \<Rightarrow> ('w, unit option) sact" where
  "EnsureNFSReadyForMachine fuel e name retryDelay =
     (let machineName = TrimSpace name in
      if machineName = [] then fail (LookupErr MachineRequired)
      else ready_loop fuel e machineName (if retryDelay \<le> 0 then 10 else nat retryDelay))"

subsection \<open>Discs, flushing and repair\<close>

definition DownloadISO :: "'w menv \<Rightarrow> string \<Rightarrow> string \<Rightarrow> NFSShare \<Rightarrow> ('w, string) sact" where
  "DownloadISO e url isoName share =
     bindE (connected (ShareMachine share)) (\<lambda>(_, g).
       if ShareTarget share = [] then fail IndexPanic
       else (let target = trim_slash (ShareTarget share);
                 m = (mount_of share)\<lparr>MountTarget := target\<rparr> in
             bindE (svc (call e g (DownloadIso url isoName m))) (\<lambda>_.
             bindE (svc (SyncSlave e g)) (\<lambda>_. ret (target @ ''/'' @ isoName)))))"

definition DownloadISOAsync :: "'w menv \<Rightarrow> string \<Rightarrow> string \<Rightarrow> NFSShare \<Rightarrow> ('w, unit) sact" where
  "DownloadISOAsync e url isoName share =
     bindE (connected (ShareMachine share)) (\<lambda>(_, g).
       (let target = trim_slash (ShareTarget share) in
        spawn (IsoTask g url (target @ ''/'' @ isoName) isoName ((mount_of share)\<lparr>MountTarget := target\<rparr>))))"

text \<open>A repeated name of a machine is one key of the result.\<close>

fun find_on_all :: "'w menv \<Rightarrow> string \<Rightarrow> ConnectionsStruct list \<Rightarrow> (string \<rightharpoonup> bool) \<Rightarrow> ('w, string \<rightharpoonup> bool) sact" where
  "find_on_all e path [] res = ret res"
| "find_on_all e path (entry # entries) res =
     (case Connection entry of
        None \<Rightarrow> find_on_all e path entries (res(MachineName entry \<mapsto> False))
      | Some g \<Rightarrow>
          bindR (CanFindFileOrDir e g path) (\<lambda>r.
            find_on_all e path entries (res(MachineName entry \<mapsto> (r = Inr True)))))"

definition CanFindFileOrDirOnAllSlaves :: "'w menv \<Rightarrow> string \<Rightarrow> ('w, string \<rightharpoonup> bool) sact" where
  "CanFindFileOrDirOnAllSlaves e path =
     bindE (getW (\<lambda>s. GetConnectionsSnapshot (conns s))) (\<lambda>snapshot. find_on_all e path snapshot Map.empty)"

fun sync_conns :: "'w menv \<Rightarrow> grpc_conn list \<Rightarrow> ('w, bool) sact" where
  "sync_conns e [] = ret True"
| "sync_conns e (g # gs) =
     bindR (SyncSlave e g) (\<lambda>r. bindE (sync_conns e gs) (\<lambda>ok. ret (\<not> isl r \<and> ok)))"

fun sync_names :: "'w menv \<Rightarrow> string list \<Rightarrow> ('w, bool) sact" where
  "sync_names e [] = ret True"
| "sync_names e (m # ms) =
     bindE (conn_of m) (\<lambda>c.
     bindE (case c of None \<Rightarrow> ret False | Some (_, g) \<Rightarrow> bindR (SyncSlave e g) (\<lambda>r. ret (\<not> isl r))) (\<lambda>ok.
     bindE (sync_names e ms) (\<lambda>rest. ret (ok \<and> rest))))"

definition SyncNFSAllSlaves :: "'w menv \<Rightarrow> string list \<Rightarrow> ('w, unit) sact" where
  "SyncNFSAllSlaves e machineNames =
     bindE (if machineNames = [] then bindE grpc_conns (sync_conns e) else sync_names e machineNames) (\<lambda>ok.
       if ok then ret () else fail (RpcErr ''Sync''))"

definition SyncNFSSlavesByMachineName :: "'w menv \<Rightarrow> string \<Rightarrow> ('w, unit) sact" where
  "SyncNFSSlavesByMachineName e machineName =
     bindE (connected machineName) (\<lambda>(_, g). bindE (svc (SyncSlave e g)) (\<lambda>_. ret ()))"

text \<open>The status of a share: of its own machine and, where they answer, of all slaves.\<close>

fun all_working :: "'w menv \<Rightarrow> FolderMount \<Rightarrow> grpc_conn list \<Rightarrow> ('w, bool) sact" where
  "all_working e m [] = ret True"
| "all_working e m (g # gs) =
     bindR (GetSharedFolderStatus e g m) (\<lambda>r. bindE (all_working e m gs) (\<lambda>ok. ret (r \<noteq> Inr False \<and> ok)))"

definition ShareStatus :: "'w menv \<Rightarrow> FolderMount \<Rightarrow> ('w, bool) sact" where
  "ShareStatus e m =
     bindE (connected (MountMachine m)) (\<lambda>(_, g).
     bindE (svc (GetSharedFolderStatus e g m)) (\<lambda>working.
     bindE grpc_conns (\<lambda>gs. bindE (all_working e m gs) (\<lambda>ok. ret (working \<and> ok)))))"

definition maintain_share :: "'w menv \<Rightarrow> NFSShare \<Rightarrow> ('w, unit) sact" where
  "maintain_share e share =
     bindE (conn_of (ShareMachine share)) (\<lambda>c.
       if c = None then ret ()
       else bindR (ShareStatus e (mount_of share)) (\<lambda>r. case r of
           Inr False \<Rightarrow>
             bindR (SyncNFSAllSlaves e [ShareMachine share]) (\<lambda>_.
             bindR (MountAllSharedFolders e [share]) (\<lambda>_. ret ()))
         | _ \<Rightarrow> ret ()))"

text \<open>A number of rounds of the endless loop.\<close>

fun MaintainNFS :: "nat \<Rightarrow> 'w menv \<Rightarrow> ('w, unit) sact" where
  "MaintainNFS 0 e = ret ()"
| "MaintainNFS (Suc n) e =
     bindE (pause e 120) (\<lambda>_.
     bindR (GetAllNFShares e) (\<lambda>r.
     bindE (case r of Inl _ \<Rightarrow> ret () | Inr shares \<Rightarrow> forE shares (maintain_share e)) (\<lambda>_. MaintainNFS n e)))"

definition RemountShareByID :: "'w menv \<Rightarrow> int \<Rightarrow> ('w, unit) sact" where
  "RemountShareByID e i =
     bindE (share_required e i) (\<lambda>share.
     bindE (connected (ShareMachine share)) (\<lambda>_.
     bindE (SyncNFSAllSlaves e [ShareMachine share]) (\<lambda>_.
       MountAllSharedFolders e [share])))"

subsection \<open>Mounted everywhere\<close>

text \<open>Calls that were sent between two states.\<close>

definition calls_between :: "'w mstate \<Rightarrow> 'w mstate \<Rightarrow> (grpc_conn \<times> rpc) set" where
  "calls_between s s' = set (drop (length (sent s)) (sent s'))"

definition only_adds :: "'w mstate \<Rightarrow> 'w mstate \<Rightarrow> bool" where
  "only_adds s s' \<longleftrightarrow> (\<exists>xs. sent s' = sent s @ xs)"

lemma calls_between_trans:
  assumes "only_adds a b" "only_adds b c"
  shows "only_adds a c" "calls_between a c = calls_between a b \<union> calls_between b c"
  using assms by (auto simp: only_adds_def calls_between_def)

lemma adds_only: "steps any_calls m \<Longrightarrow> m s = (r, s') \<Longrightarrow> only_adds s s'"
  unfolding only_adds_def by (drule addsD) (auto simp: adds_def)

lemma retry_calls_sent:
  "retry_calls k a l e g r s = (Inr v, s') \<Longrightarrow> \<exists>xs. sent s' = sent s @ xs \<and> (g, r) \<in> set xs"
proof (induction k arbitrary: a l s)
  case (Suc k)
  obtain cs x where "Pause e (2 * a) (conns s) (ext s) = (cs, x)" by (metis prod.collapse)
  then obtain s1 where p: "(if 0 < a then pause e (2 * a) else ret ()) s = (Inr () :: string + unit, s1)" "sent s1 = sent s"
    by (cases "0 < a") (auto simp: pause_def ret_def)
  obtain res s2 where c: "call e g r s1 = (res, s2)" by (metis prod.collapse)
  note sent2 = call_sent [OF c]
  from Suc.prems p c have run: "(case res of Inr v \<Rightarrow> ret v
      | Inl m \<Rightarrow> if isConnectionClosingError m then retry_calls k (a + 1) m e g r else fail m) s2 = (Inr v, s')"
    unfolding retry_calls.simps bindE_def p(1) bindR_def by simp
  show ?case
  proof (cases res)
    case (Inr y)
    with run p(2) sent2 show ?thesis by simp
  next
    case (Inl m)
    with run have "retry_calls k (a + 1) m e g r s2 = (Inr v, s')" by (simp split: if_split_asm)
    from Suc.IH [OF this] sent2 p(2) show ?thesis by auto
  qed
qed simp

lemma retry_accepted:
  assumes "withRetry e g r s = (q, s')"
  shows "only_adds s s'" "q = Inr v \<Longrightarrow> (g, r) \<in> calls_between s s'"
proof -
  show "only_adds s s'"
    using adds_only [OF adds_retry assms [unfolded withRetry_def]] by simp
  show "q = Inr v \<Longrightarrow> (g, r) \<in> calls_between s s'"
    using assms retry_calls_sent unfolding withRetry_def calls_between_def by fastforce
qed

definition always_healthy :: "'w menv \<Rightarrow> bool" where
  "always_healthy e \<longleftrightarrow> (\<forall>g w. IsConnectionHealthy (Some (ConnState e g w)))"

lemma healthy_ok: "always_healthy e \<Longrightarrow> healthy e g s = (Inr True, s)"
  by (simp add: healthy_def getW_def always_healthy_def)

definition entries_of :: "ConnectionsStruct list \<Rightarrow> (ConnectionsStruct \<times> grpc_conn) list" where
  "entries_of cs = List.map_filter (\<lambda>c. map_option (Pair c) (Connection c)) cs"

lemma healthy_entries_ok: "always_healthy e \<Longrightarrow> healthy_entries e cs s = (Inr (entries_of cs), s)"
  by (induction cs) (simp_all add: entries_of_def List.map_filter_simps ret_def bindE_def healthy_ok split: option.split)

lemma create_folders_ok:
  assumes "create_folders e ready ms s = (r, s')"
  shows "\<exists>mountable errs. r = Inr (mountable, errs) \<and> only_adds s s' \<and>
    (errs = [] \<longrightarrow> mountable = ms \<and> (\<forall>m \<in> set ms. \<exists>g. (g, CreateShared m) \<in> calls_between s s'))"
  using assms
proof (induction ms arbitrary: r s s')
  case (Cons m ms)
  obtain q s1 where one: "create_folder e ready m s = (q, s1)" by (metis prod.collapse)
  have q: "\<exists>ok. q = Inr ok \<and> only_adds s s1 \<and> (ok \<longrightarrow> (\<exists>g. (g, CreateShared m) \<in> calls_between s s1))"
  proof (cases "find (\<lambda>x. MachineName (fst x) = MountMachine m) ready")
    case None
    with one show ?thesis by (auto simp: create_folder_def ret_def only_adds_def)
  next
    case (Some x)
    obtain entry g where x: "x = (entry, g)" by (cases x)
    obtain q0 s0 where w: "withRetry e g (CreateShared m) s = (q0, s0)" by (metis prod.collapse)
    show ?thesis
    proof (cases q0)
      case (Inl y)
      with one Some x w retry_accepted(1) [OF w] show ?thesis
        by (auto simp: create_folder_def healthy_def bindE_def getW_def bindR_def ret_def only_adds_def split: if_split_asm)
    next
      case (Inr y)
      with one Some x w retry_accepted(1) [OF w] retry_accepted(2) [OF w Inr] show ?thesis
        by (auto simp: create_folder_def healthy_def bindE_def getW_def bindR_def ret_def only_adds_def split: if_split_asm)
    qed
  qed
  then obtain ok where ok: "q = Inr ok" "only_adds s s1" "ok \<longrightarrow> (\<exists>g. (g, CreateShared m) \<in> calls_between s s1)" by blast
  obtain q2 s2 where f: "create_folders e ready ms s1 = (q2, s2)" by (metis prod.collapse)
  from Cons.IH [OF f] obtain mountable errs where rest: "q2 = Inr (mountable, errs)" "only_adds s1 s2"
    "errs = [] \<longrightarrow> mountable = ms \<and> (\<forall>m \<in> set ms. \<exists>g. (g, CreateShared m) \<in> calls_between s1 s2)" by blast
  note t = calls_between_trans [OF ok(2) rest(2)]
  from Cons.prems one f ok(1) rest(1)
  have "s' = s2 \<and> r = Inr (if ok then (m # mountable, errs) else (mountable, MountTarget m # errs))"
    by (simp add: bindE_def ret_def)
  with t ok(3) rest(3) show ?case by auto
qed (simp add: ret_def only_adds_def)

lemma mount_folders_ok:
  assumes "mount_folders e g ms s = (r, s')"
  shows "\<exists>errs. r = Inr errs \<and> only_adds s s' \<and> (errs = [] \<longrightarrow> (\<forall>m \<in> set ms. (g, MountShared m) \<in> calls_between s s'))"
  using assms
proof (induction ms arbitrary: r s s')
  case (Cons m ms)
  obtain q s1 where w: "withRetry e g (MountShared m) s = (q, s1)" by (metis prod.collapse)
  obtain q2 s2 where f: "mount_folders e g ms s1 = (q2, s2)" by (metis prod.collapse)
  from Cons.IH [OF f] obtain errs where errs: "q2 = Inr errs" "only_adds s1 s2"
    "errs = [] \<longrightarrow> (\<forall>m \<in> set ms. (g, MountShared m) \<in> calls_between s1 s2)" by blast
  note a = retry_accepted [OF w]
  note t = calls_between_trans [OF a(1) errs(2)]
  from Cons.prems w f errs(1) have res: "s' = s2" "r = Inr (case q of Inr _ \<Rightarrow> errs | Inl _ \<Rightarrow> MountTarget m # errs)"
    by (auto simp: bindR_def bindE_def ret_def)
  show ?case
  proof (cases q)
    case (Inr v)
    with res a(2) [OF Inr] t errs(3) show ?thesis by auto
  next
    case (Inl x)
    with res t show ?thesis by auto
  qed
qed (simp add: ret_def only_adds_def)

lemma mount_everywhere_ok:
  assumes "mount_everywhere e xs ms s = (r, s')" "always_healthy e"
  shows "\<exists>errs. r = Inr errs \<and> only_adds s s' \<and>
    (errs = [] \<longrightarrow> (\<forall>x \<in> set xs. \<forall>m \<in> set ms. (snd x, MountShared m) \<in> calls_between s s'))"
  using assms(1)
proof (induction xs arbitrary: r s s')
  case (Cons x xs)
  obtain entry g where x: "x = (entry, g)" by (cases x)
  obtain q1 s1 where w: "mount_folders e g ms s = (q1, s1)" by (metis prod.collapse)
  from mount_folders_ok [OF w] obtain e1 where e1: "q1 = Inr e1" "only_adds s s1"
    "e1 = [] \<longrightarrow> (\<forall>m \<in> set ms. (g, MountShared m) \<in> calls_between s s1)" by blast
  obtain q2 s2 where f: "mount_everywhere e xs ms s1 = (q2, s2)" by (metis prod.collapse)
  from Cons.IH [OF f] obtain e2 where e2: "q2 = Inr e2" "only_adds s1 s2"
    "e2 = [] \<longrightarrow> (\<forall>x \<in> set xs. \<forall>m \<in> set ms. (snd x, MountShared m) \<in> calls_between s1 s2)" by blast
  from Cons.prems w f e1(1) e2(1) healthy_ok [OF assms(2)] have "s' = s2" "r = Inr (e1 @ e2)"
    by (auto simp: x bindE_def ret_def)
  with calls_between_trans [OF e1(2) e2(2)] e1(3) e2(3) show ?case by (auto simp: x)
qed (simp add: ret_def only_adds_def)



subsection \<open>The table of shares\<close>

text \<open>A share is known by its machine and folder, its folder is none of the blocked ones, and its target is made
  from machine and folder.\<close>

definition shares_ok :: "tables \<Rightarrow> bool" where
  "shares_ok t \<longleftrightarrow>
     distinct (map (\<lambda>x. (ShareMachine x, ShareFolder x)) (nfs_shares t)) \<and>
     (\<forall>x \<in> set (nfs_shares t). blocked (ShareFolder x) = None \<and> ShareTarget x = shared_target (ShareMachine x) (ShareFolder x))"

definition keeps_shares :: "'w mstate \<Rightarrow> 'w mstate \<Rightarrow> bool" where
  "keeps_shares s s' \<longleftrightarrow> (shares_ok (tabs s) \<longrightarrow> shares_ok (tabs s'))"

lemma shares_order: "reflp keeps_shares" "transp keeps_shares"
  by (auto simp: keeps_shares_def reflp_def transp_def)

lemmas shares_intro =
  steps_bindE [OF shares_order(2)] steps_bindR [OF shares_order(2)] steps_pure [OF shares_order(1)] steps_mapErr
  steps_if steps_case_sum steps_case_option steps_forE [OF shares_order]

lemma shares_same: "steps same_tabs m \<Longrightarrow> steps keeps_shares m"
  by (simp add: steps_def same_tabs_def keeps_shares_def)

lemma shares_set: "(\<And>t. shares_ok t \<Longrightarrow> shares_ok (u t)) \<Longrightarrow> steps keeps_shares (dbset e name u)"
  by (simp add: steps_def keeps_shares_def dbset_def dbdo_def split: prod.split bool.split)

lemma shares_dbdo: "(\<And>t. shares_ok t \<Longrightarrow> shares_ok (snd (stmt t))) \<Longrightarrow> steps keeps_shares (dbdo e name stmt)"
  by (simp add: steps_def keeps_shares_def dbdo_def split: prod.split bool.split) (metis snd_conv)

lemma shares_statements [intro]:
  "steps keeps_shares (RemoveVmLive e n)" "steps keeps_shares (RemoveAutomaticBackup e n)"
  "steps keeps_shares (RemoveAutoStart e n)" "steps keeps_shares (ClearVMDiskAttachmentsByVM e n)"
  "steps keeps_shares (DeleteVirshBackupById e i)" "steps keeps_shares (RemoveAutomaticBackupById e i)"
  "steps keeps_shares (RemoveISOByID e i)" "steps keeps_shares (RemoveNFSShare e m f)"
  unfolding RemoveVmLive_def RemoveAutomaticBackup_def RemoveAutoStart_def ClearVMDiskAttachmentsByVM_def
    DeleteVirshBackupById_def RemoveAutomaticBackupById_def RemoveISOByID_def RemoveNFSShare_def
  by (auto intro!: shares_set distinct_map_filter simp: shares_ok_def update_disk_def)

lemma shares_add:
  assumes "blocked (MountFolder m) = None" "MountTarget m = shared_target (MountMachine m) (MountFolder m)"
  shows "steps keeps_shares (AddNFSShare e m name)"
proof -
  have "shares_ok (snd (if share_at (MountMachine m) (MountFolder m) t \<noteq> None then (False, t)
       else (True, t\<lparr>last_id := last_id t + 1,
               nfs_shares := nfs_shares t @ [\<lparr>ShareId = last_id t + 1, ShareMachine = MountMachine m,
                 ShareFolder = MountFolder m, ShareSource = MountSource m, ShareTarget = MountTarget m,
                 ShareName = name, ShareHostMount = MountHost m\<rparr>]\<rparr>)))" if "shares_ok t" for t
  proof (cases "share_at (MountMachine m) (MountFolder m) t")
    case None
    then have "\<forall>x \<in> set (nfs_shares t). \<not> (ShareMachine x = MountMachine m \<and> ShareFolder x = MountFolder m)"
      unfolding share_at_def find_None_iff by blast
    with None that assms show ?thesis by (simp add: shares_ok_def image_iff) metis
  next
    case (Some x)
    with that show ?thesis by simp
  qed
  then show ?thesis
    unfolding AddNFSShare_def by (intro shares_intro shares_dbdo)
qed

lemma tabs_mounting [simp, intro]:
  "steps same_tabs (healthy_entries e cs)" "steps same_tabs (create_folders e ready ms)" "steps same_tabs (mount_folders e g ms)"
  "steps same_tabs (mount_everywhere e ready ms)" "steps same_tabs (unmount_everywhere e m gs)" "steps same_tabs (sync_machines e ns)"
proof -
  show "steps same_tabs (healthy_entries e cs)"
    by (induction cs) (auto intro!: tabs_intro split: option.split)
  have "steps same_tabs (create_folder e ready m)" for m
    unfolding create_folder_def by (auto intro!: tabs_intro split: option.split prod.split)
  then show "steps same_tabs (create_folders e ready ms)"
    by (induction ms) (auto intro!: tabs_intro split: prod.split)
  have mount: "steps same_tabs (mount_folders e h ks)" for h ks
    by (induction ks) (auto intro!: tabs_intro)
  then show "steps same_tabs (mount_folders e g ms)" .
  show "steps same_tabs (mount_everywhere e ready ms)"
    using mount by (induction ready) (auto intro!: tabs_intro)
  show "steps same_tabs (unmount_everywhere e m gs)"
    by (induction gs) (auto intro!: tabs_intro)
  show "steps same_tabs (sync_machines e ns)"
    unfolding GetNFSharesByMachineName_def
    by (induction ns) (auto intro!: tabs_intro split: prod.split option.split sum.split simp: GetNFSharesByMachineName_def)
qed

lemma tabs_mount_all [simp, intro]: "steps same_tabs (MountAllSharedFolders e xs)" "steps same_tabs (SyncSharedFolder e)"
  unfolding MountAllSharedFolders_def SyncSharedFolder_def GetAllNFShares_def GetAllMachineNamesWithShares_def
  by (auto intro!: tabs_intro split: prod.split)

lemma shares_delete_vm: "steps keeps_shares (DeleteVM e n)"
  unfolding DeleteVM_def with_vm_def DoesVmLiveExist_def
  by (auto intro!: shares_intro tabs_svc intro: shares_same split: prod.split)

lemma shares_delete_backup: "steps keeps_shares (DeleteBackup e i)" "steps keeps_shares (DeleteAutoBak e i)"
  unfolding DeleteBackup_def removeBackupDirectory_def validate_bind Let_def GetVirshBackupById_def remove_file_def remove_all_def
    DeleteAutoBak_def
  by (auto intro!: shares_intro shares_same [OF tabs_auto_required] intro: shares_same)

lemma tabs_short [simp, intro]: "steps same_tabs (ShortID n e)"
  by (induction n) (auto intro!: tabs_intro split: option.split)

lemma tabs_vms [intro]: "steps same_tabs (GetAllVms e)"
proof -
  have "steps same_tabs (all_vms e cs)" for cs
    by (induction cs) (auto intro!: tabs_intro split: prod.split)
  then show ?thesis unfolding GetAllVms_def by (auto intro!: tabs_intro split: prod.split)
qed

lemma tabs_requests [simp, intro]:
  "steps same_tabs (named_folder e sp)" "steps same_tabs (share_exists e sp)" "steps same_tabs (share_resolved e sp)"
  "steps same_tabs (GetAllVmsByOnNfsShare e target)"
proof -
  show "steps same_tabs (named_folder e sp)" "steps same_tabs (share_exists e sp)" "steps same_tabs (share_resolved e sp)"
    unfolding named_folder_def under_target_def share_exists_def share_resolved_def DoesExistNFSShare_def
      GetNFSShareByMachineAndFolder_def Let_def
    by (auto intro!: tabs_intro split: option.split)
  show "steps same_tabs (GetAllVmsByOnNfsShare e target)"
    unfolding GetAllVmsByOnNfsShare_def by (auto intro!: tabs_intro tabs_vms)
qed

lemma tabs_unused [simp, intro]:
  "steps same_tabs (no_vms_on e target)" "steps same_tabs (no_isos_on e target)" "steps same_tabs (no_backups_on e share)"
  unfolding no_vms_on_def no_isos_on_def no_backups_on_def GetAllISOs_def GetVirshBackupsByNfsMountID_def
    GetAutomaticBackupsByNfsMountID_def
  by (auto intro!: tabs_intro)

text \<open>C28: creating and deleting a share, forced or not, successful or not, keep the table in order: no two shares of
  a machine have the same folder, no share is of a folder with a blocked prefix, and every target is made from machine
  and folder.\<close>

theorem share_table_in_order:
  assumes "m = CreateSharePoint e sp \<or> m = DeleteSharePoint e sp force" "m s = (r, s')" "shares_ok (tabs s)"
  shows "shares_ok (tabs s')"
proof -
  have create: "steps keeps_shares (CreateSharePoint e sp)"
    unfolding CreateSharePoint_def Let_def
    by (auto intro!: shares_intro shares_add intro: shares_same tabs_svc split: prod.split option.split)
  have iso: "steps keeps_shares (remove_iso e target disc)" for target disc
    unfolding remove_iso_def remove_file_def by (auto intro!: shares_intro intro: shares_same)
  have forced: "steps keeps_shares (forcedelete e sp)"
    unfolding forcedelete_def Let_def GetVirshBackupsByNfsMountID_def GetAutomaticBackupsByNfsMountID_def GetAllISOs_def
    by (auto intro!: shares_intro shares_delete_vm shares_delete_backup iso intro: shares_same split: prod.split option.split)
  have "steps keeps_shares (DeleteSharePoint e sp force)"
    unfolding DeleteSharePoint_def Let_def GetVirshBackupsByNfsMountID_def GetAutomaticBackupsByNfsMountID_def GetAllISOs_def
    by (auto intro!: shares_intro forced intro: shares_same tabs_svc split: prod.split option.split)
  with create assms(1) have "steps keeps_shares m" by auto
  from stepsD [OF this assms(2)] assms(3) show ?thesis by (simp add: keeps_shares_def)
qed

definition data_share :: SharePoint where
  "data_share = \<lparr>SpMachine = ''node1'', SpFolder = ''/srv'', SpName = ''my data'', SpHost = False\<rparr>"

definition bare_state :: "nat mstate" where
  "bare_state = lab_state\<lparr>tabs := lab_tables\<lparr>nfs_shares := []\<rparr>\<rparr>"

theorem share_table_in_order_witness:
  "shares_ok (tabs (snd (CreateSharePoint lab data_share bare_state))) \<and>
   map ShareTarget (nfs_shares (tabs (snd (CreateSharePoint lab data_share bare_state)))) =
     [''/mnt/512SvMan/shared/node1_mydata000000'']"
proof
  have "shares_ok (tabs bare_state)" by (simp add: shares_ok_def bare_state_def)
  from share_table_in_order [OF disjI1 [OF refl] prod.collapse [symmetric] this, of lab data_share]
  show "shares_ok (tabs (snd (CreateSharePoint lab data_share bare_state)))" .
  show "map ShareTarget (nfs_shares (tabs (snd (CreateSharePoint lab data_share bare_state)))) =
     [''/mnt/512SvMan/shared/node1_mydata000000'']" by code_simp
qed

text \<open>What the paths of the requests are compared with is the text as it came.\<close>

lemma blocked_text_not_path:
  "blocked ''/tmp/../etc'' = None \<and> Clean ''/tmp/../etc'' = ''/etc'' \<and> blocked ''/users'' = None \<and> blocked ''/usrdata'' = Some ''/usr''"
  by code_simp

lemma targets_collide: "shared_target ''node1'' ''/srv/x/data'' = shared_target ''node1'' ''/srv/y/data''"
  by code_simp

subsection \<open>Deleting an unused share\<close>

lemma find_None_all: "find P xs = None \<Longrightarrow> \<forall>x \<in> set xs. \<not> P x"
  by (simp add: find_None_iff)

text \<open>A check: when it succeeds, the tables are unchanged and something is known of them.\<close>

definition checks :: "('w, 'a) sact \<Rightarrow> (tables \<Rightarrow> 'a \<Rightarrow> bool) \<Rightarrow> bool" where
  "checks m Q \<longleftrightarrow> (\<forall>s y s'. m s = (Inr y, s') \<longrightarrow> tabs s' = tabs s \<and> Q (tabs s) y)"

lemma checks_bind:
  assumes "checks m P" "\<And>x. checks (f x) (Q x)"
  shows "checks (bindE m f) (\<lambda>t y. \<exists>x. P t x \<and> Q x t y)"
  unfolding checks_def
proof (intro allI impI)
  fix s y s'
  assume "bindE m f s = (Inr y, s')"
  then obtain x s1 where "m s = (Inr x, s1)" "f x s1 = (Inr y, s')" by (rule bindE_eq_InrE)
  with assms show "tabs s' = tabs s \<and> (\<exists>x. P (tabs s) x \<and> Q x (tabs s) y)" unfolding checks_def by metis
qed

lemma checks_get: "checks (dbget e name q) (\<lambda>t y. y = q t)"
  unfolding checks_def by (auto dest: dbget_ok)

lemma checks_same: "steps same_tabs m \<Longrightarrow> checks m (\<lambda>t y. True)"
  unfolding checks_def same_tabs_def steps_def by (metis snd_conv)

lemma checks_guard: "checks (if b then fail x else ret ()) (\<lambda>t y. \<not> b)"
  by (simp add: checks_def)

lemma checks_weaken: "checks m P \<Longrightarrow> (\<And>t y. P t y \<Longrightarrow> Q t y) \<Longrightarrow> checks m Q"
  unfolding checks_def by blast

lemma checks_gives: "checks m P \<Longrightarrow> (\<And>x. gives (k x) g) \<Longrightarrow> bindE m k s = (Inr y, s') \<Longrightarrow> tabs s' = g (tabs s) \<and> (\<exists>x. P (tabs s) x)"
  by (erule bindE_eq_InrE) (auto simp: checks_def gives_def)

lemma no_isos: "checks (no_isos_on e target) (\<lambda>t y. filter (\<lambda>i. HasPrefix (IsoPath i) target) (isos t) = [])"
  unfolding no_isos_on_def GetAllISOs_def
  by (rule checks_weaken [OF checks_bind [OF checks_get, where Q = "\<lambda>discs t y. find (\<lambda>i. HasPrefix (IsoPath i) target) discs = None"]])
    (auto simp: checks_def find_None_iff filter_empty_conv split: option.splits)

lemma no_backups:
  "checks (no_backups_on e share) (\<lambda>t y. filter (\<lambda>b. BakNfsId b = ShareId share) (virsh_backups t) = [] \<and>
     filter (\<lambda>r. RowNfs r = ShareId share) (automatic_backup t) = [])"
proof -
  have autos: "checks (bindE (GetAutomaticBackupsByNfsMountID e (ShareId share)) (\<lambda>autos.
        if autos \<noteq> [] then fail (ShareErr (UsedByAutoBackups (map BkVm autos))) else ret ()))
      (\<lambda>t y. filter (\<lambda>r. RowNfs r = ShareId share) (automatic_backup t) = [])"
    unfolding GetAutomaticBackupsByNfsMountID_def
    by (rule checks_weaken [OF checks_bind [OF checks_get checks_guard]]) auto
  show ?thesis
    unfolding no_backups_on_def GetVirshBackupsByNfsMountID_def
    by (rule checks_weaken [OF checks_bind [OF checks_get,
        where Q = "\<lambda>baks t y. baks = [] \<and> filter (\<lambda>r. RowNfs r = ShareId share) (automatic_backup t) = []"]])
      (use autos in \<open>auto simp: checks_def\<close>)
qed

lemma resolved: "checks (share_resolved e sp) (\<lambda>t y. share_at (SpMachine sp) (SpFolder sp) t = Some y)"
  unfolding share_resolved_def GetNFSShareByMachineAndFolder_def
  by (rule checks_weaken [OF checks_bind [OF checks_get, where Q = "\<lambda>x t y. x = Some y"]])
    (auto simp: checks_def split: option.splits)

lemma no_vms:
  "checks (no_vms_on e target) (\<lambda>t y. \<exists>s1 vs s2. GetAllVms e s1 = (Inr vs, s2) \<and> filter (\<lambda>v. Contains (VmDiskPath (fst v)) target) vs = [])"
proof -
  have "checks (GetAllVms e) (\<lambda>t vs. \<exists>s1 s2. GetAllVms e s1 = (Inr vs, s2))"
    using tabs_vms [of e] unfolding checks_def same_tabs_def steps_def by (metis snd_conv)
  then have "checks (GetAllVmsByOnNfsShare e target) (\<lambda>t vms. \<exists>s1 vs s2. GetAllVms e s1 = (Inr vs, s2) \<and>
      vms = filter (\<lambda>v. Contains (VmDiskPath v) target) (map fst vs))"
    unfolding GetAllVmsByOnNfsShare_def
    by (rule checks_weaken [OF checks_bind [where Q = "\<lambda>vs t vms. vms = filter (\<lambda>v. Contains (VmDiskPath v) target) (map fst vs)"]])
      (auto simp: checks_def)
  then show ?thesis
    unfolding no_vms_on_def by (rule checks_weaken [OF checks_bind [OF _ checks_guard]]) (auto simp: filter_map o_def)
qed


definition share_point_a :: SharePoint where
  "share_point_a = \<lparr>SpMachine = ''node1'', SpFolder = ''/srv/a'', SpName = [], SpHost = False\<rparr>"


subsection \<open>A machine that counts as ready\<close>

text \<open>Checks of a machine leave tables and connections alone.\<close>

definition quiet :: "'w mstate \<Rightarrow> 'w mstate \<Rightarrow> bool" where
  "quiet s s' \<longleftrightarrow> tabs s' = tabs s \<and> conns s' = conns s \<and> only_adds s s'"

lemma quiet_ordered: "reflp quiet" "transp quiet"
  by (auto simp: quiet_def only_adds_def reflp_def transp_def)

lemmas quiet_intro =
  steps_bindE [OF quiet_ordered(2)] steps_bindR [OF quiet_ordered(2)] steps_pure [OF quiet_ordered(1)] steps_mapErr
  steps_if steps_case_sum steps_case_option

lemma quiet_basic [intro]:
  "steps quiet (call e g r)" "steps quiet (dbget e name q)" "steps quiet (outside_value f)"
  by (simp_all add: steps_def call_def dbget_def dbdo_def outside_value_def quiet_def only_adds_def split: prod.split bool.split)

lemma quiet_checked [intro]:
  "steps quiet (CheckReadWrite e g p)" "steps quiet (CheckFileReadable e g p)" "steps quiet (GetSharedFolderStatus e g m)"
  "steps quiet (context_ok e)"
  unfolding CheckReadWrite_def CheckFileReadable_def checked_def GetSharedFolderStatus_def context_ok_def
  by (auto intro!: quiet_intro split: reply.split)

lemma quiet_find [intro]: "steps quiet (GetVmByName e n)"
proof -
  have any: "steps quiet (any_answers e n cs)" for cs by (induction cs) (auto intro!: quiet_intro)
  have loc: "steps quiet (locate e n cs)" for cs
    by (induction cs) (auto intro!: quiet_intro split: reply.split option.split)
  show ?thesis unfolding GetVmByName_def DoesVMExist_def grpc_conns_def using any loc by (auto intro!: quiet_intro)
qed

lemma quiet_resolved [intro]: "steps quiet (disk_issues e g m ns)"
proof -
  have "steps quiet (disk_usable e g m n)" for n
    unfolding disk_usable_def Let_def by (auto intro!: quiet_intro)
  then show ?thesis by (induction ns) (auto intro!: quiet_intro)
qed

text \<open>A slave has been asked about a share, said that it works, and that it can be read and written.\<close>

definition confirmed :: "'w menv \<Rightarrow> grpc_conn \<Rightarrow> NFSShare \<Rightarrow> (grpc_conn \<times> rpc) set \<Rightarrow> bool" where
  "confirmed e g x asked \<longleftrightarrow>
     (g, SharedStatus (mount_of x)) \<in> asked \<and> (g, CheckRW (ShareTarget x)) \<in> asked \<and>
     (\<exists>w. fst (RpcCall e g (SharedStatus (mount_of x)) w) = Inr (Working True)) \<and>
     (\<exists>w msg. fst (RpcCall e g (CheckRW (ShareTarget x)) w) = Inr (Checked True msg))"

lemma call_between: "call e g r s = (q, s') \<Longrightarrow> (g, r) \<in> calls_between s s' \<and> only_adds s s' \<and> (\<exists>w. fst (RpcCall e g r w) = q)"
  by (auto simp: call_def calls_between_def only_adds_def split: prod.splits) (metis fst_conv)

lemma status_working:
  assumes "GetSharedFolderStatus e g m s = (Inr True, s')"
  shows "(g, SharedStatus m) \<in> calls_between s s' \<and> (\<exists>w. fst (RpcCall e g (SharedStatus m) w) = Inr (Working True))"
proof -
  from assms obtain v s1 where "call e g (SharedStatus m) s = (Inr v, s1)" "ret (v = Working True) s1 = (Inr True :: string + bool, s')"
    unfolding GetSharedFolderStatus_def by (rule bindE_eq_InrE)
  with call_between [OF this(1)] show ?thesis by simp
qed

lemma rw_works:
  assumes "CheckReadWrite e g p s = (Inr u, s')"
  shows "(g, CheckRW p) \<in> calls_between s s' \<and> (\<exists>w msg. fst (RpcCall e g (CheckRW p) w) = Inr (Checked True msg))"
proof -
  from assms obtain v s1 where c: "call e g (CheckRW p) s = (Inr v, s1)" and
    "(case v of Checked ok msg \<Rightarrow> if ok then ret () else fail (if msg \<noteq> [] then msg else ''read/write check failed'')
       | _ \<Rightarrow> fail ''read/write check failed'') s1 = (Inr u, s')"
    unfolding CheckReadWrite_def checked_def by (rule bindE_eq_InrE)
  then obtain msg where "v = Checked True msg" "s' = s1" by (cases v) (auto split: if_split_asm)
  with call_between [OF c] show ?thesis by auto
qed

lemma share_issues_none:
  "share_issues e g xs s = (Inr [], s') \<Longrightarrow> quiet s s' \<and> (\<forall>x \<in> set xs. confirmed e g x (calls_between s s'))"
proof (induction xs arbitrary: s)
  case (Cons x xs)
  obtain q0 s0 where c0: "context_ok e s = (q0, s0)" by (metis prod.collapse)
  obtain q1 s1 where c1: "GetSharedFolderStatus e g (mount_of x) s0 = (q1, s1)" by (metis prod.collapse)
  obtain q2 s2 where c2: "CheckReadWrite e g (ShareTarget x) s1 = (q2, s2)" by (metis prod.collapse)
  have a0: "only_adds s s0 \<and> quiet s s0" using stepsD [OF quiet_checked(4) c0] by (simp add: quiet_def)
  have a1: "only_adds s0 s1 \<and> quiet s0 s1" using stepsD [OF quiet_checked(3) c1] by (simp add: quiet_def)
  have a2: "only_adds s1 s2 \<and> quiet s1 s2" using stepsD [OF quiet_checked(1) c2] by (simp add: quiet_def)
  from Cons.prems c0 have "q1 = Inr True" "\<not> isl q2" and rest: "share_issues e g xs s2 = (Inr [], s')"
    using c1 c2 by (auto simp: bindE_def bindR_def ret_def split: sum.splits if_split_asm prod.splits)
  from this(2) obtain u where q2: "q2 = Inr u" by (cases q2) auto
  have x: "confirmed e g x (calls_between s0 s2)"
    using status_working [OF c1 [unfolded \<open>q1 = _\<close>]] rw_works [OF c2 [unfolded q2]] calls_between_trans(2) [of s0 s1 s2] a1 a2
    by (simp add: confirmed_def)
  note IH = Cons.IH [OF rest]
  have q: "quiet s s'" using a0 a1 a2 IH by (auto simp: quiet_def only_adds_def)
  have "calls_between s0 s2 \<union> calls_between s2 s' \<subseteq> calls_between s s'"
    using a0 a1 a2 IH by (auto simp: quiet_def only_adds_def calls_between_def)
  with x IH q show ?case by (auto simp: confirmed_def)
qed (simp add: ret_def quiet_def only_adds_def)

lemma quiet_ready [intro]: "steps quiet (conn_ready e g)"
  unfolding conn_ready_def by (auto intro!: quiet_intro)

lemma quiet_ensure: "steps quiet (ensureNFSWorkingOnMachine e name)"
proof -
  have "steps quiet (share_issues e g xs)" for g xs by (induction xs) (auto intro!: quiet_intro)
  moreover have "steps quiet (connected m)" for m
    unfolding connected_def conn_of_def by (auto intro!: quiet_intro)
  ultimately show ?thesis
    unfolding ensureNFSWorkingOnMachine_def Let_def GetAllNFShares_def GetAllAutoStart_def
    by (auto intro!: quiet_intro split: prod.split)
qed

lemma ensure_confirmed:
  assumes "ensureNFSWorkingOnMachine e name s = (Inr (), s')"
  shows "quiet s s' \<and> (\<exists>entry g. GetConnectionByMachineName (conns s) (TrimSpace name) = Some entry \<and> Connection entry = Some g \<and>
    (\<forall>x \<in> set (nfs_shares (tabs s)). confirmed e g x (calls_between s s')))"
proof -
  from assms have run: "bindE (connected (TrimSpace name)) (\<lambda>(_, g). bindE (conn_ready e g) (\<lambda>_.
      bindE (GetAllNFShares e) (\<lambda>shares. if shares = [] then ret () else bindE (share_issues e g shares) (\<lambda>issues.
      bindE (GetAllAutoStart e) (\<lambda>starts. bindE (disk_issues e g (TrimSpace name) (map StartVm starts)) (\<lambda>more.
        if issues @ more = [] then ret () else fail (SyncErr (NotWorking (issues @ more))))))))) s = (Inr (), s')"
    by (simp add: ensureNFSWorkingOnMachine_def Let_def split: if_split_asm)
  from run obtain c s1 where c: "connected (TrimSpace name) s = (Inr c, s1)" and
    run: "(case c of (_, g) \<Rightarrow> bindE (conn_ready e g) (\<lambda>_.
      bindE (GetAllNFShares e) (\<lambda>shares. if shares = [] then ret () else bindE (share_issues e g shares) (\<lambda>issues.
      bindE (GetAllAutoStart e) (\<lambda>starts. bindE (disk_issues e g (TrimSpace name) (map StartVm starts)) (\<lambda>more.
        if issues @ more = [] then ret () else fail (SyncErr (NotWorking (issues @ more))))))))) s1 = (Inr (), s')"
    by (rule bindE_eq_InrE)
  obtain entry g where cg: "c = (entry, g)" by (cases c)
  have entry: "s1 = s" "GetConnectionByMachineName (conns s) (TrimSpace name) = Some entry" "Connection entry = Some g"
    using c by (auto simp: cg connected_def conn_of_def bindE_def getW_def ret_def fail_def split: option.splits)
  from run obtain u s2 where r: "conn_ready e g s1 = (Inr u, s2)" and
    run: "bindE (GetAllNFShares e) (\<lambda>shares. if shares = [] then ret () else bindE (share_issues e g shares) (\<lambda>issues.
      bindE (GetAllAutoStart e) (\<lambda>starts. bindE (disk_issues e g (TrimSpace name) (map StartVm starts)) (\<lambda>more.
        if issues @ more = [] then ret () else fail (SyncErr (NotWorking (issues @ more))))))) s2 = (Inr (), s')"
    unfolding cg prod.case by (rule bindE_eq_InrE)
  have q2: "quiet s1 s2" by (rule stepsD [OF quiet_ready r])
  from run obtain shares s3 where sh: "GetAllNFShares e s2 = (Inr shares, s3)" and
    run: "(if shares = [] then ret () else bindE (share_issues e g shares) (\<lambda>issues.
      bindE (GetAllAutoStart e) (\<lambda>starts. bindE (disk_issues e g (TrimSpace name) (map StartVm starts)) (\<lambda>more.
        if issues @ more = [] then ret () else fail (SyncErr (NotWorking (issues @ more))))))) s3 = (Inr (), s')"
    by (rule bindE_eq_InrE)
  have q3: "quiet s2 s3" and shares: "shares = nfs_shares (tabs s)"
    using stepsD [OF quiet_basic(2) sh [unfolded GetAllNFShares_def]] dbget_ok [OF sh [unfolded GetAllNFShares_def]] q2 entry(1)
    by (auto simp: quiet_def)
  show ?thesis
  proof (cases "shares = []")
    case True
    with run have "s' = s3" by simp
    with q2 q3 entry True shares show ?thesis using quiet_ordered(2) by (auto dest: transpD)
  next
    case False
    with run obtain issues s4 where i: "share_issues e g shares s3 = (Inr issues, s4)" and
      run: "bindE (GetAllAutoStart e) (\<lambda>starts. bindE (disk_issues e g (TrimSpace name) (map StartVm starts)) (\<lambda>more.
        if issues @ more = [] then ret () else fail (SyncErr (NotWorking (issues @ more))))) s4 = (Inr (), s')"
      by (auto elim: bindE_eq_InrE)
    from run have "issues = []" by (auto elim!: bindE_eq_InrE split: if_split_asm)
    with i share_issues_none have q4: "quiet s3 s4" "\<forall>x \<in> set shares. confirmed e g x (calls_between s3 s4)" by blast+
    have "steps quiet (bindE (GetAllAutoStart e) (\<lambda>starts. bindE (disk_issues e g (TrimSpace name) (map StartVm starts)) (\<lambda>more.
        if issues @ more = [] then ret () else fail (SyncErr (NotWorking (issues @ more))))))"
      by (auto simp: GetAllAutoStart_def intro!: quiet_intro)
    from stepsD [OF this run] have q5: "quiet s4 s'" .
    have q: "quiet s s'" using q2 q3 q4(1) q5 entry(1) quiet_ordered(2) by (meson transpD)
    have "calls_between s3 s4 \<subseteq> calls_between s s'"
      using q2 q3 q4(1) q5 entry(1) by (auto simp: quiet_def only_adds_def calls_between_def)
    with q4(2) have "\<forall>x \<in> set shares. confirmed e g x (calls_between s s')" by (auto simp: confirmed_def)
    with q entry(2,3) shares show ?thesis by auto
  qed
qed

lemma only_adds_update: "steps any_calls (UpdateNFSShit e)"
proof -
  have retry: "steps any_calls (withRetry e g r)" for g r unfolding withRetry_def by (rule adds_retry) simp
  have folder: "steps any_calls (create_folder e ready m)" for ready m
    unfolding create_folder_def healthy_def using retry by (auto intro!: adds_intro split: option.split prod.split)
  have entries: "steps any_calls (healthy_entries e cs)" for cs
    by (induction cs) (auto intro!: adds_intro simp: healthy_def split: option.split)
  have folders: "steps any_calls (create_folders e ready ms)" for ready ms
    by (induction ms) (auto intro!: adds_intro folder split: prod.split)
  have mounts: "steps any_calls (mount_folders e g ms)" for g ms
    using retry by (induction ms) (auto intro!: adds_intro)
  have every: "steps any_calls (mount_everywhere e ready ms)" for ready ms
    using mounts by (induction ready) (auto intro!: adds_intro simp: healthy_def)
  have sync: "steps any_calls (sync_machines e ns)" for ns
    using retry by (induction ns)
      (auto intro!: adds_intro split: prod.split option.split sum.split simp: healthy_def GetNFSharesByMachineName_def)
  show ?thesis
    unfolding UpdateNFSShit_def SyncSharedFolder_def MountAllSharedFolders_def GetAllMachineNamesWithShares_def GetAllNFShares_def
    by (auto intro!: adds_intro entries folders every sync split: prod.split sum.split)
qed

lemma ready_loop_confirmed:
  "ready_loop fuel e m delay s = (Inr (Some ()), s') \<Longrightarrow>
   only_adds s s' \<and> (\<exists>s1. quiet s1 s' \<and> only_adds s s1 \<and> ensureNFSWorkingOnMachine e m s1 = (Inr (), s'))"
proof (induction fuel arbitrary: s)
  case (Suc fuel)
  obtain q0 s0 where c0: "context_ok e s = (q0, s0)" by (metis prod.collapse)
  obtain q1 s1 where c1: "UpdateNFSShit e s0 = (q1, s1)" by (metis prod.collapse)
  obtain q2 s2 where c2: "ensureNFSWorkingOnMachine e m s1 = (q2, s2)" by (metis prod.collapse)
  have a0: "only_adds s s0" using stepsD [OF quiet_checked(4) c0] by (simp add: quiet_def)
  have a1: "only_adds s s1" using a0 adds_only [OF only_adds_update c1] calls_between_trans(1) by blast
  have q0: "\<not> isl q0" using Suc.prems c0 by (auto simp: bindE_def split: sum.splits)
  show ?case
  proof (cases "\<not> isl q1 \<and> \<not> isl q2")
    case True
    with Suc.prems c0 c1 c2 q0 have "s' = s2" by (auto simp: bindE_def bindR_def ret_def split: sum.splits)
    moreover from True have "q2 = Inr ()" by (cases q2) auto
    ultimately show ?thesis using ensure_confirmed c2 a1 calls_between_trans(1) by (metis quiet_def)
  next
    case False
    have ens: "only_adds s1 s2" using stepsD [OF quiet_ensure c2] by (simp add: quiet_def)
    obtain cs x where pz: "Pause e delay (conns s2) (ext s2) = (cs, x)" by (metis prod.collapse)
    let ?s3 = "s2\<lparr>conns := cs, ext := x\<rparr>"
    obtain q4 s4 where c4: "context_ok e ?s3 = (q4, s4)" by (metis prod.collapse)
    have a4: "only_adds s2 s4" using stepsD [OF quiet_checked(4) c4] by (simp add: quiet_def only_adds_def)
    from False Suc.prems c0 c1 c2 q0 pz c4 have "ready_loop fuel e m delay s4 = (Inr (Some ()), s')"
      by (auto simp: bindE_def bindR_def pause_def split: sum.splits)
    from Suc.IH [OF this] a4 ens a1 show ?thesis using calls_between_trans(1) by metis
  qed
qed (simp add: ret_def)



end
