(* ===== verification/PciAddress.thy ===== *)
theory PciAddress
  imports Numbers "HOL-Library.Word"
begin

text \<open>
  PCI addresses: the first part of \<open>slave/pci/pci.go\<close>.  An address is four machine words; it is
  written and read in five forms, in the texts of libvirt and in the fields of its XML documents,
  where a number may be hexadecimal or decimal.
\<close>

subsection \<open>Addresses and their text\<close>

record PCIAddress =
  Domain :: "16 word"
  Bus :: "8 word"
  Slot :: "8 word"
  Function :: "8 word"

text \<open>The verb \<open>%0wx\<close> of \<open>fmt\<close> on an unsigned word, and \<open>%d\<close>.\<close>

definition hex_text :: "nat \<Rightarrow> 'a::len word \<Rightarrow> string" where
  "hex_text w x = pad_left w (show_base 16 (unat x))"

definition dec_text :: "'a::len word \<Rightarrow> string" where
  "dec_text x = show_base 10 (unat x)"

definition String :: "PCIAddress \<Rightarrow> string" where
  "String a = hex_text 4 (Domain a) @ '':'' @ hex_text 2 (Bus a) @ '':'' @ hex_text 2 (Slot a) @ ''.'' @ dec_text (Function a)"

definition nodeDeviceName :: "PCIAddress \<Rightarrow> string" where
  "nodeDeviceName a =
     ''pci_'' @ hex_text 4 (Domain a) @ ''_'' @ hex_text 2 (Bus a) @ ''_'' @ hex_text 2 (Slot a) @ ''_'' @ dec_text (Function a)"

subsection \<open>Patterns\<close>

text \<open>
  The regular expressions of the file are sequences of hexadecimal groups, one octal digit and
  fixed texts, without regard to letter case; a match yields the texts of the groups.
\<close>

datatype pattern = HexGroup nat | OctGroup | Fixed string

definition is_hex :: "char \<Rightarrow> bool" where
  "is_hex c \<longleftrightarrow> (case digit_val c of Some d \<Rightarrow> d < 16 | None \<Rightarrow> False)"

definition is_oct :: "char \<Rightarrow> bool" where
  "is_oct c \<longleftrightarrow> (case digit_val c of Some d \<Rightarrow> d < 8 | None \<Rightarrow> False)"

fun FindSubmatch :: "pattern list \<Rightarrow> string \<Rightarrow> string list option" where
  "FindSubmatch [] s = (if s = [] then Some [] else None)"
| "FindSubmatch (HexGroup n # ps) s =
     (if n \<le> length s \<and> list_all is_hex (take n s)
      then map_option (Cons (take n s)) (FindSubmatch ps (drop n s)) else None)"
| "FindSubmatch (OctGroup # ps) s =
     (if s \<noteq> [] \<and> is_oct (hd s) then map_option (Cons [hd s]) (FindSubmatch ps (tl s)) else None)"
| "FindSubmatch (Fixed t # ps) s =
     (if length t \<le> length s \<and> EqualFold (take (length t) s) t then FindSubmatch ps (drop (length t) s) else None)"

definition fullBDFPattern :: "pattern list" where
  "fullBDFPattern = [HexGroup 4, Fixed '':'', HexGroup 2, Fixed '':'', HexGroup 2, Fixed ''.'', OctGroup]"

definition shortBDFPattern :: "pattern list" where
  "shortBDFPattern = [HexGroup 2, Fixed '':'', HexGroup 2, Fixed ''.'', OctGroup]"

definition nodeNamePattern :: "pattern list" where
  "nodeNamePattern = [Fixed ''pci_'', HexGroup 4, Fixed ''_'', HexGroup 2, Fixed ''_'', HexGroup 2, Fixed ''_'', OctGroup]"

definition rawNodeNamePattern :: "pattern list" where
  "rawNodeNamePattern = [HexGroup 4, Fixed ''_'', HexGroup 2, Fixed ''_'', HexGroup 2, Fixed ''_'', OctGroup]"

subsection \<open>Numbers\<close>

text \<open>\<open>strconv.ParseUint\<close> with base 10 or 16: digits only, and the value fits the given width.\<close>

definition ParseUint :: "string \<Rightarrow> nat \<Rightarrow> nat \<Rightarrow> nat option" where
  "ParseUint s base bits =
     (if s = [] then None
      else case read_base base 0 s of None \<Rightarrow> None | Some n \<Rightarrow> if n < 2 ^ bits then Some n else None)"

text \<open>
  With base 0 and a text that starts with \<open>0x\<close> the rest is hexadecimal; single underscores may
  stand before a digit.
\<close>

fun underscore_ok :: "bool \<Rightarrow> string \<Rightarrow> bool" where
  "underscore_ok after_digit [] = after_digit"
| "underscore_ok after_digit (c # cs) =
     (if c = CHR ''_'' then after_digit \<and> underscore_ok False cs else underscore_ok True cs)"

definition ParsePrefixedHex :: "string \<Rightarrow> nat \<Rightarrow> nat option" where
  "ParsePrefixedHex s bits =
     (if length s < 3 \<or> \<not> underscore_ok True (drop 2 s) then None
      else ParseUint (filter (\<lambda>c. c \<noteq> CHR ''_'') (drop 2 s)) 16 bits)"

definition parseXMLPCIComponent :: "string \<Rightarrow> nat \<Rightarrow> nat option" where
  "parseXMLPCIComponent raw bitSize =
     (let s = TrimSpace raw in
      if s = [] then None
      else if HasPrefix s ''0x'' \<or> HasPrefix s ''0X'' then ParsePrefixedHex s bitSize
      else (case ParseUint s 10 bitSize of Some v \<Rightarrow> Some v | None \<Rightarrow> ParseUint s 16 bitSize))"

subsection \<open>Reading addresses\<close>

datatype address_error =
    AddressEmpty
  | AddressInvalid string
  | DomainInvalid string
  | BusInvalid string
  | SlotInvalid string
  | FunctionInvalid string

text \<open>The four parts of an address, each with its own reader, in the order of the code.\<close>

definition address_of ::
  "nat option \<Rightarrow> nat option \<Rightarrow> nat option \<Rightarrow> nat option \<Rightarrow> string \<Rightarrow> string \<Rightarrow> string \<Rightarrow> string
     \<Rightarrow> address_error + PCIAddress" where
  "address_of d b s f domain bus slot fn =
     (case d of None \<Rightarrow> Inl (DomainInvalid domain) | Some dv \<Rightarrow>
      case b of None \<Rightarrow> Inl (BusInvalid bus) | Some bv \<Rightarrow>
      case s of None \<Rightarrow> Inl (SlotInvalid slot) | Some sv \<Rightarrow>
      case f of None \<Rightarrow> Inl (FunctionInvalid fn) | Some fv \<Rightarrow>
        Inr \<lparr>Domain = of_nat dv, Bus = of_nat bv, Slot = of_nat sv, Function = of_nat fv\<rparr>)"

definition pciAddressFromHexParts :: "string \<Rightarrow> string \<Rightarrow> string \<Rightarrow> string \<Rightarrow> address_error + PCIAddress" where
  "pciAddressFromHexParts domain bus slot fn =
     address_of (ParseUint domain 16 16) (ParseUint bus 16 8) (ParseUint slot 16 8) (ParseUint fn 16 8)
       domain bus slot fn"

definition pciAddressFromNodeFields :: "string \<Rightarrow> string \<Rightarrow> string \<Rightarrow> string \<Rightarrow> address_error + PCIAddress" where
  "pciAddressFromNodeFields domain bus slot fn =
     address_of (parseXMLPCIComponent domain 16) (parseXMLPCIComponent bus 8)
       (parseXMLPCIComponent slot 8) (parseXMLPCIComponent fn 8) domain bus slot fn"

definition last_component :: "string \<Rightarrow> string" where
  "last_component s = rev (takeWhile (\<lambda>c. c \<noteq> CHR ''/'') (rev s))"

definition hex_parts :: "string list \<Rightarrow> address_error + PCIAddress" where
  "hex_parts m = pciAddressFromHexParts (m ! 0) (m ! 1) (m ! 2) (m ! 3)"

definition ParsePCIAddress :: "string \<Rightarrow> address_error + PCIAddress" where
  "ParsePCIAddress raw =
     (if TrimSpace raw = [] then Inl AddressEmpty
      else let s = TrimSpace (last_component (TrimSpace raw)) in
        case FindSubmatch fullBDFPattern s of Some m \<Rightarrow> hex_parts m
      | None \<Rightarrow> (case FindSubmatch shortBDFPattern s of Some m \<Rightarrow> hex_parts (''0000'' # m)
      | None \<Rightarrow> (case FindSubmatch nodeNamePattern s of Some m \<Rightarrow> hex_parts m
      | None \<Rightarrow> (case FindSubmatch rawNodeNamePattern s of Some m \<Rightarrow> hex_parts m
      | None \<Rightarrow> Inl (AddressInvalid raw)))))"

text \<open>The fragment of XML that asks for a device to be added to or removed from a VM.\<close>

definition quoted :: "string \<Rightarrow> string" where
  "quoted s = CHR 0x27 # s @ [CHR 0x27]"

definition buildHostDevXML :: "PCIAddress \<Rightarrow> bool \<Rightarrow> string" where
  "buildHostDevXML a managed =
     ''<hostdev mode='' @ quoted ''subsystem'' @ '' type='' @ quoted ''pci'' @ '' managed='' @
       quoted (if managed then ''yes'' else ''no'') @ ''><source><address domain='' @
       quoted (''0x'' @ hex_text 4 (Domain a)) @ '' bus='' @ quoted (''0x'' @ hex_text 2 (Bus a)) @
       '' slot='' @ quoted (''0x'' @ hex_text 2 (Slot a)) @
       '' function='' @ quoted (''0x'' @ show_base 16 (unat (Function a))) @ ''/></source></hostdev>''"

text \<open>A class of 24 bits whose first byte is 3 is a display controller.\<close>

definition classLooksLikeGPU :: "string \<Rightarrow> bool" where
  "classLooksLikeGPU rawClass =
     (let s = TrimSpace rawClass in
      if s = [] then False
      else (case parseXMLPCIComponent s 32 of
              None \<Rightarrow> HasPrefix (ToLower s) ''0x03''
            | Some v \<Rightarrow> and (drop_bit 16 (of_nat v :: 64 word)) 0xff = 0x03))"

subsection \<open>Reading back hexadecimal numbers\<close>

lemma hex_text_fix: "LENGTH('a) = 4 * w \<Longrightarrow> hex_text w (x :: 'a::len word) = digits_fix 16 w (unat x)"
proof -
  assume w: "LENGTH('a) = 4 * w"
  then have "0 < w" by (metis len_gt_0 mult_0_right neq0_conv)
  moreover have "unat x < 16 ^ w"
  proof -
    have "unat x < 2 ^ LENGTH('a)" by (rule unsigned_less)
    also have "(2 :: nat) ^ LENGTH('a) = 16 ^ w" unfolding w by (simp add: power_mult)
    finally show ?thesis .
  qed
  ultimately show ?thesis unfolding hex_text_def by (intro pad_left_show_base) auto
qed

lemma digits_fix_hex: "\<forall>c \<in> set (digits_fix 16 w n). is_hex c \<and> \<not> is_space c \<and> c \<notin> set '',-+:./_= ''"
proof (induction w arbitrary: n)
  case (Suc w)
  have "is_hex (digit_char (n mod 16))" by (simp add: is_hex_def)
  moreover have "n mod 16 < 36" by (rule less_le_trans [OF mod_less_divisor]) auto
  ultimately show ?case using Suc digit_char_plain [of "n mod 16"] by auto
qed simp

lemma read_fix: "LENGTH('a) = 4 * w \<Longrightarrow> ParseUint (hex_text w (x :: 'a::len word)) 16 (4 * w) = Some (unat x)"
proof -
  assume w: "LENGTH('a) = 4 * w"
  have bound: "unat x < 2 ^ (4 * w)" using unsigned_less [of x] w by simp
  moreover have "(16 :: nat) ^ w = 2 ^ (4 * w)" by (simp add: power_mult)
  moreover have "hex_text w x \<noteq> []" unfolding hex_text_def pad_left_def by simp
  ultimately show ?thesis
    unfolding ParseUint_def hex_text_fix [OF w] by (simp add: read_digits_fix)
qed

lemma hex4 [simp]:
  fixes x :: "16 word"
  shows "ParseUint (hex_text 4 x) 16 16 = Some (unat x)" "length (hex_text 4 x) = 4"
    "list_all is_hex (hex_text 4 x)" "\<forall>c \<in> set (hex_text 4 x). \<not> is_space c \<and> c \<notin> set '',-+:./_= ''"
  using read_fix [of 4 x] digits_fix_hex [of 4 "unat x"] by (auto simp: hex_text_fix [of 4 x] list_all_iff)

lemma hex2 [simp]:
  fixes x :: "8 word"
  shows "ParseUint (hex_text 2 x) 16 8 = Some (unat x)" "length (hex_text 2 x) = 2"
    "list_all is_hex (hex_text 2 x)" "\<forall>c \<in> set (hex_text 2 x). \<not> is_space c \<and> c \<notin> set '',-+:./_= ''"
  using read_fix [of 2 x] digits_fix_hex [of 2 "unat x"] by (auto simp: hex_text_fix [of 2 x] list_all_iff)

lemma oct1:
  fixes x :: "8 word"
  assumes "x < 8"
  shows "dec_text x = [digit_char (unat x)]" "is_oct (digit_char (unat x))"
    "ParseUint [digit_char (unat x)] 16 8 = Some (unat x)" "\<not> is_space (digit_char (unat x))"
    "digit_char (unat x) \<notin> set '',-+:./_= ''"
proof -
  have x: "unat x < 8" using assms by (simp add: word_less_nat_alt)
  then show "dec_text x = [digit_char (unat x)]" by (simp add: dec_text_def show_base_small)
  from x show "is_oct (digit_char (unat x))" by (simp add: is_oct_def)
  from x show "ParseUint [digit_char (unat x)] 16 8 = Some (unat x)" by (simp add: ParseUint_def)
  from x digit_char_plain [of "unat x"]
  show "\<not> is_space (digit_char (unat x))" "digit_char (unat x) \<notin> set '',-+:./_= ''" by auto
qed

text \<open>The digits that are printed: what the patterns ask of a single character.\<close>

definition hex_digit :: "char \<Rightarrow> bool" where
  "hex_digit c \<longleftrightarrow> c \<in> set ''0123456789abcdef''"

lemma hex_digits_checked:
  "list_all (\<lambda>c. is_hex c \<and> lower_char c = c \<and> \<not> is_space c \<and> c \<notin> set '':._/p'') ''0123456789abcdef''"
  by code_simp

lemma hex_digitD [simp]:
  assumes "hex_digit c"
  shows "is_hex c" "lower_char c = c" "\<not> is_space c" "c \<noteq> CHR '':''" "c \<noteq> CHR ''.''" "c \<noteq> CHR ''_''"
    "c \<noteq> CHR ''/''" "c \<noteq> CHR ''p''"
  using hex_digits_checked assms unfolding hex_digit_def list_all_iff by (auto dest: bspec)

lemma hex_digit_char: "d < 16 \<Longrightarrow> hex_digit (digit_char d)"
proof -
  have "list_all (\<lambda>d. hex_digit (digit_char d)) [0..<16]" by code_simp
  then show "d < 16 \<Longrightarrow> hex_digit (digit_char d)" by (simp only: list_all_iff) auto
qed

lemma numeral_4_eq_4: "(4 :: nat) = Suc (Suc (Suc (Suc 0)))"
  by simp

lemma hex_text4:
  fixes x :: "16 word"
  obtains a b c d where "hex_text 4 x = [a, b, c, d]" "hex_digit a" "hex_digit b" "hex_digit c" "hex_digit d"
proof -
  have "hex_text 4 x = [digit_char (unat x div 16 div 16 div 16 mod 16), digit_char (unat x div 16 div 16 mod 16),
      digit_char (unat x div 16 mod 16), digit_char (unat x mod 16)]"
    by (rule trans [OF hex_text_fix], simp) (simp only: numeral_4_eq_4 digits_fix.simps append.simps)
  then show thesis by (rule that) (rule hex_digit_char, simp)+
qed

lemma hex_text2:
  fixes x :: "8 word"
  obtains a b where "hex_text 2 x = [a, b]" "hex_digit a" "hex_digit b"
proof -
  have "hex_text 2 x = [digit_char (unat x div 16 mod 16), digit_char (unat x mod 16)]"
    by (rule trans [OF hex_text_fix], simp) (simp only: numeral_2_eq_2 digits_fix.simps append.simps)
  then show thesis by (rule that) (rule hex_digit_char, simp)+
qed

lemma separators_checked:
  "\<not> is_hex (CHR '':'')" "\<not> is_hex (CHR ''_'')" "\<not> is_hex (CHR ''p'')" "lower_char (CHR '':'') = CHR '':''"
  "lower_char (CHR ''_'') = CHR ''_''" "lower_char (CHR ''.'') = CHR ''.''" "lower_char (CHR ''p'') = CHR ''p''"
  "lower_char (CHR ''c'') = CHR ''c''" "lower_char (CHR ''i'') = CHR ''i''"
  "\<not> is_space (CHR '':'')" "\<not> is_space (CHR ''_'')" "\<not> is_space (CHR ''p'')" "\<not> is_space (CHR ''c'')"
  "\<not> is_space (CHR ''i'')" "\<not> is_space (CHR ''.'')"
  by code_simp+

lemmas match_simps =
  fullBDFPattern_def shortBDFPattern_def nodeNamePattern_def rawNodeNamePattern_def EqualFold_def ToLower_def
  separators_checked

text \<open>The four forms of an address of which every part is given.\<close>

definition short_form :: "PCIAddress \<Rightarrow> string" where
  "short_form a = hex_text 2 (Bus a) @ '':'' @ hex_text 2 (Slot a) @ ''.'' @ dec_text (Function a)"

definition raw_form :: "PCIAddress \<Rightarrow> string" where
  "raw_form a = hex_text 4 (Domain a) @ ''_'' @ hex_text 2 (Bus a) @ ''_'' @ hex_text 2 (Slot a) @ ''_'' @ dec_text (Function a)"

lemma matches:
  assumes "Function a < 8"
  shows
    "FindSubmatch fullBDFPattern (String a) =
       Some [hex_text 4 (Domain a), hex_text 2 (Bus a), hex_text 2 (Slot a), dec_text (Function a)]"
    "FindSubmatch fullBDFPattern (short_form a) = None"
    "FindSubmatch shortBDFPattern (short_form a) =
       Some [hex_text 2 (Bus a), hex_text 2 (Slot a), dec_text (Function a)]"
    "FindSubmatch fullBDFPattern (nodeDeviceName a) = None" "FindSubmatch shortBDFPattern (nodeDeviceName a) = None"
    "FindSubmatch nodeNamePattern (nodeDeviceName a) =
       Some [hex_text 4 (Domain a), hex_text 2 (Bus a), hex_text 2 (Slot a), dec_text (Function a)]"
    "FindSubmatch fullBDFPattern (raw_form a) = None" "FindSubmatch shortBDFPattern (raw_form a) = None"
    "FindSubmatch nodeNamePattern (raw_form a) = None"
    "FindSubmatch rawNodeNamePattern (raw_form a) =
       Some [hex_text 4 (Domain a), hex_text 2 (Bus a), hex_text 2 (Slot a), dec_text (Function a)]"
proof -
  obtain d1 d2 d3 d4 where d: "hex_text 4 (Domain a) = [d1, d2, d3, d4]" "hex_digit d1" "hex_digit d2" "hex_digit d3" "hex_digit d4"
    by (rule hex_text4)
  obtain b1 b2 where b: "hex_text 2 (Bus a) = [b1, b2]" "hex_digit b1" "hex_digit b2" by (rule hex_text2)
  obtain s1 s2 where s: "hex_text 2 (Slot a) = [s1, s2]" "hex_digit s1" "hex_digit s2" by (rule hex_text2)
  obtain f where f: "dec_text (Function a) = [f]" "is_oct f" using oct1 [OF assms] by blast
  note forms = String_def short_form_def nodeDeviceName_def raw_form_def
  note all = forms d b s f match_simps
  show "FindSubmatch fullBDFPattern (String a) =
       Some [hex_text 4 (Domain a), hex_text 2 (Bus a), hex_text 2 (Slot a), dec_text (Function a)]"
    by (simp add: all)
  show "FindSubmatch fullBDFPattern (short_form a) = None" by (simp add: all)
  show "FindSubmatch shortBDFPattern (short_form a) =
       Some [hex_text 2 (Bus a), hex_text 2 (Slot a), dec_text (Function a)]" by (simp add: all)
  show "FindSubmatch fullBDFPattern (nodeDeviceName a) = None" by (simp add: all)
  show "FindSubmatch shortBDFPattern (nodeDeviceName a) = None" by (simp add: all)
  show "FindSubmatch nodeNamePattern (nodeDeviceName a) =
       Some [hex_text 4 (Domain a), hex_text 2 (Bus a), hex_text 2 (Slot a), dec_text (Function a)]" by (simp add: all)
  show "FindSubmatch fullBDFPattern (raw_form a) = None" by (simp add: all)
  show "FindSubmatch shortBDFPattern (raw_form a) = None" by (simp add: all)
  show "FindSubmatch nodeNamePattern (raw_form a) = None" by (simp add: all)
  show "FindSubmatch rawNodeNamePattern (raw_form a) =
       Some [hex_text 4 (Domain a), hex_text 2 (Bus a), hex_text 2 (Slot a), dec_text (Function a)]" by (simp add: all)
qed

subsection \<open>Properties\<close>

lemma hex_parts_of:
  assumes "Function a < 8"
  shows "hex_parts [hex_text 4 (Domain a), hex_text 2 (Bus a), hex_text 2 (Slot a), dec_text (Function a)] = Inr a"
  using oct1(1,3) [OF assms] by (simp add: hex_parts_def pciAddressFromHexParts_def address_of_def)

lemma zero_domain: "hex_text 4 (0 :: 16 word) = ''0000''"
  by (simp add: hex_text_def pad_left_def show_base_small digit_char_0 eval_nat_numeral)

definition written_forms :: "PCIAddress \<Rightarrow> string list" where
  "written_forms a = [String a, nodeDeviceName a, raw_form a] @ (if Domain a = 0 then [short_form a] else [])"

lemma parse_form:
  assumes a: "Function a < 8" and t: "t \<in> set (written_forms a)"
    and s: "TrimSpace raw \<noteq> []" "TrimSpace (last_component (TrimSpace raw)) = t"
  shows "ParsePCIAddress raw = Inr a"
proof -
  note m = matches [OF a] hex_parts_of [OF a]
  from t consider "t = String a" | "t = nodeDeviceName a" | "t = raw_form a" | "Domain a = 0" "t = short_form a"
    by (auto simp: written_forms_def split: if_splits)
  then show ?thesis
    using s m by cases (simp_all add: ParsePCIAddress_def Let_def flip: zero_domain)
qed

lemma hex4_chars: "\<forall>c \<in> set (hex_text 4 (x :: 16 word)). \<not> is_space c \<and> c \<noteq> CHR ''/''"
  by (rule hex_text4 [of x]) simp

lemma hex2_chars: "\<forall>c \<in> set (hex_text 2 (x :: 8 word)). \<not> is_space c \<and> c \<noteq> CHR ''/''"
  by (rule hex_text2 [of x]) simp

lemma form_plain:
  assumes a: "Function a < 8" and t: "t \<in> set (written_forms a)"
  shows "t \<noteq> []" "\<forall>c \<in> set t. \<not> is_space c \<and> c \<noteq> CHR ''/''"
proof -
  note f = oct1 [OF a]
  define fixed where "fixed = '':_.pci''"
  define allowed where "allowed = {c. \<not> is_space c \<and> c \<noteq> CHR ''/''}"
  have q: "set fixed \<subseteq> allowed"
  proof -
    have "list_all (\<lambda>c. \<not> is_space c \<and> c \<noteq> CHR ''/'') fixed" unfolding fixed_def by code_simp
    then show ?thesis by (simp add: list_all_iff allowed_def subset_iff)
  qed
  have x: "digit_char (unat (Function a)) \<in> allowed" using f(4,5) by (auto simp: allowed_def)
  have parts: "set (hex_text 4 (Domain a)) \<subseteq> allowed" "set (hex_text 2 (Bus a)) \<subseteq> allowed" "set (hex_text 2 (Slot a)) \<subseteq> allowed"
    using hex4_chars [of "Domain a"] hex2_chars [of "Bus a"] hex2_chars [of "Slot a"] by (simp_all add: allowed_def subset_iff)
  show "t \<noteq> []" using t by (auto simp: written_forms_def String_def nodeDeviceName_def raw_form_def short_form_def split: if_splits)
  have "set t \<subseteq> set (hex_text 4 (Domain a)) \<union> set (hex_text 2 (Bus a)) \<union> set (hex_text 2 (Slot a)) \<union>
      {digit_char (unat (Function a))} \<union> set fixed"
    using t by (auto simp: fixed_def written_forms_def String_def nodeDeviceName_def raw_form_def short_form_def f(1) split: if_splits)
  also have "\<dots> \<subseteq> allowed" using parts x q by simp
  finally show "\<forall>c \<in> set t. \<not> is_space c \<and> c \<noteq> CHR ''/''" by (simp add: allowed_def subset_iff)
qed

lemma trim_around:
  assumes "t \<noteq> []" "\<forall>c \<in> set t. \<not> is_space c" "list_all is_space l" "list_all is_space r"
  shows "TrimSpace (l @ t @ r) = t"
proof -
  have l: "dropWhile is_space (l @ t @ r) = t @ r"
    using assms by (subst dropWhile_append2) (auto simp: list_all_iff dropWhile_hd_id)
  have "dropWhile is_space (rev (t @ r)) = rev t"
    using assms by (subst rev_append, subst dropWhile_append2) (auto simp: list_all_iff dropWhile_hd_id hd_rev)
  with l show ?thesis by (simp add: TrimSpace_def)
qed

lemma trim_behind:
  assumes "t \<noteq> []" "\<forall>c \<in> set t. \<not> is_space c" "list_all is_space r" "\<not> is_space c"
  shows "\<exists>y. TrimSpace (x @ c # t @ r) = y @ c # t"
proof -
  let ?y = "dropWhile is_space x"
  have "dropWhile is_space (x @ c # t @ r) = ?y @ c # t @ r"
    using assms(4) by (induction x) auto
  moreover have "dropWhile is_space (rev (?y @ c # t @ r)) = rev (?y @ c # t)"
  proof -
    have "rev (?y @ c # t @ r) = rev r @ rev (?y @ c # t)" by simp
    moreover have "dropWhile is_space (rev (?y @ c # t)) = rev (?y @ c # t)"
      using assms(1,2) by (intro dropWhile_hd_id) (simp add: hd_rev)
    ultimately show ?thesis
      using assms(3) by (simp only:) (subst dropWhile_append2; auto simp: list_all_iff)
  qed
  ultimately show ?thesis by (auto simp: TrimSpace_def)
qed

lemma last_component_plain: "CHR ''/'' \<notin> set t \<Longrightarrow> last_component t = t"
  unfolding last_component_def by (subst takeWhile_eq_all_conv [THEN iffD2]) auto

lemma last_component_path: "CHR ''/'' \<notin> set t \<Longrightarrow> last_component (y @ CHR ''/'' # t) = t"
proof -
  assume t: "CHR ''/'' \<notin> set t"
  then have "takeWhile (\<lambda>c. c \<noteq> CHR ''/'') (rev t @ CHR ''/'' # rev y) = rev t"
    by (subst takeWhile_append2) auto
  then show ?thesis by (simp add: last_component_def)
qed

lemma parse_plain_form:
  assumes a: "Function a < 8" and t: "t \<in> set (written_forms a)"
  shows "ParsePCIAddress t = Inr a"
proof -
  note p = form_plain [OF a t]
  then have "TrimSpace t = t" "CHR ''/'' \<notin> set t" by (auto intro: TrimSpace_no_space)
  with p(1) show ?thesis by (intro parse_form [OF a t]) (simp_all add: last_component_plain)
qed

lemma address_path_reads_back:
  assumes a: "Function a < 8"
  shows "ParsePCIAddress (dir @ ''/'' @ String a) = Inr a"
proof -
  have t: "String a \<in> set (written_forms a)" by (simp add: written_forms_def)
  note p = form_plain [OF a t]
  have slash: "CHR ''/'' \<notin> set (String a)" "\<not> is_space (CHR ''/'')" using p(2) by (auto simp: is_space_def)
  obtain y where y: "TrimSpace (dir @ ''/'' @ String a) = y @ CHR ''/'' # String a"
    using trim_behind [OF p(1) _ _ slash(2), of "[]" dir] p(2) by auto
  have "TrimSpace (String a) = String a" using p by (intro TrimSpace_no_space) auto
  then show ?thesis using slash y by (intro parse_form [OF a t]) (simp_all add: last_component_path)
qed

text \<open>C34: every way in which an address is written - with colons, as a libvirt node name with or
  without its prefix, without the domain when that is zero, each alone or at the end of a path and
  with white space around - reads back as that address.\<close>

theorem address_forms_read_back:
  assumes a: "Function a < 8" and t: "t \<in> set (written_forms a)"
    and l: "list_all is_space l" and r: "list_all is_space r"
  shows "ParsePCIAddress (l @ t @ r) = Inr a \<and> ParsePCIAddress (dir @ ''/'' @ t @ r) = Inr a"
proof
  note p = form_plain [OF a t]
  have slash: "CHR ''/'' \<notin> set t" "\<not> is_space (CHR ''/'')" using p(2) by (auto simp: is_space_def)
  have trim: "TrimSpace (l @ t @ r) = t" using p l r by (intro trim_around) auto
  moreover have "TrimSpace t = t" using p by (intro TrimSpace_no_space) auto
  ultimately show "ParsePCIAddress (l @ t @ r) = Inr a"
    using p(1) slash by (intro parse_form [OF a t]) (simp_all add: last_component_plain)
  obtain y where "TrimSpace (dir @ ''/'' @ t @ r) = y @ CHR ''/'' # t"
    using trim_behind [OF p(1) _ r slash(2), of dir] p(2) by auto
  then show "ParsePCIAddress (dir @ ''/'' @ t @ r) = Inr a"
    using slash \<open>TrimSpace t = t\<close> by (intro parse_form [OF a t]) (simp_all add: last_component_path)
qed

theorem address_forms_read_back_witness:
  "ParsePCIAddress ''  0001:65:00.2'' = Inr \<lparr>Domain = 1, Bus = 0x65, Slot = 0, Function = 2\<rparr>"
proof -
  let ?a = "\<lparr>Domain = 1, Bus = 0x65, Slot = 0, Function = 2\<rparr>"
  have t: "String ?a = ''0001:65:00.2''" by code_simp
  have "''0001:65:00.2'' \<in> set (written_forms ?a)" by (simp add: written_forms_def flip: t)
  from address_forms_read_back [OF _ this, of "''  ''" "[]"] show ?thesis by (simp add: is_space_def)
qed

text \<open>What the patterns accept has a function below 8.\<close>

lemma match_last:
  "FindSubmatch (ps @ [OctGroup]) s = Some m \<Longrightarrow> m \<noteq> [] \<and> (\<exists>c. last m = [c] \<and> is_oct c)"
proof (induction ps s arbitrary: m rule: FindSubmatch.induct)
  case (1 s)
  then show ?case by (cases s) (auto split: if_splits)
qed (auto split: if_splits)

lemma match_length:
  "FindSubmatch ps s = Some m \<Longrightarrow> length m = length (filter (\<lambda>p. case p of Fixed t \<Rightarrow> False | _ \<Rightarrow> True) ps)"
  by (induction ps s arbitrary: m rule: FindSubmatch.induct) (auto split: if_splits)

lemma oct_value: "is_oct c \<Longrightarrow> ParseUint [c] 16 8 = Some n \<Longrightarrow> n < 8"
  by (auto simp: is_oct_def ParseUint_def split: option.splits if_splits)

lemma hex_parts_bound:
  assumes "length m = 4" "last m = [c]" "is_oct c" "hex_parts m = Inr a"
  shows "Function a < 8"
proof -
  have "m ! 3 = [c]" using assms(1,2) last_conv_nth [of m] by fastforce
  with assms(4) obtain n where n: "ParseUint [c] 16 8 = Some n" "Function a = of_nat n"
    by (auto simp: hex_parts_def pciAddressFromHexParts_def address_of_def split: option.splits)
  from oct_value [OF assms(3) n(1)] have "n < 8" .
  then show ?thesis unfolding n(2) by (simp add: word_less_nat_alt unat_of_nat)
qed

lemma matched_function:
  "FindSubmatch (ps @ [OctGroup]) s = Some m \<Longrightarrow> length (pre @ m) = 4 \<Longrightarrow> hex_parts (pre @ m) = Inr a \<Longrightarrow> Function a < 8"
  using match_last [of ps s m] hex_parts_bound [of "pre @ m"] by auto

text \<open>The text an accepted reference is replaced by - the address in its usual form - is accepted
  again and names the same device.\<close>

theorem accepted_reference_normal_form:
  assumes "ParsePCIAddress raw = Inr a"
  shows "Function a < 8 \<and> ParsePCIAddress (String a) = Inr a"
proof -
  let ?s = "TrimSpace (last_component (TrimSpace raw))"
  consider m where "FindSubmatch fullBDFPattern ?s = Some m" "hex_parts m = Inr a"
    | m where "FindSubmatch shortBDFPattern ?s = Some m" "hex_parts (''0000'' # m) = Inr a"
    | m where "FindSubmatch nodeNamePattern ?s = Some m" "hex_parts m = Inr a"
    | m where "FindSubmatch rawNodeNamePattern ?s = Some m" "hex_parts m = Inr a"
    using assms by (auto simp: ParsePCIAddress_def Let_def split: if_splits option.splits)
  then have f: "Function a < 8"
  proof cases
    case 1
    with match_length [OF 1(1)] matched_function [where pre = "[]" and ps = "butlast fullBDFPattern"] show ?thesis
      by (simp add: fullBDFPattern_def)
  next
    case 2
    with match_length [OF 2(1)] matched_function [where pre = "[''0000'']" and ps = "butlast shortBDFPattern"] show ?thesis
      by (simp add: shortBDFPattern_def)
  next
    case 3
    with match_length [OF 3(1)] matched_function [where pre = "[]" and ps = "butlast nodeNamePattern"] show ?thesis
      by (simp add: nodeNamePattern_def)
  next
    case 4
    with match_length [OF 4(1)] matched_function [where pre = "[]" and ps = "butlast rawNodeNamePattern"] show ?thesis
      by (simp add: rawNodeNamePattern_def)
  qed
  with parse_plain_form [OF f, of "String a"] show ?thesis by (simp add: written_forms_def)
qed

text \<open>A reference in capitals, without a domain.\<close>

lemma demo_reference: "ParsePCIAddress ''0A:1f.7'' = Inr \<lparr>Domain = 0, Bus = 10, Slot = 31, Function = 7\<rparr>"
proof -
  have t: "TrimSpace ''0A:1f.7'' = ''0A:1f.7''" "last_component ''0A:1f.7'' = ''0A:1f.7''" by code_simp+
  have m: "FindSubmatch fullBDFPattern ''0A:1f.7'' = None"
    "FindSubmatch shortBDFPattern ''0A:1f.7'' = Some [''0A'', ''1f'', ''7'']" by code_simp+
  have "read_base 16 0 ''0000'' = Some 0" by code_simp
  then have z: "ParseUint ''0000'' 16 16 = Some 0" by (simp add: ParseUint_def)
  have n: "ParseUint ''0A'' 16 8 = Some 10" "ParseUint ''1f'' 16 8 = Some 31"
    "ParseUint ''7'' 16 8 = Some 7" by code_simp+
  have "hex_parts (''0000'' # [''0A'', ''1f'', ''7'']) = Inr \<lparr>Domain = 0, Bus = 10, Slot = 31, Function = 7\<rparr>"
    by (simp only: hex_parts_def pciAddressFromHexParts_def address_of_def nth_Cons_0 nth_Cons_numeral nth_Cons_Suc
        One_nat_def n z option.case) (simp add: n z)
  then show ?thesis by (simp only: ParsePCIAddress_def t m Let_def option.case list.distinct if_False)
qed

theorem accepted_reference_normal_form_witness:
  "ParsePCIAddress ''0000:0a:1f.7'' = Inr \<lparr>Domain = 0, Bus = 10, Slot = 31, Function = 7\<rparr>"
proof -
  have t: "String \<lparr>Domain = 0, Bus = 10, Slot = 31, Function = 7\<rparr> = ''0000:0a:1f.7''" by code_simp
  show ?thesis using accepted_reference_normal_form [OF demo_reference] unfolding t by (rule conjunct2)
qed

subsection \<open>Fields of XML documents\<close>

lemma show16_chars: "\<forall>c \<in> set (show_base 16 n). \<not> is_space c \<and> c \<noteq> CHR ''_''"
proof
  fix c assume "c \<in> set (show_base 16 n)"
  then obtain d where "d < 16" "c = digit_char d" using show_base_digits [of 16 n] by auto
  then have "hex_digit c" by (simp add: hex_digit_char)
  then show "\<not> is_space c \<and> c \<noteq> CHR ''_''" by simp
qed

lemma underscore_free: "CHR ''_'' \<notin> set s \<Longrightarrow> underscore_ok True s"
  by (induction s) auto

lemma read_zeros: "read_base b 0 (replicate k (CHR ''0'') @ s) = read_base b 0 s" if "0 < b"
proof -
  have "digit_val (CHR ''0'') = Some 0" by code_simp
  then show ?thesis using that by (induction k) auto
qed

lemma prefixed_field:
  assumes "unat x < 2 ^ bits"
  shows "parseXMLPCIComponent (''0x'' @ hex_text w x) bits = Some (unat x)"
proof -
  let ?h = "hex_text w x"
  have sp: "\<not> is_space (CHR ''0'')" "\<not> is_space (CHR ''x'')" by code_simp+
  have sep: "CHR ''0'' \<noteq> CHR ''_''" by simp
  have chars: "\<forall>c \<in> set ?h. \<not> is_space c \<and> c \<noteq> CHR ''_''"
  proof
    fix c assume "c \<in> set ?h"
    then have "c = CHR ''0'' \<or> c \<in> set (show_base 16 (unat x))" 
      unfolding hex_text_def pad_left_def set_append Un_iff by (elim disjE) (simp_all split: if_splits)
    then show "\<not> is_space c \<and> c \<noteq> CHR ''_''" 
      by (rule disjE) (use sp(1) sep in simp, rule bspec [OF show16_chars])
  qed
  have ne: "?h \<noteq> []" by (simp add: hex_text_def pad_left_def)
  have trim: "TrimSpace (''0x'' @ ?h) = ''0x'' @ ?h" using chars sp by (intro TrimSpace_no_space) simp
  have "filter (\<lambda>c. c \<noteq> CHR ''_'') ?h = ?h" using chars by simp
  moreover have "underscore_ok True ?h" using chars by (intro underscore_free) auto
  moreover have "ParseUint ?h 16 bits = Some (unat x)"
    using assms ne by (simp add: ParseUint_def) (simp add: hex_text_def pad_left_def read_zeros read_show_base)
  ultimately show ?thesis
    using trim ne by (cases ?h) (simp_all add: parseXMLPCIComponent_def ParsePrefixedHex_def Let_def HasPrefix_def)
qed

lemma decimal_field:
  assumes "unat x < 2 ^ bits"
  shows "parseXMLPCIComponent (dec_text x) bits = Some (unat x)"
proof -
  let ?d = "show_base 10 (unat x)"
  have chars: "\<forall>c \<in> set ?d. is_digit c \<and> \<not> is_space c"
  proof
    fix c assume "c \<in> set ?d"
    from show10_plain [OF this] show "is_digit c \<and> \<not> is_space c" by (elim conjE) (intro conjI)
  qed
  have "\<not> is_digit (CHR ''x'')" "\<not> is_digit (CHR ''X'')" by code_simp+
  with chars have "CHR ''x'' \<notin> set ?d" "CHR ''X'' \<notin> set ?d" by auto
  then have "\<not> HasPrefix ?d ''0x''" "\<not> HasPrefix ?d ''0X''" by (auto simp: HasPrefix_iff)
  moreover have "TrimSpace ?d = ?d" using chars by (intro TrimSpace_no_space) simp
  ultimately show ?thesis
    using assms by (simp add: parseXMLPCIComponent_def dec_text_def ParseUint_def read_show_base)
qed

text \<open>The address written into the request for a VM and the address libvirt gives of a device - in
  hexadecimal with a prefix, or in decimal - read back as that address.\<close>

theorem address_fields_read_back:
  "pciAddressFromNodeFields (''0x'' @ hex_text 4 (Domain a)) (''0x'' @ hex_text 2 (Bus a))
     (''0x'' @ hex_text 2 (Slot a)) (''0x'' @ hex_text 0 (Function a)) = Inr a \<and>
   pciAddressFromNodeFields (dec_text (Domain a)) (dec_text (Bus a)) (dec_text (Slot a)) (dec_text (Function a)) = Inr a"
proof -
  have b: "unat (x :: 8 word) < 2 ^ 8" "unat (y :: 16 word) < 2 ^ 16" for x y
    using unsigned_less [of x] unsigned_less [of y] by simp_all
  show ?thesis
    unfolding pciAddressFromNodeFields_def prefixed_field [OF b(1)] prefixed_field [OF b(2)]
      decimal_field [OF b(1)] decimal_field [OF b(2)] by (simp add: address_of_def)
qed

end
