(* ===== verification/Pci.thy ===== *)
theory Pci
  imports PciAddress Effects Paths
begin

text \<open>
  Passing PCI devices through to virtual machines: \<open>slave/pci/pci.go\<close>.  What libvirt and sysfs hold
  and do is a parameter (\<open>pci_env\<close>); a document of libvirt is the tree its text parses to, or
  \<open>None\<close> for a text that is not well formed, and the rules by which \<open>encoding/xml\<close> fills a struct
  from a tree are written out.  The world records every call that changes something.
\<close>

subsection \<open>Documents\<close>

datatype xml = Elem string "(string \<times> string) list" "xml list" | CharData string

type_synonym document = "xml option"

text \<open>The character data of an element without that of its children; the last of repeated attributes.\<close>

fun text_of :: "xml list \<Rightarrow> string" where
  "text_of [] = []"
| "text_of (CharData s # ks) = s @ text_of ks"
| "text_of (Elem n as cs # ks) = text_of ks"

definition attr_or :: "string \<Rightarrow> (string \<times> string) list \<Rightarrow> string \<Rightarrow> string" where
  "attr_or name as old = foldl (\<lambda>v (n, x). if n = name then x else v) old as"

record textWithID =
  ID :: string
  Text :: string

record node_capability =
  ClassText :: string
  DomainText :: string
  BusText :: string
  SlotText :: string
  FunctionText :: string
  ProductValue :: textWithID
  VendorValue :: textWithID
  GroupNumber :: string
  NumaNode :: string

record nodeDeviceXML =
  NodeNameText :: string
  NodePathText :: string
  DriverName :: string
  Capability :: node_capability

definition no_text :: textWithID where "no_text = \<lparr>ID = [], Text = []\<rparr>"

definition no_capability :: node_capability where
  "no_capability = \<lparr>ClassText = [], DomainText = [], BusText = [], SlotText = [], FunctionText = [],
     ProductValue = no_text, VendorValue = no_text, GroupNumber = [], NumaNode = []\<rparr>"

definition no_node :: nodeDeviceXML where
  "no_node = \<lparr>NodeNameText = [], NodePathText = [], DriverName = [], Capability = no_capability\<rparr>"

definition fill_text :: "(string \<times> string) list \<Rightarrow> xml list \<Rightarrow> textWithID \<Rightarrow> textWithID" where
  "fill_text as cs v = \<lparr>ID = attr_or ''id'' as (ID v), Text = text_of cs\<rparr>"

text \<open>A child element sets the field of its name; one that occurs again sets it again.\<close>

fun fill_capability :: "xml list \<Rightarrow> node_capability \<Rightarrow> node_capability" where
  "fill_capability [] c = c"
| "fill_capability (CharData s # ks) c = fill_capability ks c"
| "fill_capability (Elem n as cs # ks) c =
     fill_capability ks
       (if n = ''class'' then c\<lparr>ClassText := text_of cs\<rparr>
        else if n = ''domain'' then c\<lparr>DomainText := text_of cs\<rparr>
        else if n = ''bus'' then c\<lparr>BusText := text_of cs\<rparr>
        else if n = ''slot'' then c\<lparr>SlotText := text_of cs\<rparr>
        else if n = ''function'' then c\<lparr>FunctionText := text_of cs\<rparr>
        else if n = ''product'' then c\<lparr>ProductValue := fill_text as cs (ProductValue c)\<rparr>
        else if n = ''vendor'' then c\<lparr>VendorValue := fill_text as cs (VendorValue c)\<rparr>
        else if n = ''iommuGroup'' then c\<lparr>GroupNumber := attr_or ''number'' as (GroupNumber c)\<rparr>
        else if n = ''numa'' then c\<lparr>NumaNode := attr_or ''node'' as (NumaNode c)\<rparr>
        else c)"

fun fill_driver :: "xml list \<Rightarrow> string \<Rightarrow> string" where
  "fill_driver [] v = v"
| "fill_driver (CharData s # ks) v = fill_driver ks v"
| "fill_driver (Elem n as cs # ks) v = fill_driver ks (if n = ''name'' then text_of cs else v)"

fun fill_node :: "xml list \<Rightarrow> nodeDeviceXML \<Rightarrow> nodeDeviceXML" where
  "fill_node [] v = v"
| "fill_node (CharData s # ks) v = fill_node ks v"
| "fill_node (Elem n as cs # ks) v =
     fill_node ks
       (if n = ''name'' then v\<lparr>NodeNameText := text_of cs\<rparr>
        else if n = ''path'' then v\<lparr>NodePathText := text_of cs\<rparr>
        else if n = ''driver'' then v\<lparr>DriverName := fill_driver cs (DriverName v)\<rparr>
        else if n = ''capability'' then v\<lparr>Capability := fill_capability cs (Capability v)\<rparr>
        else v)"

fun unmarshal_node :: "document \<Rightarrow> nodeDeviceXML option" where
  "unmarshal_node (Some (Elem n as cs)) = Some (fill_node cs no_node)"
| "unmarshal_node _ = None"

record hostDevXML =
  HostDevType :: string
  HostDevManaged :: string
  SourceDomain :: string
  SourceBus :: string
  SourceSlot :: string
  SourceFunction :: string
  AliasName :: string

fun fill_source :: "xml list \<Rightarrow> hostDevXML \<Rightarrow> hostDevXML" where
  "fill_source [] h = h"
| "fill_source (CharData s # ks) h = fill_source ks h"
| "fill_source (Elem n as cs # ks) h =
     fill_source ks
       (if n = ''address'' then
          h\<lparr>SourceDomain := attr_or ''domain'' as (SourceDomain h), SourceBus := attr_or ''bus'' as (SourceBus h),
            SourceSlot := attr_or ''slot'' as (SourceSlot h), SourceFunction := attr_or ''function'' as (SourceFunction h)\<rparr>
        else h)"

fun fill_hostdev :: "xml list \<Rightarrow> hostDevXML \<Rightarrow> hostDevXML" where
  "fill_hostdev [] h = h"
| "fill_hostdev (CharData s # ks) h = fill_hostdev ks h"
| "fill_hostdev (Elem n as cs # ks) h =
     fill_hostdev ks
       (if n = ''source'' then fill_source cs h
        else if n = ''alias'' then h\<lparr>AliasName := attr_or ''name'' as (AliasName h)\<rparr>
        else h)"

text \<open>A slice field takes one element more for every child of its name.\<close>

definition hostdev_of :: "(string \<times> string) list \<Rightarrow> xml list \<Rightarrow> hostDevXML" where
  "hostdev_of as cs = fill_hostdev cs
     \<lparr>HostDevType = attr_or ''type'' as [], HostDevManaged = attr_or ''managed'' as [], SourceDomain = [],
      SourceBus = [], SourceSlot = [], SourceFunction = [], AliasName = []\<rparr>"

fun hostdevs_in :: "xml list \<Rightarrow> hostDevXML list" where
  "hostdevs_in [] = []"
| "hostdevs_in (CharData s # ks) = hostdevs_in ks"
| "hostdevs_in (Elem n as cs # ks) = (if n = ''hostdev'' then [hostdev_of as cs] else []) @ hostdevs_in ks"

fun devices_in :: "xml list \<Rightarrow> hostDevXML list" where
  "devices_in [] = []"
| "devices_in (CharData s # ks) = devices_in ks"
| "devices_in (Elem n as cs # ks) = (if n = ''devices'' then hostdevs_in cs else []) @ devices_in ks"

fun unmarshal_domain :: "document \<Rightarrow> hostDevXML list option" where
  "unmarshal_domain (Some (Elem n as cs)) = Some (devices_in cs)"
| "unmarshal_domain _ = None"

subsection \<open>Devices\<close>

record HostPCIDevice =
  NodeName :: string
  DevicePath :: string
  Address :: string
  HostAddress :: PCIAddress
  Driver :: string
  Vendor :: string
  VendorID :: string
  Product :: string
  ProductID :: string
  Class :: string
  IOMMUGroup :: int
  NUMANode :: int
  IsGPU :: bool
  ManagedByVFIO :: bool
  AttachedToVMs :: "string list"

record VMPCIDevice =
  VmAddress :: string
  VmDeviceAddress :: PCIAddress
  Managed :: bool
  Alias :: string

datatype pci_error =
    BadAddress address_error
  | VmNameEmpty
  | ConnectError
  | LookupVmError string
  | LookupPciError string
  | ListDomainsError
  | ListDevicesError
  | NodeXmlError
  | NodeXmlInvalid
  | VmXmlError string
  | VmXmlInvalid
  | VmStateError
  | AlreadyAttached string "string list"
  | AttachedToOthers string
  | AttachError string string
  | DetachError string string
  | ReattachError string
  | BindError string
  | VerifyError string pci_error
  | WrongDriver string string
  | NotAGpu string string
  | ReadDriverError string
  | UnbindError string
  | StillBound string string
  | InStep string string pci_error
  | Joined string string "pci_error list"

definition driverNone :: string where "driverNone = ''none''"

definition normalizeDriverDisplayName :: "string \<Rightarrow> string" where
  "normalizeDriverDisplayName driver0 =
     (let driver = TrimSpace driver0 in if driver = [] then driverNone else driver)"

definition isVFIODriver :: "string \<Rightarrow> bool" where
  "isVFIODriver driver = HasPrefix (ToLower (TrimSpace driver)) ''vfio''"

definition isNoneDriver :: "string \<Rightarrow> bool" where
  "isNoneDriver driver0 = (let driver = TrimSpace (ToLower driver0) in driver = [] \<or> driver = driverNone)"

definition appendUnique :: "string list \<Rightarrow> string \<Rightarrow> string list" where
  "appendUnique values value1 = app_new values value1"

definition emptyFallback :: "string \<Rightarrow> string \<Rightarrow> string" where
  "emptyFallback s0 fallback = (let s = TrimSpace s0 in if s = [] then fallback else s)"

text \<open>An optional number of a document: -1 when it is absent or not a number of 32 bits.\<close>

definition optional_number :: "string \<Rightarrow> int" where
  "optional_number raw =
     (let g = TrimSpace raw in
      if g = [] then -1 else case parseXMLPCIComponent g 32 of Some n \<Rightarrow> int n | None \<Rightarrow> -1)"

definition parseHostPCIDevice :: "document \<Rightarrow> pci_error + HostPCIDevice" where
  "parseHostPCIDevice doc =
     (case unmarshal_node doc of None \<Rightarrow> Inl NodeXmlInvalid | Some node \<Rightarrow>
      (let c = Capability node in
       case pciAddressFromNodeFields (DomainText c) (BusText c) (SlotText c) (FunctionText c) of
         Inl e \<Rightarrow> Inl (BadAddress e)
       | Inr address \<Rightarrow>
           Inr \<lparr>NodeName = (let n = TrimSpace (NodeNameText node) in if n = [] then nodeDeviceName address else n),
                DevicePath = TrimSpace (NodePathText node), Address = String address, HostAddress = address,
                Driver = normalizeDriverDisplayName (DriverName node),
                Vendor = TrimSpace (Text (VendorValue c)), VendorID = TrimSpace (ID (VendorValue c)),
                Product = TrimSpace (Text (ProductValue c)), ProductID = TrimSpace (ID (ProductValue c)),
                Class = TrimSpace (ClassText c), IOMMUGroup = optional_number (GroupNumber c),
                NUMANode = optional_number (NumaNode c), IsGPU = classLooksLikeGPU (ClassText c),
                ManagedByVFIO = isVFIODriver (DriverName node), AttachedToVMs = []\<rparr>))"

fun vm_devices :: "hostDevXML list \<Rightarrow> pci_error + VMPCIDevice list" where
  "vm_devices [] = Inr []"
| "vm_devices (h # hs) =
     (if \<not> EqualFold (TrimSpace (HostDevType h)) ''pci'' then vm_devices hs
      else case pciAddressFromNodeFields (SourceDomain h) (SourceBus h) (SourceSlot h) (SourceFunction h) of
             Inl e \<Rightarrow> Inl (BadAddress e)
           | Inr address \<Rightarrow>
               map_sum id (Cons \<lparr>VmAddress = String address, VmDeviceAddress = address,
                  Managed = EqualFold (TrimSpace (HostDevManaged h)) ''yes'', Alias = TrimSpace (AliasName h)\<rparr>)
                 (vm_devices hs))"

definition parseVMPCIDevices :: "document \<Rightarrow> pci_error + VMPCIDevice list" where
  "parseVMPCIDevices doc =
     (case unmarshal_domain doc of None \<Rightarrow> Inl VmXmlInvalid
      | Some hs \<Rightarrow> map_sum id (sort_key VmAddress) (vm_devices hs))"

subsection \<open>Who has a device\<close>

type_synonym attachments = "string \<rightharpoonup> string list"

definition vms_at :: "attachments \<Rightarrow> string \<Rightarrow> string list" where
  "vms_at att a = (case att a of None \<Rightarrow> [] | Some vms \<Rightarrow> vms)"

definition filterPCIDevicesWithIOMMU :: "HostPCIDevice list \<Rightarrow> HostPCIDevice list" where
  "filterPCIDevicesWithIOMMU devices = filter (\<lambda>dev. 0 \<le> IOMMUGroup dev) devices"

fun group_loop :: "HostPCIDevice list \<Rightarrow> (int \<rightharpoonup> string list) \<Rightarrow> (int \<rightharpoonup> string list)" where
  "group_loop [] out = out"
| "group_loop (dev # devs) out =
     (if IOMMUGroup dev < 0 then group_loop devs out
      else group_loop devs
        (foldl (\<lambda>m vm. m(IOMMUGroup dev \<mapsto>
             appendUnique (case m (IOMMUGroup dev) of None \<Rightarrow> [] | Some vms \<Rightarrow> vms) (TrimSpace vm)))
           out (AttachedToVMs dev)))"

definition pciGroupAttachments :: "HostPCIDevice list \<Rightarrow> (int \<rightharpoonup> string list)" where
  "pciGroupAttachments devices =
     (\<lambda>group. map_option (\<lambda>vms. sort (filter (\<lambda>vm. vm \<noteq> []) vms)) (group_loop devices Map.empty group))"

fun partition_loop :: "string list \<Rightarrow> string \<Rightarrow> bool \<times> string list \<Rightarrow> bool \<times> string list" where
  "partition_loop [] target acc = acc"
| "partition_loop (vm # vms) target (already, elsewhere) =
     (let v = TrimSpace vm in
      if v = [] then partition_loop vms target (already, elsewhere)
      else if v = target then partition_loop vms target (True, elsewhere)
      else partition_loop vms target (already, appendUnique elsewhere v))"

definition partitionPCIAttachments :: "string list \<Rightarrow> string \<Rightarrow> bool \<times> string list" where
  "partitionPCIAttachments attachedVMs targetVM =
     (case partition_loop attachedVMs (TrimSpace targetVM) (False, []) of
        (already, elsewhere) \<Rightarrow> (already, sort elsewhere))"

definition pciAttachmentConflicts :: "attachments \<Rightarrow> PCIAddress list \<Rightarrow> string \<Rightarrow> string list" where
  "pciAttachmentConflicts att addresses targetVM =
     concat (map (\<lambda>a. let elsewhere = snd (partitionPCIAttachments (vms_at att (String a)) targetVM) in
        if elsewhere = [] then [] else [String a @ '' -> '' @ Join elsewhere '','']) addresses)"

definition makeAddressSetFromHostDevices :: "HostPCIDevice list \<Rightarrow> string set" where
  "makeAddressSetFromHostDevices devices = set (filter (\<lambda>a. a \<noteq> []) (map (\<lambda>d. TrimSpace (Address d)) devices))"

fun device_map :: "VMPCIDevice list \<Rightarrow> (string \<rightharpoonup> VMPCIDevice) \<Rightarrow> (string \<rightharpoonup> VMPCIDevice)" where
  "device_map [] out = out"
| "device_map (d # ds) out =
     (let addr = TrimSpace (VmAddress d) in device_map ds (if addr = [] then out else out(addr \<mapsto> d)))"

definition makeVMPCIDeviceMap :: "VMPCIDevice list \<Rightarrow> (string \<rightharpoonup> VMPCIDevice)" where
  "makeVMPCIDeviceMap devices = device_map devices Map.empty"

definition findVMPCIDevice :: "VMPCIDevice list \<Rightarrow> PCIAddress \<Rightarrow> VMPCIDevice option" where
  "findVMPCIDevice devices a = makeVMPCIDeviceMap devices (String a)"

definition filterVMPCIDevicesByAddress :: "VMPCIDevice list \<Rightarrow> string set \<Rightarrow> VMPCIDevice list" where
  "filterVMPCIDevicesByAddress devices allowed =
     (if devices = [] \<or> allowed = {} then [] else filter (\<lambda>d. VmAddress d \<in> allowed) devices)"

subsection \<open>The host\<close>

datatype domain_state = NoState | Running | Blocked | Paused | ShuttingDown | ShutOff | Crashed | PmSuspended

datatype modify_flag = ModifyConfig | ModifyLive

text \<open>A device is named by its node name, a domain by the handle libvirt gives.\<close>

datatype pci_call =
    DetachToVfio string
  | ReAttach string
  | AttachDevice string string "modify_flag list"
  | DetachDevice string string "modify_flag list"
  | WriteUnbind string string

datatype link = LinkTo string | NoLink | LinkError

record 'w pci_env =
  Connects :: "'w \<Rightarrow> bool"
  AllDomains :: "'w \<Rightarrow> string list option"
  AllNodeDevices :: "'w \<Rightarrow> string list option"
  LookupDomain :: "string \<Rightarrow> 'w \<Rightarrow> string option"
  LookupDevice :: "string \<Rightarrow> 'w \<Rightarrow> string option"
  DomainName :: "string \<Rightarrow> 'w \<Rightarrow> string option"
  DomainInactiveXML :: "string \<Rightarrow> 'w \<Rightarrow> document option"
  DomainXML :: "string \<Rightarrow> 'w \<Rightarrow> document option"
  DomainState :: "string \<Rightarrow> 'w \<Rightarrow> domain_state option"
  DeviceXML :: "string \<Rightarrow> 'w \<Rightarrow> document option"
  DriverLink :: "string \<Rightarrow> 'w \<Rightarrow> link"
  Perform :: "pci_call \<Rightarrow> 'w \<Rightarrow> bool \<times> 'w"

record 'w pci_world =
  pci_host :: 'w
  pci_calls :: "pci_call list"

type_synonym ('w, 'a) pci_act = "('w pci_world, pci_error, 'a) act"

definition ask :: "('w \<Rightarrow> 'a option) \<Rightarrow> pci_error \<Rightarrow> ('w, 'a) pci_act" where
  "ask q err w = (case q (pci_host w) of None \<Rightarrow> (Inl err, w) | Some x \<Rightarrow> (Inr x, w))"

definition perform :: "'w pci_env \<Rightarrow> pci_call \<Rightarrow> pci_error \<Rightarrow> ('w, unit) pci_act" where
  "perform e c err w =
     (case Perform e c (pci_host w) of
        (done, h) \<Rightarrow> (if done then Inr () else Inl err, w\<lparr>pci_host := h, pci_calls := pci_calls w @ [c]\<rparr>))"

definition connect :: "'w pci_env \<Rightarrow> ('w, unit) pci_act" where
  "connect e = bindE (getW (\<lambda>w. Connects e (pci_host w))) (\<lambda>ok. guardE ok ConnectError)"

definition parse_reference :: "string \<Rightarrow> ('w, PCIAddress) pci_act" where
  "parse_reference ref = liftE (map_sum BadAddress id (ParsePCIAddress ref))"

subsection \<open>Reading the state of the host\<close>

definition domain_document :: "'w pci_env \<Rightarrow> string \<Rightarrow> 'w \<Rightarrow> document option" where
  "domain_document e d h = (case DomainInactiveXML e d h of Some x \<Rightarrow> Some x | None \<Rightarrow> DomainXML e d h)"

text \<open>A domain without a name, without a document or with a document that cannot be read is passed over.\<close>

definition note_domain :: "'w pci_env \<Rightarrow> 'w \<Rightarrow> attachments \<Rightarrow> string \<Rightarrow> attachments" where
  "note_domain e h att d =
     (case DomainName e d h of None \<Rightarrow> att | Some name \<Rightarrow>
      case domain_document e d h of None \<Rightarrow> att | Some doc \<Rightarrow>
      case parseVMPCIDevices doc of Inl _ \<Rightarrow> att
      | Inr devs \<Rightarrow> foldl (\<lambda>m dev. m(VmAddress dev \<mapsto> appendUnique (vms_at m (VmAddress dev)) name)) att devs)"

definition attachments_of :: "'w pci_env \<Rightarrow> 'w \<Rightarrow> string list \<Rightarrow> attachments" where
  "attachments_of e h domains = foldl (note_domain e h) Map.empty domains"

definition listAllVMAttachments :: "'w pci_env \<Rightarrow> ('w, attachments) pci_act" where
  "listAllVMAttachments e =
     bindE (ask (AllDomains e) ListDomainsError) (\<lambda>domains.
       getW (\<lambda>w. attachments_of e (pci_host w) domains))"

fun read_devices :: "'w pci_env \<Rightarrow> attachments \<Rightarrow> string list \<Rightarrow> ('w, HostPCIDevice list) pci_act" where
  "read_devices e att [] = ret []"
| "read_devices e att (n # ns) =
     bindE (ask (DeviceXML e n) NodeXmlError) (\<lambda>doc.
     bindE (liftE (parseHostPCIDevice doc)) (\<lambda>device.
     bindE (read_devices e att ns) (\<lambda>devices.
       ret (device\<lparr>AttachedToVMs := vms_at att (Address device)\<rparr> # devices))))"

definition ListHostPCIDevices :: "'w pci_env \<Rightarrow> ('w, HostPCIDevice list) pci_act" where
  "ListHostPCIDevices e =
     bindE (connect e) (\<lambda>_.
     bindE (listAllVMAttachments e) (\<lambda>att.
     bindE (ask (AllNodeDevices e) ListDevicesError) (\<lambda>nodes.
     bindE (read_devices e att nodes) (\<lambda>devices.
       ret (sort_key Address devices)))))"

definition ListHostPCIDevicesWithIOMMU :: "'w pci_env \<Rightarrow> ('w, HostPCIDevice list) pci_act" where
  "ListHostPCIDevicesWithIOMMU e =
     bindE (ListHostPCIDevices e) (\<lambda>devices. ret (filterPCIDevicesWithIOMMU devices))"

text \<open>A GPU counts as attached to every VM that has a device of its group.\<close>

definition gpus_of :: "HostPCIDevice list \<Rightarrow> HostPCIDevice list" where
  "gpus_of devices =
     map (\<lambda>dev. if 0 \<le> IOMMUGroup dev
                then dev\<lparr>AttachedToVMs := (case pciGroupAttachments devices (IOMMUGroup dev) of
                            None \<Rightarrow> [] | Some vms \<Rightarrow> vms)\<rparr>
                else dev)
       (filter IsGPU devices)"

definition ListHostGPUs :: "'w pci_env \<Rightarrow> ('w, HostPCIDevice list) pci_act" where
  "ListHostGPUs e = bindE (ListHostPCIDevices e) (\<lambda>devices. ret (gpus_of devices))"

definition ListHostGPUsWithIOMMU :: "'w pci_env \<Rightarrow> ('w, HostPCIDevice list) pci_act" where
  "ListHostGPUsWithIOMMU e = bindE (ListHostGPUs e) (\<lambda>devices. ret (filterPCIDevicesWithIOMMU devices))"

definition domainPCIDevices :: "'w pci_env \<Rightarrow> string \<Rightarrow> string \<Rightarrow> ('w, VMPCIDevice list) pci_act" where
  "domainPCIDevices e vm vmName =
     bindE (ask (domain_document e vm) (VmXmlError vmName)) (\<lambda>doc. liftE (parseVMPCIDevices doc))"

definition ListVMPCIDevices :: "'w pci_env \<Rightarrow> string \<Rightarrow> ('w, VMPCIDevice list) pci_act" where
  "ListVMPCIDevices e vmName0 =
     (let vmName = TrimSpace vmName0 in
      if vmName = [] then fail VmNameEmpty
      else bindE (connect e) (\<lambda>_.
           bindE (ask (LookupDomain e vmName) (LookupVmError vmName)) (\<lambda>vm.
             domainPCIDevices e vm vmName)))"

definition ListVMGPUs :: "'w pci_env \<Rightarrow> string \<Rightarrow> ('w, VMPCIDevice list) pci_act" where
  "ListVMGPUs e vmName =
     bindE (ListVMPCIDevices e vmName) (\<lambda>vmDevices.
     bindE (ListHostGPUs e) (\<lambda>gpus.
       ret (filterVMPCIDevicesByAddress vmDevices (makeAddressSetFromHostDevices gpus))))"

definition canonicalDomainName :: "'w pci_env \<Rightarrow> string \<Rightarrow> string \<Rightarrow> 'w \<Rightarrow> string" where
  "canonicalDomainName e vm fallback h =
     (case DomainName e vm h of
        Some n \<Rightarrow> if TrimSpace n \<noteq> [] then TrimSpace n else TrimSpace fallback
      | None \<Rightarrow> TrimSpace fallback)"

definition live_states :: "domain_state list" where
  "live_states = [Running, Blocked, Paused, PmSuspended]"

definition domainDeviceFlags :: "'w pci_env \<Rightarrow> string \<Rightarrow> ('w, modify_flag list) pci_act" where
  "domainDeviceFlags e vm =
     bindE (ask (DomainState e vm) VmStateError) (\<lambda>s.
       ret (if s \<in> set live_states then [ModifyConfig, ModifyLive] else [ModifyConfig]))"

definition getNodeDeviceDriver :: "'w pci_env \<Rightarrow> string \<Rightarrow> ('w, string) pci_act" where
  "getNodeDeviceDriver e dev =
     bindE (ask (DeviceXML e dev) NodeXmlError) (\<lambda>doc.
       case unmarshal_node doc of None \<Rightarrow> fail NodeXmlInvalid | Some node \<Rightarrow> ret (TrimSpace (DriverName node)))"

definition lookupHostPCIDevice :: "'w pci_env \<Rightarrow> PCIAddress \<Rightarrow> ('w, HostPCIDevice) pci_act" where
  "lookupHostPCIDevice e a =
     bindE (connect e) (\<lambda>_.
     bindE (ask (LookupDevice e (nodeDeviceName a)) (LookupPciError (String a))) (\<lambda>dev.
     bindE (ask (DeviceXML e dev) NodeXmlError) (\<lambda>doc.
       liftE (parseHostPCIDevice doc))))"

definition ensureHostPCIIsGPU :: "'w pci_env \<Rightarrow> PCIAddress \<Rightarrow> ('w, unit) pci_act" where
  "ensureHostPCIIsGPU e a =
     bindE (lookupHostPCIDevice e a) (\<lambda>device.
       if IsGPU device then ret () else fail (NotAGpu (String a) (emptyFallback (Class device) ''-'')))"

text \<open>The addresses of a group, each once, in the order of their text.\<close>

fun related_loop :: "int \<Rightarrow> HostPCIDevice list \<Rightarrow> string set \<Rightarrow> PCIAddress list \<Rightarrow> PCIAddress list" where
  "related_loop grp [] seen related = related"
| "related_loop grp (dev # devs) seen related =
     (if IOMMUGroup dev \<noteq> grp then related_loop grp devs seen related
      else case ParsePCIAddress (Address dev) of
             Inl _ \<Rightarrow> related_loop grp devs seen related
           | Inr a \<Rightarrow> if String a \<in> seen then related_loop grp devs seen related
                      else related_loop grp devs (insert (String a) seen) (related @ [a]))"

definition relatedPCIDevicesForGPU :: "'w pci_env \<Rightarrow> PCIAddress \<Rightarrow> ('w, PCIAddress list) pci_act" where
  "relatedPCIDevicesForGPU e a =
     bindE (lookupHostPCIDevice e a) (\<lambda>device.
       if IOMMUGroup device < 0 then ret [a]
       else bindE (ListHostPCIDevices e) (\<lambda>hostDevices.
         let related = related_loop (IOMMUGroup device) hostDevices {} []
         in ret (sort_key String (if String a \<in> String ` set related then related else related @ [a]))))"

definition attachedVMsForPCIAddresses :: "'w pci_env \<Rightarrow> PCIAddress list \<Rightarrow> ('w, string list) pci_act" where
  "attachedVMsForPCIAddresses e addresses =
     bindE (connect e) (\<lambda>_.
     bindE (listAllVMAttachments e) (\<lambda>att.
       ret (sort (foldl (\<lambda>vms a. foldl appendUnique vms (vms_at att (String a))) [] addresses))))"

definition ensurePCIAddressesAvailableForVM :: "'w pci_env \<Rightarrow> string \<Rightarrow> PCIAddress list \<Rightarrow> ('w, unit) pci_act" where
  "ensurePCIAddressesAvailableForVM e vmName0 addresses =
     (let vmName = TrimSpace vmName0 in
      if vmName = [] then fail VmNameEmpty
      else bindE (connect e) (\<lambda>_.
           bindE (ask (LookupDomain e vmName) (LookupVmError vmName)) (\<lambda>vm.
           bindE (listAllVMAttachments e) (\<lambda>att.
           bindE (getW (\<lambda>w. canonicalDomainName e vm vmName (pci_host w))) (\<lambda>target.
             let conflicts = pciAttachmentConflicts att addresses target in
             if conflicts = [] then ret () else fail (AttachedToOthers (Join conflicts ''; '')))))))"

subsection \<open>Drivers\<close>

definition bindToVFIO :: "'w pci_env \<Rightarrow> string \<Rightarrow> PCIAddress \<Rightarrow> ('w, unit) pci_act" where
  "bindToVFIO e dev a =
     bindR (getNodeDeviceDriver e dev) (\<lambda>r.
       if (case r of Inr driver \<Rightarrow> isVFIODriver driver | Inl _ \<Rightarrow> False) then ret ()
       else bindE (perform e (DetachToVfio dev) (BindError (String a))) (\<lambda>_.
            bindE (mapErr (VerifyError (String a)) (getNodeDeviceDriver e dev)) (\<lambda>driver.
              if isVFIODriver driver then ret ()
              else fail (WrongDriver (String a) (normalizeDriverDisplayName driver)))))"

definition driver_path :: "PCIAddress \<Rightarrow> string" where
  "driver_path a = ''/sys/bus/pci/devices/'' @ String a @ ''/driver''"

definition readCurrentPCIDriver :: "'w pci_env \<Rightarrow> PCIAddress \<Rightarrow> ('w, string) pci_act" where
  "readCurrentPCIDriver e a =
     bindE (getW (\<lambda>w. DriverLink e (driver_path a) (pci_host w))) (\<lambda>l.
       case l of LinkTo target \<Rightarrow> ret (Base target) | NoLink \<Rightarrow> ret [] | LinkError \<Rightarrow> fail (ReadDriverError (String a)))"

definition forcePCIDriverToNone :: "'w pci_env \<Rightarrow> PCIAddress \<Rightarrow> ('w, unit) pci_act" where
  "forcePCIDriverToNone e a =
     bindE (readCurrentPCIDriver e a) (\<lambda>driver.
       if isNoneDriver driver then ret ()
       else bindE (perform e (WriteUnbind (driver_path a @ ''/unbind'') (String a)) (UnbindError (String a))) (\<lambda>_.
            bindE (readCurrentPCIDriver e a) (\<lambda>driver2.
              if isNoneDriver driver2 then ret ()
              else fail (StillBound (String a) (normalizeDriverDisplayName driver2)))))"

subsection \<open>Operations\<close>

definition AttachPCIToVM :: "'w pci_env \<Rightarrow> string \<Rightarrow> string \<Rightarrow> ('w, unit) pci_act" where
  "AttachPCIToVM e vmName0 pciRef =
     (let vmName = TrimSpace vmName0 in
      if vmName = [] then fail VmNameEmpty
      else bindE (parse_reference pciRef) (\<lambda>a.
           bindE (connect e) (\<lambda>_.
           bindE (ask (LookupDomain e vmName) (LookupVmError vmName)) (\<lambda>vm.
           bindE (ask (LookupDevice e (nodeDeviceName a)) (LookupPciError (String a))) (\<lambda>dev.
           bindE (getW (\<lambda>w. canonicalDomainName e vm vmName (pci_host w))) (\<lambda>target.
           bindE (listAllVMAttachments e) (\<lambda>att.
             (case partitionPCIAttachments (vms_at att (String a)) target of (already, elsewhere) \<Rightarrow>
               if elsewhere \<noteq> [] then fail (AlreadyAttached (String a) elsewhere)
               else if already then ret ()
               else bindE (bindToVFIO e dev a) (\<lambda>_.
                    bindE (domainDeviceFlags e vm) (\<lambda>flags.
                      perform e (AttachDevice vm (buildHostDevXML a True) flags)
                        (AttachError (String a) vmName)))))))))))"

definition AttachGPUToVM :: "'w pci_env \<Rightarrow> string \<Rightarrow> string \<Rightarrow> ('w, unit) pci_act" where
  "AttachGPUToVM e vmName gpuRef =
     bindE (parse_reference gpuRef) (\<lambda>a.
     bindE (ensureHostPCIIsGPU e a) (\<lambda>_.
     bindE (relatedPCIDevicesForGPU e a) (\<lambda>related.
     bindE (ensurePCIAddressesAvailableForVM e vmName related) (\<lambda>_.
       forE related (\<lambda>dev. AttachPCIToVM e vmName (String dev))))))"

definition ReturnPCIToHost :: "'w pci_env \<Rightarrow> string \<Rightarrow> ('w, unit) pci_act" where
  "ReturnPCIToHost e pciRef =
     bindE (parse_reference pciRef) (\<lambda>a.
     bindE (connect e) (\<lambda>_.
     bindE (ask (LookupDevice e (nodeDeviceName a)) (LookupPciError (String a))) (\<lambda>dev.
     bindR (getNodeDeviceDriver e dev) (\<lambda>r.
       if (case r of Inr driver \<Rightarrow> \<not> isNoneDriver driver \<and> \<not> isVFIODriver driver | Inl _ \<Rightarrow> False) then ret ()
       else perform e (ReAttach dev) (ReattachError (String a))))))"

definition DetachPCIFromVM :: "'w pci_env \<Rightarrow> string \<Rightarrow> string \<Rightarrow> ('w, unit) pci_act" where
  "DetachPCIFromVM e vmName0 pciRef =
     (let vmName = TrimSpace vmName0 in
      if vmName = [] then fail VmNameEmpty
      else bindE (parse_reference pciRef) (\<lambda>a.
           bindE (connect e) (\<lambda>_.
           bindE (ask (LookupDomain e vmName) (LookupVmError vmName)) (\<lambda>vm.
           bindE (domainPCIDevices e vm vmName) (\<lambda>vmDevices.
             case findVMPCIDevice vmDevices a of
               None \<Rightarrow> ret ()
             | Some vmDevice \<Rightarrow>
                 bindE (domainDeviceFlags e vm) (\<lambda>flags.
                 bindE (perform e (DetachDevice vm (buildHostDevXML a (Managed vmDevice)) flags)
                          (DetachError (String a) vmName)) (\<lambda>_.
                   ReturnPCIToHost e (String a))))))))"

text \<open>A loop that goes on after an error and collects the errors.\<close>

fun collect_errors :: "('a \<Rightarrow> ('w, unit) pci_act) \<Rightarrow> 'a list \<Rightarrow> ('w, pci_error list) pci_act" where
  "collect_errors f [] = ret []"
| "collect_errors f (x # xs) =
     bindR (f x) (\<lambda>r. bindE (collect_errors f xs) (\<lambda>es.
       ret (case r of Inl err \<Rightarrow> err # es | Inr _ \<Rightarrow> es)))"

definition report :: "string \<Rightarrow> string \<Rightarrow> pci_error list \<Rightarrow> ('w, unit) pci_act" where
  "report what subject errs = (if errs = [] then ret () else fail (Joined what subject errs))"

definition detach_group_member ::
  "'w pci_env \<Rightarrow> string \<Rightarrow> (string \<rightharpoonup> VMPCIDevice) \<Rightarrow> PCIAddress \<Rightarrow> ('w, unit) pci_act" where
  "detach_group_member e vmName attachedToVM dev =
     (if attachedToVM (String dev) = None then ret ()
      else bindE (mapErr (InStep ''detach pci'' (String dev)) (DetachPCIFromVM e vmName (String dev))) (\<lambda>_.
           mapErr (InStep ''set driver to none'' (String dev)) (forcePCIDriverToNone e dev)))"

definition DetachGPUFromVM :: "'w pci_env \<Rightarrow> string \<Rightarrow> string \<Rightarrow> ('w, unit) pci_act" where
  "DetachGPUFromVM e vmName gpuRef =
     bindE (parse_reference gpuRef) (\<lambda>a.
     bindE (ensureHostPCIIsGPU e a) (\<lambda>_.
     bindE (relatedPCIDevicesForGPU e a) (\<lambda>related.
     bindE (ListVMPCIDevices e vmName) (\<lambda>vmDevices.
     bindE (collect_errors (detach_group_member e vmName (makeVMPCIDeviceMap vmDevices)) (rev related)) (\<lambda>errs.
       report ''detach gpu'' (String a) errs)))))"

definition return_group_member :: "'w pci_env \<Rightarrow> PCIAddress \<Rightarrow> ('w, unit) pci_act" where
  "return_group_member e dev =
     bindE (mapErr (InStep ''return pci'' (String dev)) (ReturnPCIToHost e (String dev))) (\<lambda>_.
       mapErr (InStep ''set driver to none'' (String dev)) (forcePCIDriverToNone e dev))"

definition ReturnGPUToHost :: "'w pci_env \<Rightarrow> string \<Rightarrow> ('w, unit) pci_act" where
  "ReturnGPUToHost e gpuRef =
     bindE (parse_reference gpuRef) (\<lambda>a.
     bindE (ensureHostPCIIsGPU e a) (\<lambda>_.
     bindE (relatedPCIDevicesForGPU e a) (\<lambda>related.
     bindE (collect_errors (return_group_member e) related) (\<lambda>errs.
       report ''return gpu'' (String a) errs))))"

text \<open>One GPU of \<open>DetachAllGPUs\<close>: the errors it adds.\<close>

definition detach_gpu :: "'w pci_env \<Rightarrow> HostPCIDevice \<Rightarrow> ('w, pci_error list) pci_act" where
  "detach_gpu e gpu =
     bindR (parse_reference (Address gpu)) (\<lambda>r. case r of
       Inl err \<Rightarrow> ret [InStep ''parse'' (Address gpu) err]
     | Inr a \<Rightarrow> bindR (relatedPCIDevicesForGPU e a) (\<lambda>r. case r of
         Inl err \<Rightarrow> ret [InStep ''related'' (Address gpu) err]
       | Inr related \<Rightarrow> bindR (attachedVMsForPCIAddresses e related) (\<lambda>r. case r of
           Inl err \<Rightarrow> ret [InStep ''attachments'' (Address gpu) err]
         | Inr vms \<Rightarrow>
             if vms \<noteq> [] then ret []
             else collect_errors (\<lambda>dev. mapErr (InStep ''detach GPU pci'' (String dev)) (forcePCIDriverToNone e dev))
                    related)))"

fun detach_gpus :: "'w pci_env \<Rightarrow> HostPCIDevice list \<Rightarrow> ('w, pci_error list) pci_act" where
  "detach_gpus e [] = ret []"
| "detach_gpus e (gpu # gpus) =
     bindE (detach_gpu e gpu) (\<lambda>es. bindE (detach_gpus e gpus) (\<lambda>rest. ret (es @ rest)))"

definition DetachAllGPUs :: "'w pci_env \<Rightarrow> ('w, unit) pci_act" where
  "DetachAllGPUs e =
     bindE (mapErr (InStep ''list host GPUs'' []) (ListHostGPUs e)) (\<lambda>gpus.
     bindE (detach_gpus e gpus) (\<lambda>errs. report ''detach GPUs'' [] errs))"

subsection \<open>Reading changes nothing\<close>

lemma same_order: "reflp ((=) :: 'w \<Rightarrow> 'w \<Rightarrow> bool)" "transp ((=) :: 'w \<Rightarrow> 'w \<Rightarrow> bool)"
  by (auto simp: reflp_def transp_def)

lemma reads_ask [steps_intro]: "steps (=) (ask q err)"
  by (simp add: steps_def ask_def split: option.split)

lemma reads_basic [steps_intro]: "steps (=) (connect e)" "steps (=) (parse_reference ref)" "steps (=) (listAllVMAttachments e)"
  unfolding connect_def parse_reference_def listAllVMAttachments_def by (intro steps_intro same_order)+

lemma reads_devices [steps_intro]: "steps (=) (read_devices e att ns)"
  by (induction ns) (auto intro!: steps_intro same_order)

lemma reads_hosts [steps_intro]: "steps (=) (ListHostPCIDevices e)" "steps (=) (lookupHostPCIDevice e a)"
  unfolding ListHostPCIDevices_def lookupHostPCIDevice_def by (intro steps_intro same_order)+

lemma reads_gpus [steps_intro]: "steps (=) (ListHostGPUs e)" "steps (=) (ensureHostPCIIsGPU e a)" "steps (=) (relatedPCIDevicesForGPU e a)"
  unfolding ListHostGPUs_def ensureHostPCIIsGPU_def relatedPCIDevicesForGPU_def Let_def by (intro steps_intro same_order)+

lemma reads_vm [steps_intro]:
  "steps (=) (domainPCIDevices e d n)" "steps (=) (ensurePCIAddressesAvailableForVM e n as)" "steps (=) (domainDeviceFlags e d)"
  "steps (=) (getNodeDeviceDriver e dev)" "steps (=) (readCurrentPCIDriver e a)" "steps (=) (attachedVMsForPCIAddresses e as)"
  unfolding domainPCIDevices_def ensurePCIAddressesAvailableForVM_def domainDeviceFlags_def getNodeDeviceDriver_def
    readCurrentPCIDriver_def attachedVMsForPCIAddresses_def Let_def
  by (auto intro!: steps_intro same_order split: option.split link.split)

lemma reads_list_vm [steps_intro]: "steps (=) (ListVMPCIDevices e n)"
  unfolding ListVMPCIDevices_def Let_def by (intro steps_intro same_order)

lemma read_same: "steps (=) m \<Longrightarrow> m w = (r, w') \<Longrightarrow> w' = w"
  by (metis stepsD)

lemma read_then: "steps (=) m \<Longrightarrow> bindE m f w = (case fst (m w) of Inl err \<Rightarrow> (Inl err, w) | Inr x \<Rightarrow> f x w)"
  by (cases "m w") (auto simp: bindE_def steps_def split: sum.split dest!: spec [of _ w])

text \<open>What an action issues.\<close>

definition issues :: "(pci_call \<Rightarrow> bool) \<Rightarrow> 'w pci_world \<Rightarrow> 'w pci_world \<Rightarrow> bool" where
  "issues P w w' \<longleftrightarrow> (\<exists>cs. pci_calls w' = pci_calls w @ cs \<and> list_all P cs)"

definition calls_from :: "'w pci_world \<Rightarrow> 'w pci_world \<Rightarrow> pci_call list" where
  "calls_from w w' = drop (length (pci_calls w)) (pci_calls w')"

lemma issues_order: "reflp (issues P)" "transp (issues P)"
  by (auto simp: issues_def reflp_def transp_def)

lemma issues_read: "steps (=) m \<Longrightarrow> steps (issues P) m"
  by (auto simp: steps_def issues_def)

lemma issues_perform [steps_intro]: "P c \<Longrightarrow> steps (issues P) (perform e c err)"
  by (auto simp: steps_def perform_def issues_def split: prod.split)

lemma issues_calls: "issues P w w' \<Longrightarrow> list_all P (calls_from w w')"
  by (auto simp: issues_def calls_from_def)

lemma calls_from_same [simp]: "calls_from w w = []"
  by (simp add: calls_from_def)

subsection \<open>Who else has a device\<close>

lemma partition_loop_spec:
  "set (snd (partition_loop vms t (b, es))) = set es \<union> {v \<in> TrimSpace ` set vms. v \<noteq> [] \<and> v \<noteq> t} \<and>
   (fst (partition_loop vms t (b, es)) \<longleftrightarrow> b \<or> (t \<noteq> [] \<and> t \<in> TrimSpace ` set vms))"
  by (induction vms arbitrary: b es) (auto simp: Let_def appendUnique_def)

lemma partition_elsewhere:
  "set (snd (partitionPCIAttachments vms t)) = {v \<in> TrimSpace ` set vms. v \<noteq> [] \<and> v \<noteq> TrimSpace t}"
  unfolding partitionPCIAttachments_def case_prod_beta
  using partition_loop_spec [of vms "TrimSpace t" False "[]"] by simp

lemma partition_target:
  "fst (partitionPCIAttachments vms t) \<longleftrightarrow> TrimSpace t \<noteq> [] \<and> TrimSpace t \<in> TrimSpace ` set vms"
  unfolding partitionPCIAttachments_def case_prod_beta
  using partition_loop_spec [of vms "TrimSpace t" False "[]"] by simp

lemma no_conflicts:
  "pciAttachmentConflicts att as t = [] \<longleftrightarrow>
     (\<forall>a \<in> set as. \<forall>other \<in> set (vms_at att (String a)). TrimSpace other \<in> {[], TrimSpace t})"
proof -
  have "pciAttachmentConflicts att as t = [] \<longleftrightarrow> (\<forall>a \<in> set as. snd (partitionPCIAttachments (vms_at att (String a)) t) = [])"
    by (auto simp: pciAttachmentConflicts_def Let_def)
  moreover have "snd (partitionPCIAttachments vms t) = [] \<longleftrightarrow> (\<forall>other \<in> set vms. TrimSpace other \<in> {[], TrimSpace t})" for vms
    using partition_elsewhere [of vms t] by (auto simp flip: set_empty)
  ultimately show ?thesis by simp
qed

lemma canonical_trimmed [simp]: "TrimSpace (canonicalDomainName e d n h) = canonicalDomainName e d n h"
  by (simp add: canonicalDomainName_def split: option.split)

subsection \<open>Attaching a device\<close>

lemma bind_vfio:
  assumes "bindToVFIO e dev a w = (r, w')"
  shows "(calls_from w w' = [] \<or> calls_from w w' = [DetachToVfio dev]) \<and> pci_calls w' = pci_calls w @ calls_from w w' \<and>
    (r = Inr () \<longrightarrow> (\<exists>driver. getNodeDeviceDriver e dev w' = (Inr driver, w') \<and> isVFIODriver driver))"
proof -
  obtain d1 where d1: "getNodeDeviceDriver e dev w = (d1, w)"
    using read_same [OF reads_vm(4)] by (metis surj_pair)
  show ?thesis
  proof (cases "case d1 of Inr driver \<Rightarrow> isVFIODriver driver | Inl _ \<Rightarrow> False")
    case True
    then show ?thesis using assms d1 by (auto simp: bindToVFIO_def bindR_def ret_def split: sum.splits)
  next
    case False
    obtain ok h where p: "Perform e (DetachToVfio dev) (pci_host w) = (ok, h)" by (metis surj_pair)
    let ?w = "w\<lparr>pci_host := h, pci_calls := pci_calls w @ [DetachToVfio dev]\<rparr>"
    obtain d2 where d2: "getNodeDeviceDriver e dev ?w = (d2, ?w)"
      using read_same [OF reads_vm(4)] by (metis surj_pair)
    show ?thesis
      using assms d1 False p d2
      by (cases d2) (auto simp: bindToVFIO_def bindR_def bindE_def perform_def mapErr_def calls_from_def ret_def fail_def
          split: if_splits)
  qed
qed

lemmas attach_front = AttachPCIToVM_def Let_def parse_reference_def liftE_def bindE_def connect_def guardE_def getW_def
  ask_def listAllVMAttachments_def fail_def

text \<open>A request that changes anything has passed every check.\<close>

lemma attach_checked:
  assumes run: "AttachPCIToVM e n ref w = (r, w')" and changed: "calls_from w w' \<noteq> []"
  obtains a d dev domains where "ParsePCIAddress ref = Inr a" "LookupDomain e (TrimSpace n) (pci_host w) = Some d"
    "LookupDevice e (nodeDeviceName a) (pci_host w) = Some dev" "AllDomains e (pci_host w) = Some domains"
    "list_all (\<lambda>other. TrimSpace other = []) (vms_at (attachments_of e (pci_host w) domains) (String a))"
    "bindE (bindToVFIO e dev a) (\<lambda>_. bindE (domainDeviceFlags e d) (\<lambda>flags.
       perform e (AttachDevice d (buildHostDevXML a True) flags) (AttachError (String a) (TrimSpace n)))) w = (r, w')"
proof -
  have named: "TrimSpace n \<noteq> []" using run changed by (auto simp: AttachPCIToVM_def Let_def fail_def)
  obtain a where a: "ParsePCIAddress ref = Inr a"
    using run changed named by (cases "ParsePCIAddress ref") (auto simp: attach_front)
  have c: "Connects e (pci_host w)"
    using run changed named a by (auto simp: attach_front split: if_splits)
  obtain d where d: "LookupDomain e (TrimSpace n) (pci_host w) = Some d"
    using run changed named a c by (cases "LookupDomain e (TrimSpace n) (pci_host w)") (auto simp: attach_front)
  obtain dev where dev: "LookupDevice e (nodeDeviceName a) (pci_host w) = Some dev"
    using run changed named a c d by (cases "LookupDevice e (nodeDeviceName a) (pci_host w)") (auto simp: attach_front)
  obtain domains where ds: "AllDomains e (pci_host w) = Some domains"
    using run changed named a c d dev by (cases "AllDomains e (pci_host w)") (auto simp: attach_front)
  let ?vms = "vms_at (attachments_of e (pci_host w) domains) (String a)"
  let ?t = "canonicalDomainName e d (TrimSpace n) (pci_host w)"
  let ?p = "partitionPCIAttachments ?vms ?t"
  let ?go = "bindE (bindToVFIO e dev a) (\<lambda>_. bindE (domainDeviceFlags e d) (\<lambda>flags.
       perform e (AttachDevice d (buildHostDevXML a True) flags) (AttachError (String a) (TrimSpace n))))"
  have rest: "(if snd ?p \<noteq> [] then fail (AlreadyAttached (String a) (snd ?p)) else if fst ?p then ret () else ?go) w = (r, w')"
    using run named a c d dev ds by (simp add: attach_front case_prod_beta)
  then have free: "snd ?p = []" "\<not> fst ?p" using changed by (auto simp: fail_def ret_def split: if_splits)
  have "{v \<in> TrimSpace ` set ?vms. v \<noteq> [] \<and> v \<noteq> ?t} = {}" using free(1) partition_elsewhere [of ?vms ?t] by simp
  then have "list_all (\<lambda>other. TrimSpace other = []) ?vms"
    using free(2) partition_target [of ?vms ?t] by (simp add: list_all_iff) (metis imageI)
  moreover have "?go w = (r, w')" using rest free by simp
  ultimately show thesis using that a d dev ds by blast
qed

text \<open>A device is bound to vfio-pci and given to a VM only if no VM's definition has it: requests
  that change anything name a device of the host that nobody has, rebind it at most once, and ask
  libvirt to attach exactly this device, last, with the driver found to be vfio right before.\<close>

theorem attached_device_was_free:
  assumes run: "AttachPCIToVM e n ref w = (r, w')" and changed: "calls_from w w' \<noteq> []"
  shows "\<exists>a d dev domains pre. ParsePCIAddress ref = Inr a \<and> LookupDomain e (TrimSpace n) (pci_host w) = Some d \<and>
    LookupDevice e (nodeDeviceName a) (pci_host w) = Some dev \<and> AllDomains e (pci_host w) = Some domains \<and>
    list_all (\<lambda>other. TrimSpace other = []) (vms_at (attachments_of e (pci_host w) domains) (String a)) \<and>
    (pre = [] \<or> pre = [DetachToVfio dev]) \<and>
    (calls_from w w' = pre \<or>
     (\<exists>flags w1 driver. calls_from w w' = pre @ [AttachDevice d (buildHostDevXML a True) flags] \<and>
        calls_from w w1 = pre \<and> getNodeDeviceDriver e dev w1 = (Inr driver, w1) \<and> isVFIODriver driver))"
proof -
  obtain a d dev domains where checked: "ParsePCIAddress ref = Inr a" "LookupDomain e (TrimSpace n) (pci_host w) = Some d"
    "LookupDevice e (nodeDeviceName a) (pci_host w) = Some dev" "AllDomains e (pci_host w) = Some domains"
    "list_all (\<lambda>other. TrimSpace other = []) (vms_at (attachments_of e (pci_host w) domains) (String a))"
    and rest: "bindE (bindToVFIO e dev a) (\<lambda>_. bindE (domainDeviceFlags e d) (\<lambda>flags.
       perform e (AttachDevice d (buildHostDevXML a True) flags) (AttachError (String a) (TrimSpace n)))) w = (r, w')"
    using attach_checked [OF run changed] by blast
  obtain b w1 where b: "bindToVFIO e dev a w = (b, w1)" by (metis surj_pair)
  note v = bind_vfio [OF b]
  have "calls_from w w' = calls_from w w1 \<or> (\<exists>flags. b = Inr () \<and>
      calls_from w w' = calls_from w w1 @ [AttachDevice d (buildHostDevXML a True) flags])"
  proof (cases b)
    case (Inl err)
    then show ?thesis using rest b by (simp add: bindE_def)
  next
    case (Inr u)
    obtain f where f: "domainDeviceFlags e d w1 = (f, w1)" using read_same [OF reads_vm(3)] by (metis surj_pair)
    obtain pre where pre: "pci_calls w1 = pci_calls w @ pre" using v by blast
    show ?thesis
    proof (cases f)
      case (Inl err)
      then show ?thesis using rest b f Inr by (simp add: bindE_def)
    next
      case (Inr flags)
      then have "perform e (AttachDevice d (buildHostDevXML a True) flags) (AttachError (String a) (TrimSpace n)) w1 = (r, w')"
        using rest b f \<open>b = Inr u\<close> by (simp add: bindE_def)
      then have "pci_calls w' = pci_calls w1 @ [AttachDevice d (buildHostDevXML a True) flags]"
        by (auto simp: perform_def split: prod.splits)
      then show ?thesis using \<open>b = Inr u\<close> pre by (simp add: calls_from_def)
    qed
  qed
  then consider "calls_from w w' = calls_from w w1"
    | flags driver where "calls_from w w' = calls_from w w1 @ [AttachDevice d (buildHostDevXML a True) flags]"
        "getNodeDeviceDriver e dev w1 = (Inr driver, w1)" "isVFIODriver driver"
    using v by blast
  then show ?thesis
  proof cases
    case 1
    then show ?thesis using checked v by (intro exI [of _ a] exI [of _ d] exI [of _ dev] exI [of _ domains]) auto
  next
    case 2
    show ?thesis
      by (rule exI [of _ a], rule exI [of _ d], rule exI [of _ dev], rule exI [of _ domains], rule exI [of _ "calls_from w w1"])
        (intro conjI checked disjI2 exI [of _ flags] exI [of _ w1] exI [of _ driver] 2 refl conjunct1 [OF v])
  qed
qed

subsection \<open>Attaching a group\<close>

lemma read_go:
  assumes "bindE m f w = (r, w')" "calls_from w w' \<noteq> []" "steps (=) m"
  obtains x where "m w = (Inr x, w)" "f x w = (r, w')"
proof -
  obtain q w1 where q: "m w = (q, w1)" by (metis surj_pair)
  with assms(3) have "w1 = w" using read_same by metis
  with q assms(1,2) that show thesis by (cases q) (auto simp: bindE_def)
qed

lemma parse_known [simp]: "ParsePCIAddress ref = Inr a \<Longrightarrow> parse_reference ref = ret a"
  by (rule ext) (simp add: parse_reference_def liftE_def ret_def)

lemma parse_reference_result: "parse_reference ref w = (Inr a, w') \<longleftrightarrow> ParsePCIAddress ref = Inr a \<and> w' = w"
  by (auto simp: parse_reference_def map_sum_def split: sum.splits)

lemma ask_result: "ask q err w = (Inr x, w') \<longleftrightarrow> q (pci_host w) = Some x \<and> w' = w"
  by (auto simp: ask_def split: option.splits)

lemma connect_result: "connect e w = (Inr u, w') \<longleftrightarrow> Connects e (pci_host w) \<and> w' = w"
  by (auto simp: connect_def bindE_eq_Inr_iff)

definition gives_device :: "PCIAddress \<Rightarrow> pci_call \<Rightarrow> bool" where
  "gives_device a c = (case c of AttachDevice d x fl \<Rightarrow> x = buildHostDevXML a True | DetachToVfio _ \<Rightarrow> True | _ \<Rightarrow> False)"

lemma bind_issues [steps_intro]: "steps (issues (gives_device a)) (bindToVFIO e dev b)"
  unfolding bindToVFIO_def
  by (intro steps_intro issues_order issues_read [OF reads_vm(4)]) (simp add: gives_device_def)

lemma attach_issues:
  assumes "ParsePCIAddress ref = Inr a"
  shows "steps (issues (gives_device a)) (AttachPCIToVM e n ref)"
proof -
  have p: "gives_device a (AttachDevice d (buildHostDevXML a True) fl)" for d fl by (simp add: gives_device_def)
  show ?thesis
    unfolding AttachPCIToVM_def Let_def parse_known [OF assms] bindE_ret case_prod_beta
    by (intro steps_intro issues_order issues_read [OF reads_ask] issues_read [OF reads_basic(1)]
        issues_read [OF reads_basic(3)] issues_read [OF reads_vm(3)] p)
qed

lemma steps_weaken: "steps (issues P) m \<Longrightarrow> (\<And>c. P c \<Longrightarrow> Q c) \<Longrightarrow> steps (issues Q) m"
  by (auto simp: steps_def issues_def list_all_iff) metis

lemma related_parsed:
  "a \<in> set (related_loop g devs seen rel) \<Longrightarrow> a \<in> set rel \<or> (\<exists>t. ParsePCIAddress t = Inr a)"
  by (induction g devs seen rel rule: related_loop.induct) (auto split: if_splits sum.splits)

lemma related_result:
  assumes "relatedPCIDevicesForGPU e a w = (Inr related, w')"
  obtains "related = [a]"
    | g devs where "set related = set (related_loop g devs {} [])" "String a \<in> String ` set (related_loop g devs {} [])"
    | g devs where "set related = insert a (set (related_loop g devs {} []))"
proof -
  obtain device :: HostPCIDevice and w1 where d: "(if IOMMUGroup device < 0 then ret [a]
      else bindE (ListHostPCIDevices e) (\<lambda>devs. let rel = related_loop (IOMMUGroup device) devs {} []
        in ret (sort_key String (if String a \<in> String ` set rel then rel else rel @ [a])))) w1 = (Inr related, w')"
    using assms unfolding relatedPCIDevicesForGPU_def by (rule bindE_eq_InrE)
  show thesis
  proof (cases "IOMMUGroup device < 0")
    case True
    then show thesis using d that(1) by simp
  next
    case False
    then obtain devs where l: "related = sort_key String (if String a \<in> String ` set (related_loop (IOMMUGroup device) devs {} [])
        then related_loop (IOMMUGroup device) devs {} [] else related_loop (IOMMUGroup device) devs {} [] @ [a])"
      using d by (auto simp: Let_def elim: bindE_eq_InrE)
    then have "set related = set (if String a \<in> String ` set (related_loop (IOMMUGroup device) devs {} [])
        then related_loop (IOMMUGroup device) devs {} [] else related_loop (IOMMUGroup device) devs {} [] @ [a])"
      by (simp only: set_sort)
    then show thesis
      using that(2) [of "IOMMUGroup device" devs] that(3) [of "IOMMUGroup device" devs] by (auto split: if_splits)
  qed
qed

lemma related_normal:
  assumes a: "ParsePCIAddress ref = Inr a" and r: "relatedPCIDevicesForGPU e a w = (Inr related, w')" and dev: "dev \<in> set related"
  shows "ParsePCIAddress (String dev) = Inr dev"
proof -
  have "dev = a \<or> (\<exists>t. ParsePCIAddress t = Inr dev)"
    using dev by (rule_tac related_result [OF r]) (auto dest: related_parsed)
  then show ?thesis using a accepted_reference_normal_form by blast
qed

text \<open>The request itself is one of the group.\<close>

lemma related_includes: "relatedPCIDevicesForGPU e a w = (Inr related, w') \<Longrightarrow> String a \<in> String ` set related"
  by (erule related_result) auto

text \<open>The functions of a GPU's group are given to a VM together or not at all: as soon as another
  VM's definition has one of them nothing is changed, and only devices of the group are given.\<close>

theorem gpu_group_was_free:
  assumes run: "AttachGPUToVM e n ref w = (r, w')" and changed: "calls_from w w' \<noteq> []"
  shows "\<exists>a d related domains. ParsePCIAddress ref = Inr a \<and> relatedPCIDevicesForGPU e a w = (Inr related, w) \<and>
    String a \<in> String ` set related \<and>
    LookupDomain e (TrimSpace n) (pci_host w) = Some d \<and> AllDomains e (pci_host w) = Some domains \<and>
    (\<forall>dev \<in> set related. \<forall>other \<in> set (vms_at (attachments_of e (pci_host w) domains) (String dev)).
       TrimSpace other = [] \<or> TrimSpace other = canonicalDomainName e d (TrimSpace n) (pci_host w)) \<and>
    list_all (\<lambda>c. \<exists>dev \<in> set related. gives_device dev c) (calls_from w w')"
proof -
  obtain a where a: "parse_reference ref w = (Inr a, w)"
    and r1: "bindE (ensureHostPCIIsGPU e a) (\<lambda>_. bindE (relatedPCIDevicesForGPU e a) (\<lambda>related.
      bindE (ensurePCIAddressesAvailableForVM e n related) (\<lambda>_.
        forE related (\<lambda>dev. AttachPCIToVM e n (String dev))))) w = (r, w')"
    by (rule read_go [OF run [unfolded AttachGPUToVM_def] changed reads_basic(2)])
  obtain u where r2: "bindE (relatedPCIDevicesForGPU e a) (\<lambda>related.
      bindE (ensurePCIAddressesAvailableForVM e n related) (\<lambda>_.
        forE related (\<lambda>dev. AttachPCIToVM e n (String dev)))) w = (r, w')"
    by (rule read_go [OF r1 changed reads_gpus(2)])
  obtain related where rel: "relatedPCIDevicesForGPU e a w = (Inr related, w)"
    and r3: "bindE (ensurePCIAddressesAvailableForVM e n related) (\<lambda>_.
        forE related (\<lambda>dev. AttachPCIToVM e n (String dev))) w = (r, w')"
    by (rule read_go [OF r2 changed reads_gpus(3)])
  obtain v where av: "ensurePCIAddressesAvailableForVM e n related w = (Inr v, w)"
    and r4: "forE related (\<lambda>dev. AttachPCIToVM e n (String dev)) w = (r, w')"
    by (rule read_go [OF r3 changed reads_vm(2)])
  have pa: "ParsePCIAddress ref = Inr a" using a by (simp add: parse_reference_result)
  obtain d domains where d: "LookupDomain e (TrimSpace n) (pci_host w) = Some d" "AllDomains e (pci_host w) = Some domains"
    "pciAttachmentConflicts (attachments_of e (pci_host w) domains) related (canonicalDomainName e d (TrimSpace n) (pci_host w)) = []"
    using av by (auto simp: ensurePCIAddressesAvailableForVM_def Let_def bindE_eq_Inr_iff ask_result connect_result
        listAllVMAttachments_def split: if_splits)
  have "steps (issues (\<lambda>c. \<exists>dev \<in> set related. gives_device dev c)) (forE related (\<lambda>dev. AttachPCIToVM e n (String dev)))"
    by (intro steps_intro issues_order)
      (rule steps_weaken [OF attach_issues [OF related_normal [OF pa rel]]], blast+)
  then have "list_all (\<lambda>c. \<exists>dev \<in> set related. gives_device dev c) (calls_from w w')"
    using r4 by (intro issues_calls) (rule stepsD)
  moreover have "\<forall>dev \<in> set related. \<forall>other \<in> set (vms_at (attachments_of e (pci_host w) domains) (String dev)).
       TrimSpace other = [] \<or> TrimSpace other = canonicalDomainName e d (TrimSpace n) (pci_host w)"
    using d(3) unfolding no_conflicts by simp
  ultimately show ?thesis using pa rel d(1,2) related_includes [OF rel] by blast
qed

subsection \<open>Detaching the drivers of unused GPUs\<close>

text \<open>Taking a device from its driver through sysfs changes no definition of a VM.\<close>

definition same_vms :: "'w pci_env \<Rightarrow> 'w \<Rightarrow> 'w \<Rightarrow> bool" where
  "same_vms e h h' \<longleftrightarrow> AllDomains e h' = AllDomains e h \<and>
     (\<forall>d. DomainName e d h' = DomainName e d h \<and> DomainInactiveXML e d h' = DomainInactiveXML e d h \<and>
          DomainXML e d h' = DomainXML e d h)"

definition unbinding_keeps_vms :: "'w pci_env \<Rightarrow> bool" where
  "unbinding_keeps_vms e \<longleftrightarrow> (\<forall>p t h. same_vms e h (snd (Perform e (WriteUnbind p t) h)))"

lemma same_vms_trans: "same_vms e h h1 \<Longrightarrow> same_vms e h1 h2 \<Longrightarrow> same_vms e h h2"
  by (simp add: same_vms_def)

lemma same_attachments: "same_vms e h h' \<Longrightarrow> attachments_of e h' = attachments_of e h"
proof -
  assume s: "same_vms e h h'"
  have "note_domain e h' att d = note_domain e h att d" for att d
  proof -
    have "domain_document e d h' = domain_document e d h" "DomainName e d h' = DomainName e d h"
      using s by (simp_all add: domain_document_def same_vms_def split: option.split)
    then show ?thesis unfolding note_domain_def by (simp only:)
  qed
  then have "note_domain e h' = note_domain e h" by blast
  then show ?thesis by (intro ext) (simp add: attachments_of_def)
qed

text \<open>A device no VM of the host has, and the request to take it from its driver.\<close>

definition unused_device :: "'w pci_env \<Rightarrow> 'w \<Rightarrow> PCIAddress \<Rightarrow> bool" where
  "unused_device e h a \<longleftrightarrow>
     (case AllDomains e h of None \<Rightarrow> False | Some domains \<Rightarrow> vms_at (attachments_of e h domains) (String a) = [])"

definition unbinds_unused :: "'w pci_env \<Rightarrow> 'w \<Rightarrow> pci_call \<Rightarrow> bool" where
  "unbinds_unused e h c \<longleftrightarrow>
     (\<exists>a. c = WriteUnbind (driver_path a @ ''/unbind'') (String a) \<and> unused_device e h a)"

lemma same_unused: "same_vms e h h' \<Longrightarrow> unused_device e h' a = unused_device e h a"
proof -
  assume s: "same_vms e h h'"
  from same_attachments [OF s] s show ?thesis by (simp add: unused_device_def same_vms_def split: option.split)
qed

text \<open>What happens from a state whose VMs are those of a given host.\<close>

definition from_host :: "'w pci_env \<Rightarrow> 'w \<Rightarrow> 'w pci_world \<Rightarrow> 'w pci_world \<Rightarrow> bool" where
  "from_host e h w w' \<longleftrightarrow> (same_vms e h (pci_host w) \<longrightarrow>
     same_vms e h (pci_host w') \<and> issues (unbinds_unused e h) w w')"

lemma from_host_order: "reflp (from_host e h)" "transp (from_host e h)"
proof -
  show "reflp (from_host e h)" by (simp add: from_host_def reflp_def issues_def)
  show "transp (from_host e h)" using issues_order(2) unfolding from_host_def transp_def by blast
qed

lemma from_host_read: "steps (=) m \<Longrightarrow> steps (from_host e h) m"
  by (simp add: steps_def from_host_def issues_def)

lemma force_unused:
  assumes "unbinding_keeps_vms e" "unused_device e h a"
  shows "steps (from_host e h) (forcePCIDriverToNone e a)"
proof -
  have "steps (from_host e h) (perform e (WriteUnbind (driver_path a @ ''/unbind'') (String a)) err)" for err
    using assms
    by (auto simp: steps_def perform_def from_host_def issues_def unbinds_unused_def unbinding_keeps_vms_def
        split: prod.split) (metis same_vms_trans snd_conv)
  then show ?thesis
    unfolding forcePCIDriverToNone_def
    by (intro steps_intro from_host_order from_host_read [OF reads_vm(5)])
qed

lemma collect_steps:
  "reflp R \<Longrightarrow> transp R \<Longrightarrow> (\<And>x. x \<in> set xs \<Longrightarrow> steps R (f x)) \<Longrightarrow> steps R (collect_errors f xs)"
  by (induction xs) (auto intro!: steps_intro)

lemma appendUnique_new: "appendUnique = app_new"
  by (intro ext) (simp only: appendUnique_def)

lemma set_attached:
  "set (foldl (\<lambda>vms a. foldl appendUnique vms (vms_at att (String a))) acc as) = set acc \<union> (\<Union>a \<in> set as. set (vms_at att (String a)))"
  unfolding appendUnique_new by (induction as arbitrary: acc) auto

lemma attached_none:
  assumes "attachedVMsForPCIAddresses e as w = (Inr [], w')" "a \<in> set as"
  shows "unused_device e (pci_host w) a"
proof -
  from assms(1) obtain domains where d: "AllDomains e (pci_host w) = Some domains"
    "sort (foldl (\<lambda>vms a. foldl appendUnique vms (vms_at (attachments_of e (pci_host w) domains) (String a))) [] as) = []"
    by (auto simp: attachedVMsForPCIAddresses_def listAllVMAttachments_def bindE_eq_Inr_iff ask_result connect_result)
  from arg_cong [OF d(2), of set] have "\<forall>a \<in> set as. vms_at (attachments_of e (pci_host w) domains) (String a) = []"
    by (simp only: set_sort set_attached) simp
  with d(1) assms(2) show ?thesis by (simp add: unused_device_def)
qed

lemma detach_gpu_steps:
  assumes keeps: "unbinding_keeps_vms e"
  shows "steps (from_host e h) (detach_gpu e gpu)"
proof -
  have last: "steps (from_host e h) (bindR (attachedVMsForPCIAddresses e related) (\<lambda>r. case r of
           Inl err \<Rightarrow> ret [InStep ''attachments'' (Address gpu) err]
         | Inr vms \<Rightarrow> if vms \<noteq> [] then ret []
             else collect_errors (\<lambda>dev. mapErr (InStep ''detach GPU pci'' (String dev)) (forcePCIDriverToNone e dev)) related))"
    (is "steps _ ?m") for related
    unfolding steps_def
  proof
    fix w
    obtain q where q: "attachedVMsForPCIAddresses e related w = (q, w)" using read_same [OF reads_vm(6)] by (metis surj_pair)
    show "from_host e h w (snd (?m w))"
    proof (cases "q = Inr [] \<and> same_vms e h (pci_host w)")
      case False
      then show ?thesis using q
        by (auto simp: bindR_def ret_def from_host_def issues_def split: sum.split)
    next
      case True
      then have "unused_device e h a" if "a \<in> set related" for a
      proof -
        have "attachedVMsForPCIAddresses e related w = (Inr [], w)" using q True by simp
        from attached_none [OF this that] show ?thesis using True same_unused [of e h "pci_host w" a] by simp
      qed
      then have "steps (from_host e h) (collect_errors (\<lambda>dev. mapErr (InStep ''detach GPU pci'' (String dev))
          (forcePCIDriverToNone e dev)) related)"
        by (intro collect_steps from_host_order steps_mapErr force_unused keeps)
      then show ?thesis using q True by (simp add: bindR_def steps_def)
    qed
  qed
  show ?thesis
    unfolding detach_gpu_def
    by (intro steps_intro from_host_order from_host_read [OF reads_basic(2)] from_host_read [OF reads_gpus(3)] last)
qed

lemma detach_gpus_steps: "unbinding_keeps_vms e \<Longrightarrow> steps (from_host e h) (detach_gpus e gpus)"
  by (induction gpus) (auto intro!: steps_intro from_host_order detach_gpu_steps)

text \<open>C33: detaching the GPUs of a host touches only devices that no VM is defined with: every call takes
  such a device from its driver, and no call changes a VM.\<close>

theorem used_gpus_keep_driver:
  assumes keeps: "unbinding_keeps_vms e" and run: "DetachAllGPUs e w = (r, w')"
  shows "list_all (\<lambda>c. \<exists>a. c = WriteUnbind (driver_path a @ ''/unbind'') (String a) \<and>
      (\<exists>domains. AllDomains e (pci_host w) = Some domains \<and>
         vms_at (attachments_of e (pci_host w) domains) (String a) = [])) (calls_from w w')"
proof -
  have "steps (from_host e (pci_host w)) (DetachAllGPUs e)"
    unfolding DetachAllGPUs_def report_def
    by (intro steps_intro from_host_order from_host_read [OF reads_gpus(1)] detach_gpus_steps keeps)
  from stepsD [OF this run] have "issues (unbinds_unused e (pci_host w)) w w'"
    by (simp add: from_host_def same_vms_def)
  then show ?thesis
    using issues_calls by (fastforce simp: list_all_iff unbinds_unused_def unused_device_def split: option.splits)
qed

subsection \<open>A host with one GPU\<close>

definition gpu_address :: PCIAddress where
  "gpu_address = \<lparr>Domain = 0, Bus = 0x65, Slot = 0, Function = 0\<rparr>"

definition field :: "string \<Rightarrow> string \<Rightarrow> xml" where
  "field n t = Elem n [] [CharData t]"

definition gpu_document :: "string \<Rightarrow> xml" where
  "gpu_document driver = Elem ''device'' []
     [field ''name'' (nodeDeviceName gpu_address), Elem ''driver'' [] [field ''name'' driver],
      Elem ''capability'' [(''type'', ''pci'')]
        [field ''class'' ''0x030000'', field ''domain'' (dec_text (Domain gpu_address)),
         field ''bus'' (dec_text (Bus gpu_address)), field ''slot'' (dec_text (Slot gpu_address)),
         field ''function'' (dec_text (Function gpu_address))]]"

text \<open>The state is the driver the device is bound to.\<close>

fun workstation_does :: "pci_call \<Rightarrow> string \<Rightarrow> bool \<times> string" where
  "workstation_does (DetachToVfio dev) h = (True, ''vfio-pci'')"
| "workstation_does (ReAttach dev) h = (True, ''nvidia'')"
| "workstation_does (WriteUnbind p t) h = (True, [])"
| "workstation_does c h = (True, h)"

definition workstation :: "string pci_env" where
  "workstation = \<lparr>Connects = (\<lambda>h. True), AllDomains = (\<lambda>h. Some [''u1'']),
     AllNodeDevices = (\<lambda>h. Some [nodeDeviceName gpu_address]),
     LookupDomain = (\<lambda>n h. if n = ''vm1'' then Some ''u1'' else None),
     LookupDevice = (\<lambda>n h. if n = nodeDeviceName gpu_address then Some n else None),
     DomainName = (\<lambda>d h. Some ''vm1''), DomainInactiveXML = (\<lambda>d h. Some (Some (Elem ''domain'' [] []))),
     DomainXML = (\<lambda>d h. None), DomainState = (\<lambda>d h. Some Running),
     DeviceXML = (\<lambda>n h. Some (Some (gpu_document h))),
     DriverLink = (\<lambda>p h. if h = [] then NoLink else LinkTo (''../drivers/'' @ h)),
     Perform = workstation_does\<rparr>"

definition idle_gpu :: "string pci_world" where
  "idle_gpu = \<lparr>pci_host = ''nvidia'', pci_calls = []\<rparr>"

lemma gpu_parse [simp]: "ParsePCIAddress (String gpu_address) = Inr gpu_address"
  by (rule parse_plain_form) (simp_all add: gpu_address_def written_forms_def)

lemma gpu_class [simp]: "classLooksLikeGPU ''0x030000''"
proof -
  have "TrimSpace ''0x030000'' = ''0x030000''" "HasPrefix ''0x030000'' ''0x''" "underscore_ok True ''030000''"
    by code_simp+
  moreover have "read_base 16 0 ''030000'' = Some 196608" by (simp add: digit_val_def)
  ultimately show ?thesis
    by (simp add: classLooksLikeGPU_def parseXMLPCIComponent_def ParsePrefixedHex_def ParseUint_def)
qed

lemma gpu_node:
  "parseHostPCIDevice (Some (gpu_document h)) = Inr \<lparr>NodeName = TrimSpace (nodeDeviceName gpu_address), DevicePath = [],
     Address = String gpu_address, HostAddress = gpu_address, Driver = normalizeDriverDisplayName h, Vendor = [], VendorID = [],
     Product = [], ProductID = [], Class = ''0x030000'', IOMMUGroup = -1, NUMANode = -1, IsGPU = True,
     ManagedByVFIO = isVFIODriver h, AttachedToVMs = []\<rparr>"
proof -
  have trim: "TrimSpace (nodeDeviceName gpu_address) = nodeDeviceName gpu_address" "TrimSpace ''0x030000'' = ''0x030000''" by code_simp+
  have ne: "nodeDeviceName gpu_address \<noteq> []" by (simp add: nodeDeviceName_def)
  show ?thesis
    unfolding gpu_document_def field_def
    using trim ne conjunct2 [OF address_fields_read_back [of gpu_address]]
    by (simp add: parseHostPCIDevice_def no_node_def no_capability_def no_text_def optional_number_def)
qed

lemma workstation_simps [simp]:
  "Connects workstation h" "AllDomains workstation h = Some [''u1'']"
  "AllNodeDevices workstation h = Some [nodeDeviceName gpu_address]"
  "LookupDomain workstation n h = (if n = ''vm1'' then Some ''u1'' else None)"
  "LookupDevice workstation n h = (if n = nodeDeviceName gpu_address then Some n else None)"
  "DomainName workstation d h = Some ''vm1''" "DomainInactiveXML workstation d h = Some (Some (Elem ''domain'' [] []))"
  "DomainXML workstation d h = None" "DomainState workstation d h = Some Running"
  "DeviceXML workstation n h = Some (Some (gpu_document h))"
  "DriverLink workstation p h = (if h = [] then NoLink else LinkTo (''../drivers/'' @ h))"
  "Perform workstation c h = workstation_does c h"
  by (simp_all add: workstation_def)

lemma workstation_keeps: "unbinding_keeps_vms workstation"
  by (simp add: unbinding_keeps_vms_def same_vms_def)

lemma workstation_attachments [simp]: "attachments_of workstation h [''u1''] = Map.empty"
  by (simp add: attachments_of_def note_domain_def domain_document_def parseVMPCIDevices_def)

lemma workstation_driver [simp]:
  "readCurrentPCIDriver workstation a w = (Inr (if pci_host w = [] then [] else Base (''../drivers/'' @ pci_host w)), w)"
  by (simp add: readCurrentPCIDriver_def bindE_def getW_def ret_def)

lemma workstation_force:
  "forcePCIDriverToNone workstation a idle_gpu =
     (Inr (), \<lparr>pci_host = [], pci_calls = [WriteUnbind (driver_path a @ ''/unbind'') (String a)]\<rparr>)"
proof -
  have "Base ''../drivers/nvidia'' = ''nvidia''" "\<not> isNoneDriver ''nvidia''" "isNoneDriver []" by code_simp+
  then show ?thesis
    by (simp add: forcePCIDriverToNone_def bindE_def idle_gpu_def perform_def ret_def)
qed

lemma workstation_gpus: "ListHostGPUs workstation idle_gpu =
    (Inr [\<lparr>NodeName = TrimSpace (nodeDeviceName gpu_address), DevicePath = [],
     Address = String gpu_address, HostAddress = gpu_address, Driver = ''nvidia'', Vendor = [], VendorID = [],
     Product = [], ProductID = [], Class = ''0x030000'', IOMMUGroup = -1, NUMANode = -1, IsGPU = True,
     ManagedByVFIO = False, AttachedToVMs = []\<rparr>], idle_gpu)"
proof -
  have "normalizeDriverDisplayName ''nvidia'' = ''nvidia''" "\<not> isVFIODriver ''nvidia''" by code_simp+
  moreover have "listAllVMAttachments workstation idle_gpu = (Inr Map.empty, idle_gpu)"
    by (simp add: listAllVMAttachments_def bindE_def getW_def ask_def)
  ultimately show ?thesis
    by (simp add: ListHostGPUs_def ListHostPCIDevices_def bindE_def connect_def getW_def guardE_def ask_def ret_def)
      (simp add: idle_gpu_def ret_def bindE_def ask_def liftE_def gpu_node gpus_of_def vms_at_def)
qed

lemma workstation_detaches:
  "DetachAllGPUs workstation idle_gpu =
     (Inr (), \<lparr>pci_host = [], pci_calls = [WriteUnbind (driver_path gpu_address @ ''/unbind'') (String gpu_address)]\<rparr>)"
proof -
  have l: "listAllVMAttachments workstation idle_gpu = (Inr Map.empty, idle_gpu)"
    by (simp add: listAllVMAttachments_def bindE_def getW_def ask_def)
  have c: "connect workstation idle_gpu = (Inr (), idle_gpu)"
    by (simp add: connect_def bindE_def getW_def guardE_def)
  have "relatedPCIDevicesForGPU workstation gpu_address idle_gpu = (Inr [gpu_address], idle_gpu)"
    by (simp add: relatedPCIDevicesForGPU_def lookupHostPCIDevice_def bindE_def c ask_def ret_def)
      (simp add: idle_gpu_def liftE_def gpu_node)
  moreover have "attachedVMsForPCIAddresses workstation [gpu_address] idle_gpu = (Inr [], idle_gpu)"
    by (simp add: attachedVMsForPCIAddresses_def bindE_def c l ret_def vms_at_def)
  moreover have "parse_reference (String gpu_address) idle_gpu = (Inr gpu_address, idle_gpu)"
    by (simp add: parse_known ret_def)
  ultimately show ?thesis
    by (simp add: DetachAllGPUs_def workstation_gpus bindE_def mapErr_def detach_gpu_def bindR_def workstation_force report_def ret_def)
qed

theorem used_gpus_keep_driver_witness:
  "calls_from idle_gpu (snd (DetachAllGPUs workstation idle_gpu)) \<noteq> [] \<and>
   list_all (\<lambda>c. \<exists>a. c = WriteUnbind (driver_path a @ ''/unbind'') (String a) \<and>
      (\<exists>domains. AllDomains workstation (pci_host idle_gpu) = Some domains \<and>
         vms_at (attachments_of workstation (pci_host idle_gpu) domains) (String a) = []))
     (calls_from idle_gpu (snd (DetachAllGPUs workstation idle_gpu)))"
  using used_gpus_keep_driver [OF workstation_keeps workstation_detaches]
  unfolding workstation_detaches snd_conv by (intro conjI) (simp add: calls_from_def idle_gpu_def)

definition gpu_given :: "string pci_world" where
  "gpu_given = \<lparr>pci_host = ''vfio-pci'', pci_calls = [DetachToVfio (nodeDeviceName gpu_address),
     AttachDevice ''u1'' (buildHostDevXML gpu_address True) [ModifyConfig, ModifyLive]]\<rparr>"

lemma gpu_driver: "getNodeDeviceDriver workstation dev w = (Inr (TrimSpace (pci_host w)), w)"
  by (simp add: getNodeDeviceDriver_def bindE_def ask_def gpu_document_def field_def no_node_def ret_def)

lemma workstation_bind:
  "bindToVFIO workstation dev a idle_gpu = (Inr (), \<lparr>pci_host = ''vfio-pci'', pci_calls = [DetachToVfio dev]\<rparr>)"
proof -
  have "TrimSpace ''nvidia'' = ''nvidia''" "TrimSpace ''vfio-pci'' = ''vfio-pci''" "\<not> isVFIODriver ''nvidia''"
    "isVFIODriver ''vfio-pci''" by code_simp+
  then show ?thesis
    by (simp add: bindToVFIO_def bindR_def bindE_def mapErr_def gpu_driver perform_def idle_gpu_def ret_def)
qed

lemma workstation_gives: "AttachPCIToVM workstation ''vm1'' (String gpu_address) idle_gpu = (Inr (), gpu_given)"
proof -
  have "TrimSpace ''vm1'' = ''vm1''" by code_simp
  moreover have "partitionPCIAttachments [] t = (False, [])" for t by (simp add: partitionPCIAttachments_def)
  ultimately show ?thesis
    by (simp add: AttachPCIToVM_def parse_known bindE_def connect_def getW_def guardE_def ask_def listAllVMAttachments_def
        vms_at_def workstation_bind domainDeviceFlags_def live_states_def ret_def perform_def gpu_given_def)
qed

lemma gpu_given_calls: "calls_from idle_gpu gpu_given \<noteq> []"
  by (simp add: calls_from_def idle_gpu_def gpu_given_def)

theorem attached_device_was_free_witness:
  "\<exists>a d pre flags. ParsePCIAddress (String gpu_address) = Inr a \<and>
     calls_from idle_gpu gpu_given = pre @ [AttachDevice d (buildHostDevXML a True) flags]"
proof -
  have "calls_from idle_gpu gpu_given \<noteq> pre" if "pre = [] \<or> pre = [DetachToVfio dev]" for pre dev
    using that by (auto simp: calls_from_def idle_gpu_def gpu_given_def)
  then show ?thesis using attached_device_was_free [OF workstation_gives gpu_given_calls] by metis
qed

lemma workstation_gives_gpu: "AttachGPUToVM workstation ''vm1'' (String gpu_address) idle_gpu = (Inr (), gpu_given)"
proof -
  have c: "connect workstation idle_gpu = (Inr (), idle_gpu)"
    by (simp add: connect_def bindE_def getW_def guardE_def)
  have look: "lookupHostPCIDevice workstation gpu_address idle_gpu = (parseHostPCIDevice (Some (gpu_document ''nvidia'')), idle_gpu)"
    by (simp add: lookupHostPCIDevice_def bindE_def c ask_def liftE_def) (simp add: idle_gpu_def)
  have "relatedPCIDevicesForGPU workstation gpu_address idle_gpu = (Inr [gpu_address], idle_gpu)"
    "ensureHostPCIIsGPU workstation gpu_address idle_gpu = (Inr (), idle_gpu)"
    by (simp_all add: relatedPCIDevicesForGPU_def ensureHostPCIIsGPU_def bindE_def look gpu_node ret_def)
  moreover have "ensurePCIAddressesAvailableForVM workstation ''vm1'' [gpu_address] idle_gpu = (Inr (), idle_gpu)"
  proof -
    have "TrimSpace ''vm1'' = ''vm1''" by code_simp
    then show ?thesis
      by (simp add: ensurePCIAddressesAvailableForVM_def bindE_def c ask_def listAllVMAttachments_def getW_def
          pciAttachmentConflicts_def vms_at_def partitionPCIAttachments_def ret_def Let_def)
  qed
  ultimately show ?thesis
    by (simp add: AttachGPUToVM_def parse_known bindE_def workstation_gives ret_def)
qed

end
