(* ===== verification/PciService.thy ===== *)
theory PciService
  imports MasterDB Pci
begin

text \<open>
  GPUs through the cluster: the handlers of the slave (\<open>slave/pci/setupgrpc.go\<close>), the client of the
  master (\<open>master/pci/pci.go\<close>) and the service on top of it (\<open>master/services/pci.go\<close>), which asks
  that a VM be shut off before its GPUs are changed.
\<close>

subsection \<open>Messages\<close>

record HostGPU =
  GpuNodeName :: string
  GpuPath :: string
  GpuAddress :: string
  GpuDomain :: "32 word"
  GpuBus :: "32 word"
  GpuSlot :: "32 word"
  GpuFunction :: "32 word"
  GpuDriver :: string
  GpuVendor :: string
  GpuVendorId :: string
  GpuProduct :: string
  GpuProductId :: string
  GpuClass :: string
  GpuGroup :: "32 word"
  GpuNode :: "32 word"
  GpuByVfio :: bool
  GpuAttachedTo :: "string list"

record VMGPU =
  VgAddress :: string
  VgDomain :: "32 word"
  VgBus :: "32 word"
  VgSlot :: "32 word"
  VgFunction :: "32 word"
  VgManaged :: bool
  VgAlias :: string

definition hostGPUToProto :: "HostPCIDevice \<Rightarrow> HostGPU" where
  "hostGPUToProto dev =
     \<lparr>GpuNodeName = NodeName dev, GpuPath = DevicePath dev, GpuAddress = Address dev,
      GpuDomain = ucast (Domain (HostAddress dev)), GpuBus = ucast (Bus (HostAddress dev)),
      GpuSlot = ucast (Slot (HostAddress dev)), GpuFunction = ucast (Function (HostAddress dev)),
      GpuDriver = Driver dev, GpuVendor = Vendor dev, GpuVendorId = VendorID dev, GpuProduct = Product dev,
      GpuProductId = ProductID dev, GpuClass = Class dev, GpuGroup = word_of_int (IOMMUGroup dev),
      GpuNode = word_of_int (NUMANode dev), GpuByVfio = ManagedByVFIO dev, GpuAttachedTo = AttachedToVMs dev\<rparr>"

definition vmGPUToProto :: "VMPCIDevice \<Rightarrow> VMGPU" where
  "vmGPUToProto dev =
     \<lparr>VgAddress = VmAddress dev, VgDomain = ucast (Domain (VmDeviceAddress dev)), VgBus = ucast (Bus (VmDeviceAddress dev)),
      VgSlot = ucast (Slot (VmDeviceAddress dev)), VgFunction = ucast (Function (VmDeviceAddress dev)),
      VgManaged = Managed dev, VgAlias = Alias dev\<rparr>"

datatype gpu_rpc =
    ListGpus
  | ListGpusIommu
  | ListVmGpus string
  | GiveGpu string string
  | TakeGpu string string
  | ReturnGpu string

datatype gpu_reply = GpuList "HostGPU list" | VmGpuList "VMGPU list" | GpuOk

subsection \<open>The handlers of a slave\<close>

definition serve_gpu :: "'w pci_env \<Rightarrow> gpu_rpc \<Rightarrow> ('w, gpu_reply) pci_act" where
  "serve_gpu e r =
     (case r of
        ListGpus \<Rightarrow> bindE (ListHostGPUs e) (\<lambda>devices. ret (GpuList (map hostGPUToProto devices)))
      | ListGpusIommu \<Rightarrow> bindE (ListHostGPUsWithIOMMU e) (\<lambda>devices. ret (GpuList (map hostGPUToProto devices)))
      | ListVmGpus n \<Rightarrow> bindE (ListVMGPUs e n) (\<lambda>devices. ret (VmGpuList (map vmGPUToProto devices)))
      | GiveGpu n ref \<Rightarrow> bindE (AttachGPUToVM e n ref) (\<lambda>_. ret GpuOk)
      | TakeGpu n ref \<Rightarrow> bindE (DetachGPUFromVM e n ref) (\<lambda>_. ret GpuOk)
      | ReturnGpu ref \<Rightarrow> bindE (ReturnGPUToHost e ref) (\<lambda>_. ret GpuOk))"

subsection \<open>The master\<close>

record 'w gpu_env =
  GpuCall :: "grpc_conn \<Rightarrow> gpu_rpc \<Rightarrow> 'w \<Rightarrow> (string + gpu_reply) \<times> 'w"
  VmByName :: "grpc_conn \<Rightarrow> string \<Rightarrow> 'w \<Rightarrow> (string + vm option) \<times> 'w"

text \<open>What the master has asked slaves, in order; for a VM with the answer.\<close>

datatype gpu_event = Asked grpc_conn gpu_rpc | LookedUp grpc_conn string "string + vm option"

record 'w gpu_master =
  gm_conns :: "ConnectionsStruct list"
  gm_ext :: 'w
  gm_sent :: "gpu_event list"

datatype gpu_error =
    MachineNameRequired
  | MachineNotConnected string
  | GpuVmNameRequired
  | GpuRefRequired
  | GpuVmMissing string string
  | OtherMachine string string string
  | MustBeShutOff string string
  | InUseByVm string string
  | GpuRpcError string

type_synonym ('w, 'a) gact = "('w gpu_master, gpu_error, 'a) act"

definition gpu_call :: "'w gpu_env \<Rightarrow> grpc_conn \<Rightarrow> gpu_rpc \<Rightarrow> ('w, gpu_reply) gact" where
  "gpu_call e c r s =
     (case GpuCall e c r (gm_ext s) of
        (res, x) \<Rightarrow> (map_sum GpuRpcError id res, s\<lparr>gm_ext := x, gm_sent := gm_sent s @ [Asked c r]\<rparr>))"

definition find_vm :: "'w gpu_env \<Rightarrow> grpc_conn \<Rightarrow> string \<Rightarrow> ('w, vm option) gact" where
  "find_vm e c n s =
     (case VmByName e c n (gm_ext s) of
        (res, x) \<Rightarrow> (map_sum GpuRpcError id res, s\<lparr>gm_ext := x, gm_sent := gm_sent s @ [LookedUp c n res]\<rparr>))"

text \<open>The client: names and references are trimmed and must not be empty.\<close>

definition list_gpus :: "'w gpu_env \<Rightarrow> grpc_conn \<Rightarrow> gpu_rpc \<Rightarrow> ('w, HostGPU list) gact" where
  "list_gpus e c r = bindE (gpu_call e c r) (\<lambda>v. ret (case v of GpuList gpus \<Rightarrow> gpus | _ \<Rightarrow> []))"

definition list_vm_gpus :: "'w gpu_env \<Rightarrow> grpc_conn \<Rightarrow> string \<Rightarrow> ('w, VMGPU list) gact" where
  "list_vm_gpus e c vmName0 =
     (let vmName = TrimSpace vmName0 in
      if vmName = [] then fail GpuVmNameRequired
      else bindE (gpu_call e c (ListVmGpus vmName)) (\<lambda>v. ret (case v of VmGpuList gpus \<Rightarrow> gpus | _ \<Rightarrow> [])))"

definition vm_gpu_request :: "'w gpu_env \<Rightarrow> grpc_conn \<Rightarrow> (string \<Rightarrow> string \<Rightarrow> gpu_rpc) \<Rightarrow> string \<Rightarrow> string \<Rightarrow> ('w, unit) gact" where
  "vm_gpu_request e c r vmName0 gpuRef0 =
     (let vmName = TrimSpace vmName0; gpuRef = TrimSpace gpuRef0 in
      if vmName = [] then fail GpuVmNameRequired
      else if gpuRef = [] then fail GpuRefRequired
      else bindE (gpu_call e c (r vmName gpuRef)) (\<lambda>_. ret ()))"

definition return_gpu_request :: "'w gpu_env \<Rightarrow> grpc_conn \<Rightarrow> string \<Rightarrow> ('w, unit) gact" where
  "return_gpu_request e c gpuRef0 =
     (let gpuRef = TrimSpace gpuRef0 in
      if gpuRef = [] then fail GpuRefRequired
      else bindE (gpu_call e c (ReturnGpu gpuRef)) (\<lambda>_. ret ()))"

text \<open>The service.\<close>

definition machineConnection :: "string \<Rightarrow> ('w, ConnectionsStruct \<times> grpc_conn) gact" where
  "machineConnection machineName0 =
     (let machineName = TrimSpace machineName0 in
      if machineName = [] then fail MachineNameRequired
      else bindE (getW (\<lambda>s. GetConnectionByMachineName (gm_conns s) machineName)) (\<lambda>found.
             case found of None \<Rightarrow> fail (MachineNotConnected machineName)
             | Some mach \<Rightarrow> (case Connection mach of None \<Rightarrow> fail (MachineNotConnected machineName)
                               | Some c \<Rightarrow> ret (mach, c))))"

definition vmOnMachine :: "'w gpu_env \<Rightarrow> ConnectionsStruct \<Rightarrow> grpc_conn \<Rightarrow> string \<Rightarrow> ('w, vm) gact" where
  "vmOnMachine e mach c vmName0 =
     (let vmName = TrimSpace vmName0 in
      if vmName = [] then fail GpuVmNameRequired
      else bindR (find_vm e c vmName) (\<lambda>r.
             case r of Inr (Some v) \<Rightarrow>
               (let vmMachine = TrimSpace (VmMachine v) in
                if vmMachine \<noteq> [] \<and> \<not> EqualFold vmMachine (MachineName mach)
                then fail (OtherMachine vmName vmMachine (MachineName mach)) else ret v)
             | _ \<Rightarrow> fail (GpuVmMissing vmName (MachineName mach))))"

definition ensureVMShutoff :: "vm \<Rightarrow> string \<Rightarrow> ('w, unit) gact" where
  "ensureVMShutoff v machineName = guardE (VmState v = VmShutoff) (MustBeShutOff (VmName v) machineName)"

definition gpu_matches :: "string \<Rightarrow> HostGPU \<Rightarrow> bool" where
  "gpu_matches refLower gpu =
     list_ex (\<lambda>c. c \<noteq> [] \<and> (ToLower c = refLower \<or> HasSuffix (ToLower c) (''/'' @ refLower) \<or> HasSuffix (ToLower c) refLower))
       [TrimSpace (GpuAddress gpu), TrimSpace (GpuNodeName gpu), TrimSpace (GpuPath gpu)]"

definition findGPUByReference :: "HostGPU list \<Rightarrow> string \<Rightarrow> HostGPU option" where
  "findGPUByReference gpus gpuRef0 =
     (let gpuRef = TrimSpace gpuRef0 in
      if gpuRef = [] then None else List.find (gpu_matches (ToLower gpuRef)) gpus)"

definition ensureAttachedVMsAreShutoff :: "'w gpu_env \<Rightarrow> ConnectionsStruct \<Rightarrow> grpc_conn \<Rightarrow> string \<Rightarrow> ('w, unit) gact" where
  "ensureAttachedVMsAreShutoff e mach c gpuRef =
     bindE (list_gpus e c ListGpus) (\<lambda>gpus.
       case findGPUByReference gpus gpuRef of None \<Rightarrow> ret ()
       | Some target \<Rightarrow> forE (GpuAttachedTo target) (\<lambda>n.
           let vmName = TrimSpace n in
           if vmName = [] then ret ()
           else bindE (vmOnMachine e mach c vmName) (\<lambda>v.
                  guardE (VmState v = VmShutoff) (InUseByVm gpuRef vmName))))"

definition ListHostGPUs_service :: "'w gpu_env \<Rightarrow> string \<Rightarrow> ('w, HostGPU list) gact" where
  "ListHostGPUs_service e machineName =
     bindE (machineConnection machineName) (\<lambda>(mach, c). list_gpus e c ListGpus)"

definition ListHostGPUsWithIOMMU_service :: "'w gpu_env \<Rightarrow> string \<Rightarrow> ('w, HostGPU list) gact" where
  "ListHostGPUsWithIOMMU_service e machineName =
     bindE (machineConnection machineName) (\<lambda>(mach, c). list_gpus e c ListGpusIommu)"

definition ListVMGPUs_service :: "'w gpu_env \<Rightarrow> string \<Rightarrow> string \<Rightarrow> ('w, VMGPU list) gact" where
  "ListVMGPUs_service e machineName vmName =
     bindE (machineConnection machineName) (\<lambda>(mach, c).
     bindE (vmOnMachine e mach c vmName) (\<lambda>_. list_vm_gpus e c vmName))"

definition AttachGPUToVM_service :: "'w gpu_env \<Rightarrow> string \<Rightarrow> string \<Rightarrow> string \<Rightarrow> ('w, unit) gact" where
  "AttachGPUToVM_service e machineName vmName gpuRef =
     bindE (machineConnection machineName) (\<lambda>(mach, c).
     bindE (vmOnMachine e mach c vmName) (\<lambda>v.
     bindE (ensureVMShutoff v (MachineName mach)) (\<lambda>_.
       vm_gpu_request e c GiveGpu (VmName v) gpuRef)))"

definition DetachGPUFromVM_service :: "'w gpu_env \<Rightarrow> string \<Rightarrow> string \<Rightarrow> string \<Rightarrow> ('w, unit) gact" where
  "DetachGPUFromVM_service e machineName vmName gpuRef =
     bindE (machineConnection machineName) (\<lambda>(mach, c).
     bindE (vmOnMachine e mach c vmName) (\<lambda>v.
     bindE (ensureVMShutoff v (MachineName mach)) (\<lambda>_.
       vm_gpu_request e c TakeGpu (VmName v) gpuRef)))"

definition ReturnGPUToHost_service :: "'w gpu_env \<Rightarrow> string \<Rightarrow> string \<Rightarrow> ('w, unit) gact" where
  "ReturnGPUToHost_service e machineName gpuRef =
     bindE (machineConnection machineName) (\<lambda>(mach, c).
     bindE (ensureAttachedVMsAreShutoff e mach c gpuRef) (\<lambda>_.
       return_gpu_request e c gpuRef))"

subsection \<open>Requests for a VM\<close>

definition events_from :: "'w gpu_master \<Rightarrow> 'w gpu_master \<Rightarrow> gpu_event list" where
  "events_from s s' = drop (length (gm_sent s)) (gm_sent s')"

lemma machine_result:
  "machineConnection m s = (Inr (mach, c), s') \<longleftrightarrow>
     TrimSpace m \<noteq> [] \<and> GetConnectionByMachineName (gm_conns s) (TrimSpace m) = Some mach \<and> Connection mach = Some c \<and> s' = s"
  by (auto simp: machineConnection_def Let_def bindE_eq_Inr_iff split: option.splits)

lemma machine_same: "machineConnection m s = (r, s') \<Longrightarrow> s' = s"
  by (auto simp: machineConnection_def Let_def bindE_def getW_def fail_def ret_def split: if_splits option.splits)

lemma map_sum_Inr_iff [simp]: "map_sum f id r = Inr x \<longleftrightarrow> r = Inr x"
  by (cases r) auto

lemma vm_on_machine:
  assumes "vmOnMachine e mach c n s = (Inr v, s')"
  shows "gm_sent s' = gm_sent s @ [LookedUp c (TrimSpace n) (Inr (Some v))] \<and>
    (TrimSpace (VmMachine v) = [] \<or> EqualFold (TrimSpace (VmMachine v)) (MachineName mach))"
  using assms
  by (auto simp: vmOnMachine_def find_vm_def bindR_def fail_def ret_def Let_def
      split: if_splits sum.splits option.splits prod.splits)

lemma looked_only:
  assumes "vmOnMachine e mach c n s = (r, s')"
  shows "\<exists>looked. gm_sent s' = gm_sent s @ looked \<and> list_all (\<lambda>x. \<forall>c q. x \<noteq> Asked c q) looked"
  using assms
  by (auto simp: vmOnMachine_def find_vm_def bindR_def fail_def ret_def Let_def
      split: if_splits sum.splits option.splits prod.splits)

text \<open>Both requests have one shape.\<close>

definition vm_request :: "(string \<Rightarrow> string \<Rightarrow> gpu_rpc) \<Rightarrow> 'w gpu_env \<Rightarrow> string \<Rightarrow> string \<Rightarrow> string \<Rightarrow> ('w, unit) gact" where
  "vm_request q e m n ref =
     bindE (machineConnection m) (\<lambda>(mach, c).
     bindE (vmOnMachine e mach c n) (\<lambda>v.
     bindE (ensureVMShutoff v (MachineName mach)) (\<lambda>_.
       vm_gpu_request e c q (VmName v) ref)))"

lemma requests: "AttachGPUToVM_service = vm_request GiveGpu" "DetachGPUFromVM_service = vm_request TakeGpu"
  by (intro ext; simp add: AttachGPUToVM_service_def DetachGPUFromVM_service_def vm_request_def)+

lemma vm_request_asks:
  assumes run: "vm_request q e m n ref s = (r, s')" and asked: "Asked c x \<in> set (events_from s s')"
  obtains mach v s1 where "vmOnMachine e mach c n s = (Inr v, s1)" "VmState v = VmShutoff" "MachineName mach = TrimSpace m"
    "events_from s s' = [LookedUp c (TrimSpace n) (Inr (Some v)), Asked c (q (TrimSpace (VmName v)) (TrimSpace ref))]"
    "GpuCall e c (q (TrimSpace (VmName v)) (TrimSpace ref)) (gm_ext s1) = (fst (GpuCall e c (q (TrimSpace (VmName v)) (TrimSpace ref)) (gm_ext s1)), gm_ext s')"
proof -
  obtain mc s0 where mc: "machineConnection m s = (mc, s0)" by (metis surj_pair)
  then have s0: "s0 = s" by (rule machine_same)
  have no: "events_from s s \<noteq> events_from s s'" using asked by (auto simp: events_from_def)
  from run mc s0 no obtain mach c' where m: "machineConnection m s = (Inr (mach, c'), s)"
    by (cases mc) (auto simp: vm_request_def bindE_def)
  obtain v0 s1 where v0: "vmOnMachine e mach c' n s = (v0, s1)" by (metis surj_pair)
  from looked_only [OF v0] have silent: "Asked c x \<notin> set (events_from s s1)"
    by (fastforce simp: events_from_def list_all_iff)
  from run m v0 silent asked obtain v where v: "vmOnMachine e mach c' n s = (Inr v, s1)"
    by (cases v0) (auto simp: vm_request_def bindE_def)
  note found = vm_on_machine [OF v]
  have rest: "bindE (ensureVMShutoff v (MachineName mach)) (\<lambda>_. vm_gpu_request e c' q (VmName v) ref) s1 = (r, s')"
    using run m v by (simp add: vm_request_def bindE_def)
  with silent asked have off: "VmState v = VmShutoff" "vm_gpu_request e c' q (VmName v) ref s1 = (r, s')"
    by (auto simp: ensureVMShutoff_def guardE_def bindE_def split: if_splits)
  from off(2) silent asked have call: "bindE (gpu_call e c' (q (TrimSpace (VmName v)) (TrimSpace ref))) (\<lambda>_. ret ()) s1 = (r, s')"
    by (auto simp: vm_gpu_request_def Let_def fail_def split: if_splits)
  have "gm_sent s' = gm_sent s1 @ [Asked c' (q (TrimSpace (VmName v)) (TrimSpace ref))]"
    "gm_ext s' = snd (GpuCall e c' (q (TrimSpace (VmName v)) (TrimSpace ref)) (gm_ext s1))"
    using call by (auto simp: bindE_def gpu_call_def ret_def split: prod.splits sum.splits)
  moreover from this(1) found have ev: "events_from s s' = [LookedUp c' (TrimSpace n) (Inr (Some v)), Asked c' (q (TrimSpace (VmName v)) (TrimSpace ref))]"
    by (simp add: events_from_def)
  moreover from ev asked have "c' = c" by simp
  moreover have "MachineName mach = TrimSpace m" using m by_name_sound unfolding machine_result by metis
  ultimately show thesis using that [of mach v s1] v off(1) by simp
qed

lemma vm_request_silent:
  assumes run: "vm_request q e m n ref s = (r, s')" and silent: "\<And>c x. Asked c x \<notin> set (events_from s s')"
  shows "s' = s \<or> (\<exists>mach c r1. vmOnMachine e mach c n s = (r1, s'))"
proof -
  obtain mc s0 where mc: "machineConnection m s = (mc, s0)" by (metis surj_pair)
  then have s0: "s0 = s" by (rule machine_same)
  show ?thesis
  proof (cases mc)
    case (Inl err)
    then show ?thesis using run mc s0 by (simp add: vm_request_def bindE_def)
  next
    case (Inr p)
    obtain mach c where p: "p = (mach, c)" by (metis surj_pair)
    obtain v0 s1 where v0: "vmOnMachine e mach c n s = (v0, s1)" by (metis surj_pair)
    have "s' = s1"
    proof (rule ccontr)
      assume other: "s' \<noteq> s1"
      then obtain v where v: "v0 = Inr v" using run mc s0 Inr p v0 by (cases v0) (auto simp: vm_request_def bindE_def)
      have "bindE (ensureVMShutoff v (MachineName mach)) (\<lambda>_. vm_gpu_request e c q (VmName v) ref) s1 = (r, s')"
        using run mc s0 Inr p v0 v by (simp add: vm_request_def bindE_def)
      with other have "vm_gpu_request e c q (VmName v) ref s1 = (r, s')"
        by (auto simp: ensureVMShutoff_def guardE_def bindE_def split: if_splits)
      with other have "gm_sent s' = gm_sent s1 @ [Asked c (q (TrimSpace (VmName v)) (TrimSpace ref))]"
        by (auto simp: vm_gpu_request_def Let_def fail_def bindE_def gpu_call_def ret_def split: if_splits prod.splits sum.splits)
      with vm_on_machine [OF v0 [unfolded v]] silent show False by (auto simp: events_from_def)
    qed
    with v0 show ?thesis by blast
  qed
qed

text \<open>A GPU is given to or taken from a VM only directly after the slave reported this VM as shut off,
  on the machine of the request.\<close>

theorem gpu_changes_need_shutoff:
  assumes run: "AttachGPUToVM_service e m n ref s = (r, s') \<or> DetachGPUFromVM_service e m n ref s = (r, s')"
    and asked: "Asked c q \<in> set (events_from s s')"
  shows "\<exists>v. events_from s s' = [LookedUp c (TrimSpace n) (Inr (Some v)), Asked c q] \<and> VmState v = VmShutoff \<and>
    (q = GiveGpu (TrimSpace (VmName v)) (TrimSpace ref) \<or> q = TakeGpu (TrimSpace (VmName v)) (TrimSpace ref)) \<and>
    (TrimSpace (VmMachine v) = [] \<or> EqualFold (TrimSpace (VmMachine v)) (TrimSpace m))"
proof -
  from run obtain f where f: "vm_request f e m n ref s = (r, s')" "f = GiveGpu \<or> f = TakeGpu"
    unfolding requests by blast
  obtain mach v s1 where v: "vmOnMachine e mach c n s = (Inr v, s1)" "VmState v = VmShutoff" "MachineName mach = TrimSpace m"
    "events_from s s' = [LookedUp c (TrimSpace n) (Inr (Some v)), Asked c (f (TrimSpace (VmName v)) (TrimSpace ref))]"
    using vm_request_asks [OF f(1) asked] by metis
  with asked f(2) vm_on_machine [OF v(1)] show ?thesis by auto
qed

text \<open>C32: from the request at the master to libvirt: when a slave with the model's handlers changes anything
  to give a GPU away, the VM was found shut off and no other VM had any function of the GPU's group.\<close>

theorem gpu_given_end_to_end:
  assumes slave: "\<And>c q h. GpuCall e c q h = map_prod (map_sum show_error id) id (serve_gpu pe q h)"
    and looks: "\<And>c k h. snd (VmByName e c k h) = h"
    and run: "AttachGPUToVM_service e m n ref s = (r, s')"
    and changed: "calls_from (gm_ext s) (gm_ext s') \<noteq> []"
  shows "\<exists>c v a d related domains.
    events_from s s' = [LookedUp c (TrimSpace n) (Inr (Some v)), Asked c (GiveGpu (TrimSpace (VmName v)) (TrimSpace ref))] \<and>
    VmState v = VmShutoff \<and> ParsePCIAddress (TrimSpace ref) = Inr a \<and>
    relatedPCIDevicesForGPU pe a (gm_ext s) = (Inr related, gm_ext s) \<and>
    LookupDomain pe (TrimSpace (VmName v)) (pci_host (gm_ext s)) = Some d \<and>
    AllDomains pe (pci_host (gm_ext s)) = Some domains \<and>
    (\<forall>dev \<in> set related. \<forall>other \<in> set (vms_at (attachments_of pe (pci_host (gm_ext s)) domains) (String dev)).
       TrimSpace other = [] \<or> TrimSpace other = canonicalDomainName pe d (TrimSpace (VmName v)) (pci_host (gm_ext s))) \<and>
    list_all (\<lambda>c. \<exists>dev \<in> set related. gives_device dev c) (calls_from (gm_ext s) (gm_ext s'))"
proof -
  have look_same: "gm_ext s1 = gm_ext s0" if "vmOnMachine e mach c k s0 = (q, s1)" for mach c k s0 q s1
    using that looks
    by (auto simp: vmOnMachine_def find_vm_def bindR_def fail_def ret_def Let_def
        split: if_splits sum.splits option.splits prod.splits) (metis snd_conv)+
  have "\<exists>c x. Asked c x \<in> set (events_from s s')"
  proof (rule ccontr)
    assume "\<nexists>c x. Asked c x \<in> set (events_from s s')"
    then have "s' = s \<or> (\<exists>mach c r1. vmOnMachine e mach c n s = (r1, s'))"
      using run [unfolded requests] by (intro vm_request_silent) auto
    then have "gm_ext s' = gm_ext s" using look_same by blast
    with changed show False by simp
  qed
  then obtain c x where asked: "Asked c x \<in> set (events_from s s')" by blast
  obtain mach v s1 where v: "vmOnMachine e mach c n s = (Inr v, s1)" "VmState v = VmShutoff"
    "events_from s s' = [LookedUp c (TrimSpace n) (Inr (Some v)), Asked c (GiveGpu (TrimSpace (VmName v)) (TrimSpace ref))]"
    "GpuCall e c (GiveGpu (TrimSpace (VmName v)) (TrimSpace ref)) (gm_ext s1) =
       (fst (GpuCall e c (GiveGpu (TrimSpace (VmName v)) (TrimSpace ref)) (gm_ext s1)), gm_ext s')"
    using vm_request_asks [OF run [unfolded requests] asked] by metis
  obtain g h' where g: "AttachGPUToVM pe (TrimSpace (VmName v)) (TrimSpace ref) (gm_ext s) = (g, h')" by (metis surj_pair)
  have "h' = gm_ext s'"
    using v(4) look_same [OF v(1)] g slave
    by (cases g) (auto simp: serve_gpu_def bindE_def ret_def)
  with gpu_group_was_free [OF g, unfolded TrimSpace_idem] changed v(2,3) show ?thesis by (intro exI [of _ c] exI [of _ v]) blast
qed

subsection \<open>Returning a GPU\<close>

lemma lower_slash: "lower_char c = slash \<longleftrightarrow> c = slash"
proof
  assume l: "lower_char c = slash"
  then have "of_char (lower_char c) = (47 :: nat)" by (simp add: slash_def)
  moreover have "of_char (lower_char c) = (let n = (of_char c :: nat) in if 65 \<le> n \<and> n \<le> 90 then n + 32 else n)"
    by (simp add: lower_char_def Let_def)
  ultimately have "lower_char c = c" by (simp add: lower_char_def Let_def split: if_splits)
  then show "c = slash" using l by simp
next
  show "c = slash \<Longrightarrow> lower_char c = slash" by (simp add: slash_def lower_char_def)
qed

lemma slash_lower: "slash \<in> set (ToLower t) \<longleftrightarrow> slash \<in> set t"
  by (auto simp: ToLower_def lower_slash image_iff eq_commute [of slash])

lemma suffix_subset: "HasSuffix s p \<Longrightarrow> set p \<subseteq> set s"
  unfolding HasSuffix_def HasPrefix_iff by (metis Un_iff set_append set_rev subsetI)

lemma suffix_of_longer: "HasSuffix s (''/'' @ p) \<Longrightarrow> HasSuffix s p"
  unfolding HasSuffix_def HasPrefix_iff by auto

lemma suffix_self: "HasSuffix s s"
  unfolding HasSuffix_def HasPrefix_iff by auto

lemma path_not_matched:
  assumes "slash \<in> set ref" "slash \<notin> set (GpuAddress g)" "slash \<notin> set (GpuNodeName g)"
    "\<not> HasSuffix (ToLower (TrimSpace (GpuPath g))) (ToLower ref)"
  shows "\<not> gpu_matches (ToLower ref) g"
proof -
  have no: "\<not> HasSuffix (ToLower (TrimSpace t)) (ToLower ref)" if "slash \<notin> set t" for t
    using suffix_subset [of "ToLower (TrimSpace t)" "ToLower ref"] slash_lower [of "TrimSpace t"] slash_lower [of ref]
      set_TrimSpace [of t] assms(1) that by blast
  have "\<not> (ToLower t = ToLower ref \<or> HasSuffix (ToLower t) (''/'' @ ToLower ref) \<or> HasSuffix (ToLower t) (ToLower ref))"
    if "\<not> HasSuffix (ToLower t) (ToLower ref)" for t
    using that suffix_of_longer [of "ToLower t" "ToLower ref"] suffix_self [of "ToLower t"] by metis
  from this [OF no [OF assms(2)]] this [OF no [OF assms(3)]] this [OF assms(4)] show ?thesis
    by (simp add: gpu_matches_def)
qed

text \<open>C35: a GPU named by its path in sysfs is not recognised by the master, although the slave accepts
  the name: the GPU is returned to the host without asking for the VMs that have it.\<close>

theorem path_reference_skips_check:
  assumes m: "TrimSpace m \<noteq> []" "GetConnectionByMachineName (gm_conns s) (TrimSpace m) = Some mach" "Connection mach = Some c"
    and a: "Function a < 8" and ref: "ref = ''/sys/bus/pci/devices/'' @ String a"
    and list: "GpuCall e c ListGpus (gm_ext s) = (Inr (GpuList gpus), x)"
    and gpus: "\<And>g. g \<in> set gpus \<Longrightarrow> slash \<notin> set (GpuAddress g) \<and> slash \<notin> set (GpuNodeName g) \<and>
      \<not> HasSuffix (ToLower (TrimSpace (GpuPath g))) (ToLower ref)"
  shows "ParsePCIAddress ref = Inr a \<and>
    events_from s (snd (ReturnGPUToHost_service e m ref s)) = [Asked c ListGpus, Asked c (ReturnGpu ref)]"
proof
  show parse: "ParsePCIAddress ref = Inr a"
    using address_path_reads_back [OF a, of "''/sys/bus/pci/devices''"] unfolding ref by simp
  have "list_all (\<lambda>c. \<not> is_space c) ''/sys/bus/pci/devices/''" by code_simp
  moreover have "\<forall>c \<in> set (String a). \<not> is_space c"
    using form_plain(2) [OF a, of "String a"] by (simp add: written_forms_def)
  ultimately have trim: "TrimSpace ref = ref" unfolding ref by (intro TrimSpace_no_space) (simp add: list_all_iff ball_Un)
  have slash: "slash \<in> set ref" "ref \<noteq> []" unfolding ref by (simp_all add: slash_def)
  have "\<not> gpu_matches (ToLower ref) g" if "g \<in> set gpus" for g
    using gpus [OF that] by (intro path_not_matched slash(1)) simp_all
  then have "findGPUByReference gpus ref = None"
    by (simp add: findGPUByReference_def trim slash(2) find_None_iff)
  moreover have "machineConnection m s = (Inr (mach, c), s)" using m by (simp add: machine_result)
  ultimately show "events_from s (snd (ReturnGPUToHost_service e m ref s)) = [Asked c ListGpus, Asked c (ReturnGpu ref)]"
    using list slash(2)
    by (simp add: ReturnGPUToHost_service_def ensureAttachedVMsAreShutoff_def list_gpus_def bindE_def gpu_call_def ret_def
        return_gpu_request_def trim events_from_def split: prod.split sum.split)
qed

subsection \<open>A cluster with one GPU\<close>

text \<open>The slave is the workstation; its VMs are shut off as far as the lookup says.\<close>

definition gpu_lab :: "string pci_world gpu_env" where
  "gpu_lab = \<lparr>GpuCall = (\<lambda>c q h. map_prod (map_sum (\<lambda>err. ''error'') id) id (serve_gpu workstation q h)),
     VmByName = (\<lambda>c n h. (Inr (Some (lab_vm n)), h))\<rparr>"

definition gpu_lab_state :: "string pci_world gpu_master" where
  "gpu_lab_state = \<lparr>gm_conns = [node1], gm_ext = idle_gpu, gm_sent = []\<rparr>"

definition gpu_lab_given :: "string pci_world gpu_master" where
  "gpu_lab_given = \<lparr>gm_conns = [node1], gm_ext = gpu_given,
     gm_sent = [LookedUp 1 ''vm1'' (Inr (Some (lab_vm ''vm1''))), Asked 1 (GiveGpu ''vm1'' (String gpu_address))]\<rparr>"

lemma gpu_lab_trims: "TrimSpace ''node1'' = ''node1''" "TrimSpace ''vm1'' = ''vm1''" "TrimSpace (String gpu_address) = String gpu_address"
  "String gpu_address \<noteq> []"
  by code_simp+

lemma gpu_lab_gives: "AttachGPUToVM_service gpu_lab ''node1'' ''vm1'' (String gpu_address) gpu_lab_state = (Inr (), gpu_lab_given)"
proof -
  have m: "machineConnection ''node1'' gpu_lab_state = (Inr (node1, 1), gpu_lab_state)"
    by (simp add: machine_result gpu_lab_trims gpu_lab_state_def) (simp add: node1_def)
  let ?s1 = "gpu_lab_state\<lparr>gm_sent := [LookedUp 1 ''vm1'' (Inr (Some (lab_vm ''vm1'')))]\<rparr>"
  have "find_vm gpu_lab 1 ''vm1'' gpu_lab_state = (Inr (Some (lab_vm ''vm1'')), ?s1)"
    by (simp add: find_vm_def gpu_lab_def gpu_lab_state_def)
  moreover have l: "VmMachine (lab_vm ''vm1'') = ''node1''" "VmState (lab_vm ''vm1'') = VmShutoff" "VmName (lab_vm ''vm1'') = ''vm1''"
    "MachineName node1 = ''node1''"
    by (simp_all add: lab_vm_def node1_def)
  ultimately have v: "vmOnMachine gpu_lab node1 1 ''vm1'' gpu_lab_state = (Inr (lab_vm ''vm1''), ?s1)"
    by (simp add: vmOnMachine_def gpu_lab_trims bindR_def ret_def Let_def)
  have "serve_gpu workstation (GiveGpu ''vm1'' (String gpu_address)) idle_gpu = (Inr GpuOk, gpu_given)"
    by (simp add: serve_gpu_def bindE_def workstation_gives_gpu ret_def)
  then have "gpu_call gpu_lab 1 (GiveGpu ''vm1'' (String gpu_address)) ?s1 = (Inr GpuOk, gpu_lab_given)"
    by (simp add: gpu_call_def gpu_lab_state_def gpu_lab_given_def) (simp add: gpu_lab_def)
  then show ?thesis
    by (simp add: AttachGPUToVM_service_def m bindE_def v ensureVMShutoff_def l guardE_def vm_gpu_request_def gpu_lab_trims ret_def Let_def
        del: One_nat_def)
qed

theorem gpu_changes_need_shutoff_witness:
  "\<exists>v. events_from gpu_lab_state gpu_lab_given =
     [LookedUp 1 (TrimSpace ''vm1'') (Inr (Some v)), Asked 1 (GiveGpu ''vm1'' (String gpu_address))] \<and> VmState v = VmShutoff"
  using gpu_changes_need_shutoff [OF disjI1 [OF gpu_lab_gives], of 1 "GiveGpu ''vm1'' (String gpu_address)"]
  by (auto simp: events_from_def gpu_lab_state_def gpu_lab_given_def)

theorem gpu_given_end_to_end_witness:
  "\<exists>c v related. events_from gpu_lab_state gpu_lab_given =
      [LookedUp c ''vm1'' (Inr (Some v)), Asked c (GiveGpu (TrimSpace (VmName v)) (String gpu_address))] \<and>
    VmState v = VmShutoff \<and>
    relatedPCIDevicesForGPU workstation gpu_address idle_gpu = (Inr related, idle_gpu) \<and>
    list_all (\<lambda>c. list_ex (\<lambda>dev. gives_device dev c) related) (calls_from idle_gpu gpu_given)"
proof -
  have same: "gm_ext gpu_lab_state = idle_gpu" "gm_ext gpu_lab_given = gpu_given"
    by (simp_all add: gpu_lab_state_def gpu_lab_given_def)
  have slave: "GpuCall gpu_lab c q h = map_prod (map_sum (\<lambda>err. ''error'') id) id (serve_gpu workstation q h)" for c q h
    by (simp add: gpu_lab_def)
  have looks: "snd (VmByName gpu_lab c k h) = h" for c k h by (simp add: gpu_lab_def)
  from gpu_given_end_to_end [OF slave looks gpu_lab_gives] gpu_given_calls
  obtain c v a related where "VmState v = VmShutoff" "ParsePCIAddress (String gpu_address) = Inr a"
    "events_from gpu_lab_state gpu_lab_given =
      [LookedUp c ''vm1'' (Inr (Some v)), Asked c (GiveGpu (TrimSpace (VmName v)) (String gpu_address))]"
    "relatedPCIDevicesForGPU workstation a idle_gpu = (Inr related, idle_gpu)"
    "list_all (\<lambda>c. \<exists>dev \<in> set related. gives_device dev c) (calls_from idle_gpu gpu_given)"
    unfolding same gpu_lab_trims by blast
  then show ?thesis by (intro exI [of _ c] exI [of _ v] exI [of _ related]) (simp add: list_ex_iff)
qed

text \<open>A GPU whose VM runs: its path in sysfs gets it returned all the same.\<close>

definition busy_gpu :: HostGPU where
  "busy_gpu = hostGPUToProto \<lparr>NodeName = ''pci_0000_65_00_0'', DevicePath = ''/sys/devices/pci0000:00/0000:65:00.0'',
     Address = ''0000:65:00.0'', HostAddress = gpu_address, Driver = ''vfio-pci'', Vendor = [], VendorID = [],
     Product = [], ProductID = [], Class = ''0x030000'', IOMMUGroup = -1, NUMANode = -1, IsGPU = True,
     ManagedByVFIO = True, AttachedToVMs = [''vm1'']\<rparr>"

definition busy_lab :: "unit gpu_env" where
  "busy_lab = \<lparr>GpuCall = (\<lambda>c q h. (Inr (if q = ListGpus then GpuList [busy_gpu] else GpuOk), h)),
     VmByName = (\<lambda>c n h. (Inr (Some (lab_vm n \<lparr>VmState := VmRunning\<rparr>)), h))\<rparr>"

theorem path_reference_skips_check_witness:
  "events_from \<lparr>gm_conns = [node1], gm_ext = (), gm_sent = []\<rparr>
     (snd (ReturnGPUToHost_service busy_lab ''node1'' (''/sys/bus/pci/devices/'' @ String gpu_address)
        \<lparr>gm_conns = [node1], gm_ext = (), gm_sent = []\<rparr>)) =
   [Asked 1 ListGpus, Asked 1 (ReturnGpu (''/sys/bus/pci/devices/'' @ String gpu_address))]"
proof (rule path_reference_skips_check [THEN conjunct2, OF _ _ _ _ refl])
  show "TrimSpace ''node1'' \<noteq> []" by (simp add: gpu_lab_trims)
  show "GetConnectionByMachineName (gm_conns \<lparr>gm_conns = [node1], gm_ext = (), gm_sent = []\<rparr>) (TrimSpace ''node1'') = Some node1"
    by (simp add: gpu_lab_trims) (simp add: node1_def)
  show "Connection node1 = Some 1" by (simp add: node1_def)
  show "Function gpu_address < 8" by (simp add: gpu_address_def)
  show "GpuCall busy_lab 1 ListGpus (gm_ext \<lparr>gm_conns = [node1], gm_ext = (), gm_sent = []\<rparr>) = (Inr (GpuList [busy_gpu]), ())"
    by (simp add: busy_lab_def)
  fix g assume "g \<in> set [busy_gpu]"
  then have g: "g = busy_gpu" by simp
  have "\<not> HasSuffix (ToLower (TrimSpace ''/sys/devices/pci0000:00/0000:65:00.0''))
      (ToLower (''/sys/bus/pci/devices/'' @ String gpu_address))" by code_simp
  then show "slash \<notin> set (GpuAddress g) \<and> slash \<notin> set (GpuNodeName g) \<and>
      \<not> HasSuffix (ToLower (TrimSpace (GpuPath g))) (ToLower (''/sys/bus/pci/devices/'' @ String gpu_address))"
    unfolding g busy_gpu_def hostGPUToProto_def by (simp add: slash_def)
qed

end
