(* ===== verification/NetAddr.thy ===== *)
theory NetAddr
  imports Numbers "HOL-Library.Word"
begin

text \<open>
  IP addresses as Go's package \<open>net\<close> reads and prints them (\<open>ParseIP\<close>, \<open>To4\<close>, \<open>String\<close>,
  \<open>ParseCIDR\<close>): sixteen bytes, an IPv4 address in the last four behind ten zeros and two \<open>0xff\<close>.
  The code that decides who may pass a firewall and which address a VPN client gets rests on them.
\<close>

subsection \<open>Bytes and octets\<close>

type_synonym byte = "8 word"
type_synonym ip = "byte list"

definition octet :: "string \<Rightarrow> byte option" where
  "octet p =
     (if p = [] \<or> \<not> list_all is_digit p \<or> (1 < length p \<and> hd p = CHR ''0'') then None
      else case read_base 10 0 p of Some n \<Rightarrow> if n \<le> 255 then Some (of_nat n) else None | None \<Rightarrow> None)"

fun octets :: "string list \<Rightarrow> byte list option" where
  "octets [] = Some []"
| "octets (p # ps) =
     (case octet p of None \<Rightarrow> None | Some b \<Rightarrow> map_option (Cons b) (octets ps))"

definition dot :: char where "dot = CHR ''.''"

definition colon :: char where "colon = CHR '':''"

definition parse_ipv4 :: "string \<Rightarrow> byte list option" where
  "parse_ipv4 s = (let ps = Split s dot in if length ps = 4 then octets ps else None)"

subsection \<open>IPv6\<close>

definition hex_value :: "char \<Rightarrow> nat option" where
  "hex_value c = (case digit_val c of Some d \<Rightarrow> if d < 16 then Some d else None | None \<Rightarrow> None)"

definition hex_run :: "string \<Rightarrow> string" where
  "hex_run s = takeWhile (\<lambda>c. hex_value c \<noteq> None) s"

text \<open>
  The loop over groups of hexadecimal digits.  \<open>bytes\<close> are those read so far and \<open>gap\<close> the place of
  the double colon; an IPv4 address may take the place of the last two groups.
\<close>

function groups :: "string \<Rightarrow> byte list \<Rightarrow> nat option \<Rightarrow> (byte list \<times> nat option) option" where
  "groups s bytes gap =
     (if 16 \<le> length bytes then (if s = [] then Some (bytes, gap) else None)
      else let h = hex_run s; rest = drop (length h) s in
        if h = [] \<or> 4 < length h then None
        else if rest \<noteq> [] \<and> hd rest = dot then
          (if (gap = None \<and> length bytes \<noteq> 12) \<or> 16 < length bytes + 4 then None
           else map_option (\<lambda>v. (bytes @ v, gap)) (parse_ipv4 s))
        else case read_base 16 0 h of None \<Rightarrow> None | Some n \<Rightarrow>
          (let bytes2 = bytes @ [of_nat (n div 256), of_nat (n mod 256)] in
           if rest = [] then Some (bytes2, gap)
           else if hd rest \<noteq> colon \<or> length rest = 1 then None
           else let s2 = tl rest in
             if hd s2 = colon then
               (if gap \<noteq> None then None
                else if length s2 = 1 then Some (bytes2, Some (length bytes2))
                else groups (tl s2) bytes2 (Some (length bytes2)))
             else groups s2 bytes2 gap))"
  by pat_completeness auto

termination
  by (relation "measure (\<lambda>(s, bytes, gap). length s)") auto

declare groups.simps [simp del]

definition expand_gap :: "byte list \<times> nat option \<Rightarrow> byte list option" where
  "expand_gap r =
     (case r of
        (bytes, None) \<Rightarrow> if length bytes = 16 then Some bytes else None
      | (bytes, Some g) \<Rightarrow>
          if 16 \<le> length bytes then None
          else Some (take g bytes @ replicate (16 - length bytes) 0 @ drop g bytes))"

definition parse_ipv6 :: "string \<Rightarrow> byte list option" where
  "parse_ipv6 s =
     (if HasPrefix s ''::'' then
        (if length s = 2 then Some (replicate 16 0)
         else Option.bind (groups (drop 2 s) [] (Some 0)) expand_gap)
      else Option.bind (groups s [] None) expand_gap)"

subsection \<open>Addresses\<close>

definition v4_prefix :: "byte list" where
  "v4_prefix = replicate 10 0 @ [0xff, 0xff]"

text \<open>The first dot or colon decides; an address with a zone is not accepted.\<close>

definition ParseIP :: "string \<Rightarrow> ip option" where
  "ParseIP s =
     (if CHR ''%'' \<in> set s then None
      else case dropWhile (\<lambda>c. c \<noteq> dot \<and> c \<noteq> colon) s of
             [] \<Rightarrow> None
           | c # _ \<Rightarrow> if c = dot then map_option (\<lambda>v. v4_prefix @ v) (parse_ipv4 s) else parse_ipv6 s)"

definition To4 :: "ip \<Rightarrow> byte list option" where
  "To4 a = (if length a = 4 then Some a else if length a = 16 \<and> take 12 a = v4_prefix then Some (drop 12 a) else None)"

definition octet_text :: "byte \<Rightarrow> string" where
  "octet_text b = show_base 10 (unat b)"

definition v4_text :: "byte list \<Rightarrow> string" where
  "v4_text bs = Join (map octet_text bs) [dot]"

text \<open>\<open>net.ParseIP\<close> followed by \<open>To4\<close>, as every caller has it: the four bytes or nothing.\<close>

definition parse_v4 :: "string \<Rightarrow> byte list option" where
  "parse_v4 s = Option.bind (ParseIP s) To4"

subsection \<open>Round trips\<close>

lemma octet_digits:
  "octet_text b \<noteq> []" "\<forall>c \<in> set (octet_text b). is_digit c \<and> c \<noteq> dot \<and> c \<noteq> colon \<and> c \<noteq> CHR ''%'' \<and> c \<noteq> CHR ''/'' \<and> \<not> is_space c"
proof -
  show "octet_text b \<noteq> []" by (simp add: octet_text_def)
  have d: "is_digit c \<Longrightarrow> c \<noteq> CHR ''%''" for c by (auto simp: is_digit_def)
  have sep: "is_digit c \<Longrightarrow> c \<noteq> dot \<and> c \<noteq> colon \<and> c \<noteq> CHR ''/''" for c
    by (auto simp: is_digit_def dot_def colon_def)
  show "\<forall>c \<in> set (octet_text b). is_digit c \<and> c \<noteq> dot \<and> c \<noteq> colon \<and> c \<noteq> CHR ''%'' \<and> c \<noteq> CHR ''/'' \<and> \<not> is_space c"
  proof
    fix c assume "c \<in> set (octet_text b)"
    then have "is_digit c" "\<not> is_space c" using show10_plain [of c "unat b"] by (simp_all add: octet_text_def)
    with d [of c] sep [of c] show "is_digit c \<and> c \<noteq> dot \<and> c \<noteq> colon \<and> c \<noteq> CHR ''%'' \<and> c \<noteq> CHR ''/'' \<and> \<not> is_space c" by simp
  qed
qed

lemma show10_no_zero: "0 < n \<Longrightarrow> hd (show_base 10 n) \<noteq> CHR ''0''"
proof (induction n rule: less_induct)
  case (less n)
  show ?case
  proof (cases "n < 10")
    case True
    have "digit_char n \<noteq> digit_char 0" using True less.prems digit_char_inject [of n 0] by simp
    then show ?thesis using True by (simp add: show_base_small digit_char_0)
  next
    case False
    then have "n div 10 < n" "0 < n div 10" by simp_all
    with less.IH have "hd (show_base 10 (n div 10)) \<noteq> CHR ''0''" by blast
    then show ?thesis using False by (simp add: show_base_big hd_append)
  qed
qed

lemma show10_zero: "show_base 10 0 = ''0''"
  by (simp add: show_base_small digit_char_0)

lemma octet_octet_text [simp]: "octet (octet_text b) = Some b"
proof -
  have "unat b < 2 ^ 8" using unsigned_less [of b] by simp
  then have n: "unat b \<le> 255" by simp
  have digits: "list_all is_digit (octet_text b)" using octet_digits(2) [of b] by (auto simp: list_all_iff)
  have lead: "\<not> (1 < length (octet_text b) \<and> hd (octet_text b) = CHR ''0'')"
    using show10_no_zero [of "unat b"] show10_zero by (cases "unat b = 0") (simp_all add: octet_text_def)
  show ?thesis
    using n digits lead octet_digits(1) [of b] by (simp add: octet_def octet_text_def read_show_base)
qed

lemma octets_texts [simp]: "octets (map octet_text bs) = Some bs"
  by (induction bs) auto

lemma parse_v4_text:
  assumes "length bs = 4"
  shows "parse_ipv4 (v4_text bs) = Some bs"
proof -
  have "Split (v4_text bs) dot = map octet_text bs"
    unfolding v4_text_def using assms octet_digits by (intro Split_Join) auto
  then show ?thesis using assms by (simp add: parse_ipv4_def)
qed

lemma set_v4_text: "c \<in> set (v4_text bs) \<Longrightarrow> c = dot \<or> (\<exists>b \<in> set bs. c \<in> set (octet_text b))"
  using set_Join [of "map octet_text bs" "[dot]"] by (auto simp: v4_text_def)

lemma v4_text_plain: "c \<in> set (v4_text bs) \<Longrightarrow> c \<noteq> colon \<and> c \<noteq> CHR ''%'' \<and> c \<noteq> CHR ''/'' \<and> \<not> is_space c"
proof -
  assume "c \<in> set (v4_text bs)"
  then consider "c = dot" | b where "c \<in> set (octet_text b)" using set_v4_text by blast
  then show ?thesis
  proof cases
    case 1
    then show ?thesis by (simp add: dot_def colon_def is_space_def)
  next
    case 2
    from bspec [OF octet_digits(2) this] show ?thesis by (elim conjE) (intro conjI)
  qed
qed

lemma dot_in_v4_text: "length bs = 4 \<Longrightarrow> dot \<in> set (v4_text bs)"
  by (cases bs rule: list.exhaust; simp add: v4_text_def; cases "tl bs"; auto simp: v4_text_def)

lemma ParseIP_v4_text:
  assumes "length bs = 4"
  shows "ParseIP (v4_text bs) = Some (v4_prefix @ bs)"
proof -
  let ?s = "v4_text bs"
  have no: "CHR ''%'' \<notin> set ?s" using v4_text_plain by blast
  let ?d = "dropWhile (\<lambda>c. c \<noteq> dot \<and> c \<noteq> colon) ?s"
  have ne: "?d \<noteq> []" using dot_in_v4_text [OF assms] by auto
  have "hd ?d = dot \<or> hd ?d = colon" using hd_dropWhile [OF ne] by auto
  moreover have "hd ?d \<in> set ?s" using ne by (metis hd_in_set set_dropWhileD)
  ultimately have "hd ?d = dot" using v4_text_plain by blast
  with ne no assms show ?thesis by (cases ?d) (simp_all add: ParseIP_def parse_v4_text)
qed

lemma parse_v4_v4_text: "length bs = 4 \<Longrightarrow> parse_v4 (v4_text bs) = Some bs"
  by (simp add: parse_v4_def ParseIP_v4_text To4_def v4_prefix_def)

lemma octets_length: "octets ps = Some bs \<Longrightarrow> length bs = length ps"
  by (induction ps arbitrary: bs) (auto split: option.splits)

lemma parse_v4_length: "parse_v4 s = Some bs \<Longrightarrow> length bs = 4"
  by (auto simp: parse_v4_def To4_def bind_eq_Some_conv split: if_splits)

lemma v4_text_inj: "length a = 4 \<Longrightarrow> length b = 4 \<Longrightarrow> v4_text a = v4_text b \<Longrightarrow> a = b"
  using parse_v4_text by (metis option.inject)

end
