(* ===== verification/Spa.thy ===== *)
theory Spa
  imports NetAddr Effects "HOL-Library.AList"
begin

text \<open>
  Single packet authorization: \<open>master/spa/spa.go\<close>, the service \<open>master/services/spa.go\<close> and its
  table \<open>master/db/spa.go\<close>.  A protected port is closed by rules of iptables in front of all others,
  except for the addresses of an ipset to which a password gives access for a time.  The programs
  behind the commands are a parameter; every command is recorded with the state it left.
\<close>

subsection \<open>Commands\<close>

datatype exit_status = Exited nat | NotStarted

record spa_row =
  SpaId :: int
  SpaPort :: int
  SpaHash :: string

record 'w spa_env =
  SpaRun :: "string list \<Rightarrow> 'w \<Rightarrow> (exit_status \<times> string) \<times> 'w"  \<comment> \<open>with the combined output\<close>
  SpaDbFails :: "'w \<Rightarrow> bool \<times> 'w"
  HashPassword :: "string \<Rightarrow> 'w \<Rightarrow> string option \<times> 'w"
  ComparePassword :: "string \<Rightarrow> string \<Rightarrow> bool"

record 'w spa_world =
  spa_host :: 'w
  spa_trace :: "(string list \<times> 'w) list"
  spa_ports :: "spa_row list"
  spa_next :: int
  spa_descs :: "(int \<times> string) list"

datatype spa_error =
    InvalidPort int
  | CommandFailed "string list" string
  | ListFailed "string list" string
  | EnsureSetFailed string spa_error
  | DestroySetFailed string spa_error
  | TimeoutNotPositive
  | InvalidIPv4 string
  | NotEnabled int
  | AddFailed string spa_error
  | ListSetFailed string spa_error
  | InvalidEntry string
  | InvalidTimeout string
  | LoopLimit
  | PasswordRequired
  | HashFailed
  | SpaDbError string
  | SpaPortNotFound
  | InvalidPassword
  | RollbackFailed spa_error spa_error
  | EnableFailed int spa_error

type_synonym ('w, 'a) spa_act = "('w spa_world, spa_error, 'a) act"

definition command :: "'w spa_env \<Rightarrow> string list \<Rightarrow> ('w, exit_status \<times> string) spa_act" where
  "command e argv w =
     (case SpaRun e argv (spa_host w) of
        (res, h) \<Rightarrow> (Inr res, w\<lparr>spa_host := h, spa_trace := spa_trace w @ [(argv, h)]\<rparr>))"

definition runCommand :: "'w spa_env \<Rightarrow> string list \<Rightarrow> ('w, unit) spa_act" where
  "runCommand e argv =
     bindE (command e argv) (\<lambda>(s, out). if s = Exited 0 then ret () else fail (CommandFailed argv (TrimSpace out)))"

definition runCommandOutput :: "'w spa_env \<Rightarrow> string list \<Rightarrow> ('w, string) spa_act" where
  "runCommandOutput e argv =
     bindE (command e argv) (\<lambda>(s, out). if s = Exited 0 then ret out else fail (CommandFailed argv (TrimSpace out)))"

text \<open>A question put to a program: exit status 1 is a no.\<close>

definition asks :: "'w spa_env \<Rightarrow> string list \<Rightarrow> ('w, bool) spa_act" where
  "asks e argv =
     bindE (command e argv) (\<lambda>(s, out).
       if s = Exited 0 then ret True else if s = Exited 1 then ret False else fail (ListFailed argv (TrimSpace out)))"

subsection \<open>Rules\<close>

record spaRule =
  chain :: string
  args :: "string list"
  position :: nat

definition allow_args :: "string \<Rightarrow> string \<Rightarrow> string \<Rightarrow> string list" where
  "allow_args proto portStr setName =
     [''-p'', proto, ''--dport'', portStr, ''-m'', ''set'', ''--match-set'', setName, ''src'', ''-j'', ''ACCEPT'']"

definition drop_args :: "string \<Rightarrow> string \<Rightarrow> string list" where
  "drop_args proto portStr = [''-p'', proto, ''--dport'', portStr, ''-j'', ''DROP'']"

definition rulesForPort :: "int \<Rightarrow> string \<Rightarrow> spaRule list" where
  "rulesForPort port setName =
     concat (map (\<lambda>c. concat (map (\<lambda>proto.
         [\<lparr>chain = c, args = allow_args proto (Itoa port) setName, position = 1\<rparr>,
          \<lparr>chain = c, args = drop_args proto (Itoa port), position = 2\<rparr>])
       [''tcp'', ''udp''])) [''INPUT'', ''FORWARD''])"

definition ipsetName :: "int \<Rightarrow> string" where
  "ipsetName port = ''spa_allow_'' @ Itoa port"

definition validatePort :: "int \<Rightarrow> ('w, unit) spa_act" where
  "validatePort port = guardE (1 \<le> port \<and> port \<le> 65535) (InvalidPort port)"

definition ipsetExists :: "'w spa_env \<Rightarrow> string \<Rightarrow> ('w, bool) spa_act" where
  "ipsetExists e name = asks e [''ipset'', ''list'', name]"

definition ensureIPSet :: "'w spa_env \<Rightarrow> string \<Rightarrow> ('w, unit) spa_act" where
  "ensureIPSet e name =
     bindE (ipsetExists e name) (\<lambda>exists.
       if exists then ret () else runCommand e [''ipset'', ''create'', ''-exist'', name, ''hash:ip'', ''timeout'', ''0''])"

definition destroyIPSet :: "'w spa_env \<Rightarrow> string \<Rightarrow> ('w, unit) spa_act" where
  "destroyIPSet e name =
     bindE (ipsetExists e name) (\<lambda>exists. if \<not> exists then ret () else runCommand e [''ipset'', ''destroy'', name])"

definition iptablesRuleExists :: "'w spa_env \<Rightarrow> spaRule \<Rightarrow> ('w, bool) spa_act" where
  "iptablesRuleExists e rule = asks e ([''iptables'', ''-w'', ''-C'', chain rule] @ args rule)"

definition runIptables :: "'w spa_env \<Rightarrow> string \<Rightarrow> spaRule \<Rightarrow> ('w, unit) spa_act" where
  "runIptables e action rule =
     runCommand e ([''iptables'', ''-w'', action, chain rule] @
       (if action = ''-I'' \<and> 0 < position rule then [Itoa (int (position rule))] else []) @ args rule)"

definition ensureIptablesRule :: "'w spa_env \<Rightarrow> spaRule \<Rightarrow> ('w, unit) spa_act" where
  "ensureIptablesRule e rule =
     bindE (iptablesRuleExists e rule) (\<lambda>exists. if exists then ret () else runIptables e ''-I'' rule)"

text \<open>The loop has no bound in the code; the number of rounds is.\<close>

fun deleteAllMatchingRules :: "nat \<Rightarrow> 'w spa_env \<Rightarrow> spaRule \<Rightarrow> ('w, unit) spa_act" where
  "deleteAllMatchingRules 0 e rule = fail LoopLimit"
| "deleteAllMatchingRules (Suc n) e rule =
     bindE (iptablesRuleExists e rule) (\<lambda>exists.
       if \<not> exists then ret ()
       else bindE (runIptables e ''-D'' rule) (\<lambda>_. deleteAllMatchingRules n e rule))"

definition EnableSPA :: "nat \<Rightarrow> 'w spa_env \<Rightarrow> int \<Rightarrow> ('w, unit) spa_act" where
  "EnableSPA n e port =
     bindE (validatePort port) (\<lambda>_.
     bindE (mapErr (EnsureSetFailed (ipsetName port)) (ensureIPSet e (ipsetName port))) (\<lambda>_.
       forE (rulesForPort port (ipsetName port)) (\<lambda>rule.
         bindE (deleteAllMatchingRules n e rule) (\<lambda>_. ensureIptablesRule e rule))))"

definition DisableSPA :: "nat \<Rightarrow> 'w spa_env \<Rightarrow> int \<Rightarrow> ('w, unit) spa_act" where
  "DisableSPA n e port =
     bindE (validatePort port) (\<lambda>_.
     bindE (forE (rulesForPort port (ipsetName port)) (deleteAllMatchingRules n e)) (\<lambda>_.
       mapErr (DestroySetFailed (ipsetName port)) (destroyIPSet e (ipsetName port))))"

definition require_set :: "'w spa_env \<Rightarrow> int \<Rightarrow> ('w, unit) spa_act" where
  "require_set e port =
     bindE (ipsetExists e (ipsetName port)) (\<lambda>exists. guardE exists (NotEnabled port))"

definition AllowIP :: "'w spa_env \<Rightarrow> int \<Rightarrow> string \<Rightarrow> int \<Rightarrow> ('w, unit) spa_act" where
  "AllowIP e port ip seconds =
     bindE (validatePort port) (\<lambda>_.
       if seconds \<le> 0 then fail TimeoutNotPositive
       else case parse_v4 ip of None \<Rightarrow> fail (InvalidIPv4 ip) | Some addr \<Rightarrow>
         bindE (require_set e port) (\<lambda>_.
           mapErr (AddFailed (ipsetName port))
             (runCommand e [''ipset'', ''add'', ''-exist'', ipsetName port, v4_text addr, ''timeout'', Itoa seconds])))"

subsection \<open>Listing the addresses of a set\<close>

record AllowEntry =
  EntryIP :: string
  RemainingSeconds :: int

text \<open>The first field \<open>timeout\<close> that another follows.\<close>

fun timeout_of :: "string \<Rightarrow> string list \<Rightarrow> spa_error + int" where
  "timeout_of ip (f # v # fs) =
     (if f = ''timeout'' then (case Atoi v of None \<Rightarrow> Inl (InvalidTimeout ip) | Some n \<Rightarrow> Inr n)
      else timeout_of ip (v # fs))"
| "timeout_of ip _ = Inr 0"

fun member_lines :: "string list \<Rightarrow> bool \<Rightarrow> AllowEntry list \<Rightarrow> spa_error + (bool \<times> AllowEntry list)" where
  "member_lines [] found out = Inr (found, out)"
| "member_lines (line # ls) found out =
     (let trimmed = TrimSpace line in
      if trimmed = [] then member_lines ls found out
      else if HasPrefix (ToLower trimmed) ''members:'' then member_lines ls True out
      else case Fields trimmed of [] \<Rightarrow> member_lines ls found out
         | ip # fs \<Rightarrow>
             if parse_v4 ip = None then
               (if found then Inl (InvalidEntry trimmed) else member_lines ls found out)
             else case timeout_of ip fs of Inl err \<Rightarrow> Inl err
                  | Inr n \<Rightarrow> member_lines ls found (out @ [\<lparr>EntryIP = ip, RemainingSeconds = n\<rparr>]))"

definition parseIPSetMembers :: "string \<Rightarrow> spa_error + AllowEntry list" where
  "parseIPSetMembers output =
     map_sum id (\<lambda>(found, out). if found then out else []) (member_lines (Split output (CHR 0x0A)) False [])"

definition ListAllows :: "'w spa_env \<Rightarrow> int \<Rightarrow> ('w, AllowEntry list) spa_act" where
  "ListAllows e port =
     bindE (validatePort port) (\<lambda>_.
     bindE (require_set e port) (\<lambda>_.
     bindE (mapErr (ListSetFailed (ipsetName port)) (runCommandOutput e [''ipset'', ''list'', ipsetName port])) (\<lambda>output.
       liftE (parseIPSetMembers output))))"

subsection \<open>The table of protected ports\<close>

definition spa_db :: "'w spa_env \<Rightarrow> string \<Rightarrow> ('w spa_world \<Rightarrow> 'a \<times> 'w spa_world) \<Rightarrow> ('w, 'a) spa_act" where
  "spa_db e name stmt w =
     (case SpaDbFails e (spa_host w) of
        (True, h) \<Rightarrow> (Inl (SpaDbError name), w\<lparr>spa_host := h\<rparr>)
      | (False, h) \<Rightarrow> (case stmt (w\<lparr>spa_host := h\<rparr>) of (v, w') \<Rightarrow> (Inr v, w')))"

definition upsert_row :: "int \<Rightarrow> string \<Rightarrow> 'w spa_world \<Rightarrow> unit \<times> 'w spa_world" where
  "upsert_row port hash w =
     ((), if list_ex (\<lambda>r. SpaPort r = port) (spa_ports w)
          then w\<lparr>spa_ports := map (\<lambda>r. if SpaPort r = port then r\<lparr>SpaHash := hash\<rparr> else r) (spa_ports w)\<rparr>
          else w\<lparr>spa_ports := spa_ports w @ [\<lparr>SpaId = spa_next w, SpaPort = port, SpaHash = hash\<rparr>],
                 spa_next := spa_next w + 1\<rparr>)"

definition UpsertSPAPort :: "'w spa_env \<Rightarrow> int \<Rightarrow> string \<Rightarrow> ('w, unit) spa_act" where
  "UpsertSPAPort e port hash = spa_db e ''upsert spa port'' (upsert_row port hash)"

text \<open>Whether a row was deleted.\<close>

definition DeleteSPAPort :: "'w spa_env \<Rightarrow> int \<Rightarrow> ('w, bool) spa_act" where
  "DeleteSPAPort e port =
     spa_db e ''delete spa port'' (\<lambda>w. (list_ex (\<lambda>r. SpaPort r = port) (spa_ports w),
       w\<lparr>spa_ports := filter (\<lambda>r. SpaPort r \<noteq> port) (spa_ports w)\<rparr>))"

definition GetSPAPort :: "'w spa_env \<Rightarrow> int \<Rightarrow> ('w, spa_row option) spa_act" where
  "GetSPAPort e port = spa_db e ''get spa port'' (\<lambda>w. (List.find (\<lambda>r. SpaPort r = port) (spa_ports w), w))"

definition ListSPAPorts :: "'w spa_env \<Rightarrow> ('w, spa_row list) spa_act" where
  "ListSPAPorts e = spa_db e ''list spa ports'' (\<lambda>w. (spa_ports w, w))"

subsection \<open>The service\<close>

definition hash_password :: "'w spa_env \<Rightarrow> string \<Rightarrow> ('w, string) spa_act" where
  "hash_password e password w =
     (case HashPassword e password (spa_host w) of
        (None, h) \<Rightarrow> (Inl HashFailed, w\<lparr>spa_host := h\<rparr>) | (Some x, h) \<Rightarrow> (Inr x, w\<lparr>spa_host := h\<rparr>))"

definition Create :: "nat \<Rightarrow> 'w spa_env \<Rightarrow> int \<Rightarrow> string \<Rightarrow> ('w, unit) spa_act" where
  "Create n e port password =
     (if password = [] then fail PasswordRequired
      else bindE (hash_password e password) (\<lambda>hash.
           bindE (EnableSPA n e port) (\<lambda>_.
           bindR (UpsertSPAPort e port hash) (\<lambda>r. case r of
               Inr _ \<Rightarrow> ret ()
             | Inl err \<Rightarrow> bindR (DisableSPA n e port) (\<lambda>d. case d of
                 Inl derr \<Rightarrow> fail (RollbackFailed err derr) | Inr _ \<Rightarrow> fail err)))))"

definition Delete :: "nat \<Rightarrow> 'w spa_env \<Rightarrow> int \<Rightarrow> ('w, unit) spa_act" where
  "Delete n e port =
     bindE (GetSPAPort e port) (\<lambda>entry.
       if entry = None then fail SpaPortNotFound
       else bindE (DisableSPA n e port) (\<lambda>_.
            bindR (DeleteSPAPort e port) (\<lambda>r. case r of
                Inr True \<Rightarrow> ret ()
              | Inr False \<Rightarrow> fail SpaPortNotFound
              | Inl err \<Rightarrow> bindR (EnableSPA n e port) (\<lambda>d. case d of
                  Inl derr \<Rightarrow> fail (RollbackFailed err derr) | Inr _ \<Rightarrow> fail err))))"

definition Allow :: "'w spa_env \<Rightarrow> int \<Rightarrow> string \<Rightarrow> string \<Rightarrow> int \<Rightarrow> ('w, unit) spa_act" where
  "Allow e port password ip seconds =
     bindE (GetSPAPort e port) (\<lambda>entry.
       case entry of None \<Rightarrow> fail SpaPortNotFound
       | Some row \<Rightarrow> if \<not> ComparePassword e (SpaHash row) password then fail InvalidPassword
                     else AllowIP e port ip seconds)"

definition ListAllows_service :: "'w spa_env \<Rightarrow> int \<Rightarrow> ('w, AllowEntry list) spa_act" where
  "ListAllows_service e port =
     bindE (GetSPAPort e port) (\<lambda>entry. if entry = None then fail SpaPortNotFound else ListAllows e port)"

definition Reapply :: "nat \<Rightarrow> 'w spa_env \<Rightarrow> ('w, unit) spa_act" where
  "Reapply n e =
     bindE (ListSPAPorts e) (\<lambda>ports.
       forE ports (\<lambda>p. mapErr (EnableFailed (SpaPort p)) (EnableSPA n e (SpaPort p))))"

text \<open>The loop, for a number of ticks before the context ends; errors are logged.\<close>

fun Maintain :: "nat \<Rightarrow> nat \<Rightarrow> 'w spa_env \<Rightarrow> ('w, unit) spa_act" where
  "Maintain 0 n e = ret ()"
| "Maintain (Suc ticks) n e = bindR (Reapply n e) (\<lambda>_. Maintain ticks n e)"

subsection \<open>Requests over HTTP\<close>

text \<open>What the handler for access reads of a request; \<open>RemoteHost\<close> is what \<open>SplitHostPort\<close> yields.\<close>

record allow_request =
  ReqPort :: int
  ReqPassword :: string
  ReqSeconds :: int
  ReqIP :: string
  ForwardedFor :: string
  RealIP :: string
  RemoteHost :: "string option"

fun first_v4 :: "string list \<Rightarrow> byte list option" where
  "first_v4 [] = None"
| "first_v4 (part # ps) =
     (let trimmed = TrimSpace part in
      if trimmed = [] then first_v4 ps
      else case parse_v4 trimmed of Some a \<Rightarrow> Some a | None \<Rightarrow> first_v4 ps)"

definition clientIP :: "allow_request \<Rightarrow> string option" where
  "clientIP r =
     map_option v4_text
       (case (if ForwardedFor r = [] then None else first_v4 (Split (ForwardedFor r) (CHR '',''))) of
          Some a \<Rightarrow> Some a
        | None \<Rightarrow> (case (if TrimSpace (RealIP r) = [] then None else parse_v4 (TrimSpace (RealIP r))) of
            Some a \<Rightarrow> Some a
          | None \<Rightarrow> Option.bind (RemoteHost r) parse_v4))"

datatype http_error = BadRequest string | ServiceError spa_error

definition allow_ip_of :: "allow_request \<Rightarrow> http_error + string" where
  "allow_ip_of r =
     (let manualIP = TrimSpace (ReqIP r) in
      if manualIP \<noteq> [] then
        (case parse_v4 manualIP of None \<Rightarrow> Inl (BadRequest ''invalid IPv4 address'') | Some a \<Rightarrow> Inr (v4_text a))
      else case clientIP r of None \<Rightarrow> Inl (BadRequest ''could not determine client IP'') | Some ip \<Rightarrow> Inr ip)"

definition allowSPAHandler :: "'w spa_env \<Rightarrow> allow_request \<Rightarrow> ('w spa_world, http_error, string) act" where
  "allowSPAHandler e r =
     (if ReqPort r = 0 \<or> ReqPassword r = [] then fail (BadRequest ''port and password are required'')
      else if ReqSeconds r \<le> 0 then fail (BadRequest ''seconds must be positive'')
      else bindE (liftE (allow_ip_of r)) (\<lambda>ip.
           bindE (mapErr ServiceError (Allow e (ReqPort r) (ReqPassword r) ip (ReqSeconds r))) (\<lambda>_. ret ip)))"

definition SetResourceDescription :: "'w spa_env \<Rightarrow> int \<Rightarrow> string \<Rightarrow> ('w, unit) spa_act" where
  "SetResourceDescription e port description =
     spa_db e ''set description'' (\<lambda>w. ((), w\<lparr>spa_descs := AList.update port description (spa_descs w)\<rparr>))"

definition DeleteResourceDescription :: "'w spa_env \<Rightarrow> int \<Rightarrow> ('w, unit) spa_act" where
  "DeleteResourceDescription e port =
     spa_db e ''delete description'' (\<lambda>w. ((), w\<lparr>spa_descs := AList.delete port (spa_descs w)\<rparr>))"

definition createSPAHandler :: "nat \<Rightarrow> 'w spa_env \<Rightarrow> int \<Rightarrow> string \<Rightarrow> string \<Rightarrow> ('w spa_world, http_error, unit) act" where
  "createSPAHandler n e port password description =
     (if port = 0 \<or> password = [] then fail (BadRequest ''port and password are required'')
      else mapErr ServiceError (bindE (Create n e port password) (\<lambda>_. SetResourceDescription e port description)))"

definition deleteSPAHandler :: "nat \<Rightarrow> 'w spa_env \<Rightarrow> string \<Rightarrow> ('w spa_world, http_error, unit) act" where
  "deleteSPAHandler n e portStr =
     (case Atoi portStr of
        None \<Rightarrow> fail (BadRequest ''invalid port'')
      | Some port \<Rightarrow> if port \<le> 0 then fail (BadRequest ''invalid port'')
          else mapErr ServiceError (bindE (Delete n e port) (\<lambda>_. DeleteResourceDescription e port)))"

text \<open>The status of the answer to an error.\<close>

definition writeSPAError :: "spa_error \<Rightarrow> nat" where
  "writeSPAError err = (if err = SpaPortNotFound then 404 else if err = InvalidPassword then 401 else 500)"

subsection \<open>What iptables does with a packet\<close>

record packet =
  Proto :: string
  Dport :: int
  Src :: "byte list"

datatype verdict = AcceptPacket | DropPacket

definition is_allow :: "string list \<Rightarrow> bool" where
  "is_allow r \<longleftrightarrow> length r = 11 \<and> r = allow_args (r ! 1) (r ! 3) (r ! 7)"

definition is_drop :: "string list \<Rightarrow> bool" where
  "is_drop r \<longleftrightarrow> length r = 6 \<and> r = drop_args (r ! 1) (r ! 3)"

text \<open>
  The first rule that decides.  \<open>mem\<close> says which addresses are in a set, \<open>other\<close> what rules of other
  shapes do.
\<close>

definition rule_verdict ::
  "(string \<Rightarrow> byte list \<Rightarrow> bool) \<Rightarrow> (string list \<Rightarrow> packet \<Rightarrow> verdict option) \<Rightarrow> string list \<Rightarrow> packet \<Rightarrow> verdict option" where
  "rule_verdict mem other r p =
     (if is_allow r then
        (if r ! 1 = Proto p \<and> r ! 3 = Itoa (Dport p) \<and> mem (r ! 7) (Src p) then Some AcceptPacket else None)
      else if is_drop r then (if r ! 1 = Proto p \<and> r ! 3 = Itoa (Dport p) then Some DropPacket else None)
      else other r p)"

fun chain_verdict ::
  "(string \<Rightarrow> byte list \<Rightarrow> bool) \<Rightarrow> (string list \<Rightarrow> packet \<Rightarrow> verdict option) \<Rightarrow> verdict \<Rightarrow> string list list \<Rightarrow> packet \<Rightarrow> verdict" where
  "chain_verdict mem other policy [] p = policy"
| "chain_verdict mem other policy (r # rs) p =
     (case rule_verdict mem other r p of Some v \<Rightarrow> v | None \<Rightarrow> chain_verdict mem other policy rs p)"

text \<open>
  The documented behaviour of the two programs.  \<open>tbl\<close> reads the filter table and \<open>names\<close> the names
  of the sets from the state.  A rule can be asked for, added and deleted when the set it names exists.
\<close>

definition rule_set :: "string list \<Rightarrow> string option" where
  "rule_set r = (if is_allow r then Some (r ! 7) else None)"

definition usable :: "string set \<Rightarrow> string list \<Rightarrow> bool" where
  "usable known r \<longleftrightarrow> (case rule_set r of None \<Rightarrow> True | Some s \<Rightarrow> s \<in> known)"

definition insert_at :: "nat \<Rightarrow> 'a \<Rightarrow> 'a list \<Rightarrow> 'a list" where
  "insert_at k x xs = take (k - 1) xs @ x # drop (k - 1) xs"

definition checks_rules :: "'w spa_env \<Rightarrow> ('w \<Rightarrow> string \<Rightarrow> string list list) \<Rightarrow> ('w \<Rightarrow> string set) \<Rightarrow> bool" where
  "checks_rules e tbl names \<longleftrightarrow> (\<forall>c r h. usable (names h) r \<longrightarrow> (\<exists>out h'.
     SpaRun e ([''iptables'', ''-w'', ''-C'', c] @ r) h = ((if r \<in> set (tbl h c) then Exited 0 else Exited 1, out), h') \<and>
     tbl h' = tbl h \<and> names h' = names h))"

definition deletes_rules :: "'w spa_env \<Rightarrow> ('w \<Rightarrow> string \<Rightarrow> string list list) \<Rightarrow> ('w \<Rightarrow> string set) \<Rightarrow> bool" where
  "deletes_rules e tbl names \<longleftrightarrow> (\<forall>c r h. usable (names h) r \<and> r \<in> set (tbl h c) \<longrightarrow> (\<exists>out h'.
     SpaRun e ([''iptables'', ''-w'', ''-D'', c] @ r) h = ((Exited 0, out), h') \<and>
     tbl h' = (tbl h)(c := remove1 r (tbl h c)) \<and> names h' = names h))"

definition inserts_rules :: "'w spa_env \<Rightarrow> ('w \<Rightarrow> string \<Rightarrow> string list list) \<Rightarrow> ('w \<Rightarrow> string set) \<Rightarrow> bool" where
  "inserts_rules e tbl names \<longleftrightarrow> (\<forall>c k r h. 0 < k \<and> k \<le> length (tbl h c) + 1 \<and> usable (names h) r \<longrightarrow> (\<exists>out h'.
     SpaRun e ([''iptables'', ''-w'', ''-I'', c, Itoa (int k)] @ r) h = ((Exited 0, out), h') \<and>
     tbl h' = (tbl h)(c := insert_at k r (tbl h c)) \<and> names h' = names h))"

definition manages_sets :: "'w spa_env \<Rightarrow> ('w \<Rightarrow> string \<Rightarrow> string list list) \<Rightarrow> ('w \<Rightarrow> string set) \<Rightarrow> bool" where
  "manages_sets e tbl names \<longleftrightarrow> (\<forall>s h.
     (\<exists>out h'. SpaRun e [''ipset'', ''list'', s] h = ((if s \<in> names h then Exited 0 else Exited 1, out), h') \<and>
       tbl h' = tbl h \<and> names h' = names h) \<and>
     (\<exists>out h'. SpaRun e [''ipset'', ''create'', ''-exist'', s, ''hash:ip'', ''timeout'', ''0''] h = ((Exited 0, out), h') \<and>
       tbl h' = tbl h \<and> names h' = insert s (names h)) \<and>
     (s \<in> names h \<and> (\<forall>c. \<forall>r \<in> set (tbl h c). rule_set r \<noteq> Some s) \<longrightarrow> (\<exists>out h'.
       SpaRun e [''ipset'', ''destroy'', s] h = ((Exited 0, out), h') \<and>
       tbl h' = tbl h \<and> names h' = names h - {s})))"

definition firewall :: "'w spa_env \<Rightarrow> ('w \<Rightarrow> string \<Rightarrow> string list list) \<Rightarrow> ('w \<Rightarrow> string set) \<Rightarrow> bool" where
  "firewall e tbl names \<longleftrightarrow>
     checks_rules e tbl names \<and> deletes_rules e tbl names \<and> inserts_rules e tbl names \<and> manages_sets e tbl names"

subsection \<open>Each step under these laws\<close>

definition does :: "('s, 'e, 'a) act \<Rightarrow> ('s \<Rightarrow> bool) \<Rightarrow> 'a \<Rightarrow> ('s \<Rightarrow> bool) \<Rightarrow> bool" where
  "does m P x Q \<longleftrightarrow> (\<forall>w. P w \<longrightarrow> (\<exists>w'. m w = (Inr x, w') \<and> Q w'))"

lemma does_ret: "does (ret x) P x P"
  by (simp add: does_def ret_def)

lemma does_guard: "b \<Longrightarrow> does (guardE b err) P () P"
  by (simp add: does_def guardE_def)

lemma does_bindE: "does m P x Q \<Longrightarrow> does (f x) Q y R \<Longrightarrow> does (bindE m f) P y R"
  unfolding does_def bindE_def by fastforce

lemma does_mapErr: "does m P x Q \<Longrightarrow> does (mapErr g m) P x Q"
  unfolding does_def mapErr_def by fastforce

lemma doesD: "does m P x Q \<Longrightarrow> P w \<Longrightarrow> \<exists>w'. m w = (Inr x, w') \<and> Q w'"
  by (simp add: does_def)

definition at_state ::
  "('w \<Rightarrow> string \<Rightarrow> string list list) \<Rightarrow> ('w \<Rightarrow> string set) \<Rightarrow> (string \<Rightarrow> string list list) \<Rightarrow> string set \<Rightarrow>
   spa_row list \<Rightarrow> 'w spa_world \<Rightarrow> bool" where
  "at_state tbl names t known rows w \<longleftrightarrow>
     tbl (spa_host w) = t \<and> names (spa_host w) = known \<and> spa_ports w = rows"

lemma runs_command:
  assumes "\<And>h. tbl h = t \<Longrightarrow> names h = known \<Longrightarrow>
      \<exists>out h'. SpaRun e argv h = ((Exited 0, out), h') \<and> tbl h' = t' \<and> names h' = known'"
  shows "does (runCommand e argv) (at_state tbl names t known rows) () (at_state tbl names t' known' rows)"
proof -
  have "\<exists>w'. runCommand e argv w = (Inr (), w') \<and> at_state tbl names t' known' rows w'"
    if "at_state tbl names t known rows w" for w :: "'a spa_world"
  proof -
    from that assms [of "spa_host w"] obtain out h' where
      "SpaRun e argv (spa_host w) = ((Exited 0, out), h')" "tbl h' = t'" "names h' = known'"
      by (auto simp: at_state_def)
    then show ?thesis using that
      by (simp add: runCommand_def command_def bindE_def ret_def at_state_def)
  qed
  then show ?thesis by (simp add: does_def)
qed

lemma asks_command:
  assumes "\<And>h. tbl h = t \<Longrightarrow> names h = known \<Longrightarrow>
      \<exists>out h'. SpaRun e argv h = ((if b then Exited 0 else Exited 1, out), h') \<and> tbl h' = t \<and> names h' = known"
  shows "does (asks e argv) (at_state tbl names t known rows) b (at_state tbl names t known rows)"
proof -
  have "\<exists>w'. asks e argv w = (Inr b, w') \<and> at_state tbl names t known rows w'"
    if "at_state tbl names t known rows w" for w :: "'a spa_world"
  proof -
    from that assms [of "spa_host w"] obtain out h' where
      "SpaRun e argv (spa_host w) = ((if b then Exited 0 else Exited 1, out), h')" "tbl h' = t" "names h' = known"
      by (auto simp: at_state_def)
    then show ?thesis using that
      by (cases b) (simp_all add: asks_def command_def bindE_def ret_def at_state_def)
  qed
  then show ?thesis by (simp add: does_def)
qed

lemma check_law:
  "firewall e tbl names \<Longrightarrow> usable (names h) r \<Longrightarrow> \<exists>out h'.
     SpaRun e ([''iptables'', ''-w'', ''-C'', c] @ r) h = ((if r \<in> set (tbl h c) then Exited 0 else Exited 1, out), h') \<and>
     tbl h' = tbl h \<and> names h' = names h"
  unfolding firewall_def checks_rules_def by blast

lemma delete_law:
  "firewall e tbl names \<Longrightarrow> usable (names h) r \<Longrightarrow> r \<in> set (tbl h c) \<Longrightarrow> \<exists>out h'.
     SpaRun e ([''iptables'', ''-w'', ''-D'', c] @ r) h = ((Exited 0, out), h') \<and>
     tbl h' = (tbl h)(c := remove1 r (tbl h c)) \<and> names h' = names h"
  unfolding firewall_def deletes_rules_def by blast

lemma insert_law:
  "firewall e tbl names \<Longrightarrow> 0 < k \<Longrightarrow> k \<le> length (tbl h c) + 1 \<Longrightarrow> usable (names h) r \<Longrightarrow> \<exists>out h'.
     SpaRun e ([''iptables'', ''-w'', ''-I'', c, Itoa (int k)] @ r) h = ((Exited 0, out), h') \<and>
     tbl h' = (tbl h)(c := insert_at k r (tbl h c)) \<and> names h' = names h"
  unfolding firewall_def inserts_rules_def by blast

lemma set_laws:
  assumes "firewall e tbl names"
  shows "\<exists>out h'. SpaRun e [''ipset'', ''list'', s] h = ((if s \<in> names h then Exited 0 else Exited 1, out), h') \<and>
      tbl h' = tbl h \<and> names h' = names h"
    and "\<exists>out h'. SpaRun e [''ipset'', ''create'', ''-exist'', s, ''hash:ip'', ''timeout'', ''0''] h = ((Exited 0, out), h') \<and>
      tbl h' = tbl h \<and> names h' = insert s (names h)"
    and "s \<in> names h \<Longrightarrow> \<forall>c. \<forall>r \<in> set (tbl h c). rule_set r \<noteq> Some s \<Longrightarrow> \<exists>out h'.
      SpaRun e [''ipset'', ''destroy'', s] h = ((Exited 0, out), h') \<and> tbl h' = tbl h \<and> names h' = names h - {s}"
  using assms unfolding firewall_def manages_sets_def by blast+

lemma set_exists:
  assumes "firewall e tbl names"
  shows "does (ipsetExists e s) (at_state tbl names t known rows) (s \<in> known) (at_state tbl names t known rows)"
  unfolding ipsetExists_def
proof (rule asks_command)
  fix h assume "tbl h = t" "names h = known"
  with set_laws(1) [OF assms, of s h]
  show "\<exists>out h'. SpaRun e [''ipset'', ''list'', s] h = ((if s \<in> known then Exited 0 else Exited 1, out), h') \<and>
      tbl h' = t \<and> names h' = known" by simp
qed

lemma rule_exists:
  assumes "firewall e tbl names" "usable known (args rule)"
  shows "does (iptablesRuleExists e rule) (at_state tbl names t known rows) (args rule \<in> set (t (chain rule)))
           (at_state tbl names t known rows)"
  unfolding iptablesRuleExists_def
proof (rule asks_command)
  fix h assume "tbl h = t" "names h = known"
  with check_law [OF assms(1), of h "args rule" "chain rule"] assms(2)
  show "\<exists>out h'. SpaRun e ([''iptables'', ''-w'', ''-C'', chain rule] @ args rule) h =
      ((if args rule \<in> set (t (chain rule)) then Exited 0 else Exited 1, out), h') \<and> tbl h' = t \<and> names h' = known" by simp
qed

lemma ensures_set:
  assumes "firewall e tbl names"
  shows "does (ensureIPSet e s) (at_state tbl names t known rows) () (at_state tbl names t (insert s known) rows)"
proof -
  have "does (if s \<in> known then ret () else runCommand e [''ipset'', ''create'', ''-exist'', s, ''hash:ip'', ''timeout'', ''0''])
      (at_state tbl names t known rows) () (at_state tbl names t (insert s known) rows)"
  proof (cases "s \<in> known")
    case True
    then show ?thesis by (simp add: does_ret insert_absorb)
  next
    case False
    have "does (runCommand e [''ipset'', ''create'', ''-exist'', s, ''hash:ip'', ''timeout'', ''0''])
      (at_state tbl names t known rows) () (at_state tbl names t (insert s known) rows)"
    proof (rule runs_command)
      fix h assume "tbl h = t" "names h = known"
      with set_laws(2) [OF assms, of s h]
      show "\<exists>out h'. SpaRun e [''ipset'', ''create'', ''-exist'', s, ''hash:ip'', ''timeout'', ''0''] h = ((Exited 0, out), h') \<and>
        tbl h' = t \<and> names h' = insert s known" by simp
    qed
    with False show ?thesis by simp
  qed
  then show ?thesis unfolding ensureIPSet_def by (rule does_bindE [OF set_exists [OF assms]])
qed

lemma destroys_set:
  assumes "firewall e tbl names" "\<forall>c. \<forall>r \<in> set (t c). rule_set r \<noteq> Some s"
  shows "does (destroyIPSet e s) (at_state tbl names t known rows) () (at_state tbl names t (known - {s}) rows)"
proof -
  have "does (if s \<notin> known then ret () else runCommand e [''ipset'', ''destroy'', s])
      (at_state tbl names t known rows) () (at_state tbl names t (known - {s}) rows)"
  proof (cases "s \<in> known")
    case False
    then show ?thesis by (simp add: does_ret)
  next
    case True
    have "does (runCommand e [''ipset'', ''destroy'', s])
      (at_state tbl names t known rows) () (at_state tbl names t (known - {s}) rows)"
    proof (rule runs_command)
      fix h assume "tbl h = t" "names h = known"
      with set_laws(3) [OF assms(1), of s h] assms(2) True
      show "\<exists>out h'. SpaRun e [''ipset'', ''destroy'', s] h = ((Exited 0, out), h') \<and> tbl h' = t \<and> names h' = known - {s}" by simp
    qed
    with True show ?thesis by simp
  qed
  then show ?thesis unfolding destroyIPSet_def by (rule does_bindE [OF set_exists [OF assms(1)]])
qed

text \<open>The loop ends: every round takes one copy of the rule away.\<close>

lemma removeAll_remove1: "removeAll x (remove1 x xs) = removeAll x xs"
  by (induction xs) auto

lemma count_remove1: "x \<in> set xs \<Longrightarrow> count_list xs x = Suc (count_list (remove1 x xs) x)"
  by (induction xs) auto

lemma deletes_all:
  assumes "firewall e tbl names" "usable known (args rule)" "count_list (t (chain rule)) (args rule) < n"
  shows "does (deleteAllMatchingRules n e rule) (at_state tbl names t known rows) ()
           (at_state tbl names (t(chain rule := removeAll (args rule) (t (chain rule)))) known rows)"
  using assms(3)
proof (induction n arbitrary: t)
  case (Suc n)
  let ?r = "args rule" and ?c = "chain rule"
  let ?Q = "at_state tbl names (t(?c := removeAll ?r (t ?c))) known rows"
  have "does (if \<not> ?r \<in> set (t ?c) then ret ()
       else bindE (runIptables e ''-D'' rule) (\<lambda>_. deleteAllMatchingRules n e rule))
       (at_state tbl names t known rows) () ?Q"
  proof (cases "?r \<in> set (t ?c)")
    case False
    then have "t(?c := removeAll ?r (t ?c)) = t" by (simp add: removeAll_id)
    with False show ?thesis by (simp add: does_ret)
  next
    case True
    let ?t = "t(?c := remove1 ?r (t ?c))"
    have run: "does (runIptables e ''-D'' rule) (at_state tbl names t known rows) () (at_state tbl names ?t known rows)"
      unfolding runIptables_def
    proof (rule runs_command)
      fix h assume "tbl h = t" "names h = known"
      with delete_law [OF assms(1), of h ?r ?c] assms(2) True
      show "\<exists>out h'. SpaRun e ([''iptables'', ''-w'', ''-D'', ?c] @ (if ''-D'' = ''-I'' \<and> 0 < position rule then [Itoa (int (position rule))] else []) @ ?r) h =
          ((Exited 0, out), h') \<and> tbl h' = ?t \<and> names h' = known" by simp
    qed
    have "count_list (?t ?c) ?r < n" using Suc.prems count_remove1 [OF True] by (simp only: fun_upd_same)
    from Suc.IH [of ?t, OF this] have "does (deleteAllMatchingRules n e rule) (at_state tbl names ?t known rows) () ?Q"
      by (simp only: removeAll_remove1 fun_upd_same fun_upd_upd)
    with True show ?thesis by (simp add: does_bindE [OF run])
  qed
  then show ?case unfolding deleteAllMatchingRules.simps by (rule does_bindE [OF rule_exists [OF assms(1,2)]])
qed simp

lemma ensures_rule:
  assumes "firewall e tbl names" "usable known (args rule)" "args rule \<notin> set (t (chain rule))"
    and "0 < position rule" "position rule \<le> length (t (chain rule)) + 1"
  shows "does (ensureIptablesRule e rule) (at_state tbl names t known rows) ()
           (at_state tbl names (t(chain rule := insert_at (position rule) (args rule) (t (chain rule)))) known rows)"
proof -
  have "does (runIptables e ''-I'' rule) (at_state tbl names t known rows) ()
       (at_state tbl names (t(chain rule := insert_at (position rule) (args rule) (t (chain rule)))) known rows)"
    unfolding runIptables_def
  proof (rule runs_command)
    fix h assume "tbl h = t" "names h = known"
    with insert_law [OF assms(1), of "position rule" h "chain rule" "args rule"] assms(2,4,5)
    show "\<exists>out h'. SpaRun e ([''iptables'', ''-w'', ''-I'', chain rule] @
          (if ''-I'' = ''-I'' \<and> 0 < position rule then [Itoa (int (position rule))] else []) @ args rule) h =
        ((Exited 0, out), h') \<and>
        tbl h' = t(chain rule := insert_at (position rule) (args rule) (t (chain rule))) \<and> names h' = known" by simp
  qed
  then show ?thesis unfolding ensureIptablesRule_def
    by (intro does_bindE [OF rule_exists [OF assms(1,2)]]) (simp add: assms(3))
qed

subsection \<open>Enabling and disabling a port\<close>

text \<open>What one rule of the loop does to the table: all its copies go and one comes back in its place.\<close>

definition reset_rule :: "spaRule \<Rightarrow> (string \<Rightarrow> string list list) \<Rightarrow> string \<Rightarrow> string list list" where
  "reset_rule rule t =
     t(chain rule := insert_at (position rule) (args rule) (removeAll (args rule) (t (chain rule))))"

fun resettable :: "nat \<Rightarrow> string set \<Rightarrow> spaRule list \<Rightarrow> (string \<Rightarrow> string list list) \<Rightarrow> bool" where
  "resettable n known [] t \<longleftrightarrow> True"
| "resettable n known (r # rs) t \<longleftrightarrow>
     usable known (args r) \<and> count_list (t (chain r)) (args r) < n \<and> 0 < position r \<and>
     position r \<le> length (removeAll (args r) (t (chain r))) + 1 \<and> resettable n known rs (reset_rule r t)"

lemma resets_rule:
  assumes "firewall e tbl names" "resettable n known [r] t"
  shows "does (bindE (deleteAllMatchingRules n e r) (\<lambda>_. ensureIptablesRule e r))
    (at_state tbl names t known rows) () (at_state tbl names (reset_rule r t) known rows)"
proof -
  let ?t = "t(chain r := removeAll (args r) (t (chain r)))"
  have "does (ensureIptablesRule e r) (at_state tbl names ?t known rows) () (at_state tbl names (reset_rule r t) known rows)"
    using ensures_rule [OF assms(1), of known r ?t] assms(2) by (simp add: reset_rule_def)
  then show ?thesis by (intro does_bindE [OF deletes_all [OF assms(1)]]) (use assms(2) in auto)
qed

lemma resets_rules:
  assumes "firewall e tbl names" "resettable n known rules t"
  shows "does (forE rules (\<lambda>rule. bindE (deleteAllMatchingRules n e rule) (\<lambda>_. ensureIptablesRule e rule)))
    (at_state tbl names t known rows) () (at_state tbl names (fold reset_rule rules t) known rows)"
  using assms(2)
proof (induction rules arbitrary: t)
  case Nil
  then show ?case by (simp add: does_ret)
next
  case (Cons r rs)
  from Cons.prems have "resettable n known [r] t" "resettable n known rs (reset_rule r t)" by simp_all
  with does_bindE [OF resets_rule [OF assms(1)] Cons.IH] show ?case by simp
qed

definition port_rules :: "string \<Rightarrow> int \<Rightarrow> string list list" where
  "port_rules proto port = [allow_args proto (Itoa port) (ipsetName port), drop_args proto (Itoa port)]"

definition own_rules :: "int \<Rightarrow> string list list" where
  "own_rules port = port_rules ''tcp'' port @ port_rules ''udp'' port"

definition protected_chain :: "int \<Rightarrow> string list list \<Rightarrow> string list list" where
  "protected_chain port rs =
     port_rules ''udp'' port @ port_rules ''tcp'' port @
       filter (\<lambda>r. r \<notin> set (own_rules port)) rs"

definition protect :: "int \<Rightarrow> (string \<Rightarrow> string list list) \<Rightarrow> string \<Rightarrow> string list list" where
  "protect port t = t(''INPUT'' := protected_chain port (t ''INPUT''), ''FORWARD'' := protected_chain port (t ''FORWARD''))"

lemma port_rules_distinct:
  "distinct (own_rules port)"
  by (simp add: own_rules_def port_rules_def allow_args_def drop_args_def)

lemma rules_of_port:
  "rulesForPort port (ipsetName port) =
     concat (map (\<lambda>c. concat (map (\<lambda>proto.
       [\<lparr>chain = c, args = port_rules proto port ! 0, position = 1\<rparr>,
        \<lparr>chain = c, args = port_rules proto port ! 1, position = 2\<rparr>]) [''tcp'', ''udp''])) [''INPUT'', ''FORWARD''])"
  by (simp add: rulesForPort_def port_rules_def)

lemma usable_port_rules: "i < 2 \<Longrightarrow> ipsetName port \<in> known \<Longrightarrow> usable known (port_rules proto port ! i)"
  by (cases "i = 0"; cases "i = 1")
    (simp_all add: usable_def rule_set_def is_allow_def port_rules_def allow_args_def drop_args_def)

definition reset :: "nat \<Rightarrow> 'a \<Rightarrow> 'a list \<Rightarrow> 'a list" where
  "reset k x xs = insert_at k x (removeAll x xs)"

lemma count_reset [simp]: "r \<noteq> x \<Longrightarrow> count_list (reset k x xs) r = count_list xs r"
proof -
  assume r: "r \<noteq> x"
  have "count_list (take j ys @ drop j ys) r = count_list (take j ys @ x # drop j ys) r" for j and ys :: "'a list"
    using r by (simp del: append_take_drop_id)
  then have "count_list (insert_at k x ys) r = count_list ys r" for ys by (simp add: insert_at_def)
  moreover have "count_list (removeAll x xs) r = count_list xs r" using r by (induction xs) auto
  ultimately show ?thesis by (simp add: reset_def)
qed

lemma resets_four:
  assumes "distinct [a1, d1, a2, d2]"
  shows "reset 2 d2 (reset 1 a2 (reset 2 d1 (reset 1 a1 rs))) =
    [a2, d2, a1, d1] @ filter (\<lambda>r. r \<notin> {a1, d1, a2, d2}) rs"
  using assms by (auto simp: reset_def insert_at_def removeAll_filter_not_eq filter_filter intro!: filter_cong)

lemma reset_rule_reset: "reset_rule r t = t(chain r := reset (position r) (args r) (t (chain r)))"
  by (simp add: reset_rule_def reset_def)

lemma fold_protects: "fold reset_rule (rulesForPort port (ipsetName port)) t = protect port t"
proof -
  obtain a1 d1 where tcp: "port_rules ''tcp'' port = [a1, d1]" by (simp add: port_rules_def)
  obtain a2 d2 where udp: "port_rules ''udp'' port = [a2, d2]" by (simp add: port_rules_def)
  have dist: "distinct [a1, d1, a2, d2]" using port_rules_distinct [of port] by (simp add: own_rules_def tcp udp)
  show ?thesis
    unfolding protect_def protected_chain_def own_rules_def rules_of_port
    by (simp add: tcp udp reset_rule_reset resets_four [OF dist, simplified] fun_upd_twist)
qed

lemma resettable_port:
  assumes "ipsetName port \<in> known" "length (t ''INPUT'') < n" "length (t ''FORWARD'') < n"
  shows "resettable n known (rulesForPort port (ipsetName port)) t"
proof -
  obtain a1 d1 where tcp: "port_rules ''tcp'' port = [a1, d1]" by (simp add: port_rules_def)
  obtain a2 d2 where udp: "port_rules ''udp'' port = [a2, d2]" by (simp add: port_rules_def)
  have dist: "distinct [a1, d1, a2, d2]" using port_rules_distinct [of port] by (simp add: own_rules_def tcp udp)
  have ne: "d1 \<noteq> a1" "a2 \<noteq> a1" "a2 \<noteq> d1" "d2 \<noteq> a1" "d2 \<noteq> d1" "d2 \<noteq> a2" using dist by auto
  have ok: "usable known a1" "usable known d1" "usable known a2" "usable known d2"
    using usable_port_rules [OF _ assms(1), of 0 "''tcp''"] usable_port_rules [OF _ assms(1), of 1 "''tcp''"]
      usable_port_rules [OF _ assms(1), of 0 "''udp''"] usable_port_rules [OF _ assms(1), of 1 "''udp''"]
    by (simp_all add: tcp udp)
  have few: "count_list (t ''INPUT'') r < n" "count_list (t ''FORWARD'') r < n" for r
    using assms(2,3) count_le_length [of "t ''INPUT''" r] count_le_length [of "t ''FORWARD''" r] by linarith+
  have room: "Suc 0 \<le> length (removeAll d (reset 1 a xs))" if "d \<noteq> a" for a d and xs :: "string list list"
    using that by (simp add: reset_def insert_at_def)
  show ?thesis
    unfolding rules_of_port using few ok room ne by (simp add: tcp udp reset_rule_reset)
qed

lemma enable_does:
  assumes "firewall e tbl names" "1 \<le> port" "port \<le> 65535" "length (t ''INPUT'') < n" "length (t ''FORWARD'') < n"
  shows "does (EnableSPA n e port) (at_state tbl names t known rows) ()
    (at_state tbl names (protect port t) (insert (ipsetName port) known) rows)"
  unfolding EnableSPA_def validatePort_def
  using assms resets_rules [OF assms(1) resettable_port [of port "insert (ipsetName port) known" t n]]
  by (auto simp: fold_protects intro!: does_bindE [OF does_guard] does_bindE [OF does_mapErr [OF ensures_set [OF assms(1)]]])

definition unprotect :: "int \<Rightarrow> (string \<Rightarrow> string list list) \<Rightarrow> string \<Rightarrow> string list list" where
  "unprotect port t =
     (let out = filter (\<lambda>r. r \<notin> set (own_rules port)) in
      t(''INPUT'' := out (t ''INPUT''), ''FORWARD'' := out (t ''FORWARD'')))"

definition clear_rule :: "spaRule \<Rightarrow> (string \<Rightarrow> string list list) \<Rightarrow> string \<Rightarrow> string list list" where
  "clear_rule rule t = t(chain rule := removeAll (args rule) (t (chain rule)))"

lemma length_clear_rule: "length (clear_rule rule t c) \<le> length (t c)"
  by (simp add: clear_rule_def length_filter_le removeAll_filter_not_eq)

lemma clears_rules:
  assumes "firewall e tbl names"
    and "\<forall>rule \<in> set rules. usable known (args rule) \<and> length (t (chain rule)) < n"
  shows "does (forE rules (deleteAllMatchingRules n e))
    (at_state tbl names t known rows) () (at_state tbl names (fold clear_rule rules t) known rows)"
  using assms(2)
proof (induction rules arbitrary: t)
  case Nil
  then show ?case by (simp add: does_ret)
next
  case (Cons r rs)
  have "count_list (t (chain r)) (args r) < n"
    using Cons.prems count_le_length [of "t (chain r)" "args r"] by simp
  with Cons.prems have first: "does (deleteAllMatchingRules n e r) (at_state tbl names t known rows) ()
      (at_state tbl names (clear_rule r t) known rows)"
    using deletes_all [OF assms(1), of known r t n] by (simp add: clear_rule_def)
  have "\<forall>rule \<in> set rs. usable known (args rule) \<and> length (clear_rule r t (chain rule)) < n"
    using Cons.prems length_clear_rule [of r t] le_less_trans by (metis list.set_intros(2))
  with Cons.IH first show ?case by (simp add: does_bindE)
qed

lemma fold_unprotects: "fold clear_rule (rulesForPort port (ipsetName port)) t = unprotect port t"
proof -
  obtain a1 d1 where tcp: "port_rules ''tcp'' port = [a1, d1]" by (simp add: port_rules_def)
  obtain a2 d2 where udp: "port_rules ''udp'' port = [a2, d2]" by (simp add: port_rules_def)
  have "removeAll d2 (removeAll a2 (removeAll d1 (removeAll a1 rs))) =
      filter (\<lambda>r. r \<notin> set ([a1, d1] @ [a2, d2])) rs" for rs
    by (auto simp: removeAll_filter_not_eq filter_filter intro!: filter_cong)
  then show ?thesis
    unfolding rules_of_port unprotect_def own_rules_def Let_def tcp udp
    by (simp add: clear_rule_def tcp udp fun_upd_twist)
qed

text \<open>No other rule uses the set of the port.\<close>

definition own_set :: "int \<Rightarrow> (string \<Rightarrow> string list list) \<Rightarrow> bool" where
  "own_set port t \<longleftrightarrow> (\<forall>c. \<forall>r \<in> set (t c). rule_set r = Some (ipsetName port) \<longrightarrow>
     c \<in> {''INPUT'', ''FORWARD''} \<and> r \<in> set (own_rules port))"

lemma disable_does:
  assumes "firewall e tbl names" "1 \<le> port" "port \<le> 65535" "length (t ''INPUT'') < n" "length (t ''FORWARD'') < n"
    and "ipsetName port \<in> known" "own_set port t"
  shows "does (DisableSPA n e port) (at_state tbl names t known rows) ()
    (at_state tbl names (unprotect port t) (known - {ipsetName port}) rows)"
proof -
  have "\<forall>rule \<in> set (rulesForPort port (ipsetName port)). usable known (args rule) \<and> length (t (chain rule)) < n"
    using assms(4,5) usable_port_rules [OF _ assms(6)] by (simp add: rules_of_port)
  note clear = clears_rules [OF assms(1) this, unfolded fold_unprotects]
  have "\<forall>c. \<forall>r \<in> set (unprotect port t c). rule_set r \<noteq> Some (ipsetName port)"
  proof (intro allI ballI notI)
    fix c r assume r: "r \<in> set (unprotect port t c)" and s: "rule_set r = Some (ipsetName port)"
    have "r \<in> set (t c)" using r by (auto simp: unprotect_def Let_def split: if_splits)
    with assms(7) s have c: "c \<in> {''INPUT'', ''FORWARD''}" and own: "r \<in> set (own_rules port)"
      unfolding own_set_def by blast+
    from c have "r \<notin> set (own_rules port)" using r by (elim insertE emptyE) (simp_all add: unprotect_def Let_def)
    with own show False by simp
  qed
  note destroy = destroys_set [OF assms(1) this]
  show ?thesis
    unfolding DisableSPA_def validatePort_def
    using assms(2,3) by (intro does_bindE [OF does_guard] does_bindE [OF clear] does_mapErr [OF destroy]) auto
qed

subsection \<open>What happens to packets\<close>

lemma Itoa_inject: "Itoa i = Itoa j \<longleftrightarrow> i = j"
proof
  assume eq: "Itoa i = Itoa j"
  have plain: "CHR ''-'' \<notin> set (show_base 10 m)" for m
    using show10_plain [of "CHR ''-''" m] by auto
  have no: "CHR ''-'' # s \<noteq> show_base 10 m" for s m
  proof
    assume "CHR ''-'' # s = show_base 10 m"
    from plain [of m, folded this] show False by simp
  qed
  consider "0 \<le> i" "0 \<le> j" | "i < 0" "j < 0" | "0 \<le> i" "j < 0" | "i < 0" "0 \<le> j" by linarith
  then show "i = j"
  proof cases
    case 1
    with eq show ?thesis by (rule Itoa_inj)
  next
    case 2
    with eq have "show_base 10 (nat (- i)) = show_base 10 (nat (- j))" by (simp add: Itoa_def)
    then have "nat (- i) = nat (- j)" by (rule show_base_inj [rotated 2]) simp_all
    with 2 show ?thesis by simp
  qed (use eq no no [symmetric] in \<open>simp_all add: Itoa_def\<close>)
qed simp

lemma verdict_allow:
  "rule_verdict mem other (allow_args proto (Itoa port) s) p =
     (if Proto p = proto \<and> Dport p = port \<and> mem s (Src p) then Some AcceptPacket else None)"
proof -
  have "is_allow (allow_args proto (Itoa port) s)" by (simp add: is_allow_def allow_args_def)
  then show ?thesis by (auto simp: rule_verdict_def allow_args_def Itoa_inject)
qed

lemma verdict_drop:
  "rule_verdict mem other (drop_args proto (Itoa port)) p = (if Proto p = proto \<and> Dport p = port then Some DropPacket else None)"
proof -
  have "\<not> is_allow (drop_args proto (Itoa port))" "is_drop (drop_args proto (Itoa port))"
    by (simp_all add: is_allow_def is_drop_def drop_args_def)
  then show ?thesis by (auto simp: rule_verdict_def drop_args_def Itoa_inject)
qed

lemma verdict_filter:
  "\<forall>r \<in> set rs. \<not> P r \<longrightarrow> rule_verdict mem other r p = None \<Longrightarrow>
   chain_verdict mem other policy (filter P rs) p = chain_verdict mem other policy rs p"
  by (induction rs) (auto split: option.split)

definition concerns :: "int \<Rightarrow> packet \<Rightarrow> bool" where
  "concerns port p \<longleftrightarrow> Dport p = port \<and> (Proto p = ''tcp'' \<or> Proto p = ''udp'')"

lemma own_rules_others:
  "\<not> concerns port p \<Longrightarrow> r \<in> set (own_rules port) \<Longrightarrow> rule_verdict mem other r p = None"
  unfolding own_rules_def port_rules_def concerns_def
  by (simp, elim disjE; auto simp: verdict_allow verdict_drop)

lemma other_packets_filtered:
  "\<not> concerns port p \<Longrightarrow>
   chain_verdict mem other policy (filter (\<lambda>r. r \<notin> set (own_rules port)) rs) p = chain_verdict mem other policy rs p"
  by (rule verdict_filter) (simp add: own_rules_others)

lemma chain_verdict_port_rules:
  "chain_verdict mem other policy (port_rules proto port @ rs) p =
     (if Proto p = proto \<and> Dport p = port then if mem (ipsetName port) (Src p) then AcceptPacket else DropPacket
      else chain_verdict mem other policy rs p)"
  by (simp add: port_rules_def verdict_allow verdict_drop)

lemma protected_verdict:
  "chain_verdict mem other policy (protected_chain port rs) p =
     (if concerns port p then if mem (ipsetName port) (Src p) then AcceptPacket else DropPacket
      else chain_verdict mem other policy rs p)"
proof (cases "concerns port p")
  case True
  then have "Dport p = port" "Proto p \<noteq> ''udp'' \<Longrightarrow> Proto p = ''tcp''" by (auto simp: concerns_def)
  with True show ?thesis unfolding protected_chain_def chain_verdict_port_rules
    by (cases "Proto p = ''udp''") simp_all
next
  case False
  then have "\<not> (Proto p = ''udp'' \<and> Dport p = port)" "\<not> (Proto p = ''tcp'' \<and> Dport p = port)"
    by (auto simp: concerns_def)
  then show ?thesis unfolding protected_chain_def chain_verdict_port_rules
    by (simp only: if_False False other_packets_filtered [OF False])
qed

subsection \<open>All protected ports\<close>

definition protect_all :: "spa_row list \<Rightarrow> (string \<Rightarrow> string list list) \<Rightarrow> string \<Rightarrow> string list list" where
  "protect_all rows = fold (\<lambda>r. protect (SpaPort r)) rows"

lemma length_protected_chain: "length (protected_chain port rs) \<le> length rs + 4"
  by (simp add: protected_chain_def port_rules_def)

lemma length_protect: "length (protect port t c) \<le> length (t c) + 4"
  using length_protected_chain by (simp add: protect_def)

definition filter_chain :: "string \<Rightarrow> bool" where
  "filter_chain c \<longleftrightarrow> c = ''INPUT'' \<or> c = ''FORWARD''"

lemma protect_at: "filter_chain c \<Longrightarrow> protect port t c = protected_chain port (t c)"
  unfolding filter_chain_def protect_def by (elim disjE) simp_all

lemma protect_all_verdict:
  assumes "filter_chain c"
  shows "chain_verdict mem other policy (protect_all rows t c) p =
    (if \<exists>r \<in> set rows. concerns (SpaPort r) p
     then if mem (ipsetName (Dport p)) (Src p) then AcceptPacket else DropPacket
     else chain_verdict mem other policy (t c) p)"
proof (induction rows arbitrary: t)
  case Nil
  then show ?case by (simp add: protect_all_def)
next
  case (Cons r rs)
  have "protect_all (r # rs) t c = protect_all rs (protect (SpaPort r) t) c" by (simp add: protect_all_def)
  moreover have "concerns (SpaPort r) p \<Longrightarrow> SpaPort r = Dport p" by (simp add: concerns_def)
  ultimately show ?case
    by (simp add: Cons.IH protect_at [OF assms] protected_verdict)
qed

lemma enables_all:
  assumes "firewall e tbl names" "\<forall>r \<in> set rs. 1 \<le> SpaPort r \<and> SpaPort r \<le> 65535"
    and "length (t ''INPUT'') + 4 * length rs < n" "length (t ''FORWARD'') + 4 * length rs < n"
  shows "does (forE rs (\<lambda>p. mapErr (EnableFailed (SpaPort p)) (EnableSPA n e (SpaPort p))))
    (at_state tbl names t known rows) ()
    (at_state tbl names (protect_all rs t) ((\<lambda>r. ipsetName (SpaPort r)) ` set rs \<union> known) rows)"
  using assms(2-4)
proof (induction rs arbitrary: t known)
  case Nil
  then show ?case by (simp add: does_ret protect_all_def)
next
  case (Cons r rs)
  let ?t = "protect (SpaPort r) t" and ?s = "ipsetName (SpaPort r)"
  have len: "length (?t c) \<le> length (t c) + 4" for c by (rule length_protect)
  have "length (?t ''INPUT'') + 4 * length rs < n" "length (?t ''FORWARD'') + 4 * length rs < n"
    using Cons.prems len [of "''INPUT''"] len [of "''FORWARD''"] by simp_all
  then have rest: "does (forE rs (\<lambda>p. mapErr (EnableFailed (SpaPort p)) (EnableSPA n e (SpaPort p))))
    (at_state tbl names ?t (insert ?s known) rows) ()
    (at_state tbl names (protect_all rs ?t) ((\<lambda>r. ipsetName (SpaPort r)) ` set rs \<union> insert ?s known) rows)"
    using Cons.IH [of ?t "insert ?s known"] Cons.prems(1) by simp
  have first: "does (EnableSPA n e (SpaPort r)) (at_state tbl names t known rows) () (at_state tbl names ?t (insert ?s known) rows)"
    using Cons.prems by (intro enable_does [OF assms(1)]) auto
  show ?case using does_bindE [OF does_mapErr [OF first] rest] by (simp add: protect_all_def Un_commute insert_commute)
qed

lemma db_works:
  assumes "\<forall>h. SpaDbFails e h = (False, h)" "stmt w = (v, w')"
  shows "spa_db e name stmt w = (Inr v, w')"
  using assms by (simp add: spa_db_def)

subsection \<open>A firewall\<close>

text \<open>A filter table and the names of the sets, with the two programs as documented: an environment to evaluate in.\<close>

type_synonym table_and_sets = "(string \<Rightarrow> string list list) \<times> string set"

definition exits :: "nat \<Rightarrow> table_and_sets \<Rightarrow> (exit_status \<times> string) \<times> table_and_sets" where
  "exits s h = ((Exited s, []), h)"

definition iptables_run :: "string \<Rightarrow> string \<Rightarrow> string list \<Rightarrow> table_and_sets \<Rightarrow> (exit_status \<times> string) \<times> table_and_sets" where
  "iptables_run action c r h =
     (let rs = fst h c in
      if action = ''-C'' then exits (if \<not> usable (snd h) r then 2 else if r \<in> set rs then 0 else 1) h
      else if action = ''-D'' then
        (if \<not> usable (snd h) r then exits 2 h else if r \<in> set rs then exits 0 ((fst h)(c := remove1 r rs), snd h) else exits 1 h)
      else if action = ''-I'' \<and> r \<noteq> [] then
        (case read_base 10 0 (hd r) of None \<Rightarrow> exits 2 h
         | Some k \<Rightarrow> if \<not> usable (snd h) (tl r) then exits 2 h
             else if 0 < k \<and> k \<le> length rs + 1 then exits 0 ((fst h)(c := insert_at k (tl r) rs), snd h) else exits 1 h)
      else exits 2 h)"

definition ipset_run :: "string list \<Rightarrow> table_and_sets \<Rightarrow> (exit_status \<times> string) \<times> table_and_sets" where
  "ipset_run argv h =
     (if length argv = 2 \<and> hd argv = ''list'' then exits (if argv ! 1 \<in> snd h then 0 else 1) h
      else if length argv = 2 \<and> hd argv = ''destroy'' \<and> argv ! 1 \<in> snd h then exits 0 (fst h, snd h - {argv ! 1})
      else if 3 \<le> length argv \<and> hd argv = ''create'' then exits 0 (fst h, insert (argv ! 2) (snd h))
      else if hd argv = ''add'' then exits 0 h
      else exits 1 h)"

definition demo_run :: "string list \<Rightarrow> table_and_sets \<Rightarrow> (exit_status \<times> string) \<times> table_and_sets" where
  "demo_run argv h =
     (if argv = [] then exits 127 h
      else if hd argv = ''iptables'' \<and> 4 \<le> length argv then iptables_run (argv ! 2) (argv ! 3) (drop 4 argv) h
      else if hd argv = ''ipset'' \<and> 2 \<le> length argv then ipset_run (tl argv) h
      else exits 127 h)"

definition demo_spa :: "table_and_sets spa_env" where
  "demo_spa = \<lparr>SpaRun = demo_run, SpaDbFails = (\<lambda>h. (False, h)), HashPassword = (\<lambda>p h. (Some (rev p), h)),
     ComparePassword = (\<lambda>x p. x = rev p)\<rparr>"

lemma demo_iptables: "demo_run ([''iptables'', ''-w'', action, c] @ r) h = iptables_run action c r h"
  by (simp add: demo_run_def)

lemma read_position: "read_base 10 0 (Itoa (int k)) = Some k"
  by (simp add: Itoa_def read_show_base)

lemma demo_firewall: "firewall demo_spa fst snd"
  unfolding firewall_def
proof (intro conjI)
  show "checks_rules demo_spa fst snd"
    unfolding checks_rules_def demo_spa_def spa_env.simps demo_iptables
    by (simp add: iptables_run_def exits_def)
  show "deletes_rules demo_spa fst snd"
    unfolding deletes_rules_def demo_spa_def spa_env.simps demo_iptables
    by (simp add: iptables_run_def exits_def)
  have "[''iptables'', ''-w'', ''-I'', c, k] @ r = [''iptables'', ''-w'', ''-I'', c] @ (k # r)" for c k r by simp
  then show "inserts_rules demo_spa fst snd"
    unfolding inserts_rules_def demo_spa_def spa_env.simps
    by (simp only: demo_iptables) (simp add: iptables_run_def exits_def read_position)
  show "manages_sets demo_spa fst snd"
    unfolding manages_sets_def demo_spa_def spa_env.simps
    by (simp add: demo_run_def ipset_run_def exits_def)
qed

definition demo_host :: "table_and_sets spa_world" where
  "demo_host = \<lparr>spa_host = (\<lambda>c. if c = ''INPUT'' then [[''-j'', ''ACCEPT'']] else [], {}), spa_trace = [],
     spa_ports = [\<lparr>SpaId = 1, SpaPort = 22, SpaHash = ''nepo''\<rparr>, \<lparr>SpaId = 2, SpaPort = 8006, SpaHash = ''neddih''\<rparr>],
     spa_next = 3, spa_descs = []\<rparr>"

text \<open>C36: Writing the rules again for all ports of the table (\<open>Reapply\<close>) ends and succeeds, and afterwards a
  tcp or udp packet to such a port passes the chains for incoming and forwarded packets exactly when its
  source is in the set of the port, while all other packets fare as before, whatever the other rules are.\<close>

theorem reapplied_ports_admit_their_sets:
  assumes "firewall e tbl names" "\<forall>h. SpaDbFails e h = (False, h)"
    and "\<forall>r \<in> set (spa_ports w). 1 \<le> SpaPort r \<and> SpaPort r \<le> 65535"
    and "length (tbl (spa_host w) ''INPUT'') + 4 * length (spa_ports w) < n"
    and "length (tbl (spa_host w) ''FORWARD'') + 4 * length (spa_ports w) < n"
  shows "\<exists>w'. Reapply n e w = (Inr (), w') \<and> (\<forall>c p. filter_chain c \<longrightarrow>
    chain_verdict mem other policy (tbl (spa_host w') c) p =
      (if \<exists>r \<in> set (spa_ports w). concerns (SpaPort r) p
       then if mem (ipsetName (Dport p)) (Src p) then AcceptPacket else DropPacket
       else chain_verdict mem other policy (tbl (spa_host w) c) p))"
proof -
  let ?t = "tbl (spa_host w)" and ?rows = "spa_ports w"
  have at: "at_state tbl names ?t (names (spa_host w)) ?rows w" by (simp add: at_state_def)
  from doesD [OF enables_all [OF assms(1,3-5)] at] obtain w' where
    run: "forE ?rows (\<lambda>p. mapErr (EnableFailed (SpaPort p)) (EnableSPA n e (SpaPort p))) w = (Inr (), w')"
    and "tbl (spa_host w') = protect_all ?rows ?t" by (auto simp: at_state_def)
  moreover have "ListSPAPorts e w = (Inr ?rows, w)"
    unfolding ListSPAPorts_def by (rule db_works [OF assms(2)]) simp
  with run have "Reapply n e w = (Inr (), w')" by (simp add: Reapply_def bindE_Inr)
  ultimately show ?thesis by (auto simp: protect_all_verdict)
qed

theorem reapplied_ports_admit_their_sets_witness:
  "\<exists>w'. Reapply 10 demo_spa demo_host = (Inr (), w') \<and> (\<forall>c p. filter_chain c \<longrightarrow>
    chain_verdict (\<lambda>s a. a = [10, 0, 0, 7]) (\<lambda>r p. Some AcceptPacket) AcceptPacket (fst (spa_host w') c) p =
      (if \<exists>r \<in> set (spa_ports demo_host). concerns (SpaPort r) p
       then if Src p = [10, 0, 0, 7] then AcceptPacket else DropPacket
       else chain_verdict (\<lambda>s a. a = [10, 0, 0, 7]) (\<lambda>r p. Some AcceptPacket) AcceptPacket (fst (spa_host demo_host) c) p))"
  by (rule reapplied_ports_admit_their_sets [OF demo_firewall]) (simp_all add: demo_spa_def demo_host_def)

subsection \<open>The trace of a run\<close>

text \<open>The commands are appended to the trace, each with the state it left.\<close>

definition traced :: "(string list \<Rightarrow> bool) \<Rightarrow> 'w spa_world \<Rightarrow> 'w spa_world \<Rightarrow> bool" where
  "traced P w w' \<longleftrightarrow> (\<exists>cs. spa_trace w' = spa_trace w @ cs \<and> (\<forall>c \<in> set cs. P (fst c)))"

lemma traced_order: "reflp (traced P)" "transp (traced P)"
  by (auto simp: traced_def reflp_def transp_def)

lemmas traced_pure [steps_intro] = steps_pure [OF traced_order(1)]

lemma steps_command [steps_intro]: "P argv \<Longrightarrow> steps (traced P) (command e argv)"
  by (simp add: steps_def command_def traced_def split: prod.split)

lemma steps_asks [steps_intro]: "P argv \<Longrightarrow> steps (traced P) (asks e argv)"
  unfolding asks_def by (intro steps_intro traced_order) (auto intro!: steps_intro traced_order split: prod.split)

lemma steps_runCommand [steps_intro]: "P argv \<Longrightarrow> steps (traced P) (runCommand e argv)"
  unfolding runCommand_def by (intro steps_intro traced_order) (auto intro!: steps_intro traced_order split: prod.split)

lemma steps_deleteAll [steps_intro]: "steps (traced (\<lambda>_. True)) (deleteAllMatchingRules n e rule)"
  by (induction n) (auto simp: iptablesRuleExists_def runIptables_def intro!: steps_intro traced_order)

lemma steps_ensureRule [steps_intro]: "steps (traced (\<lambda>_. True)) (ensureIptablesRule e rule)"
  unfolding ensureIptablesRule_def iptablesRuleExists_def runIptables_def
  by (intro steps_intro traced_order TrueI)

lemma steps_ensureIPSet [steps_intro]: "steps (traced (\<lambda>_. True)) (ensureIPSet e s)"
  unfolding ensureIPSet_def ipsetExists_def by (intro steps_intro traced_order TrueI)

text \<open>The state a step ends in is that of its last command.\<close>

definition settled :: "'w spa_world \<Rightarrow> 'w spa_world \<Rightarrow> bool" where
  "settled w w' \<longleftrightarrow> (\<exists>cs argv. spa_trace w' = spa_trace w @ cs @ [(argv, spa_host w')])"

lemma asks_settles: "asks e argv w = (Inr b, w') \<Longrightarrow> settled w w'"
  by (auto simp: asks_def command_def bindE_def ret_def fail_def settled_def split: prod.splits if_splits)

lemma settled_after: "traced P w w1 \<Longrightarrow> settled w1 w2 \<Longrightarrow> settled w w2"
  by (auto simp: traced_def settled_def)

lemma deleteAll_settles: "deleteAllMatchingRules n e rule w = (Inr (), w') \<Longrightarrow> settled w w'"
proof (induction n arbitrary: w)
  case 0
  then show ?case by simp
next
  case (Suc n)
  from Suc.prems obtain b w1 where ask: "iptablesRuleExists e rule w = (Inr b, w1)"
    and rest: "(if \<not> b then ret () else bindE (runIptables e ''-D'' rule) (\<lambda>_. deleteAllMatchingRules n e rule)) w1 = (Inr (), w')"
    by (auto simp only: deleteAllMatchingRules.simps elim: bindE_eq_InrE)
  have first: "settled w w1" using ask asks_settles unfolding iptablesRuleExists_def by blast
  show ?case
  proof (cases b)
    case False
    with rest first show ?thesis by simp
  next
    case True
    with rest obtain w2 where del: "runIptables e ''-D'' rule w1 = (Inr (), w2)" "deleteAllMatchingRules n e rule w2 = (Inr (), w')"
      by (auto elim: bindE_eq_InrE)
    have "traced (\<lambda>_. True) w1 w2"
      using del(1) steps_runCommand [of "\<lambda>_. True"] unfolding runIptables_def by (rule stepsD [rotated]) simp
    moreover have "traced (\<lambda>_. True) w w1" using first by (auto simp: settled_def traced_def)
    ultimately show ?thesis using Suc.IH [OF del(2)] settled_after by blast
  qed
qed

text \<open>C38: Enabling a port again opens it for a moment: the rule that drops is taken out before it is put back,
  so every run goes through a state in which a tcp packet to the port from a source that is not in the set
  fares as if the port had no rules of its own.  \<open>Maintain\<close> does this for every protected port at every tick.\<close>

theorem enabling_again_opens_a_gap:
  assumes "firewall e tbl names" "1 \<le> port" "port \<le> 65535"
    and "length (tbl (spa_host w) ''INPUT'') < n" "length (tbl (spa_host w) ''FORWARD'') < n"
    and "Proto p = ''tcp''" "Dport p = port" "\<not> mem (ipsetName port) (Src p)"
  shows "\<exists>(argv, h) \<in> set (drop (length (spa_trace w)) (spa_trace (snd (EnableSPA n e port w)))).
    chain_verdict mem other policy (tbl h ''INPUT'') p =
    chain_verdict mem other policy (filter (\<lambda>r. r \<notin> set (port_rules ''tcp'' port)) (tbl (spa_host w) ''INPUT'')) p"
proof -
  let ?t = "tbl (spa_host w)" and ?known = "insert (ipsetName port) (names (spa_host w))" and ?rows = "spa_ports w"
  let ?step = "\<lambda>rule. bindE (deleteAllMatchingRules n e rule) (\<lambda>_. ensureIptablesRule e rule)"
  obtain a d where rules: "port_rules ''tcp'' port = [a, d]" by (simp add: port_rules_def)
  have ne: "d \<noteq> a" using port_rules_distinct [of port] by (auto simp: rules own_rules_def)
  let ?r1 = "\<lparr>chain = ''INPUT'', args = a, position = 1\<rparr>" and ?r2 = "\<lparr>chain = ''INPUT'', args = d, position = 2\<rparr>"
  obtain rs where split: "rulesForPort port (ipsetName port) = ?r1 # ?r2 # rs"
    by (simp add: rules_of_port rules)
  let ?prefix = "bindE (validatePort port) (\<lambda>_. bindE (mapErr (EnsureSetFailed (ipsetName port)) (ensureIPSet e (ipsetName port)))
     (\<lambda>_. ?step ?r1))"
  let ?rest = "\<lambda>_. bindE (ensureIptablesRule e ?r2) (\<lambda>_. forE rs ?step)"
  have eq: "EnableSPA n e port = bindE (bindE ?prefix (\<lambda>_. deleteAllMatchingRules n e ?r2)) ?rest"
    by (simp add: EnableSPA_def split bindE_assoc)
  have ok: "resettable n ?known [?r1] ?t" "usable ?known d"
    using resettable_port [of port ?known ?t n] assms(4,5) by (simp_all add: split)
  note first = resets_rule [OF assms(1) ok(1)]
  have pre: "does ?prefix (at_state tbl names ?t (names (spa_host w)) ?rows) ()
      (at_state tbl names (reset_rule ?r1 ?t) ?known ?rows)"
    unfolding validatePort_def
    using assms(2,3) by (intro does_bindE [OF does_guard] does_bindE [OF does_mapErr [OF ensures_set [OF assms(1)]]] first) auto
  have "at_state tbl names ?t (names (spa_host w)) ?rows w" by (simp add: at_state_def)
  from doesD [OF pre this] obtain w1 where
    w1: "?prefix w = (Inr (), w1)" "at_state tbl names (reset_rule ?r1 ?t) ?known ?rows w1" by blast
  have "count_list (reset_rule ?r1 ?t ''INPUT'') d < n"
    using count_le_length [of "?t ''INPUT''" d] assms(4) ne by (simp add: reset_rule_reset)
  with deletes_all [OF assms(1), of ?known ?r2 "reset_rule ?r1 ?t" n] ok(2)
  have "does (deleteAllMatchingRules n e ?r2) (at_state tbl names (reset_rule ?r1 ?t) ?known ?rows) ()
     (at_state tbl names ((reset_rule ?r1 ?t)(''INPUT'' := removeAll d (reset_rule ?r1 ?t ''INPUT''))) ?known ?rows)" by simp
  with w1(2) have "\<exists>w2. deleteAllMatchingRules n e ?r2 w1 = (Inr (), w2) \<and>
     at_state tbl names ((reset_rule ?r1 ?t)(''INPUT'' := removeAll d (reset_rule ?r1 ?t ''INPUT''))) ?known ?rows w2"
    by (simp only: does_def)
  then obtain w2 where w2: "deleteAllMatchingRules n e ?r2 w1 = (Inr (), w2)"
    and "at_state tbl names ((reset_rule ?r1 ?t)(''INPUT'' := removeAll d (reset_rule ?r1 ?t ''INPUT''))) ?known ?rows w2"
    by (elim exE conjE)
  then have t2: "tbl (spa_host w2) ''INPUT'' = removeAll d (reset 1 a (?t ''INPUT''))"
    by (simp add: at_state_def reset_rule_reset)
  have "steps (traced (\<lambda>_. True)) ?prefix"
    unfolding validatePort_def by (intro steps_intro traced_order)
  then have "traced (\<lambda>_. True) w w1" using w1(1) by (rule stepsD)
  with deleteAll_settles [OF w2] have "settled w w2" using settled_after by blast
  then obtain cs argv where tr: "spa_trace w2 = spa_trace w @ cs @ [(argv, spa_host w2)]" by (auto simp: settled_def)
  have "steps (traced (\<lambda>_. True)) (?rest ())" by (intro steps_intro traced_order)
  moreover have "bindE ?prefix (\<lambda>_. deleteAllMatchingRules n e ?r2) w = (Inr (), w2)"
    using w1(1) w2 by (subst bindE_eq_Inr_iff) blast
  then have "EnableSPA n e port w = ?rest () w2" by (simp only: eq bindE_def [of _ ?rest]) simp
  ultimately obtain cs2 where "spa_trace (snd (EnableSPA n e port w)) = spa_trace w2 @ cs2"
    unfolding steps_def traced_def by auto
  with tr have mem: "(argv, spa_host w2) \<in> set (drop (length (spa_trace w)) (spa_trace (snd (EnableSPA n e port w))))"
    by simp
  have "rule_verdict mem other a p = None"
    using rules assms(8) by (auto simp: port_rules_def verdict_allow)
  then have "chain_verdict mem other policy (tbl (spa_host w2) ''INPUT'') p =
      chain_verdict mem other policy (filter (\<lambda>r. r \<notin> set (port_rules ''tcp'' port)) (?t ''INPUT'')) p"
    using ne by (simp add: t2 reset_def insert_at_def rules removeAll_filter_not_eq filter_filter) (metis (no_types, lifting))
  with mem show ?thesis by blast
qed

theorem enabling_again_opens_a_gap_witness:
  "\<exists>(argv, h) \<in> set (drop (length (spa_trace demo_host)) (spa_trace (snd (EnableSPA 10 demo_spa 22 demo_host)))).
    chain_verdict (\<lambda>s a. False) (\<lambda>r p. Some AcceptPacket) DropPacket (fst h ''INPUT'')
      \<lparr>Proto = ''tcp'', Dport = 22, Src = [10, 0, 0, 8]\<rparr> =
    chain_verdict (\<lambda>s a. False) (\<lambda>r p. Some AcceptPacket) DropPacket
      (filter (\<lambda>r. r \<notin> set (port_rules ''tcp'' 22)) (fst (spa_host demo_host) ''INPUT''))
      \<lparr>Proto = ''tcp'', Dport = 22, Src = [10, 0, 0, 8]\<rparr>"
  by (rule enabling_again_opens_a_gap [OF demo_firewall]) (simp_all add: demo_host_def)

subsection \<open>Creating and deleting\<close>

lemma own_set_protect: "own_set port t \<Longrightarrow> own_set port (protect port t)"
proof -
  assume own: "own_set port t"
  have "c \<in> {''INPUT'', ''FORWARD''} \<and> r \<in> set (own_rules port)"
    if r: "r \<in> set (protect port t c)" and s: "rule_set r = Some (ipsetName port)" for c r
  proof (cases "filter_chain c")
    case False
    then have "protect port t c = t c" by (simp add: filter_chain_def protect_def)
    with r s own show ?thesis unfolding own_set_def by simp
  next
    case True
    then have c: "c \<in> {''INPUT'', ''FORWARD''}" by (auto simp: filter_chain_def)
    from True r have "r \<in> set (own_rules port) \<or> r \<in> set (t c)"
      by (auto simp: protect_at protected_chain_def own_rules_def)
    with c s own show ?thesis unfolding own_set_def by blast
  qed
  then show ?thesis unfolding own_set_def by blast
qed

lemma unprotect_protect: "unprotect port (protect port t) = unprotect port t"
proof -
  have "filter (\<lambda>r. r \<notin> set (own_rules port)) (protected_chain port rs) = filter (\<lambda>r. r \<notin> set (own_rules port)) rs" for rs
    by (simp add: protected_chain_def filter_empty_conv own_rules_def port_rules_def)
  then show ?thesis by (simp add: unprotect_def protect_def fun_upd_twist)
qed

lemma enable_then_disable:
  assumes "firewall e tbl names" "1 \<le> port" "port \<le> 65535"
    and "length (t ''INPUT'') + 4 < n" "length (t ''FORWARD'') + 4 < n" "own_set port t"
  shows "does (DisableSPA n e port) (at_state tbl names (protect port t) (insert (ipsetName port) known) rows) ()
    (at_state tbl names (unprotect port t) (known - {ipsetName port}) rows)"
proof -
  have "length (protect port t ''INPUT'') < n" "length (protect port t ''FORWARD'') < n"
    using length_protect [of port t "''INPUT''"] length_protect [of port t "''FORWARD''"] assms(4,5) by linarith+
  from disable_does [OF assms(1-3) this _ own_set_protect [OF assms(6)], of "insert (ipsetName port) known"]
  show ?thesis by (simp add: unprotect_protect insert_Diff_if)
qed

lemma enable_run:
  assumes "firewall e tbl names" "1 \<le> port" "port \<le> 65535"
    and "length (tbl (spa_host w) ''INPUT'') + 4 < n" "length (tbl (spa_host w) ''FORWARD'') + 4 < n"
  obtains w1 where "EnableSPA n e port w = (Inr (), w1)"
    "at_state tbl names (protect port (tbl (spa_host w))) (insert (ipsetName port) (names (spa_host w))) (spa_ports w) w1"
proof -
  have "length (tbl (spa_host w) ''INPUT'') < n" "length (tbl (spa_host w) ''FORWARD'') < n" using assms(4,5) by linarith+
  note enable = enable_does [OF assms(1-3) this]
  have "at_state tbl names (tbl (spa_host w)) (names (spa_host w)) (spa_ports w) w" by (simp add: at_state_def)
  from doesD [OF enable this] that show thesis by blast
qed

lemma unprotect_at: "filter_chain c \<Longrightarrow> unprotect port t c = filter (\<lambda>r. r \<notin> set (own_rules port)) (t c)"
  unfolding filter_chain_def unprotect_def Let_def by (elim disjE) simp_all

text \<open>C39: A new password for a protected port, when the table cannot be written, takes the protection away:
  \<open>Create\<close> answers with the error of the table and keeps the row of the port, but rolls back by
  disabling, so that every packet fares as if the port had no rules.\<close>

theorem failed_password_change_unprotects:
  assumes "firewall e tbl names" "1 \<le> port" "port \<le> 65535" "password \<noteq> []"
    and "\<forall>h. SpaDbFails e h = (True, h)" "HashPassword e password (spa_host w) = (Some x, spa_host w)"
    and "length (tbl (spa_host w) ''INPUT'') + 4 < n" "length (tbl (spa_host w) ''FORWARD'') + 4 < n"
    and "own_set port (tbl (spa_host w))" "row \<in> set (spa_ports w)" "SpaPort row = port"
  shows "\<exists>w'. Create n e port password w = (Inl (SpaDbError ''upsert spa port''), w') \<and> row \<in> set (spa_ports w') \<and>
    (\<forall>c p. filter_chain c \<longrightarrow> chain_verdict mem other policy (tbl (spa_host w') c) p =
       chain_verdict mem other policy (filter (\<lambda>r. r \<notin> set (own_rules port)) (tbl (spa_host w) c)) p)"
proof -
  let ?t = "tbl (spa_host w)" and ?rows = "spa_ports w" and ?known = "names (spa_host w)"
  have hash: "hash_password e password w = (Inr x, w)" using assms(6) by (simp add: hash_password_def)
  obtain w1 where w1: "EnableSPA n e port w = (Inr (), w1)"
      "at_state tbl names (protect port ?t) (insert (ipsetName port) ?known) ?rows w1"
    by (rule enable_run [OF assms(1-3,7,8)])
  have up: "UpsertSPAPort e port x w1 = (Inl (SpaDbError ''upsert spa port''), w1)"
    using assms(5) by (simp add: UpsertSPAPort_def spa_db_def)
  from doesD [OF enable_then_disable [OF assms(1-3,7-9)] w1(2)] obtain w2 where
    w2: "DisableSPA n e port w1 = (Inr (), w2)" "at_state tbl names (unprotect port ?t) (?known - {ipsetName port}) ?rows w2"
    by blast
  have "Create n e port password w = (Inl (SpaDbError ''upsert spa port''), w2)"
    using assms(4) by (simp add: Create_def bindE_def hash w1(1) bindR_def up w2(1) fail_def)
  moreover have "row \<in> set (spa_ports w2)" "tbl (spa_host w2) = unprotect port ?t"
    using w2(2) assms(10) by (simp_all add: at_state_def)
  ultimately show ?thesis by (auto simp: unprotect_at)
qed

theorem failed_password_change_unprotects_witness:
  "\<exists>w'. Create 10 (demo_spa\<lparr>SpaDbFails := \<lambda>h. (True, h)\<rparr>) 22 ''new'' demo_host = (Inl (SpaDbError ''upsert spa port''), w') \<and>
    \<lparr>SpaId = 1, SpaPort = 22, SpaHash = ''nepo''\<rparr> \<in> set (spa_ports w') \<and>
    (\<forall>c p. filter_chain c \<longrightarrow> chain_verdict (\<lambda>s a. False) (\<lambda>r p. Some AcceptPacket) DropPacket (fst (spa_host w') c) p =
       chain_verdict (\<lambda>s a. False) (\<lambda>r p. Some AcceptPacket) DropPacket
         (filter (\<lambda>r. r \<notin> set (own_rules 22)) (fst (spa_host demo_host) c)) p)"
proof (rule failed_password_change_unprotects)
  show "firewall (demo_spa\<lparr>SpaDbFails := \<lambda>h. (True, h)\<rparr>) fst snd"
    using demo_firewall by (simp add: firewall_def checks_rules_def deletes_rules_def inserts_rules_def manages_sets_def)
  show "own_set 22 (fst (spa_host demo_host))"
    by (simp add: own_set_def demo_host_def rule_set_def is_allow_def)
qed (simp_all add: demo_spa_def demo_host_def)

text \<open>C40: A port that was not protected and is created and deleted again leaves the rules of both chains, the
  sets and the table of ports as they were.\<close>

theorem delete_undoes_create:
  assumes "firewall e tbl names" "1 \<le> port" "port \<le> 65535" "password \<noteq> []"
    and "\<forall>h. SpaDbFails e h = (False, h)" "HashPassword e password (spa_host w) = (Some x, spa_host w)"
    and "length (tbl (spa_host w) ''INPUT'') + 4 < n" "length (tbl (spa_host w) ''FORWARD'') + 4 < n"
    and "\<forall>r \<in> set (spa_ports w). SpaPort r \<noteq> port" "ipsetName port \<notin> names (spa_host w)"
    and "\<forall>c. \<forall>r \<in> set (tbl (spa_host w) c). r \<notin> set (own_rules port) \<and> rule_set r \<noteq> Some (ipsetName port)"
  shows "\<exists>w' w''. Create n e port password w = (Inr (), w') \<and> Delete n e port w' = (Inr (), w'') \<and>
    tbl (spa_host w'') = tbl (spa_host w) \<and> names (spa_host w'') = names (spa_host w) \<and> spa_ports w'' = spa_ports w"
proof -
  let ?t = "tbl (spa_host w)" and ?rows = "spa_ports w" and ?known = "names (spa_host w)"
  let ?row = "\<lparr>SpaId = spa_next w, SpaPort = port, SpaHash = x\<rparr>"
  have own: "own_set port ?t" using assms(11) by (auto simp: own_set_def)
  have hash: "hash_password e password w = (Inr x, w)" using assms(6) by (simp add: hash_password_def)
  obtain w1 where w1: "EnableSPA n e port w = (Inr (), w1)"
      "at_state tbl names (protect port ?t) (insert (ipsetName port) ?known) ?rows w1"
    by (rule enable_run [OF assms(1-3,7,8)])
  let ?w2 = "snd (upsert_row port x w1)"
  have fresh: "\<not> list_ex (\<lambda>r. SpaPort r = port) (spa_ports w1)"
    using w1(2) assms(9) by (simp add: at_state_def list_ex_iff)
  have up: "UpsertSPAPort e port x w1 = (Inr (), ?w2)"
    unfolding UpsertSPAPort_def by (rule db_works [OF assms(5)]) (simp add: upsert_row_def)
  have create: "Create n e port password w = (Inr (), ?w2)"
    using assms(4) by (simp add: Create_def bindE_def hash w1(1) bindR_def up ret_def)
  obtain row where rows2: "spa_ports ?w2 = ?rows @ [row]" "SpaPort row = port" and host2: "spa_host ?w2 = spa_host w1"
    using fresh w1(2) by (simp add: upsert_row_def at_state_def)
  then have "List.find (\<lambda>r. SpaPort r = port) (spa_ports ?w2) \<noteq> None" by (auto simp: find_None_iff)
  then obtain entry where found: "List.find (\<lambda>r. SpaPort r = port) (spa_ports ?w2) = Some entry" by auto
  have entry: "GetSPAPort e port ?w2 = (Inr (Some entry), ?w2)"
    unfolding GetSPAPort_def by (rule db_works [OF assms(5)]) (simp add: found)
  have "at_state tbl names (protect port ?t) (insert (ipsetName port) ?known) (?rows @ [row]) ?w2"
    using w1(2) rows2 host2 by (simp add: at_state_def)
  from doesD [OF enable_then_disable [OF assms(1-3,7,8) own] this] obtain w3 where
    w3: "DisableSPA n e port ?w2 = (Inr (), w3)"
      "at_state tbl names (unprotect port ?t) (?known - {ipsetName port}) (?rows @ [row]) w3" by blast
  let ?w4 = "w3\<lparr>spa_ports := filter (\<lambda>r. SpaPort r \<noteq> port) (spa_ports w3)\<rparr>"
  have del: "DeleteSPAPort e port w3 = (Inr True, ?w4)"
    unfolding DeleteSPAPort_def by (rule db_works [OF assms(5)]) (use w3(2) rows2 in \<open>simp add: at_state_def\<close>)
  have delete: "Delete n e port ?w2 = (Inr (), ?w4)"
    by (simp add: Delete_def bindE_def entry w3(1) bindR_def del ret_def)
  have "filter (\<lambda>r. r \<notin> set (own_rules port)) (?t c) = ?t c" for c using assms(11) by (intro filter_True) blast
  then have same: "unprotect port ?t = ?t" by (simp add: unprotect_def)
  have rows: "filter (\<lambda>r. SpaPort r \<noteq> port) ?rows = ?rows" using assms(9) by (intro filter_True) blast
  have "tbl (spa_host ?w4) = ?t" "names (spa_host ?w4) = ?known" "spa_ports ?w4 = ?rows"
    using w3(2) same rows rows2(2) assms(10) by (simp_all add: at_state_def)
  with create delete show ?thesis by blast
qed

theorem delete_undoes_create_witness:
  "\<exists>w' w''. Create 10 demo_spa 443 ''open'' demo_host = (Inr (), w') \<and> Delete 10 demo_spa 443 w' = (Inr (), w'') \<and>
    fst (spa_host w'') = fst (spa_host demo_host) \<and> snd (spa_host w'') = snd (spa_host demo_host) \<and>
    spa_ports w'' = spa_ports demo_host"
proof (rule delete_undoes_create [OF demo_firewall])
  show "\<forall>c. \<forall>r \<in> set (fst (spa_host demo_host) c). r \<notin> set (own_rules 443) \<and> rule_set r \<noteq> Some (ipsetName 443)"
    by (simp add: demo_host_def rule_set_def is_allow_def own_rules_def port_rules_def allow_args_def drop_args_def)
qed (simp_all add: demo_spa_def demo_host_def)

subsection \<open>Access by password\<close>

definition wanted_ip :: "allow_request \<Rightarrow> byte list \<Rightarrow> bool" where
  "wanted_ip r a \<longleftrightarrow> length a = 4 \<and>
     (if TrimSpace (ReqIP r) \<noteq> [] then parse_v4 (TrimSpace (ReqIP r)) = Some a else clientIP r = Some (v4_text a))"

lemma first_v4_length: "first_v4 ps = Some a \<Longrightarrow> length a = 4"
  by (induction ps) (auto simp: Let_def dest: parse_v4_length split: if_splits option.splits)

lemma clientIP_text: "clientIP r = Some ip \<Longrightarrow> \<exists>a. length a = 4 \<and> ip = v4_text a"
  by (auto simp: clientIP_def bind_eq_Some_conv dest: first_v4_length parse_v4_length split: if_splits option.splits)

lemma allow_ip_wanted: "allow_ip_of r = Inr ip \<Longrightarrow> \<exists>a. ip = v4_text a \<and> wanted_ip r a"
  by (auto simp: allow_ip_of_def wanted_ip_def Let_def dest: parse_v4_length clientIP_text split: if_splits option.splits)

definition grant :: "int \<Rightarrow> byte list \<Rightarrow> int \<Rightarrow> string list" where
  "grant port a seconds = [''ipset'', ''add'', ''-exist'', ipsetName port, v4_text a, ''timeout'', Itoa seconds]"

definition asks_set :: "int \<Rightarrow> string list" where
  "asks_set port = [''ipset'', ''list'', ipsetName port]"

lemma steps_AllowIP:
  assumes "length a = 4"
  shows "steps (traced (\<lambda>argv. argv = asks_set port \<or> argv = grant port a seconds \<and> 1 \<le> port \<and> port \<le> 65535 \<and> 0 < seconds))
    (AllowIP e port (v4_text a) seconds)"
proof -
  define P where "P = (\<lambda>argv. argv = asks_set port \<or> argv = grant port a seconds \<and> 1 \<le> port \<and> port \<le> 65535 \<and> 0 < seconds)"
  show ?thesis
  proof (cases "1 \<le> port \<and> port \<le> 65535 \<and> 0 < seconds")
    case False
    then have "\<exists>err. \<forall>w. AllowIP e port (v4_text a) seconds w = (Inl err, w)"
      by (auto simp: AllowIP_def validatePort_def guardE_def bindE_def fail_def)
    then obtain err where "AllowIP e port (v4_text a) seconds w = (Inl err, w)" for w by blast
    then show ?thesis by (simp add: steps_def traced_def)
  next
    case True
    have "P (asks_set port)" "P (grant port a seconds)" using True by (simp_all add: P_def)
    then have "steps (traced P) (AllowIP e port (v4_text a) seconds)"
      unfolding AllowIP_def validatePort_def require_set_def ipsetExists_def asks_set_def grant_def
      using True by (simp add: parse_v4_v4_text [OF assms]) (intro steps_intro traced_order; assumption?)
    then show ?thesis by (simp add: P_def)
  qed
qed

text \<open>C37: A request for access makes the host add an address to the set of a port only when the port is valid
  and protected, the password is that of its row and the time is positive; the address is the one the
  request names, or else the first valid one of its headers and its connection, in canonical form.\<close>

theorem access_needs_the_password:
  assumes "allowSPAHandler e r w = (res, w')"
    and "(argv, h) \<in> set (drop (length (spa_trace w)) (spa_trace w'))" "argv \<noteq> asks_set (ReqPort r)"
  shows "\<exists>a row. argv = grant (ReqPort r) a (ReqSeconds r) \<and> wanted_ip r a \<and>
    1 \<le> ReqPort r \<and> ReqPort r \<le> 65535 \<and> 0 < ReqSeconds r \<and>
    row \<in> set (spa_ports w) \<and> SpaPort row = ReqPort r \<and> ComparePassword e (SpaHash row) (ReqPassword r)"
proof -
  let ?p = "ReqPort r" and ?s = "ReqSeconds r"
  have moved: "w' \<noteq> w" using assms(2) by auto
  then have early: "ReqPort r \<noteq> 0" "ReqPassword r \<noteq> []" "\<not> ReqSeconds r \<le> 0"
    using assms(1) by (auto simp: allowSPAHandler_def fail_def split: if_splits)
  obtain ip where ip: "allow_ip_of r = Inr ip"
    using assms(1) moved early by (cases "allow_ip_of r") (auto simp: allowSPAHandler_def bindE_def liftE_def)
  with allow_ip_wanted obtain a where a: "ip = v4_text a" "wanted_ip r a" by blast
  then have len: "length a = 4" by (simp add: wanted_ip_def)
  obtain ares where allow: "Allow e ?p (ReqPassword r) (v4_text a) ?s w = (ares, w')"
    using assms(1) early ip a(1)
    by (auto simp: allowSPAHandler_def bindE_def liftE_def mapErr_def ret_def split: prod.splits sum.splits)
  obtain entry w1 where get: "GetSPAPort e ?p w = (entry, w1)" by fastforce
  have same: "spa_trace w1 = spa_trace w" "\<And>x. entry = Inr x \<Longrightarrow> x = List.find (\<lambda>row. SpaPort row = ?p) (spa_ports w)"
    using get by (auto simp: GetSPAPort_def spa_db_def split: prod.splits bool.splits)
  have "spa_trace w' \<noteq> spa_trace w" using assms(2) by auto
  with allow get same obtain row where row: "List.find (\<lambda>row. SpaPort row = ?p) (spa_ports w) = Some row"
    and pw: "ComparePassword e (SpaHash row) (ReqPassword r)"
    and ai: "AllowIP e ?p (v4_text a) ?s w1 = (ares, w')"
    by (auto simp: Allow_def bindE_def fail_def split: sum.splits option.splits if_splits)
  from stepsD [OF steps_AllowIP [OF len] ai] same(1) assms(2)
  obtain cs where "(argv, h) \<in> set cs" "\<forall>c \<in> set cs. fst c = asks_set ?p \<or>
      fst c = grant ?p a ?s \<and> 1 \<le> ?p \<and> ?p \<le> 65535 \<and> 0 < ?s" by (auto simp: traced_def)
  from bspec [OF this(2,1)] assms(3) have "argv = grant ?p a ?s" "1 \<le> ?p" "?p \<le> 65535" "0 < ?s" by simp_all
  moreover from row have "row \<in> set (spa_ports w)" "SpaPort row = ?p" by (auto simp: find_Some_iff)
  ultimately show ?thesis using pw a(2) by blast
qed

definition demo_request :: allow_request where
  "demo_request = \<lparr>ReqPort = 22, ReqPassword = ''open'', ReqSeconds = 60, ReqIP = v4_text [10, 0, 0, 7],
     ForwardedFor = [], RealIP = [], RemoteHost = None\<rparr>"

definition demo_open :: "table_and_sets spa_world" where
  "demo_open = demo_host\<lparr>spa_host := ((\<lambda>c. []), {ipsetName 22})\<rparr>"

lemma TrimSpace_v4_text: "TrimSpace (v4_text a) = v4_text a"
  using v4_text_plain by (intro TrimSpace_no_space) blast

lemma v4_text_not_empty: "length a = 4 \<Longrightarrow> v4_text a \<noteq> []"
  using dot_in_v4_text by fastforce

lemma demo_allows:
  "allowSPAHandler demo_spa demo_request demo_open =
     (Inr (v4_text [10, 0, 0, 7]), demo_open\<lparr>spa_trace := [(asks_set 22, spa_host demo_open), (grant 22 [10, 0, 0, 7] 60, spa_host demo_open)]\<rparr>)"
proof -
  have ip: "allow_ip_of demo_request = Inr (v4_text [10, 0, 0, 7])"
    by (simp add: allow_ip_of_def demo_request_def TrimSpace_v4_text v4_text_not_empty parse_v4_v4_text)
  have get: "GetSPAPort demo_spa 22 demo_open = (Inr (Some \<lparr>SpaId = 1, SpaPort = 22, SpaHash = ''nepo''\<rparr>), demo_open)"
    by (simp add: GetSPAPort_def spa_db_def demo_spa_def demo_open_def demo_host_def)
  have pw: "ComparePassword demo_spa ''nepo'' ''open''" by (simp add: demo_spa_def)
  have run: "SpaRun demo_spa (asks_set 22) h = ((Exited 0, []), h)" "SpaRun demo_spa (grant 22 a n) h = ((Exited 0, []), h)"
    if "ipsetName 22 \<in> snd h" for h a n
    using that by (simp_all add: demo_spa_def demo_run_def ipset_run_def asks_set_def grant_def exits_def)
  have at: "ipsetName 22 \<in> snd (spa_host demo_open)" by (simp add: demo_open_def)
  have one: "AllowIP demo_spa 22 (v4_text [10, 0, 0, 7]) 60 demo_open =
     (Inr (), demo_open\<lparr>spa_trace := [(asks_set 22, spa_host demo_open), (grant 22 [10, 0, 0, 7] 60, spa_host demo_open)]\<rparr>)"
    using run [OF at] by (simp add: AllowIP_def validatePort_def require_set_def ipsetExists_def asks_def runCommand_def
      command_def asks_set_def grant_def parse_v4_v4_text act_defs) (simp add: demo_open_def demo_host_def)
  have "allowSPAHandler demo_spa demo_request demo_open =
     bindE (mapErr ServiceError (Allow demo_spa 22 ''open'' (v4_text [10, 0, 0, 7]) 60)) (\<lambda>_. ret (v4_text [10, 0, 0, 7])) demo_open"
    using ip by (simp add: allowSPAHandler_def liftE_def bindE_def) (simp add: demo_request_def)
  then show ?thesis by (simp add: Allow_def bindE_def get pw one mapErr_def ret_def)
qed

theorem access_needs_the_password_witness:
  "\<exists>a row. grant (ReqPort demo_request) [10, 0, 0, 7] (ReqSeconds demo_request) =
      grant (ReqPort demo_request) a (ReqSeconds demo_request) \<and> wanted_ip demo_request a \<and>
    1 \<le> ReqPort demo_request \<and> ReqPort demo_request \<le> 65535 \<and> 0 < ReqSeconds demo_request \<and>
    row \<in> set (spa_ports demo_open) \<and> SpaPort row = ReqPort demo_request \<and>
    ComparePassword demo_spa (SpaHash row) (ReqPassword demo_request)"
  by (rule access_needs_the_password [OF demo_allows, where h = "spa_host demo_open"])
    (simp_all add: demo_request_def demo_open_def demo_host_def grant_def asks_set_def)

end
