(* ===== verification/Spec2Isabelle.thy ===== *)
theory Spec2Isabelle
  imports CoreIsolation HostHugePages Registry Btrfs CpuFeatures VmStart DiskLocks NfsService PciService Spa
begin

text \<open>
  HyperHive: a master and its slaves manage virtual machines, storage and networks.
\<close>

end
